(* ===== verification/Js_String.thy ===== *)
theory Js_String
  imports Main "HOL-Library.Sublist"
begin

text \<open>
  The part of the JavaScript string library that the sources use. A JavaScript string is a
  \<^typ>\<open>string\<close>, one \<^typ>\<open>char\<close> for one code unit; the model covers strings whose code
  units are ASCII, which is what record tags, domain names and hexadecimal ids are. On these,
  \<open>length\<close>, \<open>slice\<close>, \<open>trim\<close>, \<open>toUpperCase\<close> and \<open>toLowerCase\<close> below compute what the
  ECMAScript functions compute. Case conversion leaves code units from 128 on alone.
\<close>

named_theorems js_string \<open>unfolding rules of the string functions\<close>

section \<open>Characters\<close>

definition code_of :: "char \<Rightarrow> nat" where
  "code_of c = of_char c"

definition is_digit :: "char \<Rightarrow> bool" where
  "is_digit c \<longleftrightarrow> 48 \<le> code_of c \<and> code_of c \<le> 57"

definition is_lower :: "char \<Rightarrow> bool" where
  "is_lower c \<longleftrightarrow> 97 \<le> code_of c \<and> code_of c \<le> 122"

definition is_upper :: "char \<Rightarrow> bool" where
  "is_upper c \<longleftrightarrow> 65 \<le> code_of c \<and> code_of c \<le> 90"

definition is_ascii :: "char \<Rightarrow> bool" where
  "is_ascii c \<longleftrightarrow> code_of c < 128"

text \<open>The white space and line terminators that \<open>trim\<close> and the class \<open>\s\<close> know below 128:
  TAB, LF, VT, FF, CR and SPACE.\<close>

definition is_space :: "char \<Rightarrow> bool" where
  "is_space c \<longleftrightarrow> code_of c = 32 \<or> (9 \<le> code_of c \<and> code_of c \<le> 13)"

definition upper_char :: "char \<Rightarrow> char" where
  "upper_char c = (if is_lower c then char_of (code_of c - 32) else c)"

definition lower_char :: "char \<Rightarrow> char" where
  "lower_char c = (if is_upper c then char_of (code_of c + 32) else c)"

definition toUpperCase :: "string \<Rightarrow> string" where
  "toUpperCase s = map upper_char s"

definition toLowerCase :: "string \<Rightarrow> string" where
  "toLowerCase s = map lower_char s"

text \<open>Evaluation on the bits of a character.\<close>

lemma code_of_Char: "code_of (Char b0 b1 b2 b3 b4 b5 b6 b7) = of_bool b0 + 2 * of_bool b1 +
    4 * of_bool b2 + 8 * of_bool b3 + 16 * of_bool b4 + 32 * of_bool b5 + 64 * of_bool b6 + 128 * of_bool b7"
  by (simp add: code_of_def)

lemma char_of_code_of: "char_of (code_of c) = c"
  by (simp add: code_of_def)

lemma is_digit_code [code]:
  "is_digit (Char b0 b1 b2 b3 b4 b5 b6 b7) \<longleftrightarrow> \<not> b7 \<and> \<not> b6 \<and> b5 \<and> b4 \<and> \<not> (b3 \<and> (b2 \<or> b1))"
  unfolding is_digit_def code_of_Char
  by (cases b7; cases b6; cases b5; cases b4; cases b3; cases b2; cases b1; cases b0; simp)

lemma is_lower_code [code]:
  "is_lower (Char b0 b1 b2 b3 b4 b5 b6 b7) \<longleftrightarrow> \<not> b7 \<and> b6 \<and> b5 \<and> (b4 \<or> b3 \<or> b2 \<or> b1 \<or> b0) \<and>
     \<not> (b4 \<and> b3 \<and> (b2 \<or> b1 \<and> b0))"
  unfolding is_lower_def code_of_Char
  by (cases b7; cases b6; cases b5; cases b4; cases b3; cases b2; cases b1; cases b0; simp)

lemma is_upper_code [code]:
  "is_upper (Char b0 b1 b2 b3 b4 b5 b6 b7) \<longleftrightarrow> \<not> b7 \<and> b6 \<and> \<not> b5 \<and> (b4 \<or> b3 \<or> b2 \<or> b1 \<or> b0) \<and>
     \<not> (b4 \<and> b3 \<and> (b2 \<or> b1 \<and> b0))"
  unfolding is_upper_def code_of_Char
  by (cases b7; cases b6; cases b5; cases b4; cases b3; cases b2; cases b1; cases b0; simp)

lemma is_space_code [code]:
  "is_space (Char b0 b1 b2 b3 b4 b5 b6 b7) \<longleftrightarrow> \<not> b7 \<and> \<not> b6 \<and> \<not> b4 \<and>
     (if b5 then \<not> b3 \<and> \<not> b2 \<and> \<not> b1 \<and> \<not> b0 else b3 \<and> (b2 \<or> b1 \<or> b0) \<and> \<not> (b2 \<and> b1))"
  unfolding is_space_def code_of_Char
  by (cases b7; cases b6; cases b5; cases b4; cases b3; cases b2; cases b1; cases b0; simp)

lemma upper_char_code [code]:
  "upper_char (Char b0 b1 b2 b3 b4 b5 b6 b7) =
     (if is_lower (Char b0 b1 b2 b3 b4 b5 b6 b7) then Char b0 b1 b2 b3 b4 False b6 b7
      else Char b0 b1 b2 b3 b4 b5 b6 b7)"
proof (cases "is_lower (Char b0 b1 b2 b3 b4 b5 b6 b7)")
  case True
  then have b5 by (simp add: is_lower_code)
  then have "code_of (Char b0 b1 b2 b3 b4 b5 b6 b7) - 32 = code_of (Char b0 b1 b2 b3 b4 False b6 b7)"
    by (simp add: code_of_Char)
  then show ?thesis using True by (simp only: upper_char_def if_True char_of_code_of)
qed (simp add: upper_char_def)

lemma lower_char_code [code]:
  "lower_char (Char b0 b1 b2 b3 b4 b5 b6 b7) =
     (if is_upper (Char b0 b1 b2 b3 b4 b5 b6 b7) then Char b0 b1 b2 b3 b4 True b6 b7
      else Char b0 b1 b2 b3 b4 b5 b6 b7)"
proof (cases "is_upper (Char b0 b1 b2 b3 b4 b5 b6 b7)")
  case True
  then have "\<not> b5" by (simp add: is_upper_code)
  then have "code_of (Char b0 b1 b2 b3 b4 b5 b6 b7) + 32 = code_of (Char b0 b1 b2 b3 b4 True b6 b7)"
    by (simp add: code_of_Char)
  then show ?thesis using True by (simp only: lower_char_def if_True char_of_code_of)
qed (simp add: lower_char_def)

lemma code_of_eq_iff: "code_of c = code_of d \<longleftrightarrow> c = d"
  by (simp add: code_of_def)

lemma code_of_char_of [simp]: "n < 256 \<Longrightarrow> code_of (char_of n) = n"
  by (simp add: code_of_def)

lemma code_upper_char: "code_of (upper_char c) = (if is_lower c then code_of c - 32 else code_of c)"
  by (auto simp: upper_char_def is_lower_def)

lemma code_lower_char: "code_of (lower_char c) = (if is_upper c then code_of c + 32 else code_of c)"
  by (auto simp: lower_char_def is_upper_def)

lemma upper_char_idem [simp]: "upper_char (upper_char c) = upper_char c"
  by (rule code_of_eq_iff [THEN iffD1]) (auto simp: code_upper_char is_lower_def)

lemma lower_char_idem [simp]: "lower_char (lower_char c) = lower_char c"
  by (rule code_of_eq_iff [THEN iffD1]) (auto simp: code_lower_char is_upper_def)

lemma toUpperCase_idem [simp]: "toUpperCase (toUpperCase s) = toUpperCase s"
  by (simp add: toUpperCase_def)

lemma toLowerCase_idem [simp]: "toLowerCase (toLowerCase s) = toLowerCase s"
  by (simp add: toLowerCase_def)

lemma length_toUpperCase [simp]: "length (toUpperCase s) = length s"
  by (simp add: toUpperCase_def)

lemma length_toLowerCase [simp]: "length (toLowerCase s) = length s"
  by (simp add: toLowerCase_def)

lemma toLowerCase_append [simp]: "toLowerCase (s @ t) = toLowerCase s @ toLowerCase t"
  by (simp add: toLowerCase_def)

lemma toUpperCase_append [simp]: "toUpperCase (s @ t) = toUpperCase s @ toUpperCase t"
  by (simp add: toUpperCase_def)

lemma toUpperCase_eq_Nil [simp]: "toUpperCase s = [] \<longleftrightarrow> s = []"
  by (simp add: toUpperCase_def)

lemma toLowerCase_eq_Nil [simp]: "toLowerCase s = [] \<longleftrightarrow> s = []"
  by (simp add: toLowerCase_def)

section \<open>Searching\<close>

definition startsWith :: "string \<Rightarrow> string \<Rightarrow> bool" where
  "startsWith s p \<longleftrightarrow> take (length p) s = p"

definition endsWith :: "string \<Rightarrow> string \<Rightarrow> bool" where
  "endsWith s p \<longleftrightarrow> length p \<le> length s \<and> drop (length s - length p) s = p"

fun str_includes :: "string \<Rightarrow> string \<Rightarrow> bool" where
  "str_includes [] p = startsWith [] p"
| "str_includes (c # s) p = (startsWith (c # s) p \<or> str_includes s p)"

text \<open>\<open>indexOf\<close> of a one character string; \<^const>\<open>None\<close> stands for \<open>-1\<close>.\<close>

fun indexOf :: "string \<Rightarrow> char \<Rightarrow> nat option" where
  "indexOf [] c = None"
| "indexOf (d # s) c = (if d = c then Some 0 else map_option Suc (indexOf s c))"

lemma startsWith_iff: "startsWith s p \<longleftrightarrow> (\<exists>t. s = p @ t)"
  unfolding startsWith_def by (metis append_eq_conv_conj append_take_drop_id)

lemma startsWith_append [simp]: "startsWith (p @ s) p"
  by (simp add: startsWith_def)

lemma startsWith_Nil [simp]: "startsWith s []"
  by (simp add: startsWith_def)

lemma startsWith_Nil_left [simp]: "startsWith [] p \<longleftrightarrow> p = []"
  by (auto simp: startsWith_def)

lemma startsWith_Cons [simp]: "startsWith (c # s) (d # p) \<longleftrightarrow> c = d \<and> startsWith s p"
  by (simp add: startsWith_def)

lemma endsWith_iff: "endsWith s p \<longleftrightarrow> (\<exists>t. s = t @ p)"
proof
  assume "endsWith s p"
  then have "s = take (length s - length p) s @ p"
    unfolding endsWith_def by (metis append_take_drop_id)
  then show "\<exists>t. s = t @ p" ..
qed (auto simp: endsWith_def)

lemma endsWith_append [simp]: "endsWith (s @ p) p"
  by (auto simp: endsWith_iff)

lemma includes_iff: "str_includes s p \<longleftrightarrow> (\<exists>t u. s = t @ p @ u)"
proof (induction s)
  case Nil
  then show ?case by (auto simp: startsWith_def)
next
  case (Cons c s)
  have "(\<exists>t u. c # s = t @ p @ u) \<longleftrightarrow> startsWith (c # s) p \<or> (\<exists>t u. s = t @ p @ u)"
    unfolding startsWith_iff by (metis append_Cons append_Nil list.exhaust list.inject)
  with Cons show ?case by simp
qed

lemma includes_singleton: "str_includes s [c] \<longleftrightarrow> c \<in> set s"
  unfolding includes_iff by (metis append_Cons append_Nil in_set_conv_decomp)

lemma indexOf_None_iff: "indexOf s c = None \<longleftrightarrow> c \<notin> set s"
  by (induction s) auto

lemma indexOf_append: "c \<notin> set s \<Longrightarrow> indexOf (s @ c # t) c = Some (length s)"
  by (induction s) auto

lemma indexOf_SomeD:
  "indexOf s c = Some i \<Longrightarrow> i < length s \<and> s = take i s @ c # drop (Suc i) s \<and> c \<notin> set (take i s)"
  by (induction s arbitrary: i) (auto split: if_splits)

section \<open>Trimming, splitting, joining\<close>

definition trimStart :: "string \<Rightarrow> string" where
  "trimStart s = dropWhile is_space s"

definition trimEnd :: "string \<Rightarrow> string" where
  "trimEnd s = rev (dropWhile is_space (rev s))"

definition trim :: "string \<Rightarrow> string" where
  "trim s = trimEnd (trimStart s)"

text \<open>\<open>s.split(c)\<close> for a one character separator: always at least one part.\<close>

fun split_on :: "char \<Rightarrow> string \<Rightarrow> string list" where
  "split_on c [] = [[]]"
| "split_on c (d # s) =
     (if d = c then [] # split_on c s
      else (case split_on c s of [] \<Rightarrow> [[d]] | w # ws \<Rightarrow> (d # w) # ws))"

fun join :: "string \<Rightarrow> string list \<Rightarrow> string" where
  "join sep [] = []"
| "join sep [s] = s"
| "join sep (s # t # ts) = s @ sep @ join sep (t # ts)"

text \<open>\<open>s.split(/\s+/)\<close>: the separators are the maximal runs of white space.\<close>

function split_spaces :: "string \<Rightarrow> string list" where
  "split_spaces s =
     (let w = takeWhile (\<lambda>c. \<not> is_space c) s; r = dropWhile (\<lambda>c. \<not> is_space c) s
      in if r = [] then [w] else w # split_spaces (dropWhile is_space r))"
  by pat_completeness auto
termination
proof (relation "measure length", goal_cases)
  case (2 s w r)
  let ?r = "dropWhile (\<lambda>c. \<not> is_space c) s"
  from 2 have "?r \<noteq> []" by simp
  then have "is_space (hd ?r)" by (metis hd_dropWhile)
  then have "length (dropWhile is_space ?r) < length ?r"
    using \<open>?r \<noteq> []\<close> by (cases ?r) (auto simp: le_imp_less_Suc length_dropWhile_le)
  also have "\<dots> \<le> length s" by (rule length_dropWhile_le)
  finally show ?case using 2 by simp
qed simp

declare split_spaces.simps [simp del]

lemma split_on_nonempty [simp]: "split_on c s \<noteq> []"
  by (cases s) (auto split: list.splits)

lemma split_on_no_sep: "c \<notin> set s \<Longrightarrow> split_on c s = [s]"
  by (induction s) auto

lemma split_on_append: "c \<notin> set s \<Longrightarrow> split_on c (s @ c # t) = s # split_on c t"
  by (induction s) auto

lemma set_split_on: "w \<in> set (split_on c s) \<Longrightarrow> c \<notin> set w"
proof (induction s arbitrary: w)
  case Nil
  then show ?case by simp
next
  case (Cons d s)
  then show ?case
    by (cases "split_on c s") (auto split: if_splits)
qed

lemma join_Cons: "ts \<noteq> [] \<Longrightarrow> join sep (s # ts) = s @ sep @ join sep ts"
  by (cases ts) auto

lemma join_snoc: "ts \<noteq> [] \<Longrightarrow> join sep (ts @ [s]) = join sep ts @ sep @ s"
  by (induction ts rule: join.induct [of _ sep]) auto

lemma join_split_on: "join [c] (split_on c s) = s"
proof (induction s)
  case Nil
  then show ?case by simp
next
  case (Cons d s)
  obtain w ws where ws: "split_on c s = w # ws"
    by (cases "split_on c s") auto
  with Cons show ?case
    by (cases ws) auto
qed

lemma split_on_join:
  "ws \<noteq> [] \<Longrightarrow> (\<And>w. w \<in> set ws \<Longrightarrow> c \<notin> set w) \<Longrightarrow> split_on c (join [c] ws) = ws"
proof (induction ws)
  case Nil
  then show ?case by simp
next
  case (Cons w ws)
  then show ?case
    by (cases "ws = []") (auto simp: split_on_no_sep split_on_append join_Cons)
qed

lemma dropWhile_idem: "dropWhile P (dropWhile P xs) = dropWhile P xs"
  by (induction xs) auto

lemma trimStart_id: "s = [] \<or> \<not> is_space (hd s) \<Longrightarrow> trimStart s = s"
  by (cases s) (auto simp: trimStart_def)

lemma trimEnd_id: "s = [] \<or> \<not> is_space (last s) \<Longrightarrow> trimEnd s = s"
  by (cases s rule: rev_cases) (auto simp: trimEnd_def)

lemma trim_id: "s = [] \<or> (\<not> is_space (hd s) \<and> \<not> is_space (last s)) \<Longrightarrow> trim s = s"
  by (auto simp: trim_def trimStart_id trimEnd_id)

lemma trim_no_space: "list_all (\<lambda>c. \<not> is_space c) s \<Longrightarrow> trim s = s"
  by (rule trim_id) (auto simp: list_all_iff)

lemma trimEnd_prefix: "\<exists>t. s = trimEnd s @ t"
proof -
  have "rev s = takeWhile is_space (rev s) @ dropWhile is_space (rev s)" by simp
  then have "s = rev (takeWhile is_space (rev s) @ dropWhile is_space (rev s))"
    by (metis rev_rev_ident)
  then have "s = trimEnd s @ rev (takeWhile is_space (rev s))"
    by (simp add: trimEnd_def flip: rev_append)
  then show ?thesis ..
qed

lemma trimStart_suffix: "\<exists>t. s = t @ trimStart s"
  unfolding trimStart_def by (metis takeWhile_dropWhile_id)

lemma set_trim: "set (trim s) \<subseteq> set s"
  unfolding trim_def trimEnd_def trimStart_def
  by (auto dest!: set_dropWhileD)

lemma length_trim_le: "length (trim s) \<le> length s"
  unfolding trim_def trimEnd_def trimStart_def
  by (metis dual_order.trans length_dropWhile_le length_rev)

lemma trimStart_hd: "trimStart s = [] \<or> \<not> is_space (hd (trimStart s))"
  unfolding trimStart_def by (metis hd_dropWhile)

lemma trimEnd_last: "trimEnd s = [] \<or> \<not> is_space (last (trimEnd s))"
  unfolding trimEnd_def by (metis hd_dropWhile last_rev rev_is_Nil_conv)

lemma trimEnd_hd: "trimEnd s \<noteq> [] \<Longrightarrow> hd (trimEnd s) = hd s"
  by (metis hd_append2 trimEnd_prefix)

lemma trim_ends: "trim s = [] \<or> (\<not> is_space (hd (trim s)) \<and> \<not> is_space (last (trim s)))"
  unfolding trim_def
  by (metis trimEnd_hd trimEnd_last trimStart_hd trimEnd_def dropWhile.simps(1) rev.simps(1))

lemma trim_idem [simp]: "trim (trim s) = trim s"
  by (rule trim_id) (use trim_ends in blast)

section \<open>Slicing, padding, replacing\<close>

text \<open>\<open>s.slice(0, n)\<close>, \<open>s.slice(n)\<close> and \<open>s.slice(0, -n)\<close> with \<open>n > 0\<close>.\<close>

definition slice_to :: "nat \<Rightarrow> string \<Rightarrow> string" where
  "slice_to n s = take n s"

definition slice_from :: "nat \<Rightarrow> string \<Rightarrow> string" where
  "slice_from n s = drop n s"

definition slice_drop_last :: "nat \<Rightarrow> string \<Rightarrow> string" where
  "slice_drop_last n s = take (length s - n) s"

definition padEnd :: "nat \<Rightarrow> string \<Rightarrow> string" where
  "padEnd n s = s @ replicate (n - length s) (CHR '' '')"

definition padStart :: "nat \<Rightarrow> string \<Rightarrow> string" where
  "padStart n s = replicate (n - length s) (CHR '' '') @ s"

text \<open>\<open>replaceAll_char c t s\<close> is \<open>s.replace(/c/g, t)\<close>.\<close>

definition replaceAll_char :: "char \<Rightarrow> string \<Rightarrow> string \<Rightarrow> string" where
  "replaceAll_char c t s = concat (map (\<lambda>d. if d = c then t else [d]) s)"

text \<open>\<open>strip_suffix_char c s\<close> is \<open>s.replace(/c$/, '')\<close> and \<open>strip_prefix_char c s\<close> is
  \<open>s.replace(/^c/, '')\<close>.\<close>

definition strip_suffix_char :: "char \<Rightarrow> string \<Rightarrow> string" where
  "strip_suffix_char c s = (if s \<noteq> [] \<and> last s = c then butlast s else s)"

definition strip_prefix_char :: "char \<Rightarrow> string \<Rightarrow> string" where
  "strip_prefix_char c s = (if s \<noteq> [] \<and> hd s = c then tl s else s)"

lemma slice_drop_last_append [simp]: "slice_drop_last (length p) (s @ p) = s"
  by (simp add: slice_drop_last_def)

lemma length_padEnd: "length (padEnd n s) = max n (length s)"
  by (simp add: padEnd_def)

lemma replaceAll_char_append [simp]:
  "replaceAll_char c t (s @ u) = replaceAll_char c t s @ replaceAll_char c t u"
  by (simp add: replaceAll_char_def)

lemma replaceAll_char_Cons [simp]:
  "replaceAll_char c t (d # s) = (if d = c then t else [d]) @ replaceAll_char c t s"
  by (simp add: replaceAll_char_def)

lemma replaceAll_char_Nil [simp]: "replaceAll_char c t [] = []"
  by (simp add: replaceAll_char_def)

section \<open>Array access\<close>

text \<open>\<open>xs[i]\<close>: \<^const>\<open>None\<close> is \<open>undefined\<close>.\<close>

fun nth_opt :: "'a list \<Rightarrow> nat \<Rightarrow> 'a option" where
  "nth_opt [] i = None"
| "nth_opt (x # xs) 0 = Some x"
| "nth_opt (x # xs) (Suc i) = nth_opt xs i"

lemma nth_opt_eq: "nth_opt xs i = (if i < length xs then Some (xs ! i) else None)"
  by (induction xs i rule: nth_opt.induct) auto

lemma nth_opt_numeral [simp]:
  "nth_opt (x # xs) 1 = nth_opt xs 0"
  "nth_opt (x # xs) (numeral n) = nth_opt xs (pred_numeral n)"
  by (simp_all add: numeral_eq_Suc)

text \<open>A loop that pushes at most one result for each element: \<open>for (x of xs) { if (...) continue;
  out.push(f x) }\<close>.\<close>

fun collect :: "('a \<Rightarrow> 'b option) \<Rightarrow> 'a list \<Rightarrow> 'b list" where
  "collect f [] = []"
| "collect f (x # xs) = (case f x of None \<Rightarrow> collect f xs | Some y \<Rightarrow> y # collect f xs)"

lemma collect_append [simp]: "collect f (xs @ ys) = collect f xs @ collect f ys"
  by (induction xs) (auto split: option.splits)

lemma set_collect: "set (collect f xs) = {y. \<exists>x \<in> set xs. f x = Some y}"
  by (induction xs) (auto split: option.splits)

lemma collect_cong: "(\<And>x. x \<in> set xs \<Longrightarrow> f x = g x) \<Longrightarrow> collect f xs = collect g xs"
  by (induction xs) (auto split: option.splits)

lemma collect_all_Some: "(\<And>x. x \<in> set xs \<Longrightarrow> f x = Some (g x)) \<Longrightarrow> collect f xs = map g xs"
  by (induction xs) auto

lemma length_collect_le: "length (collect f xs) \<le> length xs"
  by (induction xs) (auto split: option.splits)

text \<open>\<open>xs.find(p)\<close>: the library's \<^const>\<open>List.find\<close>.\<close>

lemma find_Some_mem: "List.find P xs = Some x \<Longrightarrow> x \<in> set xs \<and> P x"
  by (induction xs) (auto split: if_splits)

lemma find_None_all: "List.find P xs = None \<longleftrightarrow> (\<forall>x \<in> set xs. \<not> P x)"
  by (induction xs) auto

text \<open>\<open>x ?? d\<close>, and \<open>x || d\<close> on an optional string, where the empty string is falsy too.\<close>

definition nullish :: "'a option \<Rightarrow> 'a \<Rightarrow> 'a" where
  "nullish x d = (case x of None \<Rightarrow> d | Some v \<Rightarrow> v)"

definition or_else :: "string option \<Rightarrow> string \<Rightarrow> string" where
  "or_else x d = (case x of None \<Rightarrow> d | Some v \<Rightarrow> if v = [] then d else v)"

definition truthy :: "string option \<Rightarrow> bool" where
  "truthy x \<longleftrightarrow> x \<noteq> None \<and> x \<noteq> Some []"

lemma nullish_simps [simp]: "nullish None d = d" "nullish (Some v) d = v"
  by (simp_all add: nullish_def)

lemma or_else_simps [simp]: "or_else None d = d" "or_else (Some []) d = d"
  "or_else (Some (c # s)) d = c # s"
  by (simp_all add: or_else_def)

lemma truthy_simps [simp]: "\<not> truthy None" "truthy (Some v) \<longleftrightarrow> v \<noteq> []"
  by (simp_all add: truthy_def)

text \<open>Parts joined by a separator that none of them holds can be told apart.\<close>

lemma append_sep_eq:
  "c \<notin> set u \<Longrightarrow> c \<notin> set p \<Longrightarrow> u @ c # r = p @ c # q \<longleftrightarrow> u = p \<and> r = q"
proof (induction u arbitrary: p)
  case Nil
  then show ?case by (cases p) auto
next
  case (Cons d u)
  then show ?case by (cases p) auto
qed

lemma append_sep_eq_right:
  "c \<notin> set r \<Longrightarrow> c \<notin> set q \<Longrightarrow> u @ c # r = p @ c # q \<longleftrightarrow> u = p \<and> r = q"
  using append_sep_eq [of c "rev r" "rev q" "rev u" "rev p"]
  by (metis append.assoc append_Cons append_Nil rev_append rev_is_rev_conv rev_swap set_rev rev.simps(2))

lemmas [js_string] = startsWith_def endsWith_def toUpperCase_def toLowerCase_def trim_def
  trimStart_def trimEnd_def upper_char_def lower_char_def is_lower_def is_upper_def is_space_def
  is_digit_def code_of_def slice_to_def slice_from_def slice_drop_last_def padEnd_def padStart_def
  strip_suffix_char_def strip_prefix_char_def

end
