(* ===== verification/Js_Number.thy ===== *)
theory Js_Number
  imports Complex_Main "HOL-Library.Log_Nat" Js_String
begin

text \<open>
  JavaScript numbers as far as the sources use them. Integers (timestamps, time-to-live values,
  counts) are \<^typ>\<open>int\<close>; they are exact below \<open>2 ^ 53\<close>, which is the range the model covers.
  \<open>parseInt\<close> returns an optional integer, with \<^const>\<open>None\<close> for \<open>NaN\<close>. \<open>Number(s)\<close>, which
  also reads fractions, exponents and other radices, is modelled in full, down to the rounding of
  a decimal literal to the nearest binary64 value.
\<close>

section \<open>Decimal digits\<close>

definition digit_val :: "char \<Rightarrow> nat" where
  "digit_val c = code_of c - 48"

lemma digit_val_code [code]:
  "digit_val (Char b0 b1 b2 b3 b4 b5 b6 b7) =
     (if \<not> b7 \<and> \<not> b6 \<and> b5 \<and> b4 then of_bool b0 + 2 * of_bool b1 + 4 * of_bool b2 + 8 * of_bool b3
      else code_of (Char b0 b1 b2 b3 b4 b5 b6 b7) - 48)"
  unfolding digit_val_def code_of_Char by (cases b7; cases b6; cases b5; cases b4; simp)

definition digit_char :: "nat \<Rightarrow> char" where
  "digit_char d = char_of (48 + d)"

definition digits_val :: "string \<Rightarrow> nat" where
  "digits_val s = foldl (\<lambda>a c. 10 * a + digit_val c) 0 s"

fun show_nat :: "nat \<Rightarrow> string" where
  "show_nat n = (if n < 10 then [digit_char n] else show_nat (n div 10) @ [digit_char (n mod 10)])"

declare show_nat.simps [simp del]

text \<open>\<open>String(n)\<close> of an integer below \<open>10 ^ 21\<close>.\<close>

definition show_int :: "int \<Rightarrow> string" where
  "show_int n = (if n < 0 then CHR ''-'' # show_nat (nat (- n)) else show_nat (nat n))"

lemma digit_char_props [simp]:
  assumes "d < 10"
  shows "is_digit (digit_char d)" and "digit_val (digit_char d) = d"
    and "\<not> is_space (digit_char d)" and "digit_char d \<noteq> CHR ''-''" and "digit_char d \<noteq> CHR ''+''"
proof -
  have c: "code_of (digit_char d) = 48 + d"
    using assms by (simp add: digit_char_def)
  show "is_digit (digit_char d)" "digit_val (digit_char d) = d" "\<not> is_space (digit_char d)"
    using assms c by (auto simp: is_digit_def digit_val_def is_space_def)
  have "code_of (CHR ''-'') = 45" "code_of (CHR ''+'') = 43" by (simp_all add: code_of_def)
  with c show "digit_char d \<noteq> CHR ''-''" "digit_char d \<noteq> CHR ''+''" by auto
qed

lemma digits_val_append: "digits_val (s @ [c]) = 10 * digits_val s + digit_val c"
  by (simp add: digits_val_def)

lemma show_nat_nonempty [simp]: "show_nat n \<noteq> []"
  by (subst show_nat.simps) simp

lemma show_nat_digits: "list_all is_digit (show_nat n)"
proof (induction n rule: show_nat.induct)
  case (1 n)
  then show ?case by (subst show_nat.simps) simp
qed

lemma digits_val_show_nat [simp]: "digits_val (show_nat n) = n"
proof (induction n rule: show_nat.induct)
  case (1 n)
  show ?case
  proof (cases "n < 10")
    case True
    then show ?thesis by (subst show_nat.simps) (simp add: digits_val_def)
  next
    case False
    with 1 have "digits_val (show_nat n) = 10 * (n div 10) + n mod 10"
      by (subst show_nat.simps) (simp add: digits_val_append)
    then show ?thesis by simp
  qed
qed

lemma show_nat_no_space: "list_all (\<lambda>c. \<not> is_space c) (show_nat n)"
  using show_nat_digits [of n] by (auto simp: list_all_iff is_digit_def is_space_def)

lemma is_digit_not_sign: "is_digit c \<Longrightarrow> c \<noteq> CHR ''-'' \<and> c \<noteq> CHR ''+'' \<and> \<not> is_space c"
  by (auto simp: is_digit_def is_space_def code_of_def)

section \<open>parseInt with radix 10\<close>

definition parse_sign :: "string \<Rightarrow> bool \<times> string" where
  "parse_sign s =
     (case s of [] \<Rightarrow> (False, [])
      | c # r \<Rightarrow> if c = CHR ''-'' then (True, r) else if c = CHR ''+'' then (False, r) else (False, s))"

definition parseInt :: "string \<Rightarrow> int option" where
  "parseInt s =
     (let (neg, r) = parse_sign (trimStart s); ds = takeWhile is_digit r
      in if ds = [] then None
         else Some (if neg then - int (digits_val ds) else int (digits_val ds)))"

text \<open>\<open>parseInt(x) || d\<close>: \<open>NaN\<close> and zero are falsy.\<close>

definition parseInt_or :: "string \<Rightarrow> int \<Rightarrow> int" where
  "parseInt_or s d = (case parseInt s of None \<Rightarrow> d | Some n \<Rightarrow> if n = 0 then d else n)"

lemma parseInt_digits:
  assumes "list_all is_digit s" "s \<noteq> []"
  shows "parseInt (s @ t) = Some (int (digits_val (s @ takeWhile is_digit t)))"
proof -
  obtain c r where s: "s = c # r" using assms(2) by (cases s) auto
  have "\<not> is_space c" "c \<noteq> CHR ''-''" "c \<noteq> CHR ''+''"
    using assms(1) is_digit_not_sign [of c] by (auto simp: s)
  moreover have "takeWhile is_digit (s @ t) = s @ takeWhile is_digit t"
    using assms(1) by (simp add: list_all_iff takeWhile_append2)
  ultimately show ?thesis
    by (simp add: parseInt_def trimStart_def parse_sign_def s)
qed

lemma parseInt_show_nat [simp]: "parseInt (show_nat n) = Some (int n)"
  using parseInt_digits [of "show_nat n" "[]"] by (simp add: show_nat_digits)

lemma parseInt_show_int [simp]: "parseInt (show_int n) = Some n"
proof (cases "n < 0")
  case True
  have "\<not> is_space (CHR ''-'')" by (simp add: is_space_def code_of_def)
  with True show ?thesis
    using show_nat_digits [of "nat (- n)"]
    by (simp add: show_int_def parseInt_def trimStart_def parse_sign_def list_all_iff
        takeWhile_eq_all_conv [THEN iffD2])
qed (simp add: show_int_def)

lemma parseInt_Nil [simp]: "parseInt [] = None"
  by (simp add: parseInt_def trimStart_def parse_sign_def)

lemma show_int_nonempty [simp]: "show_int n \<noteq> []"
  by (simp add: show_int_def)

lemma show_int_inj: "show_int m = show_int n \<Longrightarrow> m = n"
  by (metis option.inject parseInt_show_int)

lemma show_nat_inj: "show_nat m = show_nat n \<Longrightarrow> m = n"
  by (metis digits_val_show_nat)

section \<open>Hexadecimal digits\<close>

text \<open>\<open>parseInt(c, 16)\<close> of a one character string; \<^const>\<open>None\<close> is \<open>NaN\<close>.\<close>

definition hex_val :: "char \<Rightarrow> nat option" where
  "hex_val c =
     (let n = code_of c in
      if 48 \<le> n \<and> n \<le> 57 then Some (n - 48)
      else if 97 \<le> n \<and> n \<le> 102 then Some (n - 87)
      else if 65 \<le> n \<and> n \<le> 70 then Some (n - 55)
      else None)"

definition is_hex :: "char \<Rightarrow> bool" where
  "is_hex c \<longleftrightarrow> hex_val c \<noteq> None"

definition hex_char :: "nat \<Rightarrow> char" where
  "hex_char d = (if d < 10 then char_of (48 + d) else char_of (87 + d))"

lemma hex_val_code [code]:
  "hex_val (Char b0 b1 b2 b3 b4 b5 b6 b7) =
     (let n = of_bool b0 + 2 * of_bool b1 + 4 * of_bool b2
      in if \<not> b7 \<and> \<not> b6 \<and> b5 \<and> b4 \<and> \<not> (b3 \<and> (b2 \<or> b1)) then Some (n + 8 * of_bool b3)
         else if \<not> b7 \<and> b6 \<and> \<not> b4 \<and> \<not> b3 \<and> n \<noteq> 0 \<and> n \<noteq> 7 then Some (9 + n) else None)"
  unfolding hex_val_def code_of_Char Let_def
  by (cases b7; cases b6; cases b5; cases b4; cases b3; cases b2; cases b1; cases b0; simp)

text \<open>The number a string of hexadecimal digits denotes.\<close>

definition hex_number :: "string \<Rightarrow> nat" where
  "hex_number s = foldl (\<lambda>a c. 16 * a + (case hex_val c of None \<Rightarrow> 0 | Some v \<Rightarrow> v)) 0 s"

lemma hex_val_less: "hex_val c = Some v \<Longrightarrow> v < 16"
  by (auto simp: hex_val_def Let_def split: if_splits)

lemma hex_val_hex_char [simp]: "d < 16 \<Longrightarrow> hex_val (hex_char d) = Some d"
  by (auto simp: hex_val_def hex_char_def Let_def)

section \<open>Number(s)\<close>

datatype jsnum = NaN | PInf | NInf | Fin rat

text \<open>Rounding to the nearest integer, ties to even, and to the nearest binary64 value.\<close>

definition round_even :: "rat \<Rightarrow> int" where
  "round_even x =
     (let f = \<lfloor>x\<rfloor>; d = x - of_int f
      in if d < 1 / 2 then f else if d > 1 / 2 then f + 1 else if even f then f else f + 1)"

definition pow2 :: "int \<Rightarrow> rat" where
  "pow2 e = (if e < 0 then 1 / 2 ^ nat (- e) else 2 ^ nat e)"

text \<open>\<open>floor_log2 q\<close> is the exponent \<open>k\<close> with \<open>2^k \<le> q < 2^(k+1)\<close>, for \<open>q > 0\<close>.\<close>

definition floor_log2 :: "rat \<Rightarrow> int" where
  "floor_log2 q =
     (let (n, d) = quotient_of q; k = int (floorlog 2 (nat n)) - int (floorlog 2 (nat d))
      in if pow2 k \<le> q then k else k - 1)"

definition binary64 :: "rat \<Rightarrow> jsnum" where
  "binary64 q =
     (if q = 0 then Fin 0
      else let e = max (floor_log2 q - 52) (- 1074); v = of_int (round_even (q / pow2 e)) * pow2 e
        in if v \<ge> 2 ^ 1024 then PInf else Fin v)"

definition neg_num :: "jsnum \<Rightarrow> jsnum" where
  "neg_num x = (case x of NaN \<Rightarrow> NaN | PInf \<Rightarrow> NInf | NInf \<Rightarrow> PInf | Fin q \<Rightarrow> Fin (- q))"

text \<open>The digits of a radix prefixed literal, \<open>0x\<close>, \<open>0o\<close> or \<open>0b\<close>.\<close>

definition radix_literal :: "nat \<Rightarrow> string \<Rightarrow> jsnum" where
  "radix_literal r s =
     (if s \<noteq> [] \<and> list_all (\<lambda>c. case hex_val c of None \<Rightarrow> False | Some v \<Rightarrow> v < r) s
      then binary64 (of_nat (foldl (\<lambda>a c. r * a + the (hex_val c)) 0 s)) else NaN)"

definition parse_exponent :: "string \<Rightarrow> int option" where
  "parse_exponent s =
     (case s of [] \<Rightarrow> Some 0
      | c # r \<Rightarrow>
          if c = CHR ''e'' \<or> c = CHR ''E'' then
            (let (neg, ds) = parse_sign r
             in if ds \<noteq> [] \<and> list_all is_digit ds
                then Some (if neg then - int (digits_val ds) else int (digits_val ds)) else None)
          else None)"

definition pow10 :: "int \<Rightarrow> rat" where
  "pow10 e = (if e < 0 then 1 / 10 ^ nat (- e) else 10 ^ nat e)"

definition decimal_literal :: "string \<Rightarrow> jsnum" where
  "decimal_literal s =
     (let ip = takeWhile is_digit s; r = dropWhile is_digit s;
          fp = (case r of [] \<Rightarrow> [] | c # r' \<Rightarrow> if c = CHR ''.'' then takeWhile is_digit r' else []);
          rest = (case r of [] \<Rightarrow> [] | c # r' \<Rightarrow> if c = CHR ''.'' then dropWhile is_digit r' else r)
      in if ip = [] \<and> fp = [] then NaN
         else case parse_exponent rest of
             None \<Rightarrow> NaN
           | Some e \<Rightarrow> binary64 (of_nat (digits_val (ip @ fp)) * pow10 (e - int (length fp))))"

definition Number :: "string \<Rightarrow> jsnum" where
  "Number s0 =
     (let s = trim s0 in
      if s = [] then Fin 0
      else if startsWith (toLowerCase s) ''0x'' then radix_literal 16 (drop 2 s)
      else if startsWith (toLowerCase s) ''0o'' then radix_literal 8 (drop 2 s)
      else if startsWith (toLowerCase s) ''0b'' then radix_literal 2 (drop 2 s)
      else
        (let (neg, r) = parse_sign s;
             v = (if r = ''Infinity'' then PInf else decimal_literal r)
         in if neg then neg_num v else v))"

text \<open>\<open>Number.isFinite(x) && Number.isInteger(x) && lo <= x && x <= hi\<close>.\<close>

definition integer_in_range :: "int \<Rightarrow> int \<Rightarrow> jsnum \<Rightarrow> bool" where
  "integer_in_range lo hi x \<longleftrightarrow>
     (case x of Fin q \<Rightarrow> of_int \<lfloor>q\<rfloor> = q \<and> of_int lo \<le> q \<and> q \<le> of_int hi | _ \<Rightarrow> False)"

subsection \<open>Integers survive the rounding\<close>

lemma pow2_pos [simp]: "0 < pow2 e"
  by (simp add: pow2_def)

lemma pow2_nat: "pow2 (int n) = 2 ^ n"
  by (simp add: pow2_def)

lemma pow2_neg_nat: "pow2 (- int n) = 1 / 2 ^ n"
  by (cases "n = 0") (simp_all add: pow2_def)

lemma pow2_powi: "pow2 e = 2 powi e"
  by (simp add: pow2_def power_int_def inverse_eq_divide power_one_over)

lemma pow2_add: "pow2 (a + b) = pow2 a * pow2 b"
  by (simp add: pow2_powi power_int_add)

lemma round_even_int [simp]: "round_even (of_int n) = n"
  by (simp add: round_even_def)

lemma round_even_mono_int: "of_int n \<le> x \<Longrightarrow> n \<le> round_even x"
proof -
  assume "of_int n \<le> x"
  then have "n \<le> \<lfloor>x\<rfloor>" by (simp add: le_floor_iff)
  then show ?thesis by (simp add: round_even_def Let_def)
qed

lemma floorlog2_bounds: "0 < n \<Longrightarrow> 2 ^ (floorlog 2 n - 1) \<le> n \<and> n < 2 ^ floorlog 2 n"
  using floorlog_bounds [of n 2] by simp

lemma floor_log2_of_nat:
  assumes "0 < n"
  shows "floor_log2 (of_nat n) = int (floorlog 2 n) - 1"
proof -
  have q: "quotient_of (of_nat n) = (int n, 1)"
    using quotient_of_int [of "int n"] by (simp add: Rat.of_int_def)
  have one: "floorlog 2 (Suc 0) = 1"
    by (simp add: floorlog_def)
  have pos: "0 < floorlog 2 n"
    using assms by (simp add: floorlog_def)
  have "n < 2 ^ floorlog 2 n" "2 ^ (floorlog 2 n - 1) \<le> n"
    using floorlog2_bounds [OF assms] by auto
  have k: "int (floorlog 2 n) - 1 = int (floorlog 2 n - 1)"
    using pos by (simp add: of_nat_diff)
  have le: "(2::rat) ^ (floorlog 2 n - 1) \<le> of_nat n"
    using \<open>2 ^ (floorlog 2 n - 1) \<le> n\<close> by (metis of_nat_le_iff of_nat_numeral of_nat_power)
  show ?thesis
    unfolding floor_log2_def q Let_def
    using le by (simp add: one k pow2_nat)
qed

lemma binary64_small_nat:
  assumes "n < 2 ^ 53"
  shows "binary64 (of_nat n) = Fin (of_nat n)"
proof (cases "n = 0")
  case True
  then show ?thesis by (simp add: binary64_def)
next
  case False
  let ?k = "floorlog 2 n - 1"
  have pos: "0 < n" and fl: "0 < floorlog 2 n" using False by (auto simp: floorlog_def)
  have "(2::nat) ^ ?k < 2 ^ 53"
    using floorlog2_bounds [OF pos] assms by linarith
  then have "?k < 53" by (rule power_less_imp_less_exp [rotated]) simp
  then have k: "?k \<le> 52" by simp
  have e: "max (floor_log2 (of_nat n) - 52) (- 1074) = - int (52 - ?k)"
    using k fl by (simp add: floor_log2_of_nat [OF pos] of_nat_diff)
  have "of_nat n / pow2 (- int (52 - ?k)) = of_int (int (n * 2 ^ (52 - ?k)))"
    by (simp add: pow2_neg_nat)
  then have r: "round_even (of_nat n / pow2 (- int (52 - ?k))) = int (n * 2 ^ (52 - ?k))"
    by (metis round_even_int)
  have v: "of_int (int (n * 2 ^ (52 - ?k))) * pow2 (- int (52 - ?k)) = of_nat n"
    by (simp add: pow2_neg_nat)
  have "n < 2 ^ 1024"
    using assms by (rule order_less_trans) (rule power_strict_increasing, simp_all)
  then have "(of_nat n :: rat) < 2 ^ 1024"
    by (metis of_nat_less_iff of_nat_numeral of_nat_power)
  then show ?thesis
    unfolding binary64_def Let_def e r v using False by simp
qed

lemma binary64_large_nat:
  assumes "2 ^ 16 \<le> n"
  shows "binary64 (of_nat n) = PInf \<or> (\<exists>q. binary64 (of_nat n) = Fin q \<and> 2 ^ 16 \<le> q)"
proof -
  let ?e = "max (floor_log2 (of_nat n) - 52) (- 1074)"
  let ?v = "of_int (round_even (of_nat n / pow2 ?e)) * pow2 ?e"
  have pos: "0 < n" using assms by (rule order_less_le_trans [rotated]) simp
  let ?k = "floorlog 2 n - 1"
  have fl: "0 < floorlog 2 n" using pos by (simp add: floorlog_def)
  have e: "?e = int ?k - 52"
    using fl by (simp add: floor_log2_of_nat [OF pos] of_nat_diff)
  have "n < 2 ^ Suc ?k" using floorlog2_bounds [OF pos] fl by simp
  then have "(2::nat) ^ 16 < 2 ^ Suc ?k" using assms by linarith
  then have "16 < Suc ?k" by (rule power_less_imp_less_exp [rotated]) simp
  then have k16: "16 \<le> ?k" by simp
  have split: "pow2 (int ?k) = 2 ^ 52 * pow2 ?e"
    using pow2_add [of 52 ?e] by (simp add: e pow2_def)
  have "(2::rat) ^ ?k \<le> of_nat n"
    using floorlog2_bounds [OF pos] by (metis of_nat_le_iff of_nat_numeral of_nat_power)
  then have "of_int (2 ^ 52) * pow2 ?e \<le> of_nat n"
    using split by (simp only: pow2_nat of_int_power of_int_numeral)
  then have "of_int (2 ^ 52) \<le> of_nat n / pow2 ?e"
    by (simp add: pos_le_divide_eq)
  then have "(2::int) ^ 52 \<le> round_even (of_nat n / pow2 ?e)"
    by (rule round_even_mono_int)
  then have "(of_int (2 ^ 52) :: rat) \<le> of_int (round_even (of_nat n / pow2 ?e))"
    by (rule of_int_le_iff [THEN iffD2])
  then have "of_int (2 ^ 52) * pow2 ?e \<le> ?v"
    by (rule mult_right_mono) (simp add: less_imp_le)
  moreover have "(2::rat) ^ 16 \<le> 2 ^ ?k"
    using k16 by (rule power_increasing) simp
  then have "(2::rat) ^ 16 \<le> of_int (2 ^ 52) * pow2 ?e"
    using split by (simp only: pow2_nat of_int_power of_int_numeral)
  ultimately have "(2::rat) ^ 16 \<le> ?v" by linarith
  then show ?thesis
    unfolding binary64_def Let_def using pos by simp
qed

subsection \<open>Plain decimal integers\<close>

lemma takeWhile_list_all: "list_all P s \<Longrightarrow> takeWhile P s = s" "list_all P s \<Longrightarrow> dropWhile P s = []"
  by (simp_all add: list_all_iff takeWhile_eq_all_conv)

lemma decimal_literal_digits:
  assumes "list_all is_digit s" "s \<noteq> []"
  shows "decimal_literal s = binary64 (of_nat (digits_val s))"
  using assms by (simp add: decimal_literal_def takeWhile_list_all parse_exponent_def pow10_def)

lemma is_digit_lower [simp]: "is_digit c \<Longrightarrow> lower_char c = c"
  by (auto simp: lower_char_def is_digit_def is_upper_def)

lemma Number_digits:
  assumes "list_all is_digit s" "s \<noteq> []"
  shows "Number s = binary64 (of_nat (digits_val s))"
proof -
  obtain c r where s: "s = c # r" using assms(2) by (cases s) auto
  have low: "toLowerCase s = s"
    using assms(1) by (simp add: toLowerCase_def list_all_iff map_idI)
  have nd: "\<not> is_digit (CHR ''x'')" "\<not> is_digit (CHR ''o'')" "\<not> is_digit (CHR ''b'')"
    by (simp_all add: is_digit_def code_of_def)
  have no: "\<not> startsWith s ''0x''" "\<not> startsWith s ''0o''" "\<not> startsWith s ''0b''"
    using assms(1) nd by (auto simp: startsWith_iff)
  have "list_all (\<lambda>c. \<not> is_space c) s"
    using assms(1) is_digit_not_sign by (auto simp: list_all_iff)
  then have tr: "trim s = s" by (rule trim_no_space)
  have sg: "parse_sign s = (False, s)"
    using assms(1) is_digit_not_sign [of c] by (simp add: parse_sign_def s)
  have "\<not> is_digit (CHR ''I'')" by (simp add: is_digit_def code_of_def)
  then have "s \<noteq> ''Infinity''" using assms(1) by auto
  then show ?thesis
    using assms low no tr sg
    by (simp add: Number_def Let_def decimal_literal_digits)
qed

lemma integer_in_range_digits:
  assumes "list_all is_digit s" "s \<noteq> []"
  shows "integer_in_range 0 65535 (Number s) \<longleftrightarrow> digits_val s \<le> 65535"
proof (cases "digits_val s \<le> 65535")
  case True
  then have "binary64 (of_nat (digits_val s)) = Fin (of_nat (digits_val s))"
    by (intro binary64_small_nat) simp
  moreover have "(of_nat (digits_val s) :: rat) \<le> of_nat 65535"
    using True by (simp only: of_nat_le_iff)
  ultimately show ?thesis
    using assms True by (simp add: Number_digits integer_in_range_def)
next
  case False
  then have "2 ^ 16 \<le> digits_val s" by simp
  from binary64_large_nat [OF this] False assms show ?thesis
    by (auto simp: Number_digits integer_in_range_def)
qed

end
