(* ===== verification/Js_Collections.thy ===== *)
theory Js_Collections
  imports Main "HOL-Library.Multiset" "HOL-Library.AList" "HOL-Library.Char_ord"
    "HOL-Library.List_Lexorder"
begin

text \<open>
  The containers of the language: \<open>Array.prototype.sort\<close> with a comparator, \<open>Map\<close> and \<open>Set\<close>,
  each with the contract its users rely on stated as a locale. \<open>comparator\<close> is what a sort
  callback must satisfy for the standard to fix the result; \<open>insertion_map\<close> is what \<open>Map\<close>
  promises: the last value stored under a key, and the keys in the order of their first
  insertion. The lemmas about folding records into such a map are proved once inside it.
\<close>

named_theorems collection_simps \<open>rewriting of maps, sets and sorted arrays\<close>

section \<open>Stable sorting\<close>

fun sort_insert :: "('a \<Rightarrow> 'a \<Rightarrow> int) \<Rightarrow> 'a \<Rightarrow> 'a list \<Rightarrow> 'a list" where
  "sort_insert cmp x [] = [x]"
| "sort_insert cmp x (y # ys) = (if cmp x y \<le> 0 then x # y # ys else y # sort_insert cmp x ys)"

text \<open>\<open>xs.sort(cmp)\<close>: since ECMAScript 2019 the sort is stable, so a consistent comparator
  leaves exactly one result (lemma \<open>js_sort_unique\<close>), the one insertion sort computes.\<close>

definition js_sort :: "('a \<Rightarrow> 'a \<Rightarrow> int) \<Rightarrow> 'a list \<Rightarrow> 'a list" where
  "js_sort cmp xs = foldr (sort_insert cmp) xs []"

lemma js_sort_Nil [simp]: "js_sort cmp [] = []"
  by (simp add: js_sort_def)

lemma js_sort_Cons: "js_sort cmp (x # xs) = sort_insert cmp x (js_sort cmp xs)"
  by (simp add: js_sort_def)

lemma mset_sort_insert: "mset (sort_insert cmp x ys) = add_mset x (mset ys)"
  by (induction ys) auto

lemma mset_js_sort [simp]: "mset (js_sort cmp xs) = mset xs"
  by (induction xs) (simp_all add: js_sort_Cons mset_sort_insert)

lemma set_js_sort [simp]: "set (js_sort cmp xs) = set xs"
  by (metis mset_js_sort set_mset_mset)

lemma length_js_sort [simp]: "length (js_sort cmp xs) = length xs"
  by (metis mset_js_sort size_mset)

lemma distinct_map_js_sort [simp]: "distinct (map f (js_sort cmp xs)) = distinct (map f xs)"
proof -
  have "mset (map f (js_sort cmp xs)) = mset (map f xs)" by simp
  then show ?thesis by (rule mset_eq_imp_distinct_iff)
qed

locale comparator =
  fixes cmp :: "'a \<Rightarrow> 'a \<Rightarrow> int"
  assumes cmp_swap: "cmp a b \<le> 0 \<longleftrightarrow> 0 \<le> cmp b a"
    and cmp_trans: "cmp a b \<le> 0 \<Longrightarrow> cmp b c \<le> 0 \<Longrightarrow> cmp a c \<le> 0"
begin

lemma cmp_refl: "cmp a a \<le> 0"
  using cmp_swap [of a a] by linarith

lemma cmp_total: "cmp a b \<le> 0 \<or> cmp b a \<le> 0"
  using cmp_swap [of b a] by linarith

lemma sorted_sort_insert:
  "sorted_wrt (\<lambda>a b. cmp a b \<le> 0) ys \<Longrightarrow> sorted_wrt (\<lambda>a b. cmp a b \<le> 0) (sort_insert cmp x ys)"
proof (induction ys)
  case Nil
  then show ?case by simp
next
  case (Cons y ys)
  have set: "set (sort_insert cmp x ys) = insert x (set ys)"
    by (metis mset_sort_insert set_mset_add_mset_insert set_mset_mset)
  show ?case
    using Cons cmp_total [of x y] by (auto simp: set intro: cmp_trans)
qed

lemma sorted_js_sort: "sorted_wrt (\<lambda>a b. cmp a b \<le> 0) (js_sort cmp xs)"
  by (induction xs) (simp_all add: js_sort_Cons sorted_sort_insert)

lemma filter_sort_insert:
  assumes "\<And>a b. P a \<Longrightarrow> P b \<Longrightarrow> cmp a b \<le> 0"
  shows "filter P (sort_insert cmp x ys) = filter P (x # ys)"
  using assms by (induction ys) auto

text \<open>Stability: a class of elements the comparator does not separate keeps its order.\<close>

lemma filter_js_sort:
  assumes "\<And>a b. P a \<Longrightarrow> P b \<Longrightarrow> cmp a b \<le> 0"
  shows "filter P (js_sort cmp xs) = filter P xs"
  using filter_sort_insert [OF assms] by (induction xs) (simp_all add: js_sort_Cons)

lemma js_sort_id: "sorted_wrt (\<lambda>a b. cmp a b \<le> 0) xs \<Longrightarrow> js_sort cmp xs = xs"
proof (induction xs)
  case Nil
  then show ?case by simp
next
  case (Cons x xs)
  then show ?case by (cases xs) (simp_all add: js_sort_Cons)
qed

lemma js_sort_idem [simp]: "js_sort cmp (js_sort cmp xs) = js_sort cmp xs"
  by (rule js_sort_id) (rule sorted_js_sort)

text \<open>Any stable sort computes the same list.\<close>

lemma sorted_stable_unique:
  assumes "sorted_wrt (\<lambda>a b. cmp a b \<le> 0) xs" "sorted_wrt (\<lambda>a b. cmp a b \<le> 0) ys"
    and "\<And>z. filter (\<lambda>a. cmp a z \<le> 0 \<and> cmp z a \<le> 0) xs = filter (\<lambda>a. cmp a z \<le> 0 \<and> cmp z a \<le> 0) ys"
  shows "xs = ys"
  using assms
proof (induction xs arbitrary: ys)
  case Nil
  then show ?case
    using Nil.prems(3) [of "hd ys"] by (cases ys) (auto simp: cmp_refl)
next
  case (Cons x xs)
  let ?eq = "\<lambda>z a. cmp a z \<le> 0 \<and> cmp z a \<le> 0"
  from Cons.prems(3) [of x] have hd: "x # filter (?eq x) xs = filter (?eq x) ys"
    by (simp add: cmp_refl)
  then obtain y zs where ys: "ys = y # zs" by (cases ys) auto
  have "x \<in> set (filter (?eq x) ys)" by (simp flip: hd)
  then have "x \<in> set ys" by simp
  moreover from Cons.prems(3) [of y] have "filter (?eq y) (x # xs) = y # filter (?eq y) zs"
    by (simp add: ys cmp_refl)
  then have "y \<in> set (filter (?eq y) (x # xs))" by simp
  then have "y \<in> set (x # xs)" by (simp only: set_filter) blast
  ultimately have "?eq x y"
    using Cons.prems(1,2) ys cmp_refl by auto
  with hd have "x = y" by (simp add: ys)
  have "filter (?eq z) xs = filter (?eq z) zs" for z
    using Cons.prems(3) [of z] by (auto simp: ys \<open>x = y\<close> split: if_splits)
  with Cons \<open>x = y\<close> ys show ?case by auto
qed

lemma js_sort_unique:
  assumes "sorted_wrt (\<lambda>a b. cmp a b \<le> 0) ys"
    and "\<And>z. filter (\<lambda>a. cmp a z \<le> 0 \<and> cmp z a \<le> 0) ys = filter (\<lambda>a. cmp a z \<le> 0 \<and> cmp z a \<le> 0) xs"
  shows "js_sort cmp xs = ys"
proof (rule sorted_stable_unique [OF sorted_js_sort assms(1)])
  fix z
  have "filter (\<lambda>a. cmp a z \<le> 0 \<and> cmp z a \<le> 0) (js_sort cmp xs) =
    filter (\<lambda>a. cmp a z \<le> 0 \<and> cmp z a \<le> 0) xs"
    by (rule filter_js_sort) (blast intro: cmp_trans)
  with assms(2) show "filter (\<lambda>a. cmp a z \<le> 0 \<and> cmp z a \<le> 0) (js_sort cmp xs) =
    filter (\<lambda>a. cmp a z \<le> 0 \<and> cmp z a \<le> 0) ys" by simp
qed

text \<open>Removing elements and sorting commute.\<close>

lemma filter_insert_sorted:
  assumes "sorted_wrt (\<lambda>a b. cmp a b \<le> 0) ys"
  shows "filter P (sort_insert cmp x ys) = (if P x then sort_insert cmp x (filter P ys) else filter P ys)"
  using assms
proof (induction ys)
  case (Cons y ys)
  have "sort_insert cmp x (filter P ys) = x # filter P ys" if "cmp x y \<le> 0"
  proof (cases "filter P ys")
    case (Cons z zs)
    then have "z \<in> set ys" by (auto simp: filter_eq_Cons_iff)
    then have "cmp y z \<le> 0" using Cons.prems by simp
    with that have "cmp x z \<le> 0" by (rule cmp_trans)
    with Cons show ?thesis by simp
  qed simp
  with Cons show ?case by auto
qed simp

lemma filter_js_sort_commute: "filter P (js_sort cmp xs) = js_sort cmp (filter P xs)"
  by (induction xs) (simp_all add: js_sort_Cons filter_insert_sorted sorted_js_sort)

lemma concat_js_sort_drop:
  assumes "f e = []"
  shows "concat (map f (js_sort cmp (pre @ e # post))) = concat (map f (js_sort cmp (pre @ post)))"
proof -
  have c: "concat (map f xs) = concat (map f (filter (\<lambda>x. f x \<noteq> []) xs))" for xs by (induction xs) auto
  have "filter (\<lambda>x. f x \<noteq> []) (pre @ e # post) = filter (\<lambda>x. f x \<noteq> []) (pre @ post)" using assms by simp
  then show ?thesis by (metis c filter_js_sort_commute)
qed

end

text \<open>Comparing by an integer key, ascending and descending, and lexicographic combination.\<close>

definition cmp_by :: "('a \<Rightarrow> int) \<Rightarrow> 'a \<Rightarrow> 'a \<Rightarrow> int" where
  "cmp_by f a b = f a - f b"

definition cmp_desc :: "('a \<Rightarrow> int) \<Rightarrow> 'a \<Rightarrow> 'a \<Rightarrow> int" where
  "cmp_desc f a b = f b - f a"

definition cmp_then :: "('a \<Rightarrow> 'a \<Rightarrow> int) \<Rightarrow> ('a \<Rightarrow> 'a \<Rightarrow> int) \<Rightarrow> 'a \<Rightarrow> 'a \<Rightarrow> int" where
  "cmp_then c d a b = (if c a b \<noteq> 0 then c a b else d a b)"

lemma comparator_cmp_by: "comparator (cmp_by f)"
  by unfold_locales (auto simp: cmp_by_def)

lemma comparator_cmp_desc: "comparator (cmp_desc f)"
  by unfold_locales (auto simp: cmp_desc_def)

text \<open>Sorting elements by a key and taking what each brings, of the same key, leaves all of it in the order
  of the keys; what is of one key keeps its order.\<close>

lemma concat_key_filter:
  assumes "\<And>a b. a \<in> set xs \<Longrightarrow> b \<in> set (g a) \<Longrightarrow> k b = f a"
  shows "filter (\<lambda>b. k b = m) (concat (map g xs)) = concat (map g (filter (\<lambda>a. f a = m) xs))"
  using assms
proof (induction xs)
  case (Cons a xs)
  have "filter (\<lambda>b. k b = m) (g a) = (if f a = m then g a else [])"
    using Cons.prems [of a] by (auto simp: filter_id_conv filter_empty_conv)
  with Cons show ?case by auto
qed simp

lemma concat_sorted_key:
  assumes "\<And>a b. a \<in> set xs \<Longrightarrow> b \<in> set (g a) \<Longrightarrow> k b = f a" "sorted_wrt (\<lambda>a b. f a \<le> f b) xs"
  shows "sorted_wrt (\<lambda>a b. k a \<le> (k b :: int)) (concat (map g xs))"
  using assms
proof (induction xs)
  case (Cons a xs)
  have "sorted_wrt (\<lambda>a b. k a \<le> k b) (g a)"
    unfolding sorted_wrt_iff_nth_less using Cons.prems(1) [of a] by (metis list.set_intros(1) nth_mem order.refl order.strict_trans)
  moreover have "sorted_wrt (\<lambda>a b. k a \<le> k b) (concat (map g xs))"
    using Cons.prems by (intro Cons.IH) auto
  moreover have "k x \<le> k y" if "x \<in> set (g a)" "y \<in> set (concat (map g xs))" for x y
  proof -
    from that(2) obtain b where "b \<in> set xs" "y \<in> set (g b)" by auto
    with that(1) Cons.prems show ?thesis by (metis list.set_intros sorted_wrt.simps(2))
  qed
  ultimately show ?case by (auto simp: sorted_wrt_append)
qed simp

lemma sorted_key_last:
  assumes "sorted_wrt (\<lambda>a b. k a \<le> (k b :: int)) xs" "xs \<noteq> []"
  shows "last (filter (\<lambda>x. k x = Max (k ` set xs)) xs) = last xs"
proof -
  from assms(2) obtain ys x where xs: "xs = ys @ [x]" by (metis rev_exhaust)
  with assms(1) have "Max (k ` set xs) = k x" by (intro Max_eqI) (auto simp: sorted_wrt_append)
  then show ?thesis by (simp add: xs)
qed

text \<open>The order \<open>sort()\<close> uses without a comparator, on strings the order of their code units.\<close>

definition cmp_order :: "'a::linorder \<Rightarrow> 'a \<Rightarrow> int" where
  "cmp_order a b = (if a < b then - 1 else if b < a then 1 else 0)"

lemma comparator_cmp_order: "comparator cmp_order"
  by unfold_locales (auto simp: cmp_order_def split: if_splits)

lemma cmp_order_le [simp]: "cmp_order a b \<le> 0 \<longleftrightarrow> a \<le> b"
  by (auto simp: cmp_order_def)

lemma comparator_on: "comparator c \<Longrightarrow> comparator (\<lambda>a b. c (f a) (f b))"
  unfolding comparator_def by blast

locale comparator_pair = fst: comparator c + snd: comparator d
  for c :: "'a \<Rightarrow> 'a \<Rightarrow> int" and d :: "'a \<Rightarrow> 'a \<Rightarrow> int"
begin

lemma cmp_then_le: "cmp_then c d a b \<le> 0 \<longleftrightarrow> c a b \<le> 0 \<and> (c b a \<le> 0 \<longrightarrow> d a b \<le> 0)"
  using fst.cmp_swap [of a b] fst.cmp_swap [of b a] by (auto simp: cmp_then_def)

lemma cmp_then_ge: "0 \<le> cmp_then c d a b \<longleftrightarrow> 0 \<le> c a b \<and> (0 \<le> c b a \<longrightarrow> 0 \<le> d a b)"
  using fst.cmp_swap [of a b] fst.cmp_swap [of b a] by (auto simp: cmp_then_def)

end

sublocale comparator_pair \<subseteq> lex: comparator "cmp_then c d"
proof
  fix a b e
  show "cmp_then c d a b \<le> 0 \<longleftrightarrow> 0 \<le> cmp_then c d b a"
    using fst.cmp_swap [of a b] fst.cmp_swap [of b a] snd.cmp_swap [of a b]
    by (simp add: cmp_then_le cmp_then_ge)
  show "cmp_then c d a b \<le> 0 \<Longrightarrow> cmp_then c d b e \<le> 0 \<Longrightarrow> cmp_then c d a e \<le> 0"
    unfolding cmp_then_le by (meson fst.cmp_trans snd.cmp_trans)
qed

context comparator_pair
begin

lemma comparator_lex: "comparator (cmp_then c d)"
  by unfold_locales

end

lemma comparator_cmp_then: "comparator c \<Longrightarrow> comparator d \<Longrightarrow> comparator (cmp_then c d)"
  by (rule comparator_pair.comparator_lex [OF comparator_pair.intro])

section \<open>Set: the distinct elements, in the order of their first insertion\<close>

definition js_uniq :: "'a list \<Rightarrow> 'a list" where
  "js_uniq xs = foldl (\<lambda>acc x. if x \<in> set acc then acc else acc @ [x]) [] xs"

lemma js_uniq_Nil [simp]: "js_uniq [] = []"
  by (simp add: js_uniq_def)

lemma js_uniq_snoc: "js_uniq (xs @ [x]) = (if x \<in> set (js_uniq xs) then js_uniq xs else js_uniq xs @ [x])"
  by (simp add: js_uniq_def)

lemma set_js_uniq [simp]: "set (js_uniq xs) = set xs"
  by (induction xs rule: rev_induct) (auto simp: js_uniq_snoc)

lemma distinct_js_uniq [simp]: "distinct (js_uniq xs)"
  by (induction xs rule: rev_induct) (auto simp: js_uniq_snoc)

lemma js_uniq_id: "distinct xs \<Longrightarrow> js_uniq xs = xs"
  by (induction xs rule: rev_induct) (auto simp: js_uniq_snoc)

section \<open>Map\<close>

text \<open>The first element with the greatest stamp.\<close>

fun first_max :: "('a \<Rightarrow> int) \<Rightarrow> 'a list \<Rightarrow> 'a option" where
  "first_max ts [] = None"
| "first_max ts (x # xs) =
     (case first_max ts xs of None \<Rightarrow> Some x | Some y \<Rightarrow> if ts x < ts y then Some y else Some x)"

lemma first_max_None [simp]: "first_max ts xs = None \<longleftrightarrow> xs = []"
  by (cases xs) (auto split: option.splits)

lemma first_max_snoc:
  "first_max ts (xs @ [x]) =
     (case first_max ts xs of None \<Rightarrow> Some x | Some y \<Rightarrow> if ts y < ts x then Some x else Some y)"
  by (induction xs) (auto split: option.splits)

lemma first_max_SomeD:
  "first_max ts xs = Some y \<Longrightarrow> y \<in> set xs \<and> (\<forall>x \<in> set xs. ts x \<le> ts y)"
  by (induction xs arbitrary: y) (fastforce split: option.splits if_splits)+

lemma first_max_prefix:
  "first_max ts xs = Some y \<Longrightarrow> \<exists>us vs. xs = us @ y # vs \<and> (\<forall>u \<in> set us. ts u < ts y)"
proof (induction xs arbitrary: y)
  case Nil
  then show ?case by simp
next
  case (Cons x xs)
  show ?case
  proof (cases "\<exists>z. first_max ts xs = Some z \<and> ts x < ts z")
    case True
    with Cons.prems have "first_max ts xs = Some y" "ts x < ts y" by auto
    with Cons.IH obtain us vs where "xs = us @ y # vs" "\<forall>u \<in> set us. ts u < ts y" by blast
    with \<open>ts x < ts y\<close> show ?thesis by (intro exI [of _ "x # us"] exI [of _ vs]) auto
  next
    case False
    with Cons.prems have "y = x" by (auto split: option.splits if_splits)
    then show ?thesis by (intro exI [of _ "[]"] exI [of _ xs]) simp
  qed
qed

text \<open>One step of a loop that keeps, for each key, the newest element.\<close>

definition put_newer ::
  "('m \<Rightarrow> 'k \<Rightarrow> 'v option) \<Rightarrow> ('k \<Rightarrow> 'v \<Rightarrow> 'm \<Rightarrow> 'm) \<Rightarrow> ('v \<Rightarrow> 'k) \<Rightarrow> ('v \<Rightarrow> int) \<Rightarrow> 'm \<Rightarrow> 'v \<Rightarrow> 'm"
  where
  "put_newer get put key ts m x =
     (case get m (key x) of None \<Rightarrow> put (key x) x m
      | Some y \<Rightarrow> if ts y < ts x then put (key x) x m else m)"

locale insertion_map =
  fixes mempty :: 'm
    and mget :: "'m \<Rightarrow> 'k \<Rightarrow> 'v option"
    and mput :: "'k \<Rightarrow> 'v \<Rightarrow> 'm \<Rightarrow> 'm"
    and mkeys :: "'m \<Rightarrow> 'k list"
    and minv :: "'m \<Rightarrow> bool"
  assumes inv_empty: "minv mempty"
    and inv_put: "minv m \<Longrightarrow> minv (mput k v m)"
    and get_empty: "mget mempty k = None"
    and get_put: "mget (mput k v m) = (mget m)(k \<mapsto> v)"
    and keys_empty: "mkeys mempty = []"
    and keys_put: "mkeys (mput k v m) = (if mget m k = None then mkeys m @ [k] else mkeys m)"
    and keys_distinct: "minv m \<Longrightarrow> distinct (mkeys m)"
    and keys_dom: "set (mkeys m) = dom (mget m)"
begin

text \<open>Storing every element of a list under its key: the last one of a key stays.\<close>

lemma inv_put_all: "minv m \<Longrightarrow> minv (foldl (\<lambda>m x. mput (key x) (val x) m) m xs)"
  by (induction xs arbitrary: m) (auto simp: inv_put)

lemma get_put_all:
  "mget (foldl (\<lambda>m x. mput (key x) (val x) m) mempty xs) k =
     (let ys = filter (\<lambda>x. key x = k) xs in if ys = [] then None else Some (val (last ys)))"
  by (induction xs rule: rev_induct) (auto simp: get_empty get_put Let_def)

lemma keys_put_all:
  "mkeys (foldl (\<lambda>m x. mput (key x) (val x) m) mempty xs) = js_uniq (map key xs)"
proof (induction xs rule: rev_induct)
  case Nil
  then show ?case by (simp add: keys_empty)
next
  case (snoc x xs)
  let ?m = "foldl (\<lambda>m x. mput (key x) (val x) m) mempty xs"
  have "mget ?m (key x) = None \<longleftrightarrow> key x \<notin> set (mkeys ?m)"
    by (auto simp: keys_dom)
  with snoc show ?case by (simp add: keys_put js_uniq_snoc)
qed

text \<open>Storing an element only where it is newer than what its key holds.\<close>

lemma inv_put_newer: "minv m \<Longrightarrow> minv (foldl (put_newer mget mput key ts) m xs)"
  by (induction xs arbitrary: m) (auto simp: inv_put put_newer_def split: option.splits)

lemma get_put_newer:
  "mget (foldl (put_newer mget mput key ts) mempty xs) k = first_max ts (filter (\<lambda>x. key x = k) xs)"
proof (induction xs arbitrary: k rule: rev_induct)
  case Nil
  then show ?case by (simp add: get_empty)
next
  case (snoc x xs)
  let ?m = "foldl (put_newer mget mput key ts) mempty xs"
  have "mget (put_newer mget mput key ts ?m x) k =
      (if key x = k then (case mget ?m k of None \<Rightarrow> Some x
          | Some y \<Rightarrow> if ts y < ts x then Some x else Some y) else mget ?m k)"
    by (auto simp: put_newer_def get_put split: option.splits)
  with snoc show ?case by (simp add: first_max_snoc)
qed

lemma keys_put_newer_step:
  "mkeys (put_newer mget mput key ts m x) =
     (if key x \<in> set (mkeys m) then mkeys m else mkeys m @ [key x])"
  by (auto simp: put_newer_def keys_put keys_dom split: option.splits)

lemma keys_put_newer:
  "mkeys (foldl (put_newer mget mput key ts) mempty xs) = js_uniq (map key xs)"
  by (induction xs rule: rev_induct)
    (simp_all add: keys_empty keys_put_newer_step js_uniq_snoc)

end

text \<open>\<open>Map\<close> as an association list: \<open>set\<close> overwrites in place or appends.\<close>

type_synonym ('k, 'v) jsmap = "('k \<times> 'v) list"

definition map_set :: "'k \<Rightarrow> 'v \<Rightarrow> ('k, 'v) jsmap \<Rightarrow> ('k, 'v) jsmap" where
  "map_set k v m = AList.update k v m"

definition map_get :: "('k, 'v) jsmap \<Rightarrow> 'k \<Rightarrow> 'v option" where
  "map_get m k = map_of m k"

definition map_has :: "('k, 'v) jsmap \<Rightarrow> 'k \<Rightarrow> bool" where
  "map_has m k \<longleftrightarrow> map_get m k \<noteq> None"

definition map_keys :: "('k, 'v) jsmap \<Rightarrow> 'k list" where
  "map_keys m = map fst m"

definition map_values :: "('k, 'v) jsmap \<Rightarrow> 'v list" where
  "map_values m = map snd m"

interpretation jsmap: insertion_map "[]" map_get map_set map_keys "\<lambda>m. distinct (map fst m)"
proof
  fix m :: "('k, 'v) jsmap" and k v
  show "map_keys (map_set k v m) = (if map_get m k = None then map_keys m @ [k] else map_keys m)"
    by (auto simp: map_keys_def map_set_def map_get_def update_keys map_of_eq_None_iff)
  show "map_get (map_set k v m) = (map_get m)(k \<mapsto> v)"
    by (simp add: map_get_def map_set_def update_conv' fun_eq_iff)
  have "map_get m = map_of m" by (simp add: fun_eq_iff map_get_def)
  then show "set (map_keys m) = dom (map_get m)"
    by (simp add: map_keys_def dom_map_of_conv_image_fst)
qed (auto simp: map_get_def map_set_def map_keys_def distinct_update)

lemma map_values_eq: "distinct (map fst m) \<Longrightarrow> map_values m = map (\<lambda>k. the (map_get m k)) (map_keys m)"
  by (force simp: map_values_def map_keys_def map_get_def dest: map_of_is_SomeI)

lemma set_map_values: "distinct (map fst m) \<Longrightarrow> set (map_values m) = ran (map_get m)"
  by (force simp: map_values_def map_get_def ran_def)

lemma map_has_iff: "map_has m k \<longleftrightarrow> k \<in> set (map_keys m)"
  by (auto simp: map_has_def jsmap.keys_dom)

section \<open>The newest element of each key\<close>

text \<open>The values of a \<open>Map\<close> filled by \<^const>\<open>put_newer\<close>: one element for each key, the first
  of those with the greatest stamp.\<close>

definition newest_per_key :: "('v \<Rightarrow> 'k) \<Rightarrow> ('v \<Rightarrow> int) \<Rightarrow> 'v list \<Rightarrow> 'v list" where
  "newest_per_key key ts xs = map_values (foldl (put_newer map_get map_set key ts) [] xs)"

lemma newest_per_key_eq:
  "newest_per_key key ts xs =
     map (\<lambda>k. the (first_max ts (filter (\<lambda>x. key x = k) xs))) (js_uniq (map key xs))"
  unfolding newest_per_key_def
  by (subst map_values_eq)
    (simp_all add: jsmap.get_put_newer jsmap.keys_put_newer jsmap.inv_put_newer)

lemma first_max_key:
  "first_max ts (filter (\<lambda>x. key x = k) xs) = Some r \<Longrightarrow> key r = k \<and> r \<in> set xs"
  by (auto dest: first_max_SomeD)

lemma first_max_of_key:
  assumes "k \<in> key ` set xs"
  obtains r where "first_max ts (filter (\<lambda>x. key x = k) xs) = Some r" "key r = k" "r \<in> set xs"
proof -
  from assms have "filter (\<lambda>x. key x = k) xs \<noteq> []" by (auto simp: filter_empty_conv)
  then obtain r where "first_max ts (filter (\<lambda>x. key x = k) xs) = Some r"
    by (metis first_max_None not_None_eq)
  with first_max_key [OF this] show thesis using that by blast
qed

lemma map_key_newest [simp]: "map key (newest_per_key key ts xs) = js_uniq (map key xs)"
proof -
  have "key (the (first_max ts (filter (\<lambda>x. key x = k) xs))) = k" if "k \<in> key ` set xs" for k
    using first_max_of_key [OF that] by (metis option.sel)
  then show ?thesis unfolding newest_per_key_eq map_map by (intro map_idI) simp
qed

lemma distinct_newest_keys [simp]: "distinct (map key (newest_per_key key ts xs))"
  by simp

lemma mem_newest:
  "r \<in> set (newest_per_key key ts xs) \<longleftrightarrow> first_max ts (filter (\<lambda>x. key x = key r) xs) = Some r"
proof
  assume "r \<in> set (newest_per_key key ts xs)"
  then obtain k where k: "k \<in> key ` set xs" "r = the (first_max ts (filter (\<lambda>x. key x = k) xs))"
    by (auto simp: newest_per_key_eq)
  from first_max_of_key [OF k(1)] k(2)
  show "first_max ts (filter (\<lambda>x. key x = key r) xs) = Some r" by (metis option.sel)
next
  assume r: "first_max ts (filter (\<lambda>x. key x = key r) xs) = Some r"
  then have "key r \<in> key ` set xs" using first_max_key [OF r] by auto
  with r show "r \<in> set (newest_per_key key ts xs)"
    unfolding newest_per_key_eq set_map set_js_uniq by (intro image_eqI [of _ _ "key r"]) auto
qed

lemma set_newest_subset: "set (newest_per_key key ts xs) \<subseteq> set xs"
  using first_max_key by (fastforce simp: mem_newest)

lemma newest_keys_image: "key ` set (newest_per_key key ts xs) = key ` set xs"
  by (metis list.set_map map_key_newest set_js_uniq)

lemma filter_key_distinct:
  "distinct (map key rs) \<Longrightarrow> r \<in> set rs \<Longrightarrow> filter (\<lambda>x. key x = key r) rs = [r]"
proof (induction rs)
  case (Cons x rs)
  then show ?case by (auto simp: filter_empty_conv image_iff)
qed simp

lemma newest_id:
  assumes "distinct (map key xs)"
  shows "newest_per_key key ts xs = xs"
proof -
  have "newest_per_key key ts xs = map (\<lambda>r. the (first_max ts (filter (\<lambda>x. key x = key r) xs))) xs"
    using assms by (simp add: newest_per_key_eq js_uniq_id comp_def)
  also have "\<dots> = xs"
    using assms by (intro map_idI) (simp add: filter_key_distinct)
  finally show ?thesis .
qed

text \<open>The values of a \<open>Map\<close> filled by storing every element under its key: the last element of each
  key, the keys in the order of their first element.\<close>

definition last_per_key :: "('v \<Rightarrow> 'k) \<Rightarrow> 'v list \<Rightarrow> ('k, 'v) jsmap" where
  "last_per_key key xs = foldl (\<lambda>m x. map_set (key x) x m) [] xs"

lemma distinct_last_keys [simp]: "distinct (map fst (last_per_key key xs))"
  unfolding last_per_key_def by (rule jsmap.inv_put_all [where val = "\<lambda>x. x"]) simp

lemma get_last_per_key:
  "map_get (last_per_key key xs) k = Some r \<longleftrightarrow> key r = k \<and> r \<in> set xs \<and> last (filter (\<lambda>x. key x = k) xs) = r"
proof -
  let ?ys = "filter (\<lambda>x. key x = k) xs"
  have "map_get (last_per_key key xs) k = (if ?ys = [] then None else Some (last ?ys))"
    using jsmap.get_put_all [of key "\<lambda>x. x" xs k] by (simp add: last_per_key_def Let_def)
  moreover have "key (last ?ys) = k \<and> last ?ys \<in> set xs" if "?ys \<noteq> []" using last_in_set [OF that] by auto
  moreover have "?ys \<noteq> []" if "key r = k" "r \<in> set xs" using that by (auto simp: filter_empty_conv)
  ultimately show ?thesis by auto
qed

lemma keys_last_per_key [simp]: "map fst (last_per_key key xs) = js_uniq (map key xs)"
  using jsmap.keys_put_all [of key "\<lambda>x. x" xs] by (simp add: last_per_key_def map_keys_def)

lemma entry_last_per_key:
  "(k, r) \<in> set (last_per_key key xs) \<longleftrightarrow>
     key r = k \<and> r \<in> set xs \<and> last (filter (\<lambda>x. key x = k) xs) = r"
  using map_of_eq_Some_iff [OF distinct_last_keys, of key xs k r]
  unfolding map_get_def [symmetric] get_last_per_key by simp

lemma value_last_per_key:
  "r \<in> set (map_values (last_per_key key xs)) \<longleftrightarrow>
     r \<in> set xs \<and> last (filter (\<lambda>x. key x = key r) xs) = r"
proof -
  have "r \<in> set (map_values (last_per_key key xs)) \<longleftrightarrow> (\<exists>k. (k, r) \<in> set (last_per_key key xs))"
    by (force simp: map_values_def)
  then show ?thesis unfolding entry_last_per_key by auto
qed

lemma map_key_last: "map key (map_values (last_per_key key xs)) = js_uniq (map key xs)"
proof -
  have "map key (map snd (last_per_key key xs)) = map fst (last_per_key key xs)"
    unfolding map_map by (rule map_cong [OF refl]) (auto simp: entry_last_per_key)
  then show ?thesis by (simp add: map_values_def)
qed

section \<open>Grouping by a key\<close>

text \<open>A \<open>Map\<close> from each key to the list of its elements: the keys in the order of their first element,
  under each key its elements in order.\<close>

definition group_push :: "('v \<Rightarrow> 'k) \<Rightarrow> ('k, 'v list) jsmap \<Rightarrow> 'v \<Rightarrow> ('k, 'v list) jsmap" where
  "group_push key m x = map_set (key x) ((case map_get m (key x) of Some ys \<Rightarrow> ys | None \<Rightarrow> []) @ [x]) m"

lemma map_set_tabulated:
  assumes "distinct ks"
  shows "map_set k v (map (\<lambda>k. (k, f k)) ks) =
    map (\<lambda>k'. (k', if k' = k then v else f k')) (if k \<in> set ks then ks else ks @ [k])"
  using assms by (induction ks) (auto simp: map_set_def)

lemma map_get_tabulated: "map_get (map (\<lambda>k. (k, f k)) ks) k = (if k \<in> set ks then Some (f k) else None)"
  by (induction ks) (auto simp: map_get_def)

lemma foldl_group_push:
  "foldl (group_push key) [] xs = map (\<lambda>k. (k, filter (\<lambda>x. key x = k) xs)) (js_uniq (map key xs))"
proof (induction xs rule: rev_induct)
  case (snoc x xs)
  let ?ks = "js_uniq (map key xs)"
  have "(case map_get (map (\<lambda>k. (k, filter (\<lambda>x. key x = k) xs)) ?ks) (key x) of Some ys \<Rightarrow> ys | None \<Rightarrow> []) =
      filter (\<lambda>y. key y = key x) xs"
    by (auto simp: map_get_tabulated filter_empty_conv eq_commute [of "[]"] intro: rev_image_eqI)
  then have "foldl (group_push key) [] (xs @ [x]) =
      map_set (key x) (filter (\<lambda>y. key y = key x) xs @ [x]) (map (\<lambda>k. (k, filter (\<lambda>x. key x = k) xs)) ?ks)"
    by (simp only: foldl_append foldl.simps snoc) (simp add: group_push_def)
  also have "\<dots> = map (\<lambda>k. (k, filter (\<lambda>x. key x = k) (xs @ [x]))) (js_uniq (map key (xs @ [x])))"
    by (auto simp: map_set_tabulated js_uniq_snoc)
  finally show ?case .
qed simp

lemma mset_groups:
  "mset (concat (map (\<lambda>k. filter (\<lambda>x. key x = k) xs) (js_uniq (map key xs)))) = mset xs"
proof (rule multiset_eqI)
  fix x
  have "count (mset (concat (map (\<lambda>k. filter (\<lambda>y. key y = k) xs) ks))) x =
      (if key x \<in> set ks then count (mset xs) x else 0)" if "distinct ks" for ks
    using that by (induction ks) auto
  from this [of "js_uniq (map key xs)"]
  show "count (mset (concat (map (\<lambda>k. filter (\<lambda>x. key x = k) xs) (js_uniq (map key xs))))) x = count (mset xs) x"
    by (auto simp: not_in_iff)
qed

text \<open>A loop that stores an element under its key or lets the stored one take it in: one entry for each key, in
  the order of the first elements, made of the key's elements in order.\<close>

definition upsert :: "('v \<Rightarrow> 'k) \<Rightarrow> ('v \<Rightarrow> 'v \<Rightarrow> 'v) \<Rightarrow> ('k, 'v) jsmap \<Rightarrow> 'v \<Rightarrow> ('k, 'v) jsmap" where
  "upsert key absorb m x =
     map_set (key x) (case map_get m (key x) of Some y \<Rightarrow> absorb y x | None \<Rightarrow> x) m"

definition absorbed :: "('v \<Rightarrow> 'v \<Rightarrow> 'v) \<Rightarrow> 'v list \<Rightarrow> 'v" where
  "absorbed absorb xs = foldl absorb (hd xs) (tl xs)"

lemma absorbed_single [simp]: "absorbed f [x] = x"
  by (simp add: absorbed_def)

lemma absorbed_snoc: "xs \<noteq> [] \<Longrightarrow> absorbed f (xs @ [x]) = f (absorbed f xs) x"
  by (cases xs) (simp_all add: absorbed_def)

lemma foldl_upsert:
  "foldl (upsert key absorb) [] xs =
     map (\<lambda>k. (k, absorbed absorb (filter (\<lambda>x. key x = k) xs))) (js_uniq (map key xs))"
proof (induction xs rule: rev_induct)
  case (snoc x xs)
  let ?f = "\<lambda>xs k. absorbed absorb (filter (\<lambda>x. key x = k) xs)" and ?ks = "js_uniq (map key xs)"
  have "map_get (map (\<lambda>k. (k, ?f xs k)) ?ks) (key x) = (if key x \<in> set ?ks then Some (?f xs (key x)) else None)"
    by (rule map_get_tabulated)
  moreover have "filter (\<lambda>y. key y = key x) xs = [] \<longleftrightarrow> key x \<notin> set ?ks"
    by (auto simp: filter_empty_conv image_iff)
  ultimately have "(case map_get (map (\<lambda>k. (k, ?f xs k)) ?ks) (key x) of Some y \<Rightarrow> absorb y x | None \<Rightarrow> x) =
      ?f (xs @ [x]) (key x)"
    by (auto simp: absorbed_snoc)
  then have "foldl (upsert key absorb) [] (xs @ [x]) = map_set (key x) (?f (xs @ [x]) (key x)) (map (\<lambda>k. (k, ?f xs k)) ?ks)"
    by (simp only: foldl_append foldl.simps snoc) (simp add: upsert_def)
  also have "\<dots> = map (\<lambda>k. (k, ?f (xs @ [x]) k)) (js_uniq (map key (xs @ [x])))"
    by (auto simp: map_set_tabulated js_uniq_snoc)
  finally show ?case .
qed simp

lemma values_upsert:
  "map_values (foldl (upsert key absorb) [] xs) =
     map (\<lambda>k. absorbed absorb (filter (\<lambda>x. key x = k) xs)) (js_uniq (map key xs))"
  by (simp add: foldl_upsert map_values_def comp_def)

lemmas [collection_simps] = map_set_def map_get_def map_has_def map_keys_def map_values_def
  js_uniq_def js_sort_def

end
