(* ===== verification/Sdk_Types.thy ===== *)
theory Sdk_Types
  imports Js_Number Js_Collections
begin

text \<open>
  The data model and the constants of the resolution SDK, \<open>nodns-resolver/src/types.ts\<close>. An
  interface is a record with its fields in the source's order; a field that may be missing is an
  \<open>option\<close>. \<open>countLeadingZeroBits\<close>, the proof-of-work measure shared with the command line tool
  and the web front end, is proved to be what NIP-13 means by leading zero bits: an event id has
  at least \<open>d\<close> of them exactly when the number it denotes is below \<open>2 ^ (4 * length - d)\<close>.
\<close>

section \<open>Events\<close>

text \<open>\<open>NostrEvent\<close> of \<open>nostr-tools\<close>, re-exported by \<open>types.ts\<close>: a signed event; its tags are
  lists of strings.\<close>

type_synonym tag = "string list"

record NostrEvent =
  ev_id :: string
  ev_pubkey :: string
  ev_created_at :: int
  ev_kind :: int
  ev_tags :: "tag list"
  ev_content :: string
  ev_sig :: string

section \<open>Constants\<close>

definition RECORD_KIND :: int where "RECORD_KIND = 11111"

definition ZONE_HANDLER_KIND :: int where "ZONE_HANDLER_KIND = 31990"

definition DEFAULT_ZONE :: string where "DEFAULT_ZONE = ''nodns.shop''"

definition DEFAULT_API_BASE :: string where "DEFAULT_API_BASE = ''https://nodns.shop''"

definition DEFAULT_DOH_ENDPOINT :: string where
  "DEFAULT_DOH_ENDPOINT = ''https://cloudflare-dns.com/dns-query''"

definition DEFAULT_READ_RELAYS :: "string list" where
  "DEFAULT_READ_RELAYS =
     [''wss://relay.cashu.email'', ''wss://relay.damus.io'', ''wss://nos.lol'',
      ''wss://relay.nostr.band'', ''wss://relay.tollgate.me'']"

definition PUBLISH_RELAYS :: "string list" where
  "PUBLISH_RELAYS = [''wss://relay.cashu.email'', ''wss://relay.damus.io'', ''wss://nos.lol'']"

definition DEFAULT_POW_DIFFICULTY :: int where "DEFAULT_POW_DIFFICULTY = 20"

definition POB_PROOF_KIND :: int where "POB_PROOF_KIND = 30021"

definition VALID_RECORD_TYPES :: "string list" where
  "VALID_RECORD_TYPES = [''A'', ''AAAA'', ''CNAME'', ''TXT'', ''MX'']"

text \<open>\<open>DNS_TYPE_MAP\<close>: the names of the record type numbers.\<close>

definition DNS_TYPE_MAP :: "int \<Rightarrow> string option" where
  "DNS_TYPE_MAP n =
     map_of [(1, ''A''), (28, ''AAAA''), (5, ''CNAME''), (16, ''TXT''), (15, ''MX''), (2, ''NS''),
       (6, ''SOA'')] n"

section \<open>Records of the three sources\<close>

record DohAnswer =
  da_name :: string
  da_type :: int
  da_TTL :: int
  da_data :: string

record DohResponse =
  dr_Status :: int
  dr_Answer :: "DohAnswer list option"

record DnsAnswer =
  dns_name :: string
  dns_type :: string
  dns_ttl :: int
  dns_data :: string

record DnsRecord =
  rec_npub :: string
  rec_name :: string
  rec_fqdn :: string
  rec_type :: string
  rec_ttl :: int
  rec_rdata :: string
  rec_created_at :: int

record NostrDnsRecord =
  nr_type :: string
  nr_name :: string
  nr_value :: string
  nr_ttl :: int
  nr_fqdn :: string
  nr_pubkey :: string
  nr_eventId :: string
  nr_created_at :: int

record RecordInfo =
  ri_type :: string
  ri_name :: string
  ri_ttl :: int
  ri_rdata :: string
  ri_fqdn :: string
  ri_isNpubDerived :: bool

datatype record_source = SrcDns | SrcNostr

record ResolvedRecord =
  rr_type :: string
  rr_name :: string
  rr_ttl :: int
  rr_data :: string
  rr_source :: "record_source option"
  rr_pubkey :: "string option"
  rr_eventId :: "string option"

datatype SourceStatus = Loading | Ok | Error | Unavailable

record 'a SourceResult =
  sr_source :: string
  sr_status :: SourceStatus
  sr_records :: "'a list"
  sr_error :: "string option"

record TripartiteRecords =
  tp_api :: "DnsRecord SourceResult"
  tp_nostr :: "NostrDnsRecord SourceResult"
  tp_dns :: "DnsAnswer SourceResult"

record TripartiteComparison =
  tc_match :: bool
  tc_apiCount :: nat
  tc_nostrCount :: nat
  tc_dnsCount :: nat
  tc_onlyInApi :: "string list"
  tc_onlyInNostr :: "string list"
  tc_onlyInDns :: "string list"

record ResolveVerifiedResult =
  rv_records :: "ResolvedRecord list"
  rv_verified :: bool
  rv_sources :: TripartiteRecords
  rv_comparison :: TripartiteComparison

record ReverseResult =
  rev_names :: "string list"
  rev_records :: "NostrDnsRecord list"

datatype SpecVersion = V1 | V1_1 | V2

record ValidityInfo =
  vi_valid :: bool
  vi_reason :: "string option"
  vi_specVersion :: SpecVersion

section \<open>Zones\<close>

datatype ZoneStatusLevel = Testing | Preview | Production | Unknown

record ZonePricing =
  zp_create :: int
  zp_update :: int
  zp_delete :: int

record DiscoveredZone =
  dz_zone :: string
  dz_pubkey :: string
  dz_status :: ZoneStatusLevel
  dz_testnet :: bool
  dz_statusReason :: "string option"
  dz_dnskeyHash :: "string option"
  dz_dnskeyAlg :: "string option"
  dz_pricing :: "ZonePricing option"
  dz_mint :: "string option"
  dz_web :: "string option"
  dz_verified :: bool
  dz_verificationError :: "string option"

record ZoneInfo =
  zi_zone :: string
  zi_npub :: string
  zi_testnet :: bool
  zi_optedIn :: bool
  zi_pricing :: "ZonePricing option"
  zi_mintUrl :: "string option"
  zi_npubNamesFree :: bool
  zi_handlerEventFound :: bool
  zi_verified :: bool

datatype ZoneCheckOutcome =
    Verified ZoneInfo
  | Testnet ZoneInfo
  | Unverified ZoneInfo
  | NotOptedIn

datatype ResolutionMode = ModeDns | ModeNostr | ModeTripartite

record ResolverOptions =
  ro_mode :: "ResolutionMode option"
  ro_relays :: "string list option"
  ro_apiBase :: "string option"
  ro_zone :: "string option"
  ro_dohEndpoint :: "string option"

section \<open>Proof of work\<close>

text \<open>\<open>Math.clz32\<close> of a number below \<open>2 ^ 32\<close>.\<close>

definition clz32 :: "nat \<Rightarrow> nat" where
  "clz32 n = 32 - floorlog 2 n"

fun clz_loop :: "nat \<Rightarrow> string \<Rightarrow> nat" where
  "clz_loop cnt [] = cnt"
| "clz_loop cnt (c # s) =
     (case hex_val c of
        None \<Rightarrow> cnt
      | Some nibble \<Rightarrow>
          if nibble = 0 then clz_loop (cnt + 4) s else cnt + (clz32 nibble - 28))"

definition countLeadingZeroBits :: "string \<Rightarrow> nat" where
  "countLeadingZeroBits hexId = clz_loop 0 hexId"

lemma clz_loop_add: "clz_loop n s = n + clz_loop 0 s"
proof (induction s arbitrary: n)
  case (Cons c s)
  show ?case
    using Cons [of "n + 4"] Cons [of 4] by (simp split: option.split)
qed simp

lemma floorlog_unique:
  assumes "2 ^ k \<le> n" "n < 2 ^ Suc k"
  shows "floorlog 2 n = Suc k"
proof (rule antisym)
  show "floorlog 2 n \<le> Suc k" using assms(2) by (simp add: floorlog_le_iff)
  show "Suc k \<le> floorlog 2 n" using assms(1) by (intro floorlog_geI) auto
qed

lemma floorlog_shift:
  assumes "0 < v" "r < 2 ^ m"
  shows "floorlog 2 (v * 2 ^ m + r) = floorlog 2 v + m"
proof -
  obtain k where k: "floorlog 2 v = Suc k"
    using assms(1) by (cases "floorlog 2 v") (auto simp: floorlog_eq_zero_iff)
  then have v: "2 ^ k \<le> v" "v < 2 ^ Suc k"
    using floorlog2_bounds [OF assms(1)] by auto
  have "2 ^ (k + m) \<le> v * 2 ^ m + r"
    using v(1) by (simp add: power_add trans_le_add1)
  moreover have "v * 2 ^ m + r < (v + 1) * 2 ^ m"
    using assms(2) by simp
  then have "v * 2 ^ m + r < 2 ^ Suc k * 2 ^ m"
  proof (rule order_less_le_trans)
    show "(v + 1) * 2 ^ m \<le> 2 ^ Suc k * 2 ^ m" using v(2) by (intro mult_le_mono1) simp
  qed
  then have "v * 2 ^ m + r < 2 ^ Suc (k + m)" by (simp add: power_add)
  ultimately show ?thesis using floorlog_unique [of "k + m"] k by simp
qed

lemma hex_number_foldl:
  "foldl (\<lambda>a c. 16 * a + (case hex_val c of None \<Rightarrow> 0 | Some v \<Rightarrow> v)) a s =
     a * 16 ^ length s + hex_number s"
proof (induction s arbitrary: a)
  case Nil
  then show ?case by (simp add: hex_number_def)
next
  case (Cons c s)
  let ?v = "case hex_val c of None \<Rightarrow> 0 | Some v \<Rightarrow> v"
  have "hex_number (c # s) = ?v * 16 ^ length s + hex_number s"
    using Cons [of ?v] by (simp add: hex_number_def)
  with Cons [of "16 * a + ?v"] show ?case by (simp add: algebra_simps)
qed

lemma power16: "(16::nat) ^ n = 2 ^ (4 * n)"
  by (simp add: power_mult)

lemma hex_number_Cons:
  "hex_number (c # s) = (case hex_val c of None \<Rightarrow> 0 | Some v \<Rightarrow> v) * 2 ^ (4 * length s) + hex_number s"
  using hex_number_foldl [of "case hex_val c of None \<Rightarrow> 0 | Some v \<Rightarrow> v" s]
  by (simp add: hex_number_def power16)

lemma hex_number_less: "hex_number s < 2 ^ (4 * length s)"
proof (induction s)
  case Nil
  then show ?case by (simp add: hex_number_def)
next
  case (Cons c s)
  let ?v = "case hex_val c of None \<Rightarrow> 0 | Some v \<Rightarrow> v" and ?p = "(2::nat) ^ (4 * length s)"
  have "?v \<le> 15" using hex_val_less by (fastforce split: option.split)
  then have "?v * ?p \<le> 15 * ?p" by (rule mult_le_mono1)
  then have "?v * ?p + hex_number s < 16 * ?p" using Cons by linarith
  also have "16 * ?p = 2 ^ (4 * length (c # s))" by (simp add: power_add)
  finally show ?case by (simp only: hex_number_Cons)
qed

lemma countLeadingZeroBits_eq:
  "list_all is_hex s \<Longrightarrow> countLeadingZeroBits s = 4 * length s - floorlog 2 (hex_number s)"
proof (induction s)
  case Nil
  then show ?case by (simp add: countLeadingZeroBits_def)
next
  case (Cons c s)
  then obtain v where v: "hex_val c = Some v" by (auto simp: is_hex_def)
  have le: "floorlog 2 (hex_number s) \<le> 4 * length s"
    using hex_number_less by (simp add: floorlog_le_iff)
  show ?case
  proof (cases "v = 0")
    case True
    with Cons v le show ?thesis
      by (simp add: countLeadingZeroBits_def hex_number_Cons clz_loop_add [of 4])
  next
    case False
    have "v < 2 ^ 4" using hex_val_less [OF v] by simp
    then have "floorlog 2 v \<le> 4" by (simp add: floorlog_le_iff)
    with False v show ?thesis
      by (simp add: countLeadingZeroBits_def hex_number_Cons clz32_def floorlog_shift hex_number_less)
  qed
qed

lemma countLeadingZeroBits_le: "list_all is_hex s \<Longrightarrow> countLeadingZeroBits s \<le> 4 * length s"
  by (simp add: countLeadingZeroBits_eq)

text \<open>
  C27. The proof of work test \<open>countLeadingZeroBits(id) >= d\<close>, a loop over hexadecimal digits, holds
  exactly when the number the digits spell is below \<open>2 ^ (4 * length - d)\<close>.
\<close>

theorem countLeadingZeroBits_gate:
  assumes "list_all is_hex s" "d \<le> 4 * length s"
  shows "d \<le> countLeadingZeroBits s \<longleftrightarrow> hex_number s < 2 ^ (4 * length s - d)"
proof -
  have "floorlog 2 (hex_number s) \<le> 4 * length s"
    using hex_number_less by (simp add: floorlog_le_iff)
  then have "d \<le> countLeadingZeroBits s \<longleftrightarrow> floorlog 2 (hex_number s) \<le> 4 * length s - d"
    using assms by (auto simp: countLeadingZeroBits_eq)
  then show ?thesis by (simp add: floorlog_le_iff)
qed

theorem countLeadingZeroBits_gate_witness:
  "10 \<le> countLeadingZeroBits ''002f'' \<and> \<not> 11 \<le> countLeadingZeroBits ''002f''"
proof -
  have h: "list_all is_hex ''002f''" "hex_number ''002f'' < 2 ^ 6" "\<not> hex_number ''002f'' < 2 ^ 5"
    by code_simp+
  show ?thesis
    using countLeadingZeroBits_gate [OF h(1), of 10] countLeadingZeroBits_gate [OF h(1), of 11] h(2,3) by simp
qed

end
