(* ===== verification/Sdk_Parse.thy ===== *)
theory Sdk_Parse
  imports Sdk_Types
begin

text \<open>
  \<open>nodns-resolver/src/parse.ts\<close>: from the tags of a record event to DNS records, the validity
  report of an event, and the removal of superseded records. \<open>npubEncode\<close> is a function of
  \<open>nostr-tools\<close>; it is the parameter \<open>enc\<close> of the definitions that call it, \<^const>\<open>None\<close>
  standing for the exception it throws on a key it cannot encode.
\<close>

named_theorems parse_defs \<open>definitions of the parser\<close>

section \<open>Names\<close>

definition safeNpubEncode :: "(string \<Rightarrow> string option) \<Rightarrow> string \<Rightarrow> string" where
  "safeNpubEncode enc pubkey =
     (case enc pubkey of Some npub \<Rightarrow> npub | None \<Rightarrow> slice_to 16 pubkey)"

definition isNpubDerivedName :: "string \<Rightarrow> bool" where
  "isNpubDerivedName name \<longleftrightarrow> name = [] \<or> name = ''@''"

definition computeFqdn :: "(string \<Rightarrow> string option) \<Rightarrow> string \<Rightarrow> string \<Rightarrow> string \<Rightarrow> string" where
  "computeFqdn enc name pubkey zone =
     (if isNpubDerivedName name then safeNpubEncode enc pubkey @ ''.'' @ zone
      else name @ ''.'' @ zone)"

section \<open>The two record parsers\<close>

definition positive_int :: "string \<Rightarrow> int option" where
  "positive_int s = (case parseInt s of Some n \<Rightarrow> if n > 0 then Some n else None | None \<Rightarrow> None)"

fun first_positive :: "string list \<Rightarrow> int option" where
  "first_positive [] = None"
| "first_positive (s # ss) = (case positive_int s of Some n \<Rightarrow> Some n | None \<Rightarrow> first_positive ss)"

text \<open>\<open>parseTtl\<close>: field 10 when there is one and it is a positive number, else the last positive
  number among the fields from 4 on, scanned from the end, else 3600.\<close>

definition parseTtl :: "tag \<Rightarrow> int" where
  "parseTtl tag =
     (case (if length tag > 10 then positive_int (tag ! 10) else None) of
        Some n \<Rightarrow> n
      | None \<Rightarrow>
          (case (if length tag > 4 then first_positive (rev (drop 4 tag)) else None) of
             Some n \<Rightarrow> n
           | None \<Rightarrow> 3600))"

definition nostr_record_of_tag ::
  "(string \<Rightarrow> string option) \<Rightarrow> NostrEvent \<Rightarrow> string \<Rightarrow> tag \<Rightarrow> NostrDnsRecord option" where
  "nostr_record_of_tag enc event zone tag =
     (if nth_opt tag 0 \<noteq> Some ''record'' then None
      else if length tag < 4 then None
      else
        let type = tag ! 1;
            name = or_else (nth_opt tag 2) [];
            val = tag ! 3;
            ttl = (if length tag \<ge> 11 then parseInt (tag ! 10) else Some 3600)
        in if type = [] \<or> val = [] then None
           else Some \<lparr>nr_type = type, nr_name = (if name = [] then ''@'' else name),
             nr_value = val, nr_ttl = nullish ttl 3600,
             nr_fqdn = computeFqdn enc name (ev_pubkey event) zone,
             nr_pubkey = ev_pubkey event, nr_eventId = ev_id event,
             nr_created_at = ev_created_at event\<rparr>)"

definition parseRecordsFromEvent ::
  "(string \<Rightarrow> string option) \<Rightarrow> NostrEvent \<Rightarrow> string \<Rightarrow> NostrDnsRecord list" where
  "parseRecordsFromEvent enc event zone = collect (nostr_record_of_tag enc event zone) (ev_tags event)"

definition record_info_of_tag ::
  "(string \<Rightarrow> string option) \<Rightarrow> NostrEvent \<Rightarrow> string \<Rightarrow> tag \<Rightarrow> RecordInfo option" where
  "record_info_of_tag enc event zone tag =
     (if nth_opt tag 0 \<noteq> Some ''record'' then None
      else if length tag < 4 then None
      else
        let type = toUpperCase (nullish (nth_opt tag 1) []);
            name = nullish (nth_opt tag 2) [];
            rdata = nullish (nth_opt tag 3) []
        in Some \<lparr>ri_type = type, ri_name = name, ri_ttl = parseTtl tag, ri_rdata = rdata,
             ri_fqdn = computeFqdn enc name (ev_pubkey event) zone,
             ri_isNpubDerived = isNpubDerivedName name\<rparr>)"

definition parseRecords ::
  "(string \<Rightarrow> string option) \<Rightarrow> NostrEvent \<Rightarrow> string \<Rightarrow> RecordInfo list" where
  "parseRecords enc event zone = collect (record_info_of_tag enc event zone) (ev_tags event)"

definition parseRecord ::
  "(string \<Rightarrow> string option) \<Rightarrow> NostrEvent \<Rightarrow> string \<Rightarrow> RecordInfo option" where
  "parseRecord enc event zone = nth_opt (parseRecords enc event zone) 0"

section \<open>Validity\<close>

definition tag_is :: "string \<Rightarrow> tag \<Rightarrow> bool" where
  "tag_is k tag \<longleftrightarrow> nth_opt tag 0 = Some k"

definition detectSpecVersion :: "tag list \<Rightarrow> SpecVersion" where
  "detectSpecVersion tags =
     (let hasAlt = list_ex (tag_is ''alt'') tags;
          cashuTag = List.find (tag_is ''cashu'') tags;
          hasP2PK = (case cashuTag of None \<Rightarrow> False
            | Some t \<Rightarrow> (case nth_opt t 1 of None \<Rightarrow> False | Some token \<Rightarrow> str_includes token ''P2PK''))
      in if hasP2PK then V2 else if hasAlt then V1_1 else V1)"

fun check_record_tags :: "tag list \<Rightarrow> string option" where
  "check_record_tags [] = None"
| "check_record_tags (tag # tags) =
     (if length tag < 4 then Some (''malformed ('' @ show_int (int (length tag)) @ '' fields)'')
      else
        let type = toUpperCase (nullish (nth_opt tag 1) [])
        in if type \<notin> set VALID_RECORD_TYPES then Some (''unknown type: '' @ type)
           else check_record_tags tags)"

definition checkValidity :: "NostrEvent \<Rightarrow> ValidityInfo" where
  "checkValidity event =
     (let tags = ev_tags event; specVersion = detectSpecVersion tags;
          recordTags = filter (tag_is ''record'') tags
      in if recordTags = [] then
           \<lparr>vi_valid = False, vi_reason = Some ''no record tags'', vi_specVersion = specVersion\<rparr>
         else case check_record_tags recordTags of
             Some reason \<Rightarrow>
               \<lparr>vi_valid = False, vi_reason = Some reason, vi_specVersion = specVersion\<rparr>
           | None \<Rightarrow> \<lparr>vi_valid = True, vi_reason = None, vi_specVersion = specVersion\<rparr>)"

section \<open>Deduplication\<close>

definition dedup_key :: "NostrDnsRecord \<Rightarrow> string" where
  "dedup_key r = nr_fqdn r @ '':'' @ nr_type r @ '':'' @ nr_name r @ '':'' @ nr_value r"

definition dedup_step ::
  "(string, NostrDnsRecord) jsmap \<Rightarrow> NostrDnsRecord \<Rightarrow> (string, NostrDnsRecord) jsmap" where
  "dedup_step seen r =
     (let key = dedup_key r
      in case map_get seen key of
           None \<Rightarrow> map_set key r seen
         | Some existing \<Rightarrow>
             if nr_created_at r > nr_created_at existing then map_set key r seen else seen)"

definition deduplicateRecords :: "NostrDnsRecord list \<Rightarrow> NostrDnsRecord list" where
  "deduplicateRecords records =
     js_sort (\<lambda>a b. nr_created_at b - nr_created_at a) (map_values (foldl dedup_step [] records))"

section \<open>Lemmas\<close>

lemmas [parse_defs] = nostr_record_of_tag_def record_info_of_tag_def parseRecordsFromEvent_def
  parseRecords_def computeFqdn_def isNpubDerivedName_def tag_is_def

lemma computeFqdn_zone: "endsWith (computeFqdn enc name pubkey zone) (''.'' @ zone)"
  unfolding computeFqdn_def endsWith_iff by auto

lemma positive_int_pos: "positive_int s = Some n \<Longrightarrow> 0 < n"
  by (auto simp: positive_int_def split: option.splits if_splits)

lemma first_positive_pos: "first_positive ss = Some n \<Longrightarrow> 0 < n"
  by (induction ss) (auto split: option.splits dest: positive_int_pos)

lemma parseTtl_pos: "0 < parseTtl tag"
  by (auto simp: parseTtl_def split: option.split
      dest: positive_int_pos first_positive_pos split: if_splits)

lemma nostr_record_of_tag_SomeD:
  assumes "nostr_record_of_tag enc event zone tag = Some r"
  shows "nr_type r \<noteq> []" "nr_value r \<noteq> []" "nr_name r \<noteq> []"
    "nr_fqdn r = computeFqdn enc (nr_name r) (ev_pubkey event) zone"
    "nr_pubkey r = ev_pubkey event" "nr_eventId r = ev_id event"
    "nr_created_at r = ev_created_at event"
    "nth_opt tag 0 = Some ''record''" "nth_opt tag 1 = Some (nr_type r)" "nth_opt tag 3 = Some (nr_value r)"
  using assms
  by (auto simp: nostr_record_of_tag_def Let_def nth_opt_eq computeFqdn_def isNpubDerivedName_def
      split: if_splits)

lemma check_record_tags_None:
  "check_record_tags tags = None \<longleftrightarrow>
     (\<forall>tag \<in> set tags. 4 \<le> length tag \<and> toUpperCase (nullish (nth_opt tag 1) []) \<in> set VALID_RECORD_TYPES)"
  by (induction tags) (auto simp: Let_def)

lemma dedup_step_newer: "dedup_step = put_newer map_get map_set dedup_key nr_created_at"
  by (auto simp: fun_eq_iff dedup_step_def put_newer_def Let_def split: option.splits)

text \<open>The sort of the newest first, and of the oldest first in \<open>zone-file.ts\<close>.\<close>

interpretation newest_first: comparator "\<lambda>a b. nr_created_at b - nr_created_at a"
  using comparator_cmp_desc [of nr_created_at] by (simp add: cmp_desc_def [abs_def])

lemma dedup_newest:
  "deduplicateRecords rs =
     js_sort (\<lambda>a b. nr_created_at b - nr_created_at a) (newest_per_key dedup_key nr_created_at rs)"
  by (simp add: deduplicateRecords_def dedup_step_newer newest_per_key_def)

lemma mem_dedup:
  "r \<in> set (deduplicateRecords rs) \<longleftrightarrow>
     first_max nr_created_at (filter (\<lambda>x. dedup_key x = dedup_key r) rs) = Some r"
  by (simp add: dedup_newest mem_newest)

lemma distinct_dedup_keys: "distinct (map dedup_key (deduplicateRecords rs))"
  by (simp add: dedup_newest)

lemma sorted_dedup:
  "sorted_wrt (\<lambda>a b. nr_created_at b \<le> nr_created_at a) (deduplicateRecords rs)"
  using newest_first.sorted_js_sort unfolding deduplicateRecords_def by simp

lemma dedup_keys_image: "dedup_key ` set (deduplicateRecords rs) = dedup_key ` set rs"
  by (simp add: dedup_newest newest_keys_image)

lemma set_dedup_subset: "set (deduplicateRecords rs) \<subseteq> set rs"
  using set_newest_subset by (simp add: dedup_newest)

lemma dedup_idem: "deduplicateRecords (deduplicateRecords rs) = deduplicateRecords rs"
proof -
  have "newest_per_key dedup_key nr_created_at (deduplicateRecords rs) = deduplicateRecords rs"
    by (rule newest_id) (rule distinct_dedup_keys)
  then show ?thesis
    by (metis dedup_newest newest_first.js_sort_idem)
qed

section \<open>Properties\<close>

text \<open>
  C2. Every record read from an event has a type, a value and a name, belongs to the event's author,
  carries the event's id and date, and lies below the zone; its type and value are fields 1 and 3 of
  one of the event's \<open>record\<close> tags.
\<close>

theorem parseRecordsFromEvent_sound:
  assumes "r \<in> set (parseRecordsFromEvent enc event zone)"
  shows "nr_type r \<noteq> [] \<and> nr_value r \<noteq> [] \<and> nr_name r \<noteq> [] \<and> nr_pubkey r = ev_pubkey event \<and>
    nr_eventId r = ev_id event \<and> nr_created_at r = ev_created_at event \<and>
    endsWith (nr_fqdn r) (''.'' @ zone) \<and>
    (\<exists>tag \<in> set (ev_tags event). nth_opt tag 0 = Some ''record'' \<and>
       nth_opt tag 1 = Some (nr_type r) \<and> nth_opt tag 3 = Some (nr_value r))"
proof -
  obtain tag where t: "tag \<in> set (ev_tags event)" "nostr_record_of_tag enc event zone tag = Some r"
    using assms by (auto simp: parseRecordsFromEvent_def set_collect)
  show ?thesis
    using nostr_record_of_tag_SomeD [OF t(2)] t(1) computeFqdn_zone [of enc "nr_name r" "ev_pubkey event" zone]
    by auto
qed

definition example_event :: "tag list \<Rightarrow> NostrEvent" where
  "example_event tags = \<lparr>ev_id = ''e1'', ev_pubkey = ''ab'', ev_created_at = 7, ev_kind = RECORD_KIND,
     ev_tags = tags, ev_content = [], ev_sig = []\<rparr>"

theorem parseRecordsFromEvent_sound_witness:
  "\<exists>r. parseRecordsFromEvent (\<lambda>_. None)
      (example_event [[''p'', ''x''], [''record'', ''A'', [], ''1.2.3.4'']]) ''nodns.shop'' = [r] \<and>
    nr_type r \<noteq> [] \<and> nr_pubkey r = ''ab'' \<and> endsWith (nr_fqdn r) (''.'' @ ''nodns.shop'')"
proof -
  let ?ev = "example_event [[''p'', ''x''], [''record'', ''A'', [], ''1.2.3.4'']]"
  obtain r where r: "parseRecordsFromEvent (\<lambda>_. None) ?ev ''nodns.shop'' = [r]"
    by (simp add: example_event_def parse_defs Let_def or_else_def)
  then have "r \<in> set (parseRecordsFromEvent (\<lambda>_. None) ?ev ''nodns.shop'')" by simp
  from parseRecordsFromEvent_sound [OF this] r show ?thesis by (auto simp: example_event_def)
qed

text \<open>
  C1. Deduplication groups the records whose full name, type, name and value, joined by colons, agree. Of
  each group it keeps the first of the records with the greatest date, loses no group, keeps no group twice
  and returns what it keeps newest first.
\<close>

theorem deduplicateRecords_spec:
  "let key = (\<lambda>r. nr_fqdn r @ '':'' @ nr_type r @ '':'' @ nr_name r @ '':'' @ nr_value r);
       kept = deduplicateRecords rs
   in sorted_wrt (\<lambda>a b. nr_created_at b \<le> nr_created_at a) kept \<and> distinct (map key kept) \<and>
      key ` set kept = key ` set rs \<and>
      set kept = {r. first_max nr_created_at (filter (\<lambda>x. key x = key r) rs) = Some r}"
  using sorted_dedup [of rs] distinct_dedup_keys [of rs] dedup_keys_image [of rs] mem_dedup [of _ rs]
  unfolding Let_def dedup_key_def [abs_def, symmetric] by blast

text \<open>
  Deduplicating a second time changes nothing, the order included.
\<close>

theorem deduplicateRecords_idempotent:
  "deduplicateRecords (deduplicateRecords rs) = deduplicateRecords rs"
  by (rule dedup_idem)

text \<open>
  An event is reported valid exactly when it has a \<open>record\<close> tag and each of its \<open>record\<close> tags has
  four fields and, in upper case, one of the known types; a valid report gives no reason.
\<close>

theorem checkValidity_spec:
  "vi_valid (checkValidity event) \<longleftrightarrow>
     filter (tag_is ''record'') (ev_tags event) \<noteq> [] \<and>
     list_all (\<lambda>tag. 4 \<le> length tag \<and> toUpperCase (nullish (nth_opt tag 1) []) \<in> set VALID_RECORD_TYPES)
       (filter (tag_is ''record'') (ev_tags event))"
  unfolding list_all_iff check_record_tags_None [symmetric]
  by (simp add: checkValidity_def Let_def split: option.split)

text \<open>
  The record parser of the library's users always reports a positive time to live, whatever the
  tags hold.
\<close>

theorem parseRecords_ttl_positive:
  "list_all (\<lambda>r. 0 < ri_ttl r \<and> endsWith (ri_fqdn r) (''.'' @ zone)) (parseRecords enc event zone)"
  unfolding list_all_iff parseRecords_def set_collect
  by (auto simp: record_info_of_tag_def Let_def parseTtl_pos computeFqdn_zone [simplified] split: if_splits)

end
