(* ===== verification/Sdk_Nostr.thy ===== *)
theory Sdk_Nostr
  imports Sdk_Parse "HOL-Library.Word"
begin

text \<open>
  \<open>nodns-resolver/src/nostr.ts\<close>: key pairs, the builders of record, deletion and payment tags,
  and the relay queries. The functions of \<open>nostr-tools\<close> it calls (bech32 and hexadecimal
  coding, public keys, the relay pool) are the fields of the record \<open>nostr_lib\<close> and the parameter \<open>query\<close>;
  \<^const>\<open>None\<close> is the exception or rejected promise of the library. The opening and closing of
  pool connections has no influence on a result and is left out.
\<close>

section \<open>The library the code calls\<close>

type_synonym bytes = "8 word list"

datatype nip19_data = DNpub string | DNsec bytes | DOther

record nostr_lib =
  nl_npubEncode :: "string \<Rightarrow> string option"
  nl_nsecEncode :: "bytes \<Rightarrow> string option"
  nl_decode :: "string \<Rightarrow> nip19_data option"
  nl_getPublicKey :: "bytes \<Rightarrow> string option"
  nl_bytesToHex :: "bytes \<Rightarrow> string"
  nl_hexToBytes :: "string \<Rightarrow> bytes option"

text \<open>An exception: an \<open>Error\<close> the code throws, with its message, or one a library throws.\<close>

datatype js_error = JsError string | LibError

definition lib_call :: "'a option \<Rightarrow> js_error + 'a" where
  "lib_call x = (case x of None \<Rightarrow> Inl LibError | Some v \<Rightarrow> Inr v)"

definition try_bind :: "'e + 'a \<Rightarrow> ('a \<Rightarrow> 'e + 'b) \<Rightarrow> 'e + 'b" where
  "try_bind x f = (case x of Inl e \<Rightarrow> Inl e | Inr v \<Rightarrow> f v)"

lemma try_bind_simps [simp]: "try_bind (Inl e) f = Inl e" "try_bind (Inr v) f = f v"
  by (simp_all add: try_bind_def)

lemma lib_call_simps [simp]: "lib_call None = Inl LibError" "lib_call (Some v) = Inr v"
  by (simp_all add: lib_call_def)

lemma try_bind_Inr_iff: "try_bind x f = Inr y \<longleftrightarrow> (\<exists>v. x = Inr v \<and> f v = Inr y)"
  by (cases x) auto

lemma lib_call_Inr_iff: "lib_call x = Inr v \<longleftrightarrow> x = Some v"
  by (cases x) auto

section \<open>Key pairs\<close>

record Keypair =
  kp_secretKey :: bytes
  kp_pubkey :: string
  kp_nsec :: string
  kp_npub :: string

text \<open>\<open>generateKeypair\<close>, given the secret key \<open>generateSecretKey\<close> drew.\<close>

definition generateKeypair :: "nostr_lib \<Rightarrow> bytes \<Rightarrow> js_error + Keypair" where
  "generateKeypair L sk =
     try_bind (lib_call (nl_getPublicKey L sk)) (\<lambda>pk.
     try_bind (lib_call (nl_nsecEncode L sk)) (\<lambda>nsec.
     try_bind (lib_call (nl_npubEncode L pk)) (\<lambda>npub.
       Inr \<lparr>kp_secretKey = sk, kp_pubkey = pk, kp_nsec = nsec, kp_npub = npub\<rparr>)))"

definition decodeNsec :: "nostr_lib \<Rightarrow> string \<Rightarrow> js_error + Keypair" where
  "decodeNsec L nsec =
     try_bind (lib_call (nl_decode L nsec)) (\<lambda>decoded.
       case decoded of
         DNsec sk \<Rightarrow>
           try_bind (lib_call (nl_getPublicKey L sk)) (\<lambda>pk.
           try_bind (lib_call (nl_npubEncode L pk)) (\<lambda>npub.
             Inr \<lparr>kp_secretKey = sk, kp_pubkey = pk, kp_nsec = nsec, kp_npub = npub\<rparr>))
       | _ \<Rightarrow> Inl (JsError ''Not a valid nsec''))"

text \<open>\<open>parseInt(s, 16)\<close>: optional white space, sign and \<open>0x\<close>, then as many digits as there
  are; and the store into a \<open>Uint8Array\<close>, where \<open>NaN\<close> becomes 0 and a number its residue.\<close>

definition parseInt16 :: "string \<Rightarrow> int option" where
  "parseInt16 s =
     (let (neg, r) = parse_sign (trimStart s);
          r' = (if startsWith (toLowerCase r) ''0x'' then drop 2 r else r);
          ds = takeWhile is_hex r'
      in if ds = [] then None
         else Some (if neg then - int (hex_number ds) else int (hex_number ds)))"

definition to_byte :: "int option \<Rightarrow> 8 word" where
  "to_byte x = (case x of None \<Rightarrow> 0 | Some n \<Rightarrow> word_of_int n)"

fun hexToBytes :: "string \<Rightarrow> bytes" where
  "hexToBytes (a # b # s) = to_byte (parseInt16 [a, b]) # hexToBytes s"
| "hexToBytes s = []"

definition decodeSec :: "nostr_lib \<Rightarrow> string \<Rightarrow> js_error + Keypair" where
  "decodeSec L sec =
     (if startsWith sec ''nsec1'' then decodeNsec L sec
      else generateKeypair L (hexToBytes sec))"

definition pubkeyToNpub :: "nostr_lib \<Rightarrow> string \<Rightarrow> string" where
  "pubkeyToNpub L pubkey = nullish (nl_npubEncode L pubkey) pubkey"

section \<open>Tags\<close>

definition buildRecordTag :: "string \<Rightarrow> string \<Rightarrow> string \<Rightarrow> int \<Rightarrow> tag" where
  "buildRecordTag recordType name rdata ttl =
     [''record'', toUpperCase recordType, name, show_int ttl, rdata]"

definition buildDeleteTag :: "string \<Rightarrow> string \<Rightarrow> tag" where
  "buildDeleteTag recordType name = [''record'', toUpperCase recordType, name, ''3600'', []]"

definition buildCashuTag :: "string \<Rightarrow> string \<Rightarrow> int \<Rightarrow> tag" where
  "buildCashuTag token mintUrl amount = [''cashu'', token, mintUrl, show_int amount]"

section \<open>Relay queries\<close>

text \<open>The filter of a query, and the pool: given relays, filter and waiting time, the events, or
  \<^const>\<open>None\<close> when the promise is rejected.\<close>

record relay_filter =
  rf_kinds :: "int list"
  rf_authors :: "string list option"
  rf_limit :: "int option"
  rf_k :: "string list option"
  rf_e :: "string list option"

type_synonym relay_query = "string list \<Rightarrow> relay_filter \<Rightarrow> int \<Rightarrow> NostrEvent list option"

definition DEFAULT_QUERY_LIMIT :: int where "DEFAULT_QUERY_LIMIT = 100"

definition NOSTR_QUERY_MAX_WAIT :: int where "NOSTR_QUERY_MAX_WAIT = 10000"

definition normalizePubkey :: "nostr_lib \<Rightarrow> string \<Rightarrow> string" where
  "normalizePubkey L pubkey =
     (if startsWith pubkey ''npub1'' then
        (case nl_decode L pubkey of Some (DNpub hex) \<Rightarrow> hex | _ \<Rightarrow> pubkey)
      else pubkey)"

definition author_filter :: "string option \<Rightarrow> int \<Rightarrow> relay_filter" where
  "author_filter author limit =
     \<lparr>rf_kinds = [RECORD_KIND], rf_authors = map_option (\<lambda>a. [a]) author, rf_limit = Some limit,
      rf_k = None, rf_e = None\<rparr>"

definition queryRecordsByPubkey ::
  "nostr_lib \<Rightarrow> relay_query \<Rightarrow> string \<Rightarrow> string \<Rightarrow> string list \<Rightarrow> int option \<Rightarrow> NostrDnsRecord list"
  where
  "queryRecordsByPubkey L query pubkeyHex zone relays optLimit =
     (let limit = nullish optLimit DEFAULT_QUERY_LIMIT
      in case query relays (author_filter (Some pubkeyHex) limit) NOSTR_QUERY_MAX_WAIT of
           None \<Rightarrow> []
         | Some events \<Rightarrow>
             deduplicateRecords
               (concat (map (\<lambda>ev. parseRecordsFromEvent (nl_npubEncode L) ev zone) events)))"

definition queryRecordsByDomain ::
  "nostr_lib \<Rightarrow> relay_query \<Rightarrow> string \<Rightarrow> string \<Rightarrow> string list \<Rightarrow> int option \<Rightarrow> NostrDnsRecord list"
  where
  "queryRecordsByDomain L query fqdn zone relays optLimit =
     (let limit = nullish optLimit 500
      in case query relays (author_filter None limit) NOSTR_QUERY_MAX_WAIT of
           None \<Rightarrow> []
         | Some events \<Rightarrow>
             deduplicateRecords
               (concat (map (\<lambda>ev. filter (\<lambda>r. nr_fqdn r = fqdn)
                  (parseRecordsFromEvent (nl_npubEncode L) ev zone)) events)))"

definition queryAllRecentRecords ::
  "nostr_lib \<Rightarrow> relay_query \<Rightarrow> string \<Rightarrow> string list \<Rightarrow> int option \<Rightarrow> NostrDnsRecord list" where
  "queryAllRecentRecords L query zone relays optLimit =
     (let limit = nullish optLimit 200
      in case query relays (author_filter None limit) NOSTR_QUERY_MAX_WAIT of
           None \<Rightarrow> []
         | Some events \<Rightarrow>
             js_sort (\<lambda>a b. nr_created_at b - nr_created_at a)
               (concat (map (\<lambda>ev. parseRecordsFromEvent (nl_npubEncode L) ev zone) events)))"

definition fetchEvents ::
  "nostr_lib \<Rightarrow> relay_query \<Rightarrow> string list \<Rightarrow> string \<Rightarrow> int \<Rightarrow> js_error + NostrEvent list" where
  "fetchEvents L query relays pubkey limit =
     (let hexPubkey = normalizePubkey L pubkey
      in case query relays (author_filter (Some hexPubkey) limit) NOSTR_QUERY_MAX_WAIT of
           None \<Rightarrow> Inl LibError
         | Some events \<Rightarrow> Inr (js_sort (\<lambda>a b. ev_created_at b - ev_created_at a) events))"

section \<open>Lemmas\<close>

text \<open>What a relay keeps its promise on: it returns events of the kinds and authors asked for.\<close>

definition filter_sound :: "relay_query \<Rightarrow> bool" where
  "filter_sound query \<longleftrightarrow>
     (\<forall>relays f w events ev. query relays f w = Some events \<longrightarrow> ev \<in> set events \<longrightarrow>
        ev_kind ev \<in> set (rf_kinds f) \<and>
        (\<forall>as. rf_authors f = Some as \<longrightarrow> ev_pubkey ev \<in> set as))"

interpretation newest_event: comparator "\<lambda>a b. ev_created_at b - ev_created_at a"
  using comparator_cmp_desc [of ev_created_at] by (simp add: cmp_desc_def [abs_def])

lemma mem_queryRecordsByPubkey:
  assumes "r \<in> set (queryRecordsByPubkey L query pk zone relays mx)"
  obtains events ev tag where
    "query relays (author_filter (Some pk) (nullish mx DEFAULT_QUERY_LIMIT)) NOSTR_QUERY_MAX_WAIT
       = Some events"
    "ev \<in> set events" "tag \<in> set (ev_tags ev)"
    "nostr_record_of_tag (nl_npubEncode L) ev zone tag = Some r"
proof -
  let ?q = "query relays (author_filter (Some pk) (nullish mx DEFAULT_QUERY_LIMIT)) NOSTR_QUERY_MAX_WAIT"
  obtain events where e: "?q = Some events"
    using assms by (cases ?q) (simp_all add: queryRecordsByPubkey_def)
  with assms have "r \<in> set (deduplicateRecords
      (concat (map (\<lambda>ev. parseRecordsFromEvent (nl_npubEncode L) ev zone) events)))"
    by (simp add: queryRecordsByPubkey_def)
  then have "r \<in> set (concat (map (\<lambda>ev. parseRecordsFromEvent (nl_npubEncode L) ev zone) events))"
    using set_dedup_subset by blast
  with e that show thesis by (auto simp: parseRecordsFromEvent_def set_collect)
qed

lemma fqdn_queryRecordsByDomain:
  "r \<in> set (queryRecordsByDomain L query fqdn zone relays mx) \<Longrightarrow> nr_fqdn r = fqdn"
  using set_dedup_subset
  by (fastforce simp: queryRecordsByDomain_def Let_def split: option.splits)

lemma hex_pair:
  "is_hex a \<Longrightarrow> is_hex b \<Longrightarrow>
     parseInt16 [a, b] = Some (int (hex_number [a, b]))"
proof -
  assume a: "is_hex a" and b: "is_hex b"
  have c: "code_of (CHR ''-'') = 45" "code_of (CHR ''+'') = 43" "code_of (CHR ''x'') = 120"
    by (simp_all add: code_of_def)
  have a': "\<not> is_space a" "a \<noteq> CHR ''-''" "a \<noteq> CHR ''+''"
    using a c by (auto simp: is_hex_def hex_val_def is_space_def Let_def split: if_splits)
  have "code_of (lower_char b) \<noteq> 120"
    using b by (auto simp: is_hex_def hex_val_def code_lower_char is_upper_def Let_def split: if_splits)
  then have "lower_char b \<noteq> CHR ''x''" using c by metis
  with a a' b show ?thesis
    by (simp add: parseInt16_def trimStart_def parse_sign_def toLowerCase_def)
qed

text \<open>Two lower case hexadecimal digits for each byte, as \<open>bytesToHex\<close> and the notary's nonce
  write them.\<close>

definition byte_hex :: "8 word \<Rightarrow> string" where
  "byte_hex b = [hex_char (unat b div 16), hex_char (unat b mod 16)]"

lemma hexToBytes_byte_hex: "hexToBytes (concat (map byte_hex bs)) = bs"
proof (induction bs)
  case (Cons b bs)
  have "unat b < 256" using unsigned_less [of b, where ?'a = nat] by simp
  then have "unat b div 16 < 16" "unat b mod 16 < 16" by (simp_all add: less_mult_imp_div_less)
  moreover from this have "is_hex (hex_char (unat b div 16))" "is_hex (hex_char (unat b mod 16))"
    by (simp_all add: is_hex_def)
  ultimately have "to_byte (parseInt16 (byte_hex b)) = b"
    by (simp add: byte_hex_def hex_pair hex_number_def to_byte_def)
  with Cons show ?case by (simp add: byte_hex_def)
qed simp

section \<open>Properties\<close>

text \<open>
  The tag the SDK builds for a record is not the one its parser reads: read back, the record's
  value is the decimal text of the time to live, whatever the record data was, and its time to live is
  the default.
\<close>

theorem buildRecordTag_misread:
  assumes "recordType \<noteq> []"
  shows "nostr_record_of_tag enc event zone (buildRecordTag recordType name rdata ttl) =
    Some \<lparr>nr_type = toUpperCase recordType, nr_name = (if name = [] then ''@'' else name),
      nr_value = show_int ttl, nr_ttl = 3600, nr_fqdn = computeFqdn enc name (ev_pubkey event) zone,
      nr_pubkey = ev_pubkey event, nr_eventId = ev_id event, nr_created_at = ev_created_at event\<rparr>"
  using assms
  by (simp add: nostr_record_of_tag_def buildRecordTag_def or_else_def nullish_def toUpperCase_def Let_def)

theorem buildRecordTag_misread_witness:
  "map_option nr_value (nostr_record_of_tag (\<lambda>_. None) (example_event []) ''nodns.shop''
     (buildRecordTag ''a'' ''www'' ''1.2.3.4'' 300)) = Some (show_int 300)"
  using buildRecordTag_misread [of "''a''" "\<lambda>_. None" "example_event []" "''nodns.shop''" "''www''" "''1.2.3.4''" 300]
  by simp

text \<open>
  A deletion tag has the form of a record tag, and the parser reads it as a live record whose
  value is \<open>3600\<close>; such an event also passes for valid for every known type.
\<close>

theorem buildDeleteTag_read_as_record:
  assumes "toUpperCase recordType \<in> set VALID_RECORD_TYPES" "ev_tags event = [buildDeleteTag recordType name]"
  shows "map nr_value (parseRecordsFromEvent enc event zone) = [''3600''] \<and> vi_valid (checkValidity event)"
proof -
  have "recordType \<noteq> []" using assms(1) by (auto simp: VALID_RECORD_TYPES_def toUpperCase_def)
  then have "map nr_value (parseRecordsFromEvent enc event zone) = [''3600'']"
    by (simp add: parseRecordsFromEvent_def nostr_record_of_tag_def buildDeleteTag_def assms(2)
        or_else_def nullish_def toUpperCase_def Let_def)
  moreover have "vi_valid (checkValidity event)"
    using assms by (simp add: checkValidity_def Let_def tag_is_def buildDeleteTag_def nullish_def)
  ultimately show ?thesis by simp
qed

theorem buildDeleteTag_read_as_record_witness:
  "map nr_value (parseRecordsFromEvent (\<lambda>_. None) (example_event [buildDeleteTag ''txt'' ''www'']) ''nodns.shop'')
     = [''3600'']"
proof -
  have "toUpperCase ''txt'' \<in> set VALID_RECORD_TYPES" by code_simp
  then show ?thesis
    using buildDeleteTag_read_as_record [of "''txt''" "example_event [buildDeleteTag ''txt'' ''www'']" "''www''"]
    by (simp add: example_event_def)
qed

text \<open>
  A secret key given in hexadecimal is decoded to the bytes it spells: writing bytes as two
  digits each and decoding gives the bytes back.
\<close>

theorem hexToBytes_round_trip: "hexToBytes (concat (map byte_hex bs)) = bs"
  by (rule hexToBytes_byte_hex)

text \<open>
  When the relays answer with events of the asked kind and author, every record that
  \<open>queryRecordsByPubkey\<close> returns belongs to the key asked for and lies in the zone.
\<close>

theorem queryRecordsByPubkey_owner:
  assumes "filter_sound query" "r \<in> set (queryRecordsByPubkey L query pk zone relays mx)"
  shows "nr_pubkey r = pk \<and> endsWith (nr_fqdn r) (''.'' @ zone)"
proof -
  from mem_queryRecordsByPubkey [OF assms(2)] obtain events ev tag where
    q: "query relays (author_filter (Some pk) (nullish mx DEFAULT_QUERY_LIMIT)) NOSTR_QUERY_MAX_WAIT = Some events"
      "ev \<in> set events" and r: "nostr_record_of_tag (nl_npubEncode L) ev zone tag = Some r" .
  have "ev_pubkey ev = pk"
    using assms(1) q unfolding filter_sound_def by (fastforce simp: author_filter_def)
  with nostr_record_of_tag_SomeD [OF r] show ?thesis by (simp add: computeFqdn_zone [simplified])
qed

definition example_lib :: nostr_lib where
  "example_lib = \<lparr>nl_npubEncode = (\<lambda>pk. Some (''npub1'' @ pk)), nl_nsecEncode = (\<lambda>_. Some ''nsec1''),
     nl_decode = (\<lambda>s. if startsWith s ''npub1'' then Some (DNpub (drop 5 s)) else None),
     nl_getPublicKey = (\<lambda>_. Some ''ab''), nl_bytesToHex = (\<lambda>bs. concat (map byte_hex bs)),
     nl_hexToBytes = (\<lambda>s. if even (length s) \<and> list_all is_hex s then Some (hexToBytes s) else None)\<rparr>"

definition example_query :: relay_query where
  "example_query relays f w =
     (let ev = example_event [[''record'', ''A'', ''www'', ''1.2.3.4'']]
      in Some (if ev_kind ev \<in> set (rf_kinds f) \<and> (case rf_authors f of None \<Rightarrow> True | Some as \<Rightarrow> ev_pubkey ev \<in> set as)
               then [ev] else []))"

lemma filter_sound_example: "filter_sound example_query"
  by (auto simp: filter_sound_def example_query_def Let_def split: if_splits)

theorem queryRecordsByPubkey_owner_witness:
  "filter_sound example_query \<and>
   map nr_fqdn (queryRecordsByPubkey example_lib example_query ''ab'' ''nodns.shop'' [] None) = [''www.nodns.shop''] \<and>
   list_all (\<lambda>r. nr_pubkey r = ''ab'' \<and> endsWith (nr_fqdn r) (''.'' @ ''nodns.shop''))
     (queryRecordsByPubkey example_lib example_query ''ab'' ''nodns.shop'' [] None)"
proof -
  have "map nr_fqdn (queryRecordsByPubkey example_lib example_query ''ab'' ''nodns.shop'' [] None) = [''www.nodns.shop'']"
    by code_simp
  moreover have "list_all (\<lambda>r. nr_pubkey r = ''ab'' \<and> endsWith (nr_fqdn r) (''.'' @ ''nodns.shop''))
     (queryRecordsByPubkey example_lib example_query ''ab'' ''nodns.shop'' [] None)"
    unfolding list_all_iff using queryRecordsByPubkey_owner [OF filter_sound_example] by blast
  ultimately show ?thesis using filter_sound_example by blast
qed

text \<open>
  \<open>queryRecordsByDomain\<close> returns records of the asked name only, one for each type, owner's name
  and value, newest first.
\<close>

theorem queryRecordsByDomain_spec:
  "list_all (\<lambda>r. nr_fqdn r = fqdn) (queryRecordsByDomain L query fqdn zone relays mx) \<and>
   distinct (map dedup_key (queryRecordsByDomain L query fqdn zone relays mx)) \<and>
   sorted_wrt (\<lambda>a b. nr_created_at b \<le> nr_created_at a) (queryRecordsByDomain L query fqdn zone relays mx)"
proof -
  have "list_all (\<lambda>r. nr_fqdn r = fqdn) (queryRecordsByDomain L query fqdn zone relays mx)"
    unfolding list_all_iff using fqdn_queryRecordsByDomain by blast
  moreover have "distinct (map dedup_key (queryRecordsByDomain L query fqdn zone relays mx))"
    by (auto simp: queryRecordsByDomain_def Let_def distinct_dedup_keys split: option.split)
  moreover have "sorted_wrt (\<lambda>a b. nr_created_at b \<le> nr_created_at a)
      (queryRecordsByDomain L query fqdn zone relays mx)"
    by (auto simp: queryRecordsByDomain_def Let_def sorted_dedup split: option.split)
  ultimately show ?thesis by blast
qed

end
