(* ===== verification/Js_Regex.thy ===== *)
theory Js_Regex
  imports Js_String
begin

text \<open>
  The regular expressions of the sources. They use classes, concatenation, alternation, groups
  and bounded or unbounded repetition, no look-around and no back reference, so whether a test
  succeeds is membership in a regular language whatever the order of backtracking. A pattern is
  an \<open>rx\<close>; \<open>full_match\<close> decides \<open>/^r$/.test(s)\<close> and \<open>prefix_match\<close> decides \<open>/^r/.test(s)\<close>
  by Brzozowski derivatives, and both are proved against the language \<open>lang\<close>.
\<close>

named_theorems rx_lang \<open>languages of the pattern combinators\<close>

datatype rx = Void | Eps | Cls "char \<Rightarrow> bool" | Alt rx rx | Seq rx rx | Star rx

section \<open>Languages\<close>

definition conc :: "string set \<Rightarrow> string set \<Rightarrow> string set" where
  "conc A B = {u @ v | u v. u \<in> A \<and> v \<in> B}"

definition star :: "string set \<Rightarrow> string set" where
  "star A = {concat ws | ws. set ws \<subseteq> A}"

primrec lang :: "rx \<Rightarrow> string set" where
  "lang Void = {}"
| "lang Eps = {[]}"
| "lang (Cls P) = {[c] | c. P c}"
| "lang (Alt r s) = lang r \<union> lang s"
| "lang (Seq r s) = conc (lang r) (lang s)"
| "lang (Star r) = star (lang r)"

lemma in_conc: "w \<in> conc A B \<longleftrightarrow> (\<exists>u v. w = u @ v \<and> u \<in> A \<and> v \<in> B)"
  by (auto simp: conc_def)

lemma in_star: "w \<in> star A \<longleftrightarrow> (\<exists>ws. w = concat ws \<and> set ws \<subseteq> A)"
  by (auto simp: star_def)

lemma Nil_in_star [simp]: "[] \<in> star A"
  by (auto simp: in_star intro: exI [of _ "[]"])

lemma star_Cons_iff: "c # w \<in> star A \<longleftrightarrow> (\<exists>u v. w = u @ v \<and> c # u \<in> A \<and> v \<in> star A)"
proof
  assume "c # w \<in> star A"
  then obtain ws where ws: "c # w = concat ws" "set ws \<subseteq> A" by (auto simp: in_star)
  then show "\<exists>u v. w = u @ v \<and> c # u \<in> A \<and> v \<in> star A"
  proof (induction ws)
    case Nil
    then show ?case by simp
  next
    case (Cons x xs)
    show ?case
    proof (cases x)
      case Nil
      with Cons show ?thesis by simp
    next
      case (Cons d u)
      with Cons.prems have "w = u @ concat xs" "c # u \<in> A" "concat xs \<in> star A"
        by (auto simp: in_star)
      then show ?thesis by blast
    qed
  qed
next
  assume "\<exists>u v. w = u @ v \<and> c # u \<in> A \<and> v \<in> star A"
  then obtain u ws where "w = u @ concat ws" "c # u \<in> A" "set ws \<subseteq> A" by (auto simp: in_star)
  then show "c # w \<in> star A"
    unfolding in_star by (intro exI [of _ "(c # u) # ws"]) simp
qed

lemma conc_Cons_iff:
  "c # w \<in> conc A B \<longleftrightarrow> (\<exists>u v. w = u @ v \<and> c # u \<in> A \<and> v \<in> B) \<or> ([] \<in> A \<and> c # w \<in> B)"
  by (auto simp: in_conc Cons_eq_append_conv)

lemma conc_Cls: "w \<in> conc {[c] | c. P c} B \<longleftrightarrow> (\<exists>c v. w = c # v \<and> P c \<and> v \<in> B)"
  unfolding conc_def mem_Collect_eq by (metis append_Cons append_Nil)

section \<open>The matcher\<close>

primrec nullable :: "rx \<Rightarrow> bool" where
  "nullable Void = False"
| "nullable Eps = True"
| "nullable (Cls P) = False"
| "nullable (Alt r s) = (nullable r \<or> nullable s)"
| "nullable (Seq r s) = (nullable r \<and> nullable s)"
| "nullable (Star r) = True"

text \<open>Constructors that keep derivatives small.\<close>

fun alt :: "rx \<Rightarrow> rx \<Rightarrow> rx" where
  "alt Void s = s"
| "alt r Void = r"
| "alt r s = Alt r s"

fun seq :: "rx \<Rightarrow> rx \<Rightarrow> rx" where
  "seq Void s = Void"
| "seq r Void = Void"
| "seq Eps s = s"
| "seq r s = Seq r s"

primrec deriv :: "char \<Rightarrow> rx \<Rightarrow> rx" where
  "deriv c Void = Void"
| "deriv c Eps = Void"
| "deriv c (Cls P) = (if P c then Eps else Void)"
| "deriv c (Alt r s) = alt (deriv c r) (deriv c s)"
| "deriv c (Seq r s) =
     (if nullable r then alt (seq (deriv c r) s) (deriv c s) else seq (deriv c r) s)"
| "deriv c (Star r) = seq (deriv c r) (Star r)"

primrec full_match :: "rx \<Rightarrow> string \<Rightarrow> bool" where
  "full_match r [] = nullable r"
| "full_match r (c # s) = full_match (deriv c r) s"

primrec prefix_match :: "rx \<Rightarrow> string \<Rightarrow> bool" where
  "prefix_match r [] = nullable r"
| "prefix_match r (c # s) = (nullable r \<or> prefix_match (deriv c r) s)"

lemma nullable_lang [simp]: "nullable r \<longleftrightarrow> [] \<in> lang r"
  by (induction r) (auto simp: in_conc)

lemma lang_alt [simp]: "lang (alt r s) = lang r \<union> lang s"
  by (induction r s rule: alt.induct) auto

lemma lang_seq [simp]: "lang (seq r s) = conc (lang r) (lang s)"
  by (induction r s rule: seq.induct) (auto simp: conc_def)

lemma deriv_lang: "w \<in> lang (deriv c r) \<longleftrightarrow> c # w \<in> lang r"
proof (induction r arbitrary: w)
  case (Seq r s)
  have "w \<in> conc (lang (deriv c r)) (lang s) \<longleftrightarrow>
      (\<exists>u v. w = u @ v \<and> c # u \<in> lang r \<and> v \<in> lang s)"
    by (simp add: in_conc Seq)
  then show ?case by (auto simp: conc_Cons_iff Seq)
next
  case (Star r)
  have "w \<in> conc (lang (deriv c r)) (star (lang r)) \<longleftrightarrow>
      (\<exists>u v. w = u @ v \<and> c # u \<in> lang r \<and> v \<in> star (lang r))"
    by (simp add: in_conc Star)
  then show ?case by (simp add: star_Cons_iff)
qed auto

theorem full_match_lang: "full_match r s \<longleftrightarrow> s \<in> lang r"
  by (induction s arbitrary: r) (auto simp: deriv_lang)

theorem prefix_match_lang: "prefix_match r s \<longleftrightarrow> (\<exists>u v. s = u @ v \<and> u \<in> lang r)"
proof (induction s arbitrary: r)
  case Nil
  then show ?case by simp
next
  case (Cons c s)
  have "(\<exists>u v. c # s = u @ v \<and> u \<in> lang r) \<longleftrightarrow>
      [] \<in> lang r \<or> (\<exists>u v. s = u @ v \<and> c # u \<in> lang r)"
    by (auto simp: Cons_eq_append_conv)
  with Cons show ?case by (simp add: deriv_lang)
qed

section \<open>Combinators\<close>

definition Lit :: "char \<Rightarrow> rx" where
  "Lit c = Cls (\<lambda>d. d = c)"

fun Str :: "string \<Rightarrow> rx" where
  "Str [] = Eps"
| "Str (c # s) = Seq (Lit c) (Str s)"

definition Opt :: "rx \<Rightarrow> rx" where
  "Opt r = Alt Eps r"

definition Plus :: "rx \<Rightarrow> rx" where
  "Plus r = Seq r (Star r)"

text \<open>\<open>r{n}\<close> and \<open>r{0,n}\<close>; \<open>r{m,n}\<close> is \<open>Seq (Rep m r) (UpTo (n - m) r)\<close>.\<close>

primrec Rep :: "nat \<Rightarrow> rx \<Rightarrow> rx" where
  "Rep 0 r = Eps"
| "Rep (Suc n) r = Seq r (Rep n r)"

primrec UpTo :: "nat \<Rightarrow> rx \<Rightarrow> rx" where
  "UpTo 0 r = Eps"
| "UpTo (Suc n) r = Alt Eps (Seq r (UpTo n r))"

definition Between :: "nat \<Rightarrow> nat \<Rightarrow> rx \<Rightarrow> rx" where
  "Between m n r = Seq (Rep m r) (UpTo (n - m) r)"

lemma lang_Lit [simp]: "lang (Lit c) = {[c]}"
  by (auto simp: Lit_def)

lemma lang_Str [simp]: "lang (Str s) = {s}"
  by (induction s) (auto simp: conc_def)

lemma lang_Opt [simp]: "lang (Opt r) = insert [] (lang r)"
  by (simp add: Opt_def)

lemma lang_Star_Cls: "lang (Star (Cls P)) = {w. list_all P w}"
proof
  show "lang (Star (Cls P)) \<subseteq> {w. list_all P w}"
    by (fastforce simp: in_star list_all_iff)
  show "{w. list_all P w} \<subseteq> lang (Star (Cls P))"
  proof
    fix w assume "w \<in> {w. list_all P w}"
    then have "w = concat (map (\<lambda>c. [c]) w)" "set (map (\<lambda>c. [c]) w) \<subseteq> {[c] | c. P c}"
      by (auto simp: list_all_iff)
    then show "w \<in> lang (Star (Cls P))" unfolding lang.simps in_star by blast
  qed
qed

lemma lang_Plus_Cls: "lang (Plus (Cls P)) = {w. w \<noteq> [] \<and> list_all P w}"
proof -
  have "w \<in> lang (Plus (Cls P)) \<longleftrightarrow> w \<noteq> [] \<and> list_all P w" for w
    by (cases w) (auto simp: Plus_def lang_Star_Cls conc_Cls simp del: lang.simps(6))
  then show ?thesis by blast
qed

lemma lang_Rep_Cls: "lang (Rep n (Cls P)) = {w. length w = n \<and> list_all P w}"
proof (induction n)
  case 0
  then show ?case by auto
next
  case (Suc n)
  have "w \<in> lang (Rep (Suc n) (Cls P)) \<longleftrightarrow> length w = Suc n \<and> list_all P w" for w
    by (cases w) (auto simp: Suc conc_Cls)
  then show ?case by blast
qed

lemma lang_UpTo_Cls: "lang (UpTo n (Cls P)) = {w. length w \<le> n \<and> list_all P w}"
proof (induction n)
  case 0
  then show ?case by auto
next
  case (Suc n)
  have "w \<in> lang (UpTo (Suc n) (Cls P)) \<longleftrightarrow> length w \<le> Suc n \<and> list_all P w" for w
    by (cases w) (auto simp: Suc conc_Cls)
  then show ?case by blast
qed

lemma lang_Between_Cls:
  assumes "m \<le> n"
  shows "lang (Between m n (Cls P)) = {w. m \<le> length w \<and> length w \<le> n \<and> list_all P w}"
proof -
  have "w \<in> lang (Between m n (Cls P)) \<longleftrightarrow> m \<le> length w \<and> length w \<le> n \<and> list_all P w" for w
  proof
    assume "w \<in> lang (Between m n (Cls P))"
    then show "m \<le> length w \<and> length w \<le> n \<and> list_all P w"
      using assms by (auto simp: Between_def lang_Rep_Cls lang_UpTo_Cls in_conc)
  next
    assume "m \<le> length w \<and> length w \<le> n \<and> list_all P w"
    then have "take m w \<in> lang (Rep m (Cls P))" "drop m w \<in> lang (UpTo (n - m) (Cls P))"
      by (auto simp: lang_Rep_Cls lang_UpTo_Cls list_all_iff dest: in_set_takeD in_set_dropD)
    then show "w \<in> lang (Between m n (Cls P))"
      by (auto simp: Between_def in_conc) (metis append_take_drop_id)
  qed
  then show ?thesis by blast
qed

lemma Seq_Lit_iff: "w \<in> lang (Seq (Lit c) r) \<longleftrightarrow> (\<exists>v. w = c # v \<and> v \<in> lang r)"
  by (auto simp: in_conc)

lemmas [rx_lang] = lang_Star_Cls lang_Plus_Cls lang_Rep_Cls lang_UpTo_Cls in_conc

section \<open>Separated lists\<close>

text \<open>\<open>r(cr)*\<close> matches exactly the strings whose parts between the separators all match
  \<open>r\<close>, when no match of \<open>r\<close> holds a separator.\<close>

lemma star_sep_iff:
  assumes "\<And>w. w \<in> A \<Longrightarrow> c \<notin> set w"
  shows "w \<in> star {c # v | v. v \<in> A} \<longleftrightarrow> w = [] \<or> (\<exists>vs. vs \<noteq> [] \<and> set vs \<subseteq> A \<and> w = c # join [c] vs)"
proof
  assume "w \<in> star {c # v | v. v \<in> A}"
  then obtain ws where w: "w = concat ws" "set ws \<subseteq> {c # v | v. v \<in> A}" by (auto simp: in_star)
  then show "w = [] \<or> (\<exists>vs. vs \<noteq> [] \<and> set vs \<subseteq> A \<and> w = c # join [c] vs)"
  proof (induction ws arbitrary: w)
    case Nil
    then show ?case by simp
  next
    case (Cons x ws)
    then obtain v where v: "x = c # v" "v \<in> A" by auto
    from Cons have "concat ws = [] \<or> (\<exists>vs. vs \<noteq> [] \<and> set vs \<subseteq> A \<and> concat ws = c # join [c] vs)"
      by simp
    then show ?case
    proof
      assume "concat ws = []"
      with Cons.prems v show ?thesis
        by (auto intro!: exI [of _ "[v]"])
    next
      assume "\<exists>vs. vs \<noteq> [] \<and> set vs \<subseteq> A \<and> concat ws = c # join [c] vs"
      then obtain vs where "vs \<noteq> []" "set vs \<subseteq> A" "concat ws = c # join [c] vs" by blast
      with Cons.prems v show ?thesis
        by (auto simp: join_Cons intro!: exI [of _ "v # vs"])
    qed
  qed
next
  assume "w = [] \<or> (\<exists>vs. vs \<noteq> [] \<and> set vs \<subseteq> A \<and> w = c # join [c] vs)"
  then show "w \<in> star {c # v | v. v \<in> A}"
  proof
    assume "\<exists>vs. vs \<noteq> [] \<and> set vs \<subseteq> A \<and> w = c # join [c] vs"
    then obtain vs where vs: "vs \<noteq> []" "set vs \<subseteq> A" "w = c # join [c] vs" by blast
    then have "w = concat (map (\<lambda>v. c # v) vs)"
    proof (induction vs arbitrary: w)
      case (Cons v vs)
      then show ?case by (cases "vs = []") (auto simp: join_Cons)
    qed simp
    with vs(2) show ?thesis unfolding in_star by (intro exI [of _ "map (\<lambda>v. c # v) vs"]) auto
  qed simp
qed

lemma lang_sep_list:
  assumes "\<And>w. w \<in> lang r \<Longrightarrow> c \<notin> set w"
  shows "w \<in> lang (Seq r (Star (Seq (Lit c) r))) \<longleftrightarrow> (\<forall>v \<in> set (split_on c w). v \<in> lang r)"
proof -
  have conc: "conc {[c]} (lang r) = {c # v | v. v \<in> lang r}" by (auto simp: conc_def)
  have "w \<in> lang (Seq r (Star (Seq (Lit c) r))) \<longleftrightarrow>
      (\<exists>vs. vs \<noteq> [] \<and> set vs \<subseteq> lang r \<and> w = join [c] vs)" (is "?L \<longleftrightarrow> ?R")
  proof
    assume ?L
    then obtain u x where w: "w = u @ x" "u \<in> lang r" "x \<in> star {c # v | v. v \<in> lang r}"
      by (auto simp: in_conc conc)
    then have "x = [] \<or> (\<exists>vs. vs \<noteq> [] \<and> set vs \<subseteq> lang r \<and> x = c # join [c] vs)"
      using star_sep_iff [OF assms] by blast
    then show ?R
    proof
      assume "x = []"
      with w show ?thesis by (intro exI [of _ "[u]"]) simp
    next
      assume "\<exists>vs. vs \<noteq> [] \<and> set vs \<subseteq> lang r \<and> x = c # join [c] vs"
      then obtain vs where "vs \<noteq> []" "set vs \<subseteq> lang r" "x = c # join [c] vs" by blast
      with w show ?thesis by (intro exI [of _ "u # vs"]) (simp add: join_Cons)
    qed
  next
    assume ?R
    then obtain v vs where v: "v \<in> lang r" "set vs \<subseteq> lang r" "w = join [c] (v # vs)"
      by (metis insert_subset list.exhaust list.simps(15))
    have "w = v @ (if vs = [] then [] else c # join [c] vs)"
      using v(3) by (cases "vs = []") (auto simp: join_Cons)
    moreover have "(if vs = [] then [] else c # join [c] vs) \<in> star {c # v | v. v \<in> lang r}"
      using star_sep_iff [OF assms] v(2) by auto
    ultimately show ?L unfolding lang.simps lang_Lit conc in_conc using v(1) by blast
  qed
  also have "\<dots> \<longleftrightarrow> (\<forall>v \<in> set (split_on c w). v \<in> lang r)"
  proof
    assume "\<exists>vs. vs \<noteq> [] \<and> set vs \<subseteq> lang r \<and> w = join [c] vs"
    then obtain vs where vs: "vs \<noteq> []" "set vs \<subseteq> lang r" "w = join [c] vs" by blast
    then have "split_on c w = vs" using assms by (auto intro: split_on_join)
    with vs(2) show "\<forall>v \<in> set (split_on c w). v \<in> lang r" by auto
  next
    assume "\<forall>v \<in> set (split_on c w). v \<in> lang r"
    then show "\<exists>vs. vs \<noteq> [] \<and> set vs \<subseteq> lang r \<and> w = join [c] vs"
      by (intro exI [of _ "split_on c w"]) (auto simp: join_split_on)
  qed
  finally show ?thesis .
qed

end
