(* ===== verification/Sdk_Validation.thy ===== *)
theory Sdk_Validation
  imports Sdk_Types Js_Regex
begin

text \<open>
  \<open>nodns-resolver/src/validation.ts\<close>: the checks on record names, record data and keys before a
  record is published. A validator returns \<^const>\<open>None\<close> for the source's \<open>null\<close> (accepted) and
  the message otherwise. The patterns are transcribed as \<^typ>\<open>rx\<close> terms; the lemmas after them
  say which strings they accept.
\<close>

named_theorems valid_defs \<open>definitions of the validators\<close>

section \<open>Patterns\<close>

definition digit :: rx where "digit = Cls is_digit"

definition hexd :: rx where "hexd = Cls is_hex"

definition is_alnum_lower :: "char \<Rightarrow> bool" where
  "is_alnum_lower c \<longleftrightarrow> is_lower c \<or> is_digit c"

definition is_alnum :: "char \<Rightarrow> bool" where
  "is_alnum c \<longleftrightarrow> is_lower c \<or> is_upper c \<or> is_digit c"

definition hyphen :: char where "hyphen = CHR ''-''"

definition dot :: char where "dot = CHR ''.''"

text \<open>\<open>[p]([p-]*[p])?\<close>: the shape of a host name label over the characters \<open>p\<close>.\<close>

definition label_rx :: "(char \<Rightarrow> bool) \<Rightarrow> rx" where
  "label_rx P = Seq (Cls P) (Opt (Seq (Star (Cls (\<lambda>c. P c \<or> c = hyphen))) (Cls P)))"

definition IPV4_RE :: rx where
  "IPV4_RE =
     Seq (Between 1 3 digit) (Seq (Lit dot) (Seq (Between 1 3 digit) (Seq (Lit dot)
       (Seq (Between 1 3 digit) (Seq (Lit dot) (Between 1 3 digit))))))"

definition h14 :: rx where "h14 = Between 1 4 hexd"

definition h04 :: rx where "h04 = UpTo 4 hexd"

definition h14c :: rx where "h14c = Seq h14 (Lit (CHR '':''))"

definition IPV6_RE :: rx where
  "IPV6_RE =
     Alt (Seq (Rep 7 h14c) h14)
     (Alt (Seq (Str ''::'') (Seq (UpTo 5 h14c) h04))
     (Alt (Seq (Between 1 5 h14c) (Seq (Str '':'') (Seq (UpTo 3 h14c) h04)))
     (Alt (Seq (Between 1 4 h14c) (Seq (Str '':'') (Seq (UpTo 2 h14c) h04)))
     (Alt (Seq (Between 1 3 h14c) (Seq (Str '':'') (Seq (UpTo 1 h14c) h04)))
     (Alt (Seq (Between 1 2 h14c) (Seq (Str '':'') h04))
     (Alt (Seq h14 (Seq (Str ''::'') (Seq (UpTo 1 h14c) h04)))
     (Alt (Seq (Str ''::'') (Seq h14 (UpTo 2 (Seq (Str '':'') h14))))
       (Str ''::''))))))))"

definition DOMAIN_RE :: rx where
  "DOMAIN_RE = Seq (label_rx is_alnum) (Star (Seq (Lit dot) (label_rx is_alnum)))"

definition char_in :: "string \<Rightarrow> rx" where
  "char_in s = Cls (\<lambda>c. c \<in> set s)"

definition PRIVATE_IP_RANGES :: "rx list" where
  "PRIVATE_IP_RANGES =
     [Str ''10.'',
      Seq (Str ''172.'') (Seq (Alt (Seq (Str ''1'') (char_in ''6789''))
        (Alt (Seq (Str ''2'') digit) (Seq (Str ''3'') (char_in ''01'')))) (Str ''.'')),
      Str ''192.168.'', Str ''127.'', Str ''169.254.'']"

text \<open>The patterns of \<open>IPV6_PRIVATE\<close> ignore case, except \<open>/^::1$/\<close>, which has no letters.\<close>

definition ipv6_private :: "string \<Rightarrow> bool" where
  "ipv6_private ip \<longleftrightarrow>
     prefix_match (Seq (Str ''fc'') (Seq (Rep 2 hexd) (Str '':''))) (toLowerCase ip) \<or>
     prefix_match (Seq (Str ''fd'') (Seq (Rep 2 hexd) (Str '':''))) (toLowerCase ip) \<or>
     ip = ''::1'' \<or>
     prefix_match (Str ''fe80:'') (toLowerCase ip)"

section \<open>Validators\<close>

definition validateRecordName :: "string \<Rightarrow> string option" where
  "validateRecordName name =
     (if name = [] \<or> name = ''@'' then None
      else if length name > 63 then Some ''Name must be 63 characters or fewer.''
      else if startsWith name ''-'' then Some ''Name cannot start with a hyphen.''
      else if endsWith name ''-'' then Some ''Name cannot end with a hyphen.''
      else if \<not> full_match (Plus (Cls (\<lambda>c. is_alnum_lower c \<or> c = hyphen))) name
        then Some ''Name must be lowercase alphanumeric with hyphens only.''
      else None)"

definition num_greater :: "jsnum \<Rightarrow> int \<Rightarrow> bool" where
  "num_greater x n = (case x of Fin q \<Rightarrow> of_int n < q | PInf \<Rightarrow> True | _ \<Rightarrow> False)"

definition validate_A :: "string \<Rightarrow> string option" where
  "validate_A rdata =
     (let ip = trim rdata in
      if ip = [] then Some ''A record requires an IP address.''
      else if \<not> full_match IPV4_RE ip then Some ''Invalid IPv4 address.''
      else if list_ex (\<lambda>g. num_greater (Number g) 255) (split_on dot ip)
        then Some ''Invalid IPv4 address.''
      else if list_ex (\<lambda>range. prefix_match range ip) PRIVATE_IP_RANGES
        then Some ''Private IP addresses are not allowed.''
      else None)"

definition validate_AAAA :: "string \<Rightarrow> string option" where
  "validate_AAAA rdata =
     (let ip = trim rdata in
      if ip = [] then Some ''AAAA record requires an IP address.''
      else if \<not> full_match IPV6_RE ip then Some ''Invalid IPv6 address.''
      else if ipv6_private ip then Some ''Private IPv6 addresses are not allowed.''
      else None)"

definition validate_domain_target :: "string \<Rightarrow> string \<Rightarrow> string option" where
  "validate_domain_target upperType rdata =
     (if trim rdata = [] then Some (upperType @ '' record requires a target domain.'')
      else if length rdata > 253 then Some (upperType @ '' value too long.'')
      else if \<not> full_match DOMAIN_RE (trim rdata)
        then Some (upperType @ '' record must be a valid domain name.'')
      else None)"

definition validate_MX :: "string list \<Rightarrow> string option" where
  "validate_MX flds =
     (case flds of
        prio # host # _ \<Rightarrow>
          if \<not> integer_in_range 0 65535 (Number prio)
            then Some ''MX priority must be a number (0-65535).''
          else if \<not> full_match DOMAIN_RE host
            then Some ''MX hostname must be a valid domain name.''
          else None
      | _ \<Rightarrow> Some ''MX record requires: priority hostname'')"

fun validate_SRV_fields :: "(string \<times> string) list \<Rightarrow> string option" where
  "validate_SRV_fields [] = None"
| "validate_SRV_fields ((label, field) # rest) =
     (if \<not> integer_in_range 0 65535 (Number field)
      then Some (''SRV '' @ label @ '' must be a number (0-65535).'')
      else validate_SRV_fields rest)"

definition validate_SRV :: "string list \<Rightarrow> string option" where
  "validate_SRV flds =
     (if length flds < 4 then Some ''SRV record requires: priority weight port target''
      else validate_SRV_fields (zip [''priority'', ''weight'', ''port''] flds))"

definition validateRecordData :: "string \<Rightarrow> string \<Rightarrow> string option" where
  "validateRecordData type rdata =
     (let flds = split_spaces (trim rdata); upperType = toUpperCase type in
      if upperType = ''A'' then validate_A rdata
      else if upperType = ''AAAA'' then validate_AAAA rdata
      else if upperType \<in> {''CNAME'', ''NS'', ''PTR''} then validate_domain_target upperType rdata
      else if upperType = ''TXT'' then
        (if length rdata > 512
         then Some (''TXT record must not exceed 512 characters (currently '' @
           show_int (int (length rdata)) @ '').'')
         else None)
      else if upperType = ''MX'' then validate_MX flds
      else if upperType = ''SRV'' then validate_SRV flds
      else Some (''Unsupported record type: '' @ type))"

definition validateReservedTxt :: "string \<Rightarrow> string \<Rightarrow> string \<Rightarrow> string option" where
  "validateReservedTxt type name rdata =
     (if toUpperCase type \<noteq> ''TXT'' then None
      else
        let normalizedName = (if name = [] then ''@'' else name); trimmedRdata = trimStart rdata in
        if normalizedName = ''_dmarc'' then Some ''TXT records at _dmarc are reserved (DMARC policy).''
        else if startsWith normalizedName ''_domainkey''
          then Some ''TXT records starting with \"_domainkey\" are reserved (DKIM).''
        else if (normalizedName = ''@'' \<or> normalizedName = []) \<and> startsWith trimmedRdata ''v=spf1''
          then Some ''TXT records with \"v=spf1\" at the apex are reserved (SPF).''
        else None)"

definition validateRecord :: "string \<Rightarrow> string \<Rightarrow> string \<Rightarrow> string option" where
  "validateRecord type name rdata =
     (case validateRecordName name of
        Some e \<Rightarrow> Some e
      | None \<Rightarrow>
          (case validateRecordData type rdata of
             Some e \<Rightarrow> Some e
           | None \<Rightarrow> validateReservedTxt type name rdata))"

definition validateDomainName :: "string \<Rightarrow> string option" where
  "validateDomainName name =
     (if name = [] then Some ''Name cannot be empty''
      else if length name > 63 then Some ''Name too long (max 63 characters)''
      else if \<not> full_match (label_rx is_alnum_lower) name
        then Some ''Only lowercase letters, numbers, and hyphens allowed''
      else None)"

definition validateNsec :: "string \<Rightarrow> string option" where
  "validateNsec nsec =
     (if \<not> startsWith nsec ''nsec1'' then Some (''Invalid nsec: must start with '' @ [CHR 0x27] @ ''nsec1'' @ [CHR 0x27])
      else if length nsec < 40 then Some ''Invalid nsec: too short''
      else None)"

section \<open>What the patterns accept\<close>

lemma code_of_dot [simp]: "code_of dot = 46" and code_of_hyphen [simp]: "code_of hyphen = 45"
  by (simp_all add: dot_def hyphen_def code_of_def)

lemma not_digit_dot [simp]: "\<not> is_digit dot" and not_digit_hyphen [simp]: "\<not> is_digit hyphen"
  by (simp_all add: is_digit_def)

lemma not_alnum_dot [simp]: "\<not> is_alnum dot" "\<not> is_alnum_lower dot" "dot \<noteq> hyphen" "hyphen \<noteq> dot"
  by (simp_all add: is_alnum_def is_alnum_lower_def is_lower_def is_upper_def is_digit_def)
    (simp_all add: dot_def hyphen_def)

lemma not_alnum_hyphen [simp]: "\<not> is_alnum hyphen" "\<not> is_alnum_lower hyphen"
  by (simp_all add: is_alnum_def is_alnum_lower_def is_lower_def is_upper_def is_digit_def)

text \<open>A host name label: letters, digits and hyphens, no hyphen at either end.\<close>

definition ldh_label :: "(char \<Rightarrow> bool) \<Rightarrow> string \<Rightarrow> bool" where
  "ldh_label P s \<longleftrightarrow> s \<noteq> [] \<and> list_all (\<lambda>c. P c \<or> c = hyphen) s \<and> hd s \<noteq> hyphen \<and> last s \<noteq> hyphen"

lemma in_label_rx:
  assumes "\<not> P hyphen"
  shows "s \<in> lang (label_rx P) \<longleftrightarrow> ldh_label P s"
proof
  assume "s \<in> lang (label_rx P)"
  then obtain c v where s: "s = c # v" "P c"
    and v: "v = [] \<or> v \<in> conc {w. list_all (\<lambda>c. P c \<or> c = hyphen) w} {[c] | c. P c}"
    by (auto simp: label_rx_def conc_Cls lang_Star_Cls simp del: lang.simps(6))
  from v show "ldh_label P s"
  proof
    assume "v = []"
    with s assms show ?thesis by (auto simp: ldh_label_def)
  next
    assume "v \<in> conc {w. list_all (\<lambda>c. P c \<or> c = hyphen) w} {[c] | c. P c}"
    then obtain w d where "v = w @ [d]" "list_all (\<lambda>c. P c \<or> c = hyphen) w" "P d"
      by (auto simp: in_conc)
    with s assms show ?thesis by (auto simp: ldh_label_def)
  qed
next
  assume l: "ldh_label P s"
  then obtain c v where s: "s = c # v" by (cases s) (auto simp: ldh_label_def)
  with l have c: "P c" by (auto simp: ldh_label_def)
  show "s \<in> lang (label_rx P)"
  proof (cases v rule: rev_cases)
    case Nil
    with s c show ?thesis by (auto simp: label_rx_def conc_Cls)
  next
    case (snoc w d)
    with l s have "list_all (\<lambda>c. P c \<or> c = hyphen) w" "P d" by (auto simp: ldh_label_def)
    with snoc have "v \<in> conc {w. list_all (\<lambda>c. P c \<or> c = hyphen) w} {[c] | c. P c}"
      by (auto simp: in_conc)
    with s c show ?thesis
      by (auto simp: label_rx_def conc_Cls lang_Star_Cls simp del: lang.simps(6))
  qed
qed

lemma domain_re_iff:
  "full_match DOMAIN_RE s \<longleftrightarrow> (\<forall>l \<in> set (split_on dot s). ldh_label is_alnum l)"
proof -
  have nd: "dot \<notin> set w" if "w \<in> lang (label_rx is_alnum)" for w
  proof -
    from that have "ldh_label is_alnum w" by (simp add: in_label_rx)
    then show ?thesis by (auto simp: ldh_label_def list_all_iff)
  qed
  show ?thesis
    unfolding full_match_lang DOMAIN_RE_def
    by (subst lang_sep_list) (auto simp: nd in_label_rx)
qed

text \<open>An IPv4 address as \<open>IPV4_RE\<close> reads it: four parts of one to three digits.\<close>

definition octet_text :: "string \<Rightarrow> bool" where
  "octet_text p \<longleftrightarrow> 1 \<le> length p \<and> length p \<le> 3 \<and> list_all is_digit p"

lemma lang_octet: "w \<in> lang (Between 1 3 digit) \<longleftrightarrow> octet_text w"
  unfolding digit_def by (subst lang_Between_Cls) (auto simp: octet_text_def)

lemma octet_no_dot: "octet_text p \<Longrightarrow> dot \<notin> set p"
  by (auto simp: octet_text_def list_all_iff)

lemma conc_Lit: "w \<in> conc A (conc {[c]} B) \<longleftrightarrow> (\<exists>a v. w = a @ c # v \<and> a \<in> A \<and> v \<in> B)"
  by (auto simp: in_conc)

lemma ipv4_re_parts:
  "full_match IPV4_RE s \<longleftrightarrow>
     (\<exists>a b c d. s = a @ dot # b @ dot # c @ dot # d \<and>
        octet_text a \<and> octet_text b \<and> octet_text c \<and> octet_text d)"
proof -
  let ?D = "lang (Between 1 3 digit)"
  have "full_match IPV4_RE s \<longleftrightarrow>
      s \<in> conc ?D (conc {[dot]} (conc ?D (conc {[dot]} (conc ?D (conc {[dot]} ?D)))))"
    unfolding full_match_lang IPV4_RE_def by simp
  also have "\<dots> \<longleftrightarrow> (\<exists>a v b u c d. s = a @ dot # v \<and> v = b @ dot # u \<and> u = c @ dot # d \<and>
      octet_text a \<and> octet_text b \<and> octet_text c \<and> octet_text d)"
    unfolding conc_Lit lang_octet by blast
  finally show ?thesis by blast
qed

lemma ipv4_re_iff:
  "full_match IPV4_RE s \<longleftrightarrow> length (split_on dot s) = 4 \<and> (\<forall>p \<in> set (split_on dot s). octet_text p)"
proof
  assume "full_match IPV4_RE s"
  then obtain a b c d where "s = a @ dot # b @ dot # c @ dot # d"
      and o: "octet_text a" "octet_text b" "octet_text c" "octet_text d"
    unfolding ipv4_re_parts by blast
  then have "split_on dot s = [a, b, c, d]"
    by (simp add: split_on_append split_on_no_sep octet_no_dot)
  with o show "length (split_on dot s) = 4 \<and> (\<forall>p \<in> set (split_on dot s). octet_text p)" by simp
next
  assume h: "length (split_on dot s) = 4 \<and> (\<forall>p \<in> set (split_on dot s). octet_text p)"
  then have "length (split_on dot s) = Suc (Suc (Suc (Suc 0)))" by simp
  then obtain a b c d where p: "split_on dot s = [a, b, c, d]"
    by (auto simp: length_Suc_conv)
  then have "s = a @ dot # b @ dot # c @ dot # d"
    using join_split_on [of dot s] by simp
  moreover have "octet_text a" "octet_text b" "octet_text c" "octet_text d" using h p by auto
  ultimately show "full_match IPV4_RE s" unfolding ipv4_re_parts by blast
qed

lemma Number_octet: "octet_text p \<Longrightarrow> num_greater (Number p) 255 \<longleftrightarrow> 255 < digits_val p"
proof -
  assume o: "octet_text p"
  have "digits_val q < 10 ^ length q" if "list_all is_digit q" for q
    using that
  proof (induction q rule: rev_induct)
    case (snoc c q)
    have "digit_val c \<le> 9" using snoc.prems by (auto simp: is_digit_def digit_val_def)
    with snoc show ?case by (simp add: digits_val_append)
  qed (simp add: digits_val_def)
  then have "digits_val p < 10 ^ length p" using o by (simp add: octet_text_def)
  also have "\<dots> \<le> 10 ^ 3" using o by (intro power_increasing) (auto simp: octet_text_def)
  finally have "binary64 (of_nat (digits_val p)) = Fin (of_nat (digits_val p))"
    by (intro binary64_small_nat) simp
  moreover have "Number p = binary64 (of_nat (digits_val p))"
    using o by (intro Number_digits) (auto simp: octet_text_def)
  moreover have "(255 :: rat) < of_nat n \<longleftrightarrow> 255 < n" for n
    by (metis of_nat_less_iff of_nat_numeral)
  ultimately show ?thesis by (simp add: num_greater_def)
qed

lemma is_digit_mem: "is_digit c \<longleftrightarrow> c \<in> set ''0123456789''"
proof
  have chars: "map char_of [48 ..< 58 :: nat] = ''0123456789''" by code_simp
  assume "is_digit c"
  then have "code_of c \<in> set [48 ..< 58]" unfolding set_upt atLeastLessThan_iff is_digit_def by linarith
  then have "char_of (code_of c) \<in> set (map char_of [48 ..< 58 :: nat])" by (metis image_eqI list.set_map)
  then show "c \<in> set ''0123456789''" unfolding chars by (simp add: code_of_def)
qed (auto simp: is_digit_def code_of_def)

section \<open>Printed addresses and the private ranges\<close>

definition dotted :: "nat \<Rightarrow> nat \<Rightarrow> nat \<Rightarrow> nat \<Rightarrow> string" where
  "dotted a b c d = show_nat a @ dot # show_nat b @ dot # show_nat c @ dot # show_nat d"

lemma show_nat_no_dot [simp]: "dot \<notin> set (show_nat n)"
  using show_nat_digits [of n] by (auto simp: list_all_iff)

lemma length_show_nat_3: "n < 1000 \<Longrightarrow> length (show_nat n) \<le> 3"
proof -
  assume n: "n < 1000"
  have 1: "length (show_nat k) = 1" if "k < 10" for k using that by (subst show_nat.simps) simp
  have 2: "length (show_nat k) \<le> 2" if "k < 100" for k
    using that 1 [of "k div 10"] by (subst show_nat.simps) auto
  show ?thesis
    using n 2 [of "n div 10"] by (subst show_nat.simps) auto
qed

lemma octet_text_show_nat: "n \<le> 255 \<Longrightarrow> octet_text (show_nat n)"
  using length_show_nat_3 [of n] show_nat_nonempty [of n]
  by (simp add: octet_text_def show_nat_digits Suc_leI)

lemma startsWith_label:
  "dot \<notin> set u \<Longrightarrow> dot \<notin> set p \<Longrightarrow> startsWith (u @ dot # r) (p @ dot # q) \<longleftrightarrow> u = p \<and> startsWith r q"
proof (induction u arbitrary: p)
  case Nil
  then show ?case by (cases p) auto
next
  case (Cons c u)
  then show ?case by (cases p) auto
qed

lemma prefix_match_Str: "prefix_match (Str p) s \<longleftrightarrow> startsWith s p"
  by (auto simp: prefix_match_lang startsWith_iff)

lemma show_nat_small:
  "show_nat 10 = ''10''" "show_nat 127 = ''127''" "show_nat 169 = ''169''" "show_nat 254 = ''254''"
  "show_nat 172 = ''172''" "show_nat 192 = ''192''" "show_nat 168 = ''168''"
  by code_simp+

lemma show_nat_eq: "show_nat m = show_nat n \<longleftrightarrow> m = n"
  using show_nat_inj by blast

definition rx_172 :: rx where
  "rx_172 = Alt (Seq (Str ''1'') (char_in ''6789''))
     (Alt (Seq (Str ''2'') digit) (Seq (Str ''3'') (char_in ''01'')))"

lemma lang_172: "w \<in> lang rx_172 \<longleftrightarrow> w \<in> set (map show_nat [16..<32])"
proof -
  have "map show_nat [16..<32] =
      [''16'', ''17'', ''18'', ''19'', ''20'', ''21'', ''22'', ''23'', ''24'', ''25'', ''26'', ''27'',
       ''28'', ''29'', ''30'', ''31'']" by code_simp
  moreover have "w \<in> lang rx_172 \<longleftrightarrow>
      (\<exists>c. (w = [CHR ''1'', c] \<and> c \<in> set ''6789'') \<or> (w = [CHR ''2'', c] \<and> c \<in> set ''0123456789'') \<or>
        (w = [CHR ''3'', c] \<and> c \<in> set ''01''))"
    unfolding rx_172_def char_in_def digit_def by (auto simp: in_conc is_digit_mem)
  ultimately show ?thesis by auto
qed

lemma prefix_match_172:
  "prefix_match (Seq (Str ''172.'') (Seq rx_172 (Str ''.''))) (dotted a b c d) \<longleftrightarrow>
     a = 172 \<and> 16 \<le> b \<and> b \<le> 31"
proof -
  have nd: "dot \<notin> set w" if "w \<in> lang rx_172" for w
    using that by (auto simp: lang_172)
  have d: "''172.'' = ''172'' @ [dot]" "''.'' = [dot]" by (simp_all add: dot_def)
  have n: "dot \<notin> set ''172''" by (simp add: dot_def)
  have "prefix_match (Seq (Str ''172.'') (Seq rx_172 (Str ''.''))) (dotted a b c d) \<longleftrightarrow>
      (\<exists>w. w \<in> lang rx_172 \<and> startsWith (dotted a b c d) (''172'' @ dot # w @ dot # []))"
  proof -
    have "u \<in> lang (Seq (Str ''172.'') (Seq rx_172 (Str ''.''))) \<longleftrightarrow>
        (\<exists>w. w \<in> lang rx_172 \<and> u = ''172'' @ dot # w @ dot # [])" for u
      unfolding d by (auto simp: in_conc)
    then show ?thesis unfolding prefix_match_lang startsWith_iff by metis
  qed
  also have "\<dots> \<longleftrightarrow> (\<exists>w. w \<in> lang rx_172 \<and> show_nat a = ''172'' \<and> show_nat b = w)"
    unfolding dotted_def using nd n
    by (metis (no_types, lifting) show_nat_no_dot startsWith_Nil startsWith_label)
  also have "\<dots> \<longleftrightarrow> a = 172 \<and> 16 \<le> b \<and> b \<le> 31"
  proof -
    have "show_nat b \<in> set (map show_nat [16 ..< 32]) \<longleftrightarrow> b \<in> {16 ..< 32}"
      unfolding set_map set_upt image_iff show_nat_eq by blast
    then show ?thesis unfolding show_nat_small [symmetric] show_nat_eq lang_172 by auto
  qed
  finally show ?thesis .
qed

lemma prefix_match_dotted:
  "prefix_match (Str ''10.'') (dotted a b c d) \<longleftrightarrow> a = 10"
  "prefix_match (Str ''127.'') (dotted a b c d) \<longleftrightarrow> a = 127"
  "prefix_match (Str ''192.168.'') (dotted a b c d) \<longleftrightarrow> a = 192 \<and> b = 168"
  "prefix_match (Str ''169.254.'') (dotted a b c d) \<longleftrightarrow> a = 169 \<and> b = 254"
proof -
  have e: "''10.'' = show_nat 10 @ dot # []" "''127.'' = show_nat 127 @ dot # []"
      "''192.168.'' = show_nat 192 @ dot # show_nat 168 @ dot # []"
      "''169.254.'' = show_nat 169 @ dot # show_nat 254 @ dot # []"
    unfolding show_nat_small by (simp_all add: dot_def)
  show "prefix_match (Str ''10.'') (dotted a b c d) \<longleftrightarrow> a = 10"
    "prefix_match (Str ''127.'') (dotted a b c d) \<longleftrightarrow> a = 127"
    "prefix_match (Str ''192.168.'') (dotted a b c d) \<longleftrightarrow> a = 192 \<and> b = 168"
    "prefix_match (Str ''169.254.'') (dotted a b c d) \<longleftrightarrow> a = 169 \<and> b = 254"
    unfolding e prefix_match_Str dotted_def
    by (simp_all add: startsWith_label show_nat_eq)
qed

definition private_octets :: "nat \<Rightarrow> nat \<Rightarrow> bool" where
  "private_octets a b \<longleftrightarrow> a = 10 \<or> a = 127 \<or> (a = 172 \<and> 16 \<le> b \<and> b \<le> 31) \<or>
     (a = 192 \<and> b = 168) \<or> (a = 169 \<and> b = 254)"

lemma private_ranges_dotted:
  "list_ex (\<lambda>range. prefix_match range (dotted a b c d)) PRIVATE_IP_RANGES \<longleftrightarrow> private_octets a b"
  unfolding PRIVATE_IP_RANGES_def list_ex_Nil_iff list_ex_Cons_iff prefix_match_dotted
    prefix_match_172 [unfolded rx_172_def] private_octets_def by blast

lemma split_dotted: "split_on dot (dotted a b c d) = [show_nat a, show_nat b, show_nat c, show_nat d]"
  by (simp add: dotted_def split_on_append split_on_no_sep)

lemma digit_not_space: "is_digit c \<Longrightarrow> \<not> is_space c"
  by (auto simp: is_digit_def is_space_def)

lemma trim_dotted: "trim (dotted a b c d) = dotted a b c d"
proof (rule trim_no_space)
  have "\<not> is_space dot" by (simp add: is_space_def)
  then show "list_all (\<lambda>c. \<not> is_space c) (dotted a b c d)"
    using show_nat_digits by (auto simp: dotted_def list_all_iff digit_not_space)
qed

section \<open>Properties\<close>

lemma name_chars_iff:
  "full_match (Plus (Cls (\<lambda>c. is_alnum_lower c \<or> c = hyphen))) s \<longleftrightarrow>
     s \<noteq> [] \<and> list_all (\<lambda>c. is_alnum_lower c \<or> c = hyphen) s"
  by (auto simp: full_match_lang lang_Plus_Cls)

lemma hyphen_ends:
  "startsWith s ''-'' \<longleftrightarrow> s \<noteq> [] \<and> hd s = hyphen" "endsWith s ''-'' \<longleftrightarrow> s \<noteq> [] \<and> last s = hyphen"
proof -
  show "startsWith s ''-'' \<longleftrightarrow> s \<noteq> [] \<and> hd s = hyphen"
    by (cases s) (auto simp: startsWith_def hyphen_def)
  show "endsWith s ''-'' \<longleftrightarrow> s \<noteq> [] \<and> last s = hyphen"
    by (cases s rule: rev_cases) (auto simp: endsWith_iff hyphen_def)
qed

lemma validateRecordName_iff:
  "validateRecordName name = None \<longleftrightarrow>
     name = [] \<or> name = ''@'' \<or> (length name \<le> 63 \<and> ldh_label is_alnum_lower name)"
  by (auto simp: validateRecordName_def name_chars_iff hyphen_ends ldh_label_def)

lemma validateDomainName_iff:
  "validateDomainName name = None \<longleftrightarrow> length name \<le> 63 \<and> ldh_label is_alnum_lower name"
  by (auto simp: validateDomainName_def full_match_lang in_label_rx ldh_label_def)

text \<open>
  C28. A record name is accepted exactly when it is the apex (empty or \<open>@\<close>) or a host name label of
  at most 63 lower-case letters, digits and hyphens with no hyphen at either end.
\<close>

theorem validateRecordName_spec:
  "validateRecordName name = None \<longleftrightarrow>
     name = [] \<or> name = ''@'' \<or> (length name \<le> 63 \<and> ldh_label is_alnum_lower name)"
  by (rule validateRecordName_iff)

text \<open>
  The registrar's check of a domain name, a single pattern, and the check of a record name, four
  separate tests, accept the same labels: they differ on the two spellings of the apex only.
\<close>

theorem validateDomainName_agrees:
  "validateDomainName name = None \<longleftrightarrow>
     validateRecordName name = None \<and> name \<notin> {[], ''@''}"
proof -
  have "\<not> ldh_label is_alnum_lower ''@''" by code_simp
  moreover have "\<not> ldh_label is_alnum_lower []" by (simp add: ldh_label_def)
  ultimately show ?thesis unfolding validateRecordName_iff validateDomainName_iff by auto
qed

lemma validate_A_dotted:
  assumes "a \<le> 255" "b \<le> 255" "c \<le> 255" "d \<le> 255"
  shows "validate_A (dotted a b c d) =
    (if private_octets a b then Some ''Private IP addresses are not allowed.'' else None)"
proof -
  have o: "octet_text (show_nat x)" if "x \<le> 255" for x using that by (rule octet_text_show_nat)
  have re: "full_match IPV4_RE (dotted a b c d)"
    unfolding ipv4_re_iff split_dotted using assms o by simp
  have "\<not> list_ex (\<lambda>g. num_greater (Number g) 255) (split_on dot (dotted a b c d))"
    unfolding split_dotted using assms by (simp add: Number_octet o digits_val_show_nat)
  moreover have "dotted a b c d \<noteq> []" by (simp add: dotted_def)
  ultimately show ?thesis
    using re by (simp add: validate_A_def Let_def trim_dotted private_ranges_dotted)
qed

text \<open>
  C29. For the address of four octets in plain decimal the A check refuses exactly the private,
  loopback and link-local ranges.
\<close>

theorem validateRecordData_A_private:
  assumes "a \<le> 255" "b \<le> 255" "c \<le> 255" "d \<le> 255"
  shows "validateRecordData ''A'' (dotted a b c d) =
    (if private_octets a b then Some ''Private IP addresses are not allowed.'' else None)"
proof -
  have "toUpperCase ''A'' = ''A''" by code_simp
  then show ?thesis by (simp add: validateRecordData_def Let_def validate_A_dotted assms)
qed

theorem validateRecordData_A_private_witness:
  "validateRecordData ''A'' (dotted 172 20 0 1) = Some ''Private IP addresses are not allowed.'' \<and>
   validateRecordData ''A'' (dotted 93 184 215 14) = None"
  using validateRecordData_A_private [of 172 20 0 1] validateRecordData_A_private [of 93 184 215 14]
  by (simp add: private_octets_def)

lemma validate_A_leading_zero:
  assumes "a \<le> 99" "b \<le> 255" "c \<le> 255" "d \<le> 255"
  shows "validate_A (CHR ''0'' # dotted a b c d) = None"
proof -
  let ?ip = "CHR ''0'' # dotted a b c d"
  have len: "length (show_nat k) \<le> 2" if "k < 100" for k
    using that by (subst show_nat.simps, subst show_nat.simps) auto
  have z: "is_digit (CHR ''0'')" "CHR ''0'' \<noteq> dot" by (simp_all add: is_digit_code dot_def)
  have o: "octet_text (CHR ''0'' # show_nat a)"
    using len [of a] assms z by (simp add: octet_text_def show_nat_digits)
  have v: "digits_val (CHR ''0'' # show_nat a) = a"
    using digits_val_show_nat [of a] by (simp add: digits_val_def digit_val_def code_of_def)
  have ob: "octet_text (show_nat x)" if "x \<le> 255" for x using that by (rule octet_text_show_nat)
  have sp: "split_on dot ?ip = [CHR ''0'' # show_nat a, show_nat b, show_nat c, show_nat d]"
    using z split_on_append [of dot "CHR ''0'' # show_nat a"]
    by (simp add: dotted_def split_on_append split_on_no_sep)
  have re: "full_match IPV4_RE ?ip"
    unfolding ipv4_re_iff sp using assms o ob by simp
  have oct: "\<not> list_ex (\<lambda>g. num_greater (Number g) 255) (split_on dot ?ip)"
    unfolding sp using assms by (simp add: Number_octet o ob v digits_val_show_nat)
  have head: "\<not> prefix_match (Str (CHR ''1'' # p)) ?ip" for p
    unfolding prefix_match_Str by simp
  have head2: "\<not> prefix_match (Seq (Str (CHR ''1'' # p)) r) ?ip" for p r
    unfolding prefix_match_lang startsWith_iff by (auto simp: in_conc)
  have priv: "\<not> list_ex (\<lambda>range. prefix_match range ?ip) PRIVATE_IP_RANGES"
    unfolding PRIVATE_IP_RANGES_def list_ex_Nil_iff list_ex_Cons_iff using head head2 by blast
  have "trim ?ip = ?ip"
  proof (rule trim_no_space)
    have "\<not> is_space dot" "\<not> is_space (CHR ''0'')" by (simp_all add: is_space_def code_of_def dot_def)
    then show "list_all (\<lambda>c. \<not> is_space c) ?ip"
      using show_nat_digits by (auto simp: dotted_def list_all_iff digit_not_space)
  qed
  then show ?thesis using re oct priv by (simp add: validate_A_def Let_def)
qed

text \<open>
  The private ranges are compared as text, and the pattern admits leading zeros: an address
  whose first octet is written with a zero in front is accepted, whatever range it lies in.
\<close>

theorem private_range_leading_zero:
  assumes "a \<le> 99" "b \<le> 255" "c \<le> 255" "d \<le> 255"
  shows "validateRecordData ''A'' (CHR ''0'' # dotted a b c d) = None"
proof -
  have "toUpperCase ''A'' = ''A''" by code_simp
  then show ?thesis by (simp add: validateRecordData_def Let_def validate_A_leading_zero assms)
qed

theorem private_range_leading_zero_witness:
  "private_octets 10 0 \<and> validateRecordData ''A'' (CHR ''0'' # dotted 10 0 0 1) = None"
  using private_range_leading_zero [of 10 0 0 1] by (simp add: private_octets_def)

lemma validate_domain_target_iff:
  "validate_domain_target t rdata = None \<longleftrightarrow>
     length rdata \<le> 253 \<and> list_all (ldh_label is_alnum) (split_on dot (trim rdata))"
  by (auto simp: validate_domain_target_def domain_re_iff list_all_iff ldh_label_def)

text \<open>
  A CNAME, NS or PTR target, in either case of the type, is accepted exactly when its data has
  at most 253 characters and, trimmed, every label between dots is a host name label.
\<close>

theorem validateRecordData_target:
  assumes "toUpperCase t \<in> {''CNAME'', ''NS'', ''PTR''}"
  shows "validateRecordData t rdata = None \<longleftrightarrow>
    length rdata \<le> 253 \<and> list_all (ldh_label is_alnum) (split_on dot (trim rdata))"
  using assms by (auto simp: validateRecordData_def Let_def validate_domain_target_iff)

theorem validateRecordData_target_witness:
  "validateRecordData ''cname'' '' Relay.example.com '' = None \<and>
   validateRecordData ''NS'' ''ns1..example.com'' \<noteq> None"
proof -
  have t: "toUpperCase ''cname'' = ''CNAME''" "toUpperCase ''NS'' = ''NS''" by code_simp+
  have "list_all (ldh_label is_alnum) (split_on dot (trim '' Relay.example.com ''))"
    "\<not> list_all (ldh_label is_alnum) (split_on dot (trim ''ns1..example.com''))" by code_simp+
  then show ?thesis
    using validateRecordData_target [of "''cname''" "'' Relay.example.com ''"]
      validateRecordData_target [of "''NS''" "''ns1..example.com''"] by (simp add: t)
qed

lemma split_spaces_two:
  assumes "list_all (\<lambda>c. \<not> is_space c) p" "list_all (\<lambda>c. \<not> is_space c) h" "h \<noteq> []"
  shows "split_spaces (p @ '' '' @ h) = [p, h]"
proof -
  have sp: "is_space (CHR '' '')" by (simp add: is_space_def code_of_def)
  have w: "takeWhile (\<lambda>c. \<not> is_space c) x = x" "dropWhile (\<lambda>c. \<not> is_space c) x = []"
    if "list_all (\<lambda>c. \<not> is_space c) x" for x using that by (auto simp: list_all_iff)
  have "split_spaces h = [h]" by (subst split_spaces.simps) (simp add: w assms)
  moreover have "dropWhile is_space h = h"
    using assms(2,3) by (cases h) auto
  ultimately show ?thesis
    using assms sp by (subst split_spaces.simps) (auto simp: list_all_iff Let_def)
qed

lemma validate_MX_two:
  assumes "list_all is_digit p" "p \<noteq> []"
  shows "validate_MX [p, h] = None \<longleftrightarrow> digits_val p \<le> 65535 \<and> list_all (ldh_label is_alnum) (split_on dot h)"
  using integer_in_range_digits [OF assms] by (simp add: validate_MX_def domain_re_iff list_all_iff)

text \<open>
  MX data of a decimal priority, one space and a host is accepted exactly when the priority is at
  most 65535 and the host is a domain name.
\<close>

theorem validateRecordData_MX:
  assumes "list_all is_digit p" "p \<noteq> []" "list_all (\<lambda>c. \<not> is_space c) h" "h \<noteq> []"
  shows "validateRecordData ''MX'' (p @ '' '' @ h) = None \<longleftrightarrow>
    digits_val p \<le> 65535 \<and> list_all (ldh_label is_alnum) (split_on dot h)"
proof -
  have p: "list_all (\<lambda>c. \<not> is_space c) p"
    using assms(1) by (auto simp: list_all_iff digit_not_space)
  have "trim (p @ '' '' @ h) = p @ '' '' @ h"
    using assms p by (intro trim_id) (auto simp: list_all_iff hd_append)
  moreover have "toUpperCase ''MX'' = ''MX''" by code_simp
  ultimately show ?thesis
    by (simp add: validateRecordData_def Let_def split_spaces_two [OF p assms(3,4), simplified]
      validate_MX_two assms(1,2))
qed

theorem validateRecordData_MX_witness:
  "validateRecordData ''MX'' (''10'' @ '' '' @ ''mail.example.com'') = None \<and>
   validateRecordData ''MX'' (''10'' @ '' '' @ ''-mail.example.com'') \<noteq> None"
proof -
  have c: "list_all is_digit ''10''" "list_all (\<lambda>c. \<not> is_space c) ''mail.example.com''"
    "list_all (\<lambda>c. \<not> is_space c) ''-mail.example.com''" "digits_val ''10'' = 10" by code_simp+
  have l: "list_all (ldh_label is_alnum) (split_on dot ''mail.example.com'')"
    "\<not> list_all (ldh_label is_alnum) (split_on dot ''-mail.example.com'')" by code_simp+
  have n: "''10'' \<noteq> []" "''mail.example.com'' \<noteq> []" "''-mail.example.com'' \<noteq> []" by simp_all
  have le: "(10 :: nat) \<le> 65535" by simp
  show ?thesis
    unfolding validateRecordData_MX [OF c(1) n(1) c(2) n(2)] validateRecordData_MX [OF c(1) n(1) c(3) n(3)]
      c(4) using l le by blast
qed

lemma underscore_not_ldh: "startsWith n ''_'' \<Longrightarrow> \<not> ldh_label is_alnum_lower n"
proof
  assume "startsWith n ''_''" "ldh_label is_alnum_lower n"
  then have "is_alnum_lower (CHR ''_'') \<or> CHR ''_'' = hyphen"
    by (auto simp: startsWith_iff ldh_label_def)
  moreover have "\<not> (is_alnum_lower (CHR ''_'') \<or> CHR ''_'' = hyphen)" by code_simp
  ultimately show False by simp
qed

text \<open>
  Every name that starts with an underscore is refused by the name check before the data is read,
  so \<open>validateRecord\<close> never reports the reserved names \<open>_dmarc\<close> and \<open>_domainkey\<close> and never accepts a
  service or challenge name.
\<close>

theorem validateRecord_underscore:
  assumes "startsWith n ''_''"
  shows "validateRecordName n \<noteq> None \<and> validateRecord t n rdata = validateRecordName n"
proof -
  have "n \<noteq> []" "n \<noteq> ''@''" using assms by (auto simp: startsWith_iff)
  then have "validateRecordName n \<noteq> None"
    using underscore_not_ldh [OF assms] unfolding validateRecordName_iff by simp
  then show ?thesis by (auto simp: validateRecord_def)
qed

theorem validateRecord_underscore_witness:
  "validateRecord ''TXT'' ''_dmarc'' ''v=DMARC1'' = validateRecordName ''_dmarc'' \<and>
   validateReservedTxt ''TXT'' ''_dmarc'' ''v=DMARC1'' \<noteq> None"
proof -
  have "startsWith ''_dmarc'' ''_''" by code_simp
  moreover have "validateReservedTxt ''TXT'' ''_dmarc'' ''v=DMARC1'' \<noteq> None" by code_simp
  ultimately show ?thesis using validateRecord_underscore [of "''_dmarc''" "''TXT''" "''v=DMARC1''"] by simp
qed

end
