(* ===== verification/Sdk_Dns.thy ===== *)
theory Sdk_Dns
  imports Sdk_Nostr
begin

text \<open>
  \<open>nodns-resolver/src/dns.ts\<close>: queries over HTTPS. The network is a function from the address of a
  request to its outcome (\<open>fetch_outcome\<close>); the addresses are built as the source builds them. A
  query that throws is an \<^const>\<open>Inl\<close> with the message thrown.
\<close>

section \<open>Requests\<close>

text \<open>What \<open>fetch\<close> can do: be aborted, reject, or answer with a status and a body, which is
  \<^const>\<open>None\<close> when it is not the JSON text that \<open>response.json()\<close> needs.\<close>

datatype 'a fetch_outcome = FetchAbort | FetchFail | Reply int "'a option"

definition response_ok :: "int \<Rightarrow> bool" where
  "response_ok status \<longleftrightarrow> 200 \<le> status \<and> status \<le> 299"

text \<open>\<open>encodeURIComponent\<close>: letters, digits and \<open>-_.!~*'()\<close> stay, any other character becomes the
  percent codes of its UTF-8 bytes.\<close>

definition uri_unreserved :: "char \<Rightarrow> bool" where
  "uri_unreserved c \<longleftrightarrow> is_lower c \<or> is_upper c \<or> is_digit c \<or> c \<in> set ''-_.!~*()'' \<or> c = CHR 0x27"

definition percent :: "nat \<Rightarrow> string" where
  "percent n = ''%'' @ toUpperCase [hex_char (n div 16), hex_char (n mod 16)]"

definition encode_char :: "char \<Rightarrow> string" where
  "encode_char c =
     (if uri_unreserved c then [c]
      else if code_of c < 128 then percent (code_of c)
      else percent (192 + code_of c div 64) @ percent (128 + code_of c mod 64))"

definition encodeURIComponent :: "string \<Rightarrow> string" where
  "encodeURIComponent s = concat (map encode_char s)"

section \<open>Queries\<close>

type_synonym doh = "string \<Rightarrow> DohResponse fetch_outcome"

definition doh_url :: "string \<Rightarrow> string \<Rightarrow> string \<Rightarrow> string" where
  "doh_url dohEndpoint fqdn type = dohEndpoint @ ''?name='' @ encodeURIComponent fqdn @ ''&type='' @ type"

definition queryDoh :: "doh \<Rightarrow> string \<Rightarrow> string \<Rightarrow> string option \<Rightarrow> js_error + DohResponse" where
  "queryDoh fetch fqdn type dohEndpoint =
     (case fetch (doh_url (nullish dohEndpoint DEFAULT_DOH_ENDPOINT) fqdn type) of
        FetchAbort \<Rightarrow> Inl (JsError ''DNS query timed out. Please try again.'')
      | FetchFail \<Rightarrow> Inl (JsError ''DNS query failed. Please check your network.'')
      | Reply status body \<Rightarrow>
          if \<not> response_ok status
          then Inl (JsError (''DNS query failed (HTTP '' @ show_int status @ '').''))
          else lib_call body)"

definition quote_char :: char where "quote_char = CHR 0x22"

text \<open>\<open>replace(/"\s*"/g, '')\<close>: two quotes with only white space between them are removed together.\<close>

fun strip_quote_pairs :: "string \<Rightarrow> string" where
  "strip_quote_pairs [] = []"
| "strip_quote_pairs (c # s) =
     (case (if c = quote_char then dropWhile is_space s else []) of
        [] \<Rightarrow> c # strip_quote_pairs s
      | d # r \<Rightarrow> if d = quote_char then strip_quote_pairs (drop (length s - length r) s)
          else c # strip_quote_pairs s)"

definition stripTxtQuotes :: "string \<Rightarrow> string" where
  "stripTxtQuotes s = strip_quote_pairs (strip_suffix_char quote_char (strip_prefix_char quote_char s))"

definition dnsTypeNumberToString :: "int \<Rightarrow> string" where
  "dnsTypeNumberToString num = nullish (DNS_TYPE_MAP num) (show_int num)"

definition txt_data :: "string \<Rightarrow> DohAnswer \<Rightarrow> string" where
  "txt_data type a = (if type = ''TXT'' then stripTxtQuotes (da_data a) else da_data a)"

definition queryDnsRecords :: "doh \<Rightarrow> string \<Rightarrow> string \<Rightarrow> string option \<Rightarrow> js_error + string list" where
  "queryDnsRecords fetch name type dohEndpoint =
     try_bind (queryDoh fetch name type dohEndpoint) (\<lambda>resp.
       case dr_Answer resp of
         None \<Rightarrow> Inr []
       | Some answers \<Rightarrow>
           Inr (map (txt_data type) (filter (\<lambda>a. dnsTypeNumberToString (da_type a) = type) answers)))"

definition answers_of_type :: "doh \<Rightarrow> string \<Rightarrow> string option \<Rightarrow> string \<Rightarrow> DnsAnswer list" where
  "answers_of_type fetch fqdn dohEndpoint type =
     (case queryDoh fetch fqdn type dohEndpoint of
        Inl _ \<Rightarrow> []
      | Inr resp \<Rightarrow>
          collect (\<lambda>a.
            let typeStr = dnsTypeNumberToString (da_type a)
            in if typeStr \<noteq> type then None
               else Some \<lparr>dns_name = da_name a, dns_type = typeStr, dns_ttl = da_TTL a,
                 dns_data = txt_data type a\<rparr>)
          (nullish (dr_Answer resp) []))"

definition queryAllDnsRecordTypes ::
  "doh \<Rightarrow> string \<Rightarrow> string list \<Rightarrow> string option \<Rightarrow> DnsAnswer list" where
  "queryAllDnsRecordTypes fetch fqdn types dohEndpoint =
     concat (map (answers_of_type fetch fqdn dohEndpoint) types)"

section \<open>Lemmas\<close>

lemma strip_quote_pairs_id: "quote_char \<notin> set s \<Longrightarrow> strip_quote_pairs s = s"
  by (induction s) auto

lemma stripTxtQuotes_plain: "quote_char \<notin> set s \<Longrightarrow> stripTxtQuotes (quote_char # s @ [quote_char]) = s"
  by (simp add: stripTxtQuotes_def strip_suffix_char_def strip_prefix_char_def strip_quote_pairs_id)

text \<open>The pieces of a long TXT value, as a resolver prints them: quoted, with blanks between.\<close>

definition quoted :: "string \<Rightarrow> string" where
  "quoted s = quote_char # s @ [quote_char]"

lemma quote_not_space [simp]: "\<not> is_space quote_char"
  by (simp add: quote_char_def is_space_def code_of_def)

lemma strip_quote_pairs_join:
  assumes "quote_char \<notin> set s"
  shows "strip_quote_pairs (s @ quote_char # CHR '' '' # quote_char # t) = s @ strip_quote_pairs t"
proof -
  have sp: "is_space (CHR '' '')" by (simp add: is_space_def code_of_def)
  then have "strip_quote_pairs (quote_char # CHR '' '' # quote_char # t) = strip_quote_pairs t"
    by simp
  with assms show ?thesis by (induction s) auto
qed

text \<open>
  A TXT value that a resolver prints in quoted pieces separated by blanks comes out as the
  pieces joined, when the pieces hold no quotes themselves.
\<close>

theorem stripTxtQuotes_pieces:
  assumes "\<forall>p \<in> set (p # ps). quote_char \<notin> set p"
  shows "stripTxtQuotes (join '' '' (map quoted (p # ps))) = concat (p # ps)"
proof -
  have body: "\<exists>b. join '' '' (map quoted (p # ps)) = quote_char # b @ [quote_char] \<and>
      strip_quote_pairs b = concat (p # ps)"
    using assms
  proof (induction ps arbitrary: p)
    case Nil
    then show ?case by (auto simp: quoted_def strip_quote_pairs_id intro: exI [of _ p])
  next
    case (Cons q ps)
    then obtain b where b: "join '' '' (map quoted (q # ps)) = quote_char # b @ [quote_char]"
        "strip_quote_pairs b = concat (q # ps)" by fastforce
    let ?b = "p @ quote_char # CHR '' '' # quote_char # b"
    have "join '' '' (map quoted (p # q # ps)) = quote_char # ?b @ [quote_char]"
      using b(1) by (simp add: quoted_def)
    moreover have "strip_quote_pairs ?b = concat (p # q # ps)"
      using Cons.prems b(2) by (simp add: strip_quote_pairs_join)
    ultimately show ?case by blast
  qed
  then show ?thesis
    by (auto simp: stripTxtQuotes_def strip_suffix_char_def strip_prefix_char_def)
qed

theorem stripTxtQuotes_pieces_witness:
  "stripTxtQuotes (join '' '' (map quoted [''v=spf1'', '' -all''])) = ''v=spf1 -all''"
proof -
  have "\<forall>p \<in> set [''v=spf1'', '' -all'']. quote_char \<notin> set p" by (simp add: quote_char_def)
  from stripTxtQuotes_pieces [OF this] show ?thesis by simp
qed

text \<open>
  Asking for all types returns answers of the asked types only, each under the name of its type,
  and a type whose query fails leaves the answers of the other types as they are.
\<close>

theorem queryAllDnsRecordTypes_spec:
  "list_all (\<lambda>a. dns_type a \<in> set types) (queryAllDnsRecordTypes fetch fqdn types ep) \<and>
   queryAllDnsRecordTypes fetch fqdn types ep =
     concat (map (answers_of_type fetch fqdn ep)
       (filter (\<lambda>t. \<exists>r. queryDoh fetch fqdn t ep = Inr r) types))"
proof
  show "list_all (\<lambda>a. dns_type a \<in> set types) (queryAllDnsRecordTypes fetch fqdn types ep)"
    by (auto simp: list_all_iff queryAllDnsRecordTypes_def answers_of_type_def set_collect Let_def
        split: sum.splits if_splits)
  show "queryAllDnsRecordTypes fetch fqdn types ep =
     concat (map (answers_of_type fetch fqdn ep)
       (filter (\<lambda>t. \<exists>r. queryDoh fetch fqdn t ep = Inr r) types))"
    unfolding queryAllDnsRecordTypes_def
    by (induction types) (auto simp: answers_of_type_def split: sum.splits)
qed

end
