(* ===== verification/Sdk_Verify.thy ===== *)
theory Sdk_Verify
  imports Sdk_Dns
begin

text \<open>
  \<open>nodns-resolver/src/verify.ts\<close>: the records of a name from the API, from the relays and from DNS,
  their comparison, and the records that may be reported as confirmed. A JS \<open>Set\<close> of keys is the
  list of its elements in insertion order (\<^const>\<open>js_uniq\<close>). The relay queries of
  \<open>Sdk_Nostr\<close> never throw, so the \<open>catch\<close> of \<open>fetchNostrRecords\<close> and the outer one of
  \<open>fetchDnsRecords\<close> have no branch here.
\<close>

section \<open>Fetching\<close>

record fetch_params =
  fp_pubkey :: "string option"
  fp_domain :: "string option"

text \<open>The body of an API reply: its \<open>records\<close> field, which may be missing.\<close>

type_synonym api = "string \<Rightarrow> DnsRecord list option fetch_outcome"

definition DEFAULT_DNS_TYPES :: "string list" where
  "DEFAULT_DNS_TYPES = [''A'', ''AAAA'', ''TXT'', ''CNAME'', ''MX'']"

definition WILDCARD_REDIRECT_IPS :: "string list" where
  "WILDCARD_REDIRECT_IPS = [''46.224.104.12'']"

definition base_result :: "string \<Rightarrow> 'a SourceResult" where
  "base_result source = \<lparr>sr_source = source, sr_status = Loading, sr_records = [], sr_error = None\<rparr>"

definition api_query_string :: "fetch_params \<Rightarrow> string" where
  "api_query_string params =
     (if truthy (fp_pubkey params) then ''pubkey='' @ encodeURIComponent (the (fp_pubkey params))
      else if truthy (fp_domain params) then ''domain='' @ encodeURIComponent (the (fp_domain params))
      else [])"

definition fetchApiRecords :: "api \<Rightarrow> fetch_params \<Rightarrow> string \<Rightarrow> DnsRecord SourceResult" where
  "fetchApiRecords fetch params apiBase =
     (let base = base_result ''api''; qs = api_query_string params
      in if qs = [] then base\<lparr>sr_status := Unavailable\<rparr>
         else case fetch (apiBase @ ''/api/records?'' @ qs) of
             Reply status body \<Rightarrow>
               if \<not> response_ok status
               then base\<lparr>sr_status := Error, sr_error := Some (''HTTP '' @ show_int status)\<rparr>
               else (case body of
                   None \<Rightarrow> base\<lparr>sr_status := Unavailable\<rparr>
                 | Some records \<Rightarrow> base\<lparr>sr_status := Ok, sr_records := nullish records []\<rparr>)
           | _ \<Rightarrow> base\<lparr>sr_status := Unavailable\<rparr>)"

definition fetchNostrRecords ::
  "nostr_lib \<Rightarrow> relay_query \<Rightarrow> fetch_params \<Rightarrow> string \<Rightarrow> string list \<Rightarrow> NostrDnsRecord SourceResult"
  where
  "fetchNostrRecords L query params zone relays =
     (base_result ''nostr'')\<lparr>sr_status := Ok,
       sr_records :=
         (if truthy (fp_pubkey params)
          then queryRecordsByPubkey L query (the (fp_pubkey params)) zone relays None
          else if truthy (fp_domain params)
          then queryRecordsByDomain L query (the (fp_domain params)) zone relays None
          else [])\<rparr>"

definition is_wildcard_A :: "DohAnswer \<Rightarrow> bool" where
  "is_wildcard_A a \<longleftrightarrow>
     (let typeStr = show_int (da_type a)
      in (typeStr = ''1'' \<or> typeStr = ''A'') \<and>
         trim (filter (\<lambda>c. c \<noteq> quote_char) (da_data a)) \<in> set WILDCARD_REDIRECT_IPS)"

definition dns_answer_of :: "DohAnswer \<Rightarrow> DnsAnswer option" where
  "dns_answer_of a =
     (if is_wildcard_A a then None
      else Some \<lparr>dns_name = da_name a, dns_type = show_int (da_type a), dns_ttl = da_TTL a,
        dns_data = da_data a\<rparr>)"

definition dns_answers :: "doh \<Rightarrow> string \<Rightarrow> string option \<Rightarrow> string \<Rightarrow> DnsAnswer list" where
  "dns_answers fetch fqdn dohEndpoint type =
     (case queryDoh fetch fqdn type dohEndpoint of
        Inl _ \<Rightarrow> []
      | Inr resp \<Rightarrow> collect dns_answer_of (nullish (dr_Answer resp) []))"

definition fetchDnsRecords ::
  "doh \<Rightarrow> string \<Rightarrow> string list \<Rightarrow> string option \<Rightarrow> DnsAnswer SourceResult" where
  "fetchDnsRecords fetch fqdn types dohEndpoint =
     (let allAnswers = concat (map (dns_answers fetch fqdn dohEndpoint) types)
      in (base_result ''dns'')\<lparr>sr_status := (if allAnswers \<noteq> [] then Ok else Unavailable),
           sr_records := allAnswers\<rparr>)"

definition fetchTripartiteRecords ::
  "nostr_lib \<Rightarrow> relay_query \<Rightarrow> api \<Rightarrow> doh \<Rightarrow> fetch_params \<Rightarrow> string \<Rightarrow> string list \<Rightarrow> string \<Rightarrow>
     string option \<Rightarrow> TripartiteRecords" where
  "fetchTripartiteRecords L query api doh params zone relays apiBase dohEndpoint =
     (let fqdn = nullish (fp_domain params) []
      in \<lparr>tp_api = fetchApiRecords api params apiBase,
          tp_nostr = fetchNostrRecords L query params zone relays,
          tp_dns = (if fqdn \<noteq> [] then fetchDnsRecords doh fqdn DEFAULT_DNS_TYPES dohEndpoint
            else \<lparr>sr_source = ''dns'', sr_status = Unavailable, sr_records = [], sr_error = None\<rparr>)\<rparr>)"

section \<open>Comparing\<close>

definition toKey :: "string \<Rightarrow> string \<Rightarrow> string" where
  "toKey type data = type @ '':'' @ data"

definition api_keys :: "TripartiteRecords \<Rightarrow> string list" where
  "api_keys results = js_uniq (map (\<lambda>r. toKey (rec_type r) (rec_rdata r)) (sr_records (tp_api results)))"

definition nostr_keys :: "TripartiteRecords \<Rightarrow> string list" where
  "nostr_keys results = js_uniq (map (\<lambda>r. toKey (nr_type r) (nr_value r)) (sr_records (tp_nostr results)))"

definition dns_keys :: "TripartiteRecords \<Rightarrow> string list" where
  "dns_keys results = js_uniq (map (\<lambda>r. toKey (dns_type r) (dns_data r)) (sr_records (tp_dns results)))"

definition compareTripartite :: "TripartiteRecords \<Rightarrow> TripartiteComparison" where
  "compareTripartite results =
     (let apiKeys = api_keys results; nostrKeys = nostr_keys results; dnsKeys = dns_keys results;
          allKeys = js_uniq (apiKeys @ nostrKeys @ dnsKeys);
          onlyInApi = filter (\<lambda>k. k \<in> set apiKeys \<and> k \<notin> set nostrKeys \<and> k \<notin> set dnsKeys) allKeys;
          onlyInNostr = filter (\<lambda>k. k \<in> set nostrKeys \<and> k \<notin> set apiKeys \<and> k \<notin> set dnsKeys) allKeys;
          onlyInDns = filter (\<lambda>k. k \<in> set dnsKeys \<and> k \<notin> set apiKeys \<and> k \<notin> set nostrKeys) allKeys
      in \<lparr>tc_match = (length onlyInApi = 0 \<and> length onlyInNostr = 0 \<and> length onlyInDns = 0),
          tc_apiCount = length (sr_records (tp_api results)),
          tc_nostrCount = length (sr_records (tp_nostr results)),
          tc_dnsCount = length (sr_records (tp_dns results)),
          tc_onlyInApi = onlyInApi, tc_onlyInNostr = onlyInNostr, tc_onlyInDns = onlyInDns\<rparr>)"

definition resolved_of_dns :: "DnsAnswer \<Rightarrow> ResolvedRecord" where
  "resolved_of_dns r = \<lparr>rr_type = dns_type r, rr_name = dns_name r, rr_ttl = dns_ttl r,
     rr_data = dns_data r, rr_source = Some SrcDns, rr_pubkey = None, rr_eventId = None\<rparr>"

definition resolved_of_api :: "DnsRecord \<Rightarrow> ResolvedRecord" where
  "resolved_of_api r = \<lparr>rr_type = rec_type r, rr_name = rec_fqdn r, rr_ttl = rec_ttl r,
     rr_data = rec_rdata r, rr_source = Some SrcDns, rr_pubkey = None, rr_eventId = None\<rparr>"

definition agreed_keys :: "TripartiteRecords \<Rightarrow> string list" where
  "agreed_keys sources = js_uniq
     (filter (\<lambda>k. list_ex (\<lambda>r. toKey (nr_type r) (nr_value r) = k) (sr_records (tp_nostr sources)) \<or>
          list_ex (\<lambda>r. toKey (dns_type r) (dns_data r) = k) (sr_records (tp_dns sources)))
       (map (\<lambda>r. toKey (rec_type r) (rec_rdata r)) (sr_records (tp_api sources))))"

definition toResolvedRecords :: "TripartiteRecords \<Rightarrow> TripartiteComparison \<Rightarrow> ResolvedRecord list" where
  "toResolvedRecords sources comparison =
     (if tc_match comparison then
        let fromDns = map resolved_of_dns (sr_records (tp_dns sources))
        in if length fromDns > 0 then fromDns
           else map resolved_of_api (sr_records (tp_api sources))
      else
        let agreedKeys = agreed_keys sources
        in map resolved_of_api
             (filter (\<lambda>r. toKey (rec_type r) (rec_rdata r) \<in> set agreedKeys) (sr_records (tp_api sources))))"

section \<open>Lemmas\<close>

text \<open>The keys each source offers, and those at least two of the three offer.\<close>

definition confirmed :: "TripartiteRecords \<Rightarrow> string set" where
  "confirmed t = (set (api_keys t) \<inter> set (nostr_keys t)) \<union> (set (api_keys t) \<inter> set (dns_keys t)) \<union>
     (set (nostr_keys t) \<inter> set (dns_keys t))"

definition rr_key :: "ResolvedRecord \<Rightarrow> string" where
  "rr_key r = toKey (rr_type r) (rr_data r)"

lemma compare_only:
  "set (tc_onlyInApi (compareTripartite t)) = set (api_keys t) - confirmed t"
  "set (tc_onlyInNostr (compareTripartite t)) = set (nostr_keys t) - confirmed t"
  "set (tc_onlyInDns (compareTripartite t)) = set (dns_keys t) - confirmed t"
  by (auto simp: compareTripartite_def Let_def confirmed_def)

lemma compare_distinct:
  "distinct (tc_onlyInApi (compareTripartite t))" "distinct (tc_onlyInNostr (compareTripartite t))"
  "distinct (tc_onlyInDns (compareTripartite t))"
  by (simp_all add: compareTripartite_def Let_def)

lemma compare_match_lists:
  "tc_match (compareTripartite t) \<longleftrightarrow>
     set (tc_onlyInApi (compareTripartite t)) = {} \<and> set (tc_onlyInNostr (compareTripartite t)) = {} \<and>
     set (tc_onlyInDns (compareTripartite t)) = {}"
  unfolding compareTripartite_def Let_def by (simp only: TripartiteComparison.simps length_0_conv set_empty)

lemma compare_match:
  "tc_match (compareTripartite t) \<longleftrightarrow> set (api_keys t) \<union> set (nostr_keys t) \<union> set (dns_keys t) \<subseteq> confirmed t"
  unfolding compare_match_lists compare_only by auto

lemma key_of_api: "r \<in> set (sr_records (tp_api t)) \<Longrightarrow> rr_key (resolved_of_api r) \<in> set (api_keys t)"
  by (auto simp: rr_key_def resolved_of_api_def api_keys_def)

lemma key_of_dns: "r \<in> set (sr_records (tp_dns t)) \<Longrightarrow> rr_key (resolved_of_dns r) \<in> set (dns_keys t)"
  by (auto simp: rr_key_def resolved_of_dns_def dns_keys_def)

lemma set_agreed_keys: "set (agreed_keys t) = set (api_keys t) \<inter> (set (nostr_keys t) \<union> set (dns_keys t))"
proof -
  have ex: "list_ex (\<lambda>r. f r = k) xs \<longleftrightarrow> k \<in> f ` set xs" for f k and xs :: "'b list"
    by (auto simp: list_ex_iff)
  show ?thesis
    unfolding agreed_keys_def api_keys_def nostr_keys_def dns_keys_def ex by auto
qed

lemma toResolvedRecords_keys:
  "rr_key ` set (toResolvedRecords t (compareTripartite t)) \<subseteq> confirmed t"
proof (cases "tc_match (compareTripartite t)")
  case True
  then have "set (toResolvedRecords t (compareTripartite t)) \<subseteq>
      resolved_of_dns ` set (sr_records (tp_dns t)) \<union> resolved_of_api ` set (sr_records (tp_api t))"
    by (auto simp: toResolvedRecords_def Let_def)
  moreover have "rr_key ` resolved_of_dns ` set (sr_records (tp_dns t)) \<subseteq> confirmed t"
    "rr_key ` resolved_of_api ` set (sr_records (tp_api t)) \<subseteq> confirmed t"
    using True key_of_api key_of_dns unfolding compare_match by blast+
  ultimately show ?thesis by blast
next
  case False
  have "rr_key (resolved_of_api r) = toKey (rec_type r) (rec_rdata r)" for r
    by (simp add: rr_key_def resolved_of_api_def)
  with False show ?thesis
    by (auto simp: toResolvedRecords_def Let_def set_agreed_keys confirmed_def)
qed

section \<open>Properties\<close>

text \<open>
  C4. The comparison reports a match exactly when every type and value offered by one of the three
  sources is offered by a second one, and otherwise lists, once each, what a single source offers.
\<close>

theorem compareTripartite_spec:
  "(tc_match (compareTripartite t) \<longleftrightarrow>
      set (api_keys t) \<union> set (nostr_keys t) \<union> set (dns_keys t) \<subseteq> confirmed t) \<and>
   set (tc_onlyInApi (compareTripartite t)) = set (api_keys t) - confirmed t \<and>
   set (tc_onlyInNostr (compareTripartite t)) = set (nostr_keys t) - confirmed t \<and>
   set (tc_onlyInDns (compareTripartite t)) = set (dns_keys t) - confirmed t \<and>
   distinct (tc_onlyInApi (compareTripartite t)) \<and> distinct (tc_onlyInNostr (compareTripartite t)) \<and>
   distinct (tc_onlyInDns (compareTripartite t))"
  using compare_match compare_only compare_distinct by blast

text \<open>
  Every record reported as resolved has a type and value that at least two of the three sources
  offer, match or no match.
\<close>

theorem toResolvedRecords_confirmed:
  "rr_key ` set (toResolvedRecords t (compareTripartite t)) \<subseteq> confirmed t"
  by (rule toResolvedRecords_keys)

lemma fetchDns_type: "a \<in> set (sr_records (fetchDnsRecords doh fqdn types ep)) \<Longrightarrow> \<exists>n. dns_type a = show_int n"
  by (auto simp: fetchDnsRecords_def Let_def base_result_def dns_answers_def set_collect dns_answer_of_def
      split: sum.splits if_splits)

definition letter_type :: "string \<Rightarrow> bool" where
  "letter_type s \<longleftrightarrow> s \<noteq> [] \<and> (is_lower (hd s) \<or> is_upper (hd s))"

lemma show_int_hd: "hd (show_int n) = CHR ''-'' \<or> is_digit (hd (show_int n))"
proof (cases "n < 0")
  case False
  then have "show_int n = show_nat (nat n)" by (simp add: show_int_def)
  then show ?thesis using show_nat_digits [of "nat n"] show_nat_nonempty [of "nat n"]
    by (cases "show_nat (nat n)") auto
qed (simp add: show_int_def)

lemma toKey_letter_ne:
  assumes "letter_type s" shows "toKey s d \<noteq> toKey (show_int n) e"
proof
  assume "toKey s d = toKey (show_int n) e"
  then have "hd (s @ '':'' @ d) = hd (show_int n @ '':'' @ e)" by (simp add: toKey_def)
  then have "hd s = hd (show_int n)" using assms by (simp add: letter_type_def)
  then show False using assms show_int_hd [of n]
    by (auto simp: letter_type_def is_lower_def is_upper_def is_digit_def code_of_def)
qed

text \<open>
  DNS answers are filed under the number of their type (\<open>String(a.type)\<close>), the other sources
  under its name: whenever DNS answers at all, and the API and the relays name their types by letters,
  the three sources never match.
\<close>

theorem fetchTripartiteRecords_dns_mismatch:
  assumes "t = fetchTripartiteRecords L query api doh params zone relays apiBase ep"
    and "sr_status (tp_dns t) = Ok"
    and "list_all (\<lambda>r. letter_type (rec_type r)) (sr_records (tp_api t))"
    and "list_all (\<lambda>r. letter_type (nr_type r)) (sr_records (tp_nostr t))"
  shows "\<not> tc_match (compareTripartite t) \<and> set (tc_onlyInDns (compareTripartite t)) = set (dns_keys t)"
proof -
  obtain fqdn where d: "tp_dns t = fetchDnsRecords doh fqdn DEFAULT_DNS_TYPES ep" "sr_records (tp_dns t) \<noteq> []"
    using assms(1,2) by (auto simp: fetchTripartiteRecords_def Let_def fetchDnsRecords_def split: if_splits)
  have num: "\<exists>n e. k = toKey (show_int n) e" if "k \<in> set (dns_keys t)" for k
    using that fetchDns_type [of _ doh fqdn DEFAULT_DNS_TYPES ep] unfolding dns_keys_def d(1) by fastforce
  have "set (dns_keys t) \<inter> set (api_keys t) = {}"
    using num assms(3) toKey_letter_ne by (fastforce simp: api_keys_def list_all_iff)
  moreover have "set (dns_keys t) \<inter> set (nostr_keys t) = {}"
    using num assms(4) toKey_letter_ne by (fastforce simp: nostr_keys_def list_all_iff)
  ultimately have c: "set (dns_keys t) \<inter> confirmed t = {}" by (auto simp: confirmed_def)
  moreover have "set (dns_keys t) \<noteq> {}" using d(2) by (simp add: dns_keys_def)
  ultimately have "\<not> set (dns_keys t) \<subseteq> confirmed t" by (metis Int_absorb2)
  then show ?thesis using c by (simp add: compare_match compare_only Diff_triv)
qed

text \<open>An API and a DNS server that agree on the one address of a name.\<close>

definition example_api :: api where
  "example_api url = Reply 200 (Some (Some [\<lparr>rec_npub = ''npub1ab'', rec_name = ''www'',
     rec_fqdn = ''www.nodns.shop'', rec_type = ''A'', rec_ttl = 300, rec_rdata = ''1.2.3.4'',
     rec_created_at = 7\<rparr>]))"

definition example_doh :: doh where
  "example_doh url = Reply 200 (Some \<lparr>dr_Status = 0, dr_Answer =
     (if endsWith url ''=A'' then Some [\<lparr>da_name = ''www.nodns.shop'', da_type = 1, da_TTL = 300,
        da_data = ''1.2.3.4''\<rparr>] else None)\<rparr>)"

definition example_params :: fetch_params where
  "example_params = \<lparr>fp_pubkey = None, fp_domain = Some ''www.nodns.shop''\<rparr>"

theorem fetchTripartiteRecords_dns_mismatch_witness:
  "\<not> tc_match (compareTripartite (fetchTripartiteRecords example_lib example_query example_api example_doh
     example_params ''nodns.shop'' [] ''https://nodns.shop'' None))"
proof -
  let ?t = "fetchTripartiteRecords example_lib example_query example_api example_doh
     example_params ''nodns.shop'' [] ''https://nodns.shop'' None"
  have "sr_status (tp_dns ?t) = Ok" by code_simp
  moreover have "list_all (\<lambda>r. letter_type (rec_type r)) (sr_records (tp_api ?t))" by code_simp
  moreover have "list_all (\<lambda>r. letter_type (nr_type r)) (sr_records (tp_nostr ?t))" by code_simp
  ultimately show ?thesis using fetchTripartiteRecords_dns_mismatch [OF refl] by blast
qed

end
