(* ===== verification/Sdk_Zones.thy ===== *)
theory Sdk_Zones
  imports Sdk_Dns
begin

text \<open>
  \<open>nodns-resolver/src/zones.ts\<close>: the TXT record by which a zone names its operator, the handler
  events operators publish, the list of zones found on the relays and the check of one zone. A plain
  object used as a dictionary is a \<open>jsmap\<close>; an assignment to its key \<open>__proto__\<close> stores nothing, as
  in the language. \<open>localeCompare\<close> depends on the host's locale data and is the parameter \<open>lc\<close>.
\<close>

definition ZONES_QUERY_MAX_WAIT :: int where "ZONES_QUERY_MAX_WAIT = 6000"

section \<open>The TXT record\<close>

definition zone_pair :: "string \<Rightarrow> (string \<times> string) option" where
  "zone_pair part =
     (case indexOf part (CHR ''='') of
        None \<Rightarrow> None
      | Some eq \<Rightarrow>
          let key = trim (slice_to eq part); val = trim (slice_from (Suc eq) part)
          in if key \<noteq> [] then Some (key, val) else None)"

definition zone_txt_step :: "(string, string) jsmap \<Rightarrow> string \<Rightarrow> (string, string) jsmap" where
  "zone_txt_step result part =
     (case zone_pair part of
        None \<Rightarrow> result
      | Some (key, val) \<Rightarrow> if key = ''__proto__'' then result else map_set key val result)"

definition parseZoneTxt :: "string \<Rightarrow> (string, string) jsmap" where
  "parseZoneTxt txt = foldl zone_txt_step [] (split_on (CHR '';'') txt)"

definition fetchDnsTxt :: "doh \<Rightarrow> string \<Rightarrow> string \<Rightarrow> string option" where
  "fetchDnsTxt fetch zone dohEndpoint =
     (case fetch (doh_url dohEndpoint (''_nodns.'' @ zone) ''TXT'') of
        Reply status (Some resp) \<Rightarrow>
          if \<not> response_ok status then None
          else (case dr_Answer resp of
              None \<Rightarrow> None
            | Some answers \<Rightarrow>
                map_option (\<lambda>a. stripTxtQuotes (da_data a)) (List.find (\<lambda>a. da_type a = 16) answers))
      | _ \<Rightarrow> None)"

section \<open>Handler events\<close>

record pricing_state =
  ps_create :: int
  ps_update :: int
  ps_del :: int
  ps_found :: bool

definition pricing_step :: "pricing_state \<Rightarrow> string \<Rightarrow> pricing_state" where
  "pricing_step st entry =
     (case indexOf entry (CHR ''='') of
        None \<Rightarrow> st
      | Some eq \<Rightarrow>
          let key = trim (slice_to eq entry)
          in case parseInt (trim (slice_from (Suc eq) entry)) of
               None \<Rightarrow> st
             | Some val \<Rightarrow>
                 let st' = st\<lparr>ps_found := True\<rparr>
                 in if key = ''create'' then st'\<lparr>ps_create := val\<rparr>
                    else if key = ''update'' then st'\<lparr>ps_update := val\<rparr>
                    else if key = ''delete'' then st'\<lparr>ps_del := val\<rparr>
                    else st')"

definition parsePricingTag :: "tag list \<Rightarrow> ZonePricing option" where
  "parsePricingTag tags =
     (case List.find (tag_is ''pricing'') tags of
        None \<Rightarrow> None
      | Some t \<Rightarrow>
          let st = foldl pricing_step \<lparr>ps_create = 0, ps_update = 0, ps_del = 0, ps_found = False\<rparr> (drop 1 t)
          in if ps_found st
             then Some \<lparr>zp_create = ps_create st, zp_update = ps_update st, zp_delete = ps_del st\<rparr>
             else None)"

definition tag_with :: "string \<Rightarrow> tag \<Rightarrow> bool" where
  "tag_with k t \<longleftrightarrow> nth_opt t 0 = Some k \<and> truthy (nth_opt t 1)"

definition tag_value :: "string \<Rightarrow> tag list \<Rightarrow> string option" where
  "tag_value k tags = map_option (\<lambda>t. t ! 1) (List.find (tag_with k) tags)"

definition parseStatusTag :: "tag list \<Rightarrow> ZoneStatusLevel \<times> string option" where
  "parseStatusTag tags =
     (case List.find (tag_with ''status'') tags of
        None \<Rightarrow> (Unknown, None)
      | Some t \<Rightarrow>
          let val = toLowerCase (t ! 1)
          in if val = ''testing'' then (Testing, nth_opt t 2)
             else if val = ''preview'' then (Preview, nth_opt t 2)
             else if val = ''production'' then (Production, nth_opt t 2)
             else (Unknown, None))"

definition eventToPartialZone :: "NostrEvent \<Rightarrow> DiscoveredZone option" where
  "eventToPartialZone event =
     (let tags = ev_tags event
      in case tag_value ''zone'' tags of
           None \<Rightarrow> None
         | Some z \<Rightarrow>
             let (status, reason) = parseStatusTag tags
             in Some \<lparr>dz_zone = toLowerCase z, dz_pubkey = ev_pubkey event, dz_status = status,
                  dz_testnet = list_ex (tag_is ''testnet'') tags, dz_statusReason = reason,
                  dz_dnskeyHash = tag_value ''dnskey_hash'' tags,
                  dz_dnskeyAlg = tag_value ''dnskey_alg'' tags,
                  dz_pricing = parsePricingTag tags, dz_mint = tag_value ''mint'' tags,
                  dz_web = tag_value ''web'' tags, dz_verified = False,
                  dz_verificationError = None\<rparr>)"

definition zone_filter :: "string list option \<Rightarrow> string list option \<Rightarrow> int option \<Rightarrow> relay_filter" where
  "zone_filter k authors limit =
     \<lparr>rf_kinds = [ZONE_HANDLER_KIND], rf_authors = authors, rf_limit = limit, rf_k = k, rf_e = None\<rparr>"

definition queryZoneHandlerEvents :: "relay_query \<Rightarrow> string list \<Rightarrow> js_error + NostrEvent list" where
  "queryZoneHandlerEvents query relays =
     try_bind (lib_call (query relays (zone_filter (Some [''11111'']) None None) ZONES_QUERY_MAX_WAIT))
       (\<lambda>tagged. if length tagged > 0 then Inr tagged
          else lib_call (query relays (zone_filter None None None) ZONES_QUERY_MAX_WAIT))"

section \<open>Discovery\<close>

text \<open>The loop that keeps the newest event of each zone; \<open>ts\<close>, which the source stores beside the
  event, is the event's date.\<close>

definition zone_event_step ::
  "(string, NostrEvent \<times> int) jsmap \<Rightarrow> NostrEvent \<Rightarrow> (string, NostrEvent \<times> int) jsmap" where
  "zone_event_step byZone event =
     (let kTags = map (\<lambda>t. nth_opt t 1) (filter (tag_is ''k'') (ev_tags event))
      in if length kTags > 0 \<and> Some ''11111'' \<notin> set kTags then byZone
         else case tag_value ''zone'' (ev_tags event) of
             None \<Rightarrow> byZone
           | Some z \<Rightarrow>
               let zone = toLowerCase z
               in case map_get byZone zone of
                    None \<Rightarrow> map_set zone (event, ev_created_at event) byZone
                  | Some (_, ts) \<Rightarrow>
                      if ev_created_at event > ts then map_set zone (event, ev_created_at event) byZone
                      else byZone)"

definition verify_zone :: "doh \<Rightarrow> string \<Rightarrow> DiscoveredZone \<Rightarrow> DiscoveredZone" where
  "verify_zone fetch dohEndpoint zone =
     (let txt = fetchDnsTxt fetch (dz_zone zone) dohEndpoint
      in if \<not> truthy txt then zone\<lparr>dz_verificationError := Some ''No _nodns TXT record found''\<rparr>
         else
           let parsed = parseZoneTxt (the txt); txtNpub = map_get parsed ''npub''
           in if \<not> truthy txtNpub
              then zone\<lparr>dz_verificationError := Some ''TXT record missing npub field''\<rparr>
              else if toLowerCase (the txtNpub) \<noteq> toLowerCase (dz_pubkey zone)
              then zone\<lparr>dz_verificationError := Some ''TXT npub does not match event signer''\<rparr>
              else
                let zone' = (if map_get parsed ''testnet'' = Some ''1'' then zone\<lparr>dz_testnet := True\<rparr> else zone)
                in zone'\<lparr>dz_verified := True\<rparr>)"

definition discoverZones ::
  "(string \<Rightarrow> string \<Rightarrow> int) \<Rightarrow> relay_query \<Rightarrow> doh \<Rightarrow> string list \<Rightarrow> string \<Rightarrow> DiscoveredZone list" where
  "discoverZones lc query fetch relays dohEndpoint =
     (case queryZoneHandlerEvents query relays of
        Inl _ \<Rightarrow> []
      | Inr events \<Rightarrow>
          let byZone = foldl zone_event_step [] events;
              zones = collect (\<lambda>(event, ts). eventToPartialZone event) (map_values byZone)
          in js_sort (\<lambda>a b. lc (dz_zone a) (dz_zone b)) (map (verify_zone fetch dohEndpoint) zones))"

section \<open>The check of one zone\<close>

definition flag_set :: "string option \<Rightarrow> bool" where
  "flag_set v \<longleftrightarrow> v = Some ''1'' \<or> v = Some ''true''"

definition price_field :: "(string, string) jsmap \<Rightarrow> string \<Rightarrow> int" where
  "price_field parsed k = parseInt_or (nullish (map_get parsed k) ''0'') 0"

definition buildZoneInfo :: "(string, string) jsmap \<Rightarrow> string \<Rightarrow> ZoneInfo" where
  "buildZoneInfo parsed zone =
     (let createPrice = price_field parsed ''create'';
          updatePrice = price_field parsed ''update'';
          deletePrice = price_field parsed ''delete''
      in \<lparr>zi_zone = zone, zi_npub = nullish (map_get parsed ''npub'') [],
          zi_testnet = flag_set (map_get parsed ''testnet''), zi_optedIn = True,
          zi_pricing = (if createPrice > 0 \<or> updatePrice > 0 \<or> deletePrice > 0
            then Some \<lparr>zp_create = createPrice, zp_update = updatePrice, zp_delete = deletePrice\<rparr>
            else None),
          zi_mintUrl = (case map_get parsed ''mint'' of
              Some m \<Rightarrow> if m \<noteq> [] \<and> \<not> startsWith m ''http'' then Some (''https://'' @ m) else Some m
            | None \<Rightarrow> None),
          zi_npubNamesFree = (if map_get parsed ''npub_free'' = None then True
            else flag_set (map_get parsed ''npub_free'')),
          zi_handlerEventFound = False, zi_verified = False\<rparr>)"

definition fetchZoneHandler :: "relay_query \<Rightarrow> string list \<Rightarrow> string \<Rightarrow> NostrEvent option" where
  "fetchZoneHandler query relays pubkeyHex =
     (case query relays (zone_filter None (Some [pubkeyHex]) (Some 1)) ZONES_QUERY_MAX_WAIT of
        Some events \<Rightarrow> nth_opt events 0
      | None \<Rightarrow> None)"

definition checkZone ::
  "relay_query \<Rightarrow> doh \<Rightarrow> string \<Rightarrow> string list \<Rightarrow> bool \<Rightarrow> string option \<Rightarrow> ZoneCheckOutcome" where
  "checkZone query fetch zone relays skipCheck optEndpoint =
     (if skipCheck then
        Verified \<lparr>zi_zone = zone, zi_npub = [], zi_testnet = False, zi_optedIn = True, zi_pricing = None,
          zi_mintUrl = None, zi_npubNamesFree = True, zi_handlerEventFound = True, zi_verified = True\<rparr>
      else
        let txt = fetchDnsTxt fetch zone (nullish optEndpoint DEFAULT_DOH_ENDPOINT)
        in if \<not> truthy txt then NotOptedIn
           else
             let info = buildZoneInfo (parseZoneTxt (the txt)) zone
             in if zi_npub info = [] then Unverified info
                else
                  let handler = fetchZoneHandler query relays (zi_npub info)
                  in case handler of
                       Some h \<Rightarrow>
                         if toLowerCase (ev_pubkey h) = toLowerCase (zi_npub info) then
                           let info' = info\<lparr>zi_handlerEventFound := True, zi_verified := True, zi_optedIn := True\<rparr>
                           in if zi_testnet info' then Testnet info' else Verified info'
                         else Unverified (info\<lparr>zi_handlerEventFound := True, zi_verified := False\<rparr>)
                     | None \<Rightarrow> Unverified (info\<lparr>zi_handlerEventFound := False, zi_verified := False\<rparr>))"

section \<open>Lemmas\<close>

text \<open>A key and a value that can be written into a zone TXT record and read back.\<close>

definition clean_pair :: "string \<times> string \<Rightarrow> bool" where
  "clean_pair kv \<longleftrightarrow> fst kv \<noteq> [] \<and> fst kv \<noteq> ''__proto__'' \<and> trim (fst kv) = fst kv \<and>
     trim (snd kv) = snd kv \<and> CHR ''='' \<notin> set (fst kv) \<and> CHR '';'' \<notin> set (fst kv) \<and> CHR '';'' \<notin> set (snd kv)"

definition show_pair :: "string \<times> string \<Rightarrow> string" where
  "show_pair kv = fst kv @ CHR ''='' # snd kv"

lemma zone_pair_show: "clean_pair kv \<Longrightarrow> zone_pair (show_pair kv) = Some kv"
  by (simp add: clean_pair_def zone_pair_def show_pair_def indexOf_append slice_to_def slice_from_def Let_def)

lemma parse_shown_pairs:
  assumes "kvs \<noteq> []" "list_all clean_pair kvs"
  shows "parseZoneTxt (join '';'' (map show_pair kvs)) = foldl (\<lambda>m kv. map_set (fst kv) (snd kv) m) [] kvs"
proof -
  have "CHR '';'' \<notin> set w" if "w \<in> set (map show_pair kvs)" for w
    using that assms(2) by (auto simp: show_pair_def clean_pair_def list_all_iff)
  then have s: "split_on (CHR '';'') (join '';'' (map show_pair kvs)) = map show_pair kvs"
    using assms(1) by (intro split_on_join) auto
  have "foldl zone_txt_step m (map show_pair kvs) = foldl (\<lambda>m kv. map_set (fst kv) (snd kv) m) m kvs" for m
    using assms(2)
  proof (induction kvs arbitrary: m)
    case (Cons kv kvs)
    then have "zone_txt_step m (show_pair kv) = map_set (fst kv) (snd kv) m"
      by (auto simp: zone_txt_step_def zone_pair_show clean_pair_def split: prod.split)
    with Cons show ?case by simp
  qed simp
  then show ?thesis by (simp add: parseZoneTxt_def s)
qed

text \<open>The events discovery considers, and the zone each of them is for.\<close>

definition zone_event_eligible :: "NostrEvent \<Rightarrow> bool" where
  "zone_event_eligible e \<longleftrightarrow>
     (filter (tag_is ''k'') (ev_tags e) = [] \<or>
      Some ''11111'' \<in> (\<lambda>t. nth_opt t 1) ` set (filter (tag_is ''k'') (ev_tags e))) \<and>
     tag_value ''zone'' (ev_tags e) \<noteq> None"

definition zone_of_event :: "NostrEvent \<Rightarrow> string" where
  "zone_of_event e = toLowerCase (nullish (tag_value ''zone'' (ev_tags e)) [])"

lemma zone_event_step_newer:
  "zone_event_step m e =
     (if zone_event_eligible e
      then put_newer map_get map_set (zone_of_event \<circ> fst) snd m (e, ev_created_at e) else m)"
  by (auto simp: zone_event_step_def zone_event_eligible_def zone_of_event_def put_newer_def Let_def
      split: option.split)

lemma fold_zone_events:
  "map_values (foldl zone_event_step [] events) =
     newest_per_key (zone_of_event \<circ> fst) snd
       (map (\<lambda>e. (e, ev_created_at e)) (filter zone_event_eligible events))"
proof -
  have "foldl zone_event_step m events =
      foldl (put_newer map_get map_set (zone_of_event \<circ> fst) snd) m
        (map (\<lambda>e. (e, ev_created_at e)) (filter zone_event_eligible events))" for m
    by (induction events arbitrary: m) (simp_all add: zone_event_step_newer)
  then show ?thesis by (simp add: newest_per_key_def)
qed

lemma partial_zone_eligible:
  assumes "zone_event_eligible e"
  shows "\<exists>z. eventToPartialZone e = Some z \<and> dz_zone z = zone_of_event e \<and> dz_pubkey z = ev_pubkey e \<and>
    \<not> dz_verified z"
  using assms
  by (auto simp: zone_event_eligible_def eventToPartialZone_def zone_of_event_def Let_def split: prod.split)

lemma verify_zone_id [simp]:
  "dz_zone (verify_zone fetch ep z) = dz_zone z" "dz_pubkey (verify_zone fetch ep z) = dz_pubkey z"
  by (simp_all add: verify_zone_def Let_def)

lemma verify_zone_verified:
  "\<not> dz_verified z \<Longrightarrow> dz_verified (verify_zone fetch ep z) \<longleftrightarrow>
     (\<exists>txt npub. fetchDnsTxt fetch (dz_zone z) ep = Some txt \<and> txt \<noteq> [] \<and>
        map_get (parseZoneTxt txt) ''npub'' = Some npub \<and> npub \<noteq> [] \<and>
        toLowerCase npub = toLowerCase (dz_pubkey z))"
  by (auto simp: verify_zone_def Let_def truthy_def)

text \<open>The zones discovery reports, before they are sorted.\<close>

definition found_zones :: "doh \<Rightarrow> string \<Rightarrow> NostrEvent list \<Rightarrow> DiscoveredZone list" where
  "found_zones fetch ep events =
     map (verify_zone fetch ep) (collect (\<lambda>(event, ts). eventToPartialZone event)
       (newest_per_key (zone_of_event \<circ> fst) snd
          (map (\<lambda>e. (e, ev_created_at e)) (filter zone_event_eligible events))))"

lemma discoverZones_found:
  "discoverZones lc query fetch relays ep =
     (case queryZoneHandlerEvents query relays of Inl _ \<Rightarrow> []
      | Inr events \<Rightarrow> js_sort (\<lambda>a b. lc (dz_zone a) (dz_zone b)) (found_zones fetch ep events))"
  by (simp add: discoverZones_def found_zones_def fold_zone_events Let_def split: sum.split)

lemma newest_zone_event:
  assumes "(e, ts) \<in> set (newest_per_key (zone_of_event \<circ> fst) snd
      (map (\<lambda>e. (e, ev_created_at e)) (filter zone_event_eligible events)))"
  shows "e \<in> set events \<and> zone_event_eligible e \<and> ts = ev_created_at e \<and>
    (\<forall>e' \<in> set events. zone_event_eligible e' \<longrightarrow> zone_of_event e' = zone_of_event e \<longrightarrow>
       ev_created_at e' \<le> ev_created_at e)"
proof -
  let ?xs = "map (\<lambda>e. (e, ev_created_at e)) (filter zone_event_eligible events)"
  have "first_max snd (filter (\<lambda>x. (zone_of_event \<circ> fst) x = (zone_of_event \<circ> fst) (e, ts)) ?xs) = Some (e, ts)"
    using assms by (simp only: mem_newest)
  from first_max_SomeD [OF this] show ?thesis by auto
qed

lemma map_zone_found:
  "map dz_zone (found_zones fetch ep events) =
     js_uniq (map zone_of_event (filter zone_event_eligible events))"
proof -
  let ?n = "newest_per_key (zone_of_event \<circ> fst) snd
      (map (\<lambda>e. (e, ev_created_at e)) (filter zone_event_eligible events))"
  have some: "\<exists>z. eventToPartialZone (fst x) = Some z \<and> dz_zone z = zone_of_event (fst x)" if "x \<in> set ?n" for x
  proof -
    obtain e ts where x: "x = (e, ts)" by force
    then show ?thesis using newest_zone_event [of e ts events] partial_zone_eligible [of e] that
      by (metis fst_conv)
  qed
  have "collect (\<lambda>(event, ts). eventToPartialZone event) ?n = map (\<lambda>x. the (eventToPartialZone (fst x))) ?n"
  proof (rule collect_all_Some)
    fix x assume "x \<in> set ?n"
    from some [OF this] show "(case x of (event, ts) \<Rightarrow> eventToPartialZone event) = Some (the (eventToPartialZone (fst x)))"
      by (cases x) auto
  qed
  moreover have "map (\<lambda>x. dz_zone (the (eventToPartialZone (fst x)))) ?n = map (zone_of_event \<circ> fst) ?n"
  proof (rule map_cong [OF refl])
    fix x assume "x \<in> set ?n"
    from some [OF this] show "dz_zone (the (eventToPartialZone (fst x))) = (zone_of_event \<circ> fst) x" by auto
  qed
  ultimately have "map dz_zone (found_zones fetch ep events) = map (zone_of_event \<circ> fst) ?n"
    by (simp add: found_zones_def comp_def)
  also have "\<dots> = js_uniq (map (zone_of_event \<circ> fst) (map (\<lambda>e. (e, ev_created_at e)) (filter zone_event_eligible events)))"
    by (rule map_key_newest)
  finally show ?thesis by (simp add: comp_def)
qed

lemma found_zone_origin:
  assumes "z \<in> set (found_zones fetch ep events)"
  obtains e where "e \<in> set events" "zone_event_eligible e" "dz_zone z = zone_of_event e"
    "dz_pubkey z = ev_pubkey e"
    "\<forall>e' \<in> set events. zone_event_eligible e' \<longrightarrow> zone_of_event e' = zone_of_event e \<longrightarrow>
       ev_created_at e' \<le> ev_created_at e"
    "\<exists>p. z = verify_zone fetch ep p \<and> \<not> dz_verified p"
proof -
  from assms obtain e ts p where e: "(e, ts) \<in> set (newest_per_key (zone_of_event \<circ> fst) snd
      (map (\<lambda>e. (e, ev_created_at e)) (filter zone_event_eligible events)))"
    and p: "eventToPartialZone e = Some p" "z = verify_zone fetch ep p"
    by (auto simp: found_zones_def set_collect)
  note n = newest_zone_event [OF e]
  from n have "zone_event_eligible e" by blast
  from partial_zone_eligible [OF this] p
  have "dz_zone z = zone_of_event e" "dz_pubkey z = ev_pubkey e" "\<not> dz_verified p" by auto
  with that n p(2) show thesis by blast
qed

section \<open>Properties\<close>

text \<open>
  Writing key=value pairs into a zone TXT record and parsing it back gives a dictionary in which
  every key has the last value written for it.
\<close>

theorem parseZoneTxt_round_trip:
  assumes "kvs \<noteq> []" "list_all clean_pair kvs"
  shows "map_get (parseZoneTxt (join '';'' (map show_pair kvs))) k = map_of (rev kvs) k"
proof -
  have "(let ys = filter (\<lambda>x. fst x = k) kvs in if ys = [] then None else Some (snd (last ys))) = map_of (rev kvs) k"
    by (induction kvs rule: rev_induct) (auto simp: Let_def)
  then show ?thesis
    using parse_shown_pairs [OF assms] jsmap.get_put_all [of fst snd kvs k] by simp
qed

theorem parseZoneTxt_round_trip_witness:
  "map_get (parseZoneTxt (join '';'' (map show_pair [(''npub'', ''ab''), (''testnet'', ''0''), (''npub'', ''cd'')])))
     ''npub'' = Some ''cd''"
proof -
  have "list_all clean_pair [(''npub'', ''ab''), (''testnet'', ''0''), (''npub'', ''cd'')]" by code_simp
  from parseZoneTxt_round_trip [OF _ this, of "''npub''"] show ?thesis by simp
qed

definition zone_confirmed :: "relay_query \<Rightarrow> doh \<Rightarrow> string \<Rightarrow> string list \<Rightarrow> string option \<Rightarrow> bool" where
  "zone_confirmed query fetch zone relays ep \<longleftrightarrow>
     (\<exists>txt npub h. fetchDnsTxt fetch zone (nullish ep DEFAULT_DOH_ENDPOINT) = Some txt \<and> txt \<noteq> [] \<and>
        map_get (parseZoneTxt txt) ''npub'' = Some npub \<and> npub \<noteq> [] \<and>
        fetchZoneHandler query relays npub = Some h \<and> toLowerCase (ev_pubkey h) = toLowerCase npub)"

lemma buildZoneInfo_npub: "zi_npub (buildZoneInfo parsed zone) = nullish (map_get parsed ''npub'') []"
  by (simp add: buildZoneInfo_def Let_def)

text \<open>
  C8. Without \<open>skipCheck\<close> a zone is reported verified, or verified for test use, exactly when its TXT
  record names a key and the relays return a handler event signed by that key.
\<close>

theorem checkZone_spec:
  "(\<exists>info. checkZone query fetch zone relays False ep \<in> {Verified info, Testnet info}) \<longleftrightarrow>
     zone_confirmed query fetch zone relays ep"
  by (auto simp: checkZone_def zone_confirmed_def Let_def buildZoneInfo_npub truthy_def nullish_def
      split: option.splits)

text \<open>
  C23. Discovery reports each zone once, under lower case, with the signer of the newest eligible event
  for it.
\<close>

theorem discoverZones_newest:
  assumes "queryZoneHandlerEvents query relays = Inr events"
  shows "distinct (map dz_zone (discoverZones lc query fetch relays ep)) \<and>
    (\<forall>z \<in> set (discoverZones lc query fetch relays ep). \<exists>e \<in> set events. zone_event_eligible e \<and>
       dz_zone z = zone_of_event e \<and> dz_pubkey z = ev_pubkey e \<and>
       (\<forall>e' \<in> set events. zone_event_eligible e' \<longrightarrow> zone_of_event e' = zone_of_event e \<longrightarrow>
          ev_created_at e' \<le> ev_created_at e)) \<and>
    dz_zone ` set (discoverZones lc query fetch relays ep) = zone_of_event ` {e \<in> set events. zone_event_eligible e}"
proof -
  have d: "discoverZones lc query fetch relays ep =
      js_sort (\<lambda>a b. lc (dz_zone a) (dz_zone b)) (found_zones fetch ep events)"
    by (simp add: discoverZones_found assms)
  have "distinct (map dz_zone (discoverZones lc query fetch relays ep))"
    by (simp add: d map_zone_found)
  moreover have "dz_zone ` set (discoverZones lc query fetch relays ep) =
      zone_of_event ` {e \<in> set events. zone_event_eligible e}"
    using arg_cong [OF map_zone_found, of set fetch ep events] by (simp add: d)
  moreover have "\<exists>e \<in> set events. zone_event_eligible e \<and>
       dz_zone z = zone_of_event e \<and> dz_pubkey z = ev_pubkey e \<and>
       (\<forall>e' \<in> set events. zone_event_eligible e' \<longrightarrow> zone_of_event e' = zone_of_event e \<longrightarrow>
          ev_created_at e' \<le> ev_created_at e)" if "z \<in> set (discoverZones lc query fetch relays ep)" for z
  proof -
    from that have "z \<in> set (found_zones fetch ep events)" by (simp add: d)
    then show ?thesis by (rule found_zone_origin) blast
  qed
  ultimately show ?thesis by blast
qed

text \<open>Two handler events for one zone, of which the later names its signer in the zone's TXT record.\<close>

definition zone_event :: "string \<Rightarrow> int \<Rightarrow> NostrEvent" where
  "zone_event signer date = \<lparr>ev_id = ''z'', ev_pubkey = signer, ev_created_at = date, ev_kind = ZONE_HANDLER_KIND,
     ev_tags = [[''k'', ''11111''], [''zone'', ''Nodns.Shop'']], ev_content = [], ev_sig = []\<rparr>"

definition zone_events :: "NostrEvent list" where
  "zone_events = [zone_event ''ef'' 3, zone_event ''AB'' 5]"

definition zone_query :: relay_query where
  "zone_query relays f w = Some zone_events"

definition zone_doh :: doh where
  "zone_doh url = Reply 200 (Some \<lparr>dr_Status = 0, dr_Answer = Some [\<lparr>da_name = ''_nodns'', da_type = 16,
     da_TTL = 60, da_data = ''npub=ab;create=5''\<rparr>]\<rparr>)"

definition length_compare :: "string \<Rightarrow> string \<Rightarrow> int" where
  "length_compare a b = int (length a) - int (length b)"

theorem discoverZones_newest_witness:
  "dz_zone ` set (discoverZones length_compare zone_query zone_doh [] ''https://doh'') = {''nodns.shop''} \<and>
   distinct (map dz_zone (discoverZones length_compare zone_query zone_doh [] ''https://doh''))"
proof -
  have "queryZoneHandlerEvents zone_query [] = Inr zone_events" by code_simp
  note n = discoverZones_newest [OF this, of length_compare zone_doh "''https://doh''"]
  have "list_all zone_event_eligible zone_events" by code_simp
  then have "{e \<in> set zone_events. zone_event_eligible e} = set zone_events" by (auto simp: list_all_iff)
  moreover have "map zone_of_event zone_events = [''nodns.shop'', ''nodns.shop'']" by code_simp
  then have "set (map zone_of_event zone_events) = {''nodns.shop''}" unfolding \<open>map zone_of_event zone_events = _\<close> by simp
  then have "zone_of_event ` set zone_events = {''nodns.shop''}" unfolding set_map .
  ultimately show ?thesis using n by presburger
qed

text \<open>
  C24. A zone that discovery reports as verified has a TXT record whose \<open>npub\<close> is the signer of the
  zone's event, case aside.
\<close>

theorem discoverZones_verified:
  assumes "z \<in> set (discoverZones lc query fetch relays ep)" "dz_verified z"
  shows "\<exists>txt npub. fetchDnsTxt fetch (dz_zone z) ep = Some txt \<and>
    map_get (parseZoneTxt txt) ''npub'' = Some npub \<and> npub \<noteq> [] \<and>
    toLowerCase npub = toLowerCase (dz_pubkey z)"
proof -
  obtain events where e: "queryZoneHandlerEvents query relays = Inr events"
    using assms(1) by (cases "queryZoneHandlerEvents query relays") (auto simp: discoverZones_found)
  with assms(1) have "z \<in> set (found_zones fetch ep events)" by (simp add: discoverZones_found)
  then obtain p where p: "z = verify_zone fetch ep p" "\<not> dz_verified p"
    by (rule found_zone_origin) blast
  show ?thesis using assms(2) verify_zone_verified [OF p(2), of fetch ep] unfolding p(1) by auto
qed

theorem discoverZones_verified_witness:
  "\<exists>z. z \<in> set (discoverZones length_compare zone_query zone_doh [] ''https://doh'') \<and> dz_verified z \<and>
     dz_pubkey z = ''AB'' \<and>
     (\<exists>txt npub. fetchDnsTxt zone_doh (dz_zone z) ''https://doh'' = Some txt \<and>
        map_get (parseZoneTxt txt) ''npub'' = Some npub \<and> toLowerCase npub = toLowerCase (dz_pubkey z))"
proof -
  let ?d = "discoverZones length_compare zone_query zone_doh [] ''https://doh''"
  have "map (\<lambda>z. (dz_verified z, dz_pubkey z)) ?d = [(True, ''AB'')]" by code_simp
  then obtain z where z: "z \<in> set ?d" "dz_verified z" "dz_pubkey z = ''AB''"
    by (cases ?d) auto
  with discoverZones_verified [OF z(1,2)] show ?thesis by blast
qed

end
