(* ===== verification/Sdk_Resolver.thy ===== *)
theory Sdk_Resolver
  imports Sdk_Verify Sdk_Zones
begin

text \<open>
  \<open>nodns-resolver/src/resolver.ts\<close>: the resolver object. \<open>createResolver\<close> fixes five settings that
  its functions close over; they are the fields of the record \<open>Resolver\<close> and the first argument of
  each function. What the functions reach outside the program is the record \<open>world\<close>: the nostr
  library, the relays, the API and the DNS servers.
\<close>

record world =
  w_lib :: nostr_lib
  w_query :: relay_query
  w_api :: api
  w_doh :: doh

record Resolver =
  rs_mode :: ResolutionMode
  rs_relays :: "string list"
  rs_apiBase :: string
  rs_zone :: string
  rs_dohEndpoint :: string

definition createResolver :: "ResolverOptions option \<Rightarrow> Resolver" where
  "createResolver options =
     \<lparr>rs_mode = nullish (Option.bind options ro_mode) ModeDns,
      rs_relays = nullish (Option.bind options ro_relays) DEFAULT_READ_RELAYS,
      rs_apiBase = nullish (Option.bind options ro_apiBase) DEFAULT_API_BASE,
      rs_zone = nullish (Option.bind options ro_zone) DEFAULT_ZONE,
      rs_dohEndpoint = nullish (Option.bind options ro_dohEndpoint) DEFAULT_DOH_ENDPOINT\<rparr>"

definition normalizeNpubToHex :: "nostr_lib \<Rightarrow> string \<Rightarrow> string" where
  "normalizeNpubToHex L npub =
     (if startsWith npub ''npub1'' then
        (case nl_decode L npub of Some (DNpub hex) \<Rightarrow> hex | _ \<Rightarrow> npub)
      else npub)"

definition extractZoneFromFqdn :: "string \<Rightarrow> string list \<Rightarrow> string" where
  "extractZoneFromFqdn fqdn knownZones =
     (let lower = toLowerCase fqdn
      in nullish (List.find (\<lambda>z. endsWith lower (''.'' @ z)) knownZones) [])"

definition resolveVerifiedInternal ::
  "world \<Rightarrow> Resolver \<Rightarrow> string \<Rightarrow> string option \<Rightarrow> ResolveVerifiedResult" where
  "resolveVerifiedInternal W R name type =
     (let detectedZone =
            (let z = extractZoneFromFqdn name [rs_zone R] in if z \<noteq> [] then z else rs_zone R);
          pubkey = (if startsWith name ''npub1'' then Some (normalizeNpubToHex (w_lib W) name) else None);
          domain = (if \<not> truthy pubkey then Some name else None);
          sources = fetchTripartiteRecords (w_lib W) (w_query W) (w_api W) (w_doh W)
            \<lparr>fp_pubkey = pubkey, fp_domain = domain\<rparr> detectedZone (rs_relays R) (rs_apiBase R)
            (Some (rs_dohEndpoint R));
          comparison = compareTripartite sources;
          records = toResolvedRecords sources comparison;
          records' = (if truthy type then filter (\<lambda>r. Some (rr_type r) = type) records else records)
      in \<lparr>rv_records = records', rv_verified = tc_match comparison, rv_sources = sources,
          rv_comparison = comparison\<rparr>)"

definition resolveVerified :: "world \<Rightarrow> Resolver \<Rightarrow> string \<Rightarrow> string option \<Rightarrow> ResolveVerifiedResult" where
  "resolveVerified W R name type = resolveVerifiedInternal W R name type"

definition resolved_of_nostr :: "NostrDnsRecord \<Rightarrow> ResolvedRecord" where
  "resolved_of_nostr r = \<lparr>rr_type = nr_type r, rr_name = nr_fqdn r, rr_ttl = nr_ttl r, rr_data = nr_value r,
     rr_source = Some SrcNostr, rr_pubkey = Some (nr_pubkey r), rr_eventId = Some (nr_eventId r)\<rparr>"

definition resolve :: "world \<Rightarrow> Resolver \<Rightarrow> string \<Rightarrow> string option \<Rightarrow> ResolvedRecord list" where
  "resolve W R name type =
     (case rs_mode R of
        ModeDns \<Rightarrow>
          let types = (if truthy type then [the type] else [''A'', ''AAAA'', ''TXT'', ''CNAME'', ''MX''])
          in map resolved_of_dns (queryAllDnsRecordTypes (w_doh W) name types (Some (rs_dohEndpoint R)))
      | ModeNostr \<Rightarrow>
          map resolved_of_nostr
            (filter (\<lambda>r. \<not> truthy type \<or> Some (nr_type r) = type)
              (queryRecordsByDomain (w_lib W) (w_query W) name (rs_zone R) (rs_relays R) None))
      | ModeTripartite \<Rightarrow> rv_records (resolveVerifiedInternal W R name type))"

definition reverse_npub :: "world \<Rightarrow> Resolver \<Rightarrow> string \<Rightarrow> ReverseResult" where
  "reverse_npub W R npub =
     (let hexPubkey = normalizeNpubToHex (w_lib W) npub;
          records = queryRecordsByPubkey (w_lib W) (w_query W) hexPubkey (rs_zone R) (rs_relays R) None
      in \<lparr>rev_names = js_sort cmp_order (js_uniq (map nr_fqdn records)), rev_records = records\<rparr>)"

definition resolver_discoverZones ::
  "(string \<Rightarrow> string \<Rightarrow> int) \<Rightarrow> world \<Rightarrow> Resolver \<Rightarrow> DiscoveredZone list" where
  "resolver_discoverZones lc W R = discoverZones lc (w_query W) (w_doh W) (rs_relays R) (rs_dohEndpoint R)"

definition getNostrRecords :: "world \<Rightarrow> Resolver \<Rightarrow> fetch_params \<Rightarrow> NostrDnsRecord list" where
  "getNostrRecords W R params =
     (if truthy (fp_pubkey params) then
        let hex = (if startsWith (the (fp_pubkey params)) ''npub1''
              then normalizeNpubToHex (w_lib W) (the (fp_pubkey params)) else the (fp_pubkey params))
        in queryRecordsByPubkey (w_lib W) (w_query W) hex (rs_zone R) (rs_relays R) None
      else if truthy (fp_domain params) then
        queryRecordsByDomain (w_lib W) (w_query W) (the (fp_domain params)) (rs_zone R) (rs_relays R) None
      else [])"

section \<open>Lemmas\<close>

interpretation code_units: comparator "cmp_order :: string \<Rightarrow> string \<Rightarrow> int"
  by (rule comparator_cmp_order)

lemma rv_parts:
  "rv_comparison (resolveVerified W R name type) = compareTripartite (rv_sources (resolveVerified W R name type))"
  "rv_verified (resolveVerified W R name type) = tc_match (rv_comparison (resolveVerified W R name type))"
  "rv_records (resolveVerified W R name type) =
     (let rs = toResolvedRecords (rv_sources (resolveVerified W R name type))
            (compareTripartite (rv_sources (resolveVerified W R name type)))
      in if truthy type then filter (\<lambda>r. Some (rr_type r) = type) rs else rs)"
  by (simp_all add: resolveVerified_def resolveVerifiedInternal_def Let_def)

section \<open>Properties\<close>

text \<open>
  C5. A verified resolution reports only types and values that two of the three sources offer, of the
  asked type when one was asked for; and it calls the result verified exactly when no source offers a
  type and value of its own.
\<close>

theorem resolveVerified_sound:
  "rr_key ` set (rv_records (resolveVerified W R name type)) \<subseteq> confirmed (rv_sources (resolveVerified W R name type)) \<and>
   rr_type ` set (rv_records (resolveVerified W R name type)) \<subseteq> (if truthy type then {the type} else UNIV) \<and>
   (rv_verified (resolveVerified W R name type) \<longleftrightarrow>
      (let s = rv_sources (resolveVerified W R name type)
       in set (api_keys s) \<union> set (nostr_keys s) \<union> set (dns_keys s) \<subseteq> confirmed s))"
proof -
  let ?r = "resolveVerified W R name type"
  have "set (rv_records ?r) \<subseteq> set (toResolvedRecords (rv_sources ?r) (compareTripartite (rv_sources ?r)))"
    unfolding rv_parts(3) by (auto simp: Let_def)
  then have "rr_key ` set (rv_records ?r) \<subseteq> confirmed (rv_sources ?r)"
    using toResolvedRecords_keys by (meson image_mono subset_trans)
  moreover have "rr_type ` set (rv_records ?r) \<subseteq> (if truthy type then {the type} else UNIV)"
    unfolding rv_parts(3) by (auto simp: Let_def)
  ultimately show ?thesis by (simp add: rv_parts(1,2) compare_match Let_def)
qed

text \<open>
  A name that starts with \<open>npub1\<close>, such as the name the SDK itself gives a key's apex in a zone, is
  taken for a key: DNS is not asked, and the source is reported unavailable.
\<close>

theorem resolveVerified_npub_skips_dns:
  assumes "startsWith name ''npub1''" "nl_decode (w_lib W) name \<noteq> Some (DNpub [])"
  shows "sr_status (tp_dns (rv_sources (resolveVerified W R name type))) = Unavailable \<and>
    sr_records (tp_dns (rv_sources (resolveVerified W R name type))) = []"
proof -
  have "normalizeNpubToHex (w_lib W) name \<noteq> []"
    using assms by (auto simp: normalizeNpubToHex_def startsWith_iff split: option.splits nip19_data.splits)
  then show ?thesis
    using assms(1) by (simp add: resolveVerified_def resolveVerifiedInternal_def Let_def fetchTripartiteRecords_def)
qed

definition example_world :: world where
  "example_world = \<lparr>w_lib = example_lib, w_query = example_query, w_api = example_api, w_doh = example_doh\<rparr>"

theorem resolveVerified_npub_skips_dns_witness:
  "sr_status (tp_dns (rv_sources (resolveVerified example_world (createResolver None)
     (computeFqdn (nl_npubEncode example_lib) ''@'' ''ab'' ''nodns.shop'') None))) = Unavailable"
proof -
  have "startsWith (computeFqdn (nl_npubEncode example_lib) ''@'' ''ab'' ''nodns.shop'') ''npub1''" by code_simp
  moreover have "nl_decode (w_lib example_world)
      (computeFqdn (nl_npubEncode example_lib) ''@'' ''ab'' ''nodns.shop'') \<noteq> Some (DNpub [])" by code_simp
  ultimately show ?thesis using resolveVerified_npub_skips_dns by blast
qed

text \<open>
  A reverse lookup lists, in strictly increasing order of their code units, exactly the names of
  the records of the key.
\<close>

theorem reverse_names_sorted:
  "sorted_wrt (<) (rev_names (reverse_npub W R npub)) \<and>
   set (rev_names (reverse_npub W R npub)) = nr_fqdn ` set (rev_records (reverse_npub W R npub))"
proof -
  let ?xs = "js_sort cmp_order (js_uniq (map nr_fqdn (rev_records (reverse_npub W R npub))))"
  have "distinct ?xs" using distinct_map_js_sort [where f = id] by (metis distinct_js_uniq list.map_id)
  moreover have "sorted_wrt (\<le>) ?xs" using code_units.sorted_js_sort by (simp add: cmp_order_le)
  ultimately have "sorted_wrt (<) ?xs" by (simp add: strict_sorted_iff)
  then show ?thesis by (simp add: reverse_npub_def Let_def)
qed

end
