(* ===== verification/Js_Json.thy ===== *)
theory Js_Json
  imports Js_Number Js_Collections
begin

text \<open>
  JSON values as \<open>JSON.parse\<close> makes them and \<open>JSON.stringify\<close> takes them: the type, the property
  access and the truth value that the clients of the web services use. A property is read from an
  object only; of the other values every property the code asks for is undefined (\<^const>\<open>None\<close>), and
  asking \<open>null\<close> for one throws.
\<close>

datatype json =
    JNull
  | JBool bool
  | JNum rat
  | JStr string
  | JArr "json list"
  | JObj "(string \<times> json) list"

text \<open>A member written twice has its last value.\<close>

definition json_get :: "json \<Rightarrow> string \<Rightarrow> json option" where
  "json_get v k = (case v of JObj ps \<Rightarrow> map_of (rev ps) k | _ \<Rightarrow> None)"

definition json_truthy :: "json option \<Rightarrow> bool" where
  "json_truthy v =
     (case v of None \<Rightarrow> False | Some JNull \<Rightarrow> False | Some (JBool b) \<Rightarrow> b | Some (JNum n) \<Rightarrow> n \<noteq> 0
      | Some (JStr s) \<Rightarrow> s \<noteq> [] | _ \<Rightarrow> True)"

text \<open>\<open>typeof v === 'string' ? v : ''\<close>, and the test \<open>Array.isArray(v) ? v : []\<close>.\<close>

definition json_string :: "json option \<Rightarrow> string option" where
  "json_string v = (case v of Some (JStr s) \<Rightarrow> Some s | _ \<Rightarrow> None)"

definition json_array :: "json option \<Rightarrow> json list" where
  "json_array v = (case v of Some (JArr xs) \<Rightarrow> xs | _ \<Rightarrow> [])"

lemma json_get_simps [simp]:
  "json_get JNull k = None" "json_get (JBool b) k = None" "json_get (JNum n) k = None"
  "json_get (JStr s) k = None" "json_get (JArr xs) k = None"
  "json_get (JObj []) k = None"
  "json_get (JObj (ps @ [(k', v)])) k = (if k = k' then Some v else json_get (JObj ps) k)"
  by (simp_all add: json_get_def)

lemma json_string_Some_iff: "json_string v = Some s \<longleftrightarrow> v = Some (JStr s)"
  by (auto simp: json_string_def split: option.splits json.splits)

end
