(* ===== verification/Sdk_ApiClient.thy ===== *)
theory Sdk_ApiClient
  imports Sdk_Dns Js_Json Js_Regex
begin

text \<open>
  \<open>nodns-resolver/src/api-client.ts\<close>: the client of the registrar's API. The \<open>URL\<close> class and the
  network are parameters: \<open>new_url\<close> is the constructor (\<^const>\<open>None\<close> when it throws), \<open>set_param\<close> the
  effect of \<open>searchParams.set\<close> on the text of the address, and \<open>net\<close> the outcome of a request.
\<close>

datatype api_error =
    ApiError int string
  | NetworkError string
  | TimeoutError string
  | Uncaught

definition default_network_message :: string where
  "default_network_message = ''Unable to connect. Please check your network.''"

definition default_timeout_message :: string where
  "default_timeout_message = ''Request timed out. Please try again.''"

definition sanitizeErrorMessage :: "string \<Rightarrow> string" where
  "sanitizeErrorMessage msg =
     (if prefix_match (Seq (Str ''HTTP '') (Rep 3 (Cls is_digit))) msg then msg
      else if length msg < 200 \<and> \<not> str_includes msg ''<'' \<and> \<not> str_includes msg ''stack'' then msg
      else ''An unexpected error occurred. Please try again.'')"

text \<open>\<open>new ApiError(status, message)\<close>\<close>

definition newApiError :: "int \<Rightarrow> string \<Rightarrow> api_error" where
  "newApiError status message = ApiError status (sanitizeErrorMessage message)"

record url_class =
  new_url :: "string \<Rightarrow> string \<Rightarrow> string option"
  set_param :: "string \<Rightarrow> string \<Rightarrow> string \<Rightarrow> string"

text \<open>A parameter's value, already turned into text; \<^const>\<open>None\<close> is undefined.\<close>

type_synonym url_params = "(string \<times> string option) list"

fun apply_params :: "url_class \<Rightarrow> url_params \<Rightarrow> string \<Rightarrow> string" where
  "apply_params U [] url = url"
| "apply_params U ((key, val) # ps) url =
     apply_params U ps (case val of None \<Rightarrow> url | Some v \<Rightarrow> set_param U url key v)"

definition buildUrl :: "url_class \<Rightarrow> string \<Rightarrow> string \<Rightarrow> url_params option \<Rightarrow> string option" where
  "buildUrl U baseUrl path params =
     map_option (apply_params U (nullish params []))
       (new_url U (if startsWith path ''http'' then path else baseUrl @ path) baseUrl)"

record ApiClientConfig =
  ac_baseUrl :: string
  ac_getNpub :: "string option option"

record RequestOptions =
  op_params :: "url_params option"
  op_body :: "json option"
  op_headers :: "(string, string) jsmap option"
  op_authHeader :: "string option"

record http_request =
  hr_url :: string
  hr_method :: string
  hr_headers :: "(string, string) jsmap"
  hr_body :: "json option"

type_synonym network = "http_request \<Rightarrow> json fetch_outcome"

definition request_headers :: "ApiClientConfig \<Rightarrow> RequestOptions \<Rightarrow> (string, string) jsmap" where
  "request_headers config options =
     (let headers = foldl (\<lambda>m kv. map_set (fst kv) (snd kv) m)
            [(''Content-Type'', ''application/json'')] (nullish (op_headers options) []);
          npub = (case op_authHeader options of Some a \<Rightarrow> Some a
            | None \<Rightarrow> (case ac_getNpub config of Some r \<Rightarrow> r | None \<Rightarrow> None))
      in if truthy npub then map_set ''X-Nostr-Npub'' (the npub) headers else headers)"

definition error_message :: "int \<Rightarrow> json option \<Rightarrow> string" where
  "error_message status body =
     (case body of
        None \<Rightarrow> ''HTTP '' @ show_int status
      | Some errorBody \<Rightarrow>
          let raw = nullish (json_string (json_get errorBody ''error'')) []
          in if raw \<noteq> [] then raw else ''HTTP '' @ show_int status)"

text \<open>The result of a request: an error thrown, or the body, \<^const>\<open>None\<close> for no content (204).\<close>

definition api_request ::
  "url_class \<Rightarrow> network \<Rightarrow> ApiClientConfig \<Rightarrow> string \<Rightarrow> string \<Rightarrow> RequestOptions \<Rightarrow> api_error + json option"
  where
  "api_request U net config httpMethod path options =
     (case buildUrl U (ac_baseUrl config) path (op_params options) of
        None \<Rightarrow> Inl Uncaught
      | Some url \<Rightarrow>
          (case net \<lparr>hr_url = url, hr_method = httpMethod, hr_headers = request_headers config options,
              hr_body = op_body options\<rparr> of
             FetchAbort \<Rightarrow> Inl (TimeoutError default_timeout_message)
           | FetchFail \<Rightarrow> Inl (NetworkError default_network_message)
           | Reply status body \<Rightarrow>
               if \<not> response_ok status then Inl (newApiError status (error_message status body))
               else if status = 204 then Inr None
               else (case body of None \<Rightarrow> Inl Uncaught | Some v \<Rightarrow> Inr (Some v))))"

definition api_get ::
  "url_class \<Rightarrow> network \<Rightarrow> ApiClientConfig \<Rightarrow> string \<Rightarrow> RequestOptions \<Rightarrow> api_error + json option" where
  "api_get U net config path options = api_request U net config ''GET'' path options"

definition api_post ::
  "url_class \<Rightarrow> network \<Rightarrow> ApiClientConfig \<Rightarrow> string \<Rightarrow> json option \<Rightarrow> RequestOptions \<Rightarrow> api_error + json option"
  where
  "api_post U net config path body options =
     api_request U net config ''POST'' path (options\<lparr>op_body := body\<rparr>)"

definition api_put ::
  "url_class \<Rightarrow> network \<Rightarrow> ApiClientConfig \<Rightarrow> string \<Rightarrow> json option \<Rightarrow> RequestOptions \<Rightarrow> api_error + json option"
  where
  "api_put U net config path body options =
     api_request U net config ''PUT'' path (options\<lparr>op_body := body\<rparr>)"

definition api_delete ::
  "url_class \<Rightarrow> network \<Rightarrow> ApiClientConfig \<Rightarrow> string \<Rightarrow> RequestOptions \<Rightarrow> api_error + json option" where
  "api_delete U net config path options = api_request U net config ''DELETE'' path options"

section \<open>Properties\<close>

definition http_line :: "string \<Rightarrow> bool" where
  "http_line msg \<longleftrightarrow> (\<exists>d rest. msg = ''HTTP '' @ d @ rest \<and> length d = 3 \<and> list_all is_digit d)"

lemma http_line_prefix:
  "prefix_match (Seq (Str ''HTTP '') (Rep 3 (Cls is_digit))) msg \<longleftrightarrow> http_line msg"
proof -
  have "prefix_match (Seq (Str ''HTTP '') (Rep 3 (Cls is_digit))) msg \<longleftrightarrow>
      (\<exists>u v. msg = u @ v \<and> (\<exists>d. u = ''HTTP '' @ d \<and> length d = 3 \<and> list_all is_digit d))"
    unfolding prefix_match_lang lang.simps lang_Str lang_Rep_Cls in_conc by blast
  also have "\<dots> \<longleftrightarrow> http_line msg"
  proof
    assume "\<exists>u v. msg = u @ v \<and> (\<exists>d. u = ''HTTP '' @ d \<and> length d = 3 \<and> list_all is_digit d)"
    then show "http_line msg" unfolding http_line_def by (metis append_assoc)
  next
    assume "http_line msg"
    then show "\<exists>u v. msg = u @ v \<and> (\<exists>d. u = ''HTTP '' @ d \<and> length d = 3 \<and> list_all is_digit d)"
      unfolding http_line_def by (metis append_assoc)
  qed
  finally show ?thesis .
qed

definition harmless :: "string \<Rightarrow> bool" where
  "harmless msg \<longleftrightarrow> length msg < 200 \<and> \<not> str_includes msg ''<'' \<and> \<not> str_includes msg ''stack''"

lemma sanitize_cases: "http_line (sanitizeErrorMessage msg) \<or> harmless (sanitizeErrorMessage msg)"
proof -
  have "harmless ''An unexpected error occurred. Please try again.''" by code_simp
  then show ?thesis unfolding sanitizeErrorMessage_def http_line_prefix
    by (auto simp: harmless_def)
qed

text \<open>
  Every API error a request throws has the failed status of the reply, and a message that is short
  and free of markup and stack traces, unless it starts like a status line.
\<close>

theorem api_request_error:
  assumes "api_request U net config httpMethod path options = Inl (ApiError status msg)"
  shows "\<not> response_ok status \<and> (http_line msg \<or> harmless msg)"
proof -
  obtain st m where "\<not> response_ok st" "newApiError st m = ApiError status msg"
    using assms by (auto simp: api_request_def newApiError_def split: option.splits fetch_outcome.splits if_splits)
  then show ?thesis using sanitize_cases by (auto simp: newApiError_def)
qed

definition example_url :: url_class where
  "example_url = \<lparr>new_url = (\<lambda>p b. Some p), set_param = (\<lambda>u k v. u @ ''?'' @ k @ ''='' @ v)\<rparr>"

definition example_config :: ApiClientConfig where
  "example_config = \<lparr>ac_baseUrl = ''https://api'', ac_getNpub = None\<rparr>"

definition no_options :: RequestOptions where
  "no_options = \<lparr>op_params = None, op_body = None, op_headers = None, op_authHeader = None\<rparr>"

theorem api_request_error_witness:
  "api_request example_url (\<lambda>_. Reply 500 (Some (JObj [(''error'', JStr ''<b>'')]))) example_config ''GET'' ''/x''
     no_options = Inl (ApiError 500 ''An unexpected error occurred. Please try again.'') \<and>
   (http_line ''An unexpected error occurred. Please try again.'' \<or>
    harmless ''An unexpected error occurred. Please try again.'')"
proof -
  have e: "api_request example_url (\<lambda>_. Reply 500 (Some (JObj [(''error'', JStr ''<b>'')]))) example_config ''GET'' ''/x''
     no_options = Inl (ApiError 500 ''An unexpected error occurred. Please try again.'')" by code_simp
  from api_request_error [OF e] e show ?thesis by blast
qed

text \<open>
  The exception for status lines looks at the start only: whatever an error body says after
  \<open>HTTP\<close> and three digits reaches the user unchanged, markup and stack traces included.
\<close>

theorem sanitizeErrorMessage_bypass:
  assumes "length d = 3" "list_all is_digit d"
  shows "sanitizeErrorMessage (''HTTP '' @ d @ rest) = ''HTTP '' @ d @ rest"
proof -
  have "http_line (''HTTP '' @ d @ rest)" using assms by (auto simp: http_line_def)
  then show ?thesis by (simp only: sanitizeErrorMessage_def http_line_prefix if_True)
qed

theorem sanitizeErrorMessage_bypass_witness:
  "sanitizeErrorMessage (''HTTP '' @ ''500'' @ ''<script>'') = ''HTTP 500<script>''"
proof -
  have "list_all is_digit ''500''" by code_simp
  from sanitizeErrorMessage_bypass [OF _ this, of "''<script>''"] show ?thesis by simp
qed

end
