(* ===== verification/Sdk_Notary.thy ===== *)
theory Sdk_Notary
  imports Sdk_ApiClient
begin

text \<open>
  \<open>nodns-resolver/src/notary.ts\<close>: the notary that timestamps proofs of burn. A request to it is
  \<^typ>\<open>http_request\<close>; since the notary answers the same request differently over time, its replies to
  the polling loop are a function of the number of the attempt.
\<close>

definition DEFAULT_NOTARY_URL :: string where
  "DEFAULT_NOTARY_URL = ''https://notary.electrum.org/n/api''"

record NotaryRequestParams =
  np_event_id :: string
  np_value_sats :: int
  np_nonce :: "string option"

definition notary_post :: "string \<Rightarrow> string \<Rightarrow> json \<Rightarrow> http_request" where
  "notary_post notaryUrl op body =
     \<lparr>hr_url = notaryUrl @ op, hr_method = ''POST'', hr_headers = [(''Content-Type'', ''application/json'')],
      hr_body = Some body\<rparr>"

text \<open>\<open>b.toString(16).padStart(2, '0')\<close> for each of the random bytes.\<close>

definition generateNonce :: "bytes \<Rightarrow> string" where
  "generateNonce random = concat (map byte_hex random)"

definition createBurnRequest ::
  "(http_request \<Rightarrow> (string \<times> json fetch_outcome)) \<Rightarrow> NotaryRequestParams \<Rightarrow> string \<Rightarrow> bytes \<Rightarrow> js_error + json"
  where
  "createBurnRequest net params notaryUrl random =
     (let nonce = or_else (np_nonce params) (generateNonce random);
          body = JObj [(''event_id'', JStr (np_event_id params)),
            (''value_sats'', JNum (of_int (np_value_sats params))), (''nonce'', JStr nonce)];
          (statusText, outcome) = net (notary_post notaryUrl ''/add_request'' body)
      in case outcome of
           Reply status reply \<Rightarrow>
             if \<not> response_ok status
             then Inl (JsError (''Notary request failed: '' @ show_int status @ '' '' @ statusText))
             else lib_call reply
         | _ \<Rightarrow> Inl LibError)"

text \<open>The loop of \<open>pollForProof\<close>, from attempt \<open>i\<close> on with \<open>fuel\<close> attempts left: the result and the
  number of requests made. A rejected request, and a reply that is no JSON or is \<open>null\<close>, throw out of
  the loop.\<close>

fun poll_loop :: "(nat \<Rightarrow> json fetch_outcome) \<Rightarrow> nat \<Rightarrow> nat \<Rightarrow> (js_error + json) \<times> nat" where
  "poll_loop replies i 0 = (Inl (JsError ''Timed out waiting for proof''), i)"
| "poll_loop replies i (Suc fuel) =
     (case replies i of
        Reply status reply \<Rightarrow>
          if response_ok status then
            (case reply of
               None \<Rightarrow> (Inl LibError, Suc i)
             | Some data \<Rightarrow>
                 if data = JNull then (Inl LibError, Suc i)
                 else if \<not> json_truthy (json_get data ''error'') then (Inr data, Suc i)
                 else poll_loop replies (Suc i) fuel)
          else poll_loop replies (Suc i) fuel
      | _ \<Rightarrow> (Inl LibError, Suc i))"

definition pollForProof ::
  "(http_request \<Rightarrow> nat \<Rightarrow> json fetch_outcome) \<Rightarrow> json \<Rightarrow> string \<Rightarrow> int \<Rightarrow> (js_error + json) \<times> nat" where
  "pollForProof net invoice notaryUrl maxAttempts =
     poll_loop (net (notary_post notaryUrl ''/get_proof'' invoice)) 0 (nat maxAttempts)"

definition verifyProof :: "network \<Rightarrow> json \<Rightarrow> string \<Rightarrow> js_error + bool" where
  "verifyProof net proof notaryUrl =
     (case net (notary_post notaryUrl ''/verify_proof'' proof) of
        Reply status reply \<Rightarrow>
          if \<not> response_ok status then Inr False
          else (case reply of
              None \<Rightarrow> Inl LibError
            | Some data \<Rightarrow>
                if data = JNull then Inl LibError
                else Inr (json_get data ''verified'' = Some (JBool True) \<or>
                  json_get data ''confirmations'' \<noteq> None))
      | _ \<Rightarrow> Inl LibError)"

section \<open>Lemmas\<close>

text \<open>What one reply means to the loop: go on, or stop with a result.\<close>

definition poll_result :: "json fetch_outcome \<Rightarrow> (js_error + json) option" where
  "poll_result r =
     (case r of
        Reply status reply \<Rightarrow>
          if response_ok status then
            (case reply of
               None \<Rightarrow> Some (Inl LibError)
             | Some data \<Rightarrow>
                 if data = JNull then Some (Inl LibError)
                 else if json_truthy (json_get data ''error'') then None else Some (Inr data))
          else None
      | _ \<Rightarrow> Some (Inl LibError))"

lemma poll_loop_step:
  "poll_loop replies i (Suc fuel) =
     (case poll_result (replies i) of Some r \<Rightarrow> (r, Suc i) | None \<Rightarrow> poll_loop replies (Suc i) fuel)"
  by (auto simp: poll_result_def split: fetch_outcome.split option.split)

lemma poll_loop_pending:
  "\<forall>j. i \<le> j \<and> j < i + fuel \<longrightarrow> poll_result (replies j) = None \<Longrightarrow>
     poll_loop replies i fuel = (Inl (JsError ''Timed out waiting for proof''), i + fuel)"
  by (induction fuel arbitrary: i) (simp_all add: poll_loop_step del: poll_loop.simps(2))

lemma poll_loop_stops:
  "i \<le> k \<Longrightarrow> k < i + fuel \<Longrightarrow> \<forall>j. i \<le> j \<and> j < k \<longrightarrow> poll_result (replies j) = None \<Longrightarrow>
     poll_result (replies k) = Some r \<Longrightarrow> poll_loop replies i fuel = (r, Suc k)"
proof (induction fuel arbitrary: i)
  case (Suc fuel)
  then show ?case
    by (cases "i = k") (simp_all add: poll_loop_step del: poll_loop.simps(2))
qed simp

section \<open>Properties\<close>

text \<open>
  C22. Polling ends after at most \<open>maxAttempts\<close> requests: with the result of the first reply that is not
  pending, after exactly that many requests, or with the time-out error when all are pending.
\<close>

theorem pollForProof_spec:
  "pollForProof net invoice url maxAttempts =
     (case List.find (\<lambda>k. poll_result (net (notary_post url ''/get_proof'' invoice) k) \<noteq> None)
        [0 ..< nat maxAttempts] of
        None \<Rightarrow> (Inl (JsError ''Timed out waiting for proof''), nat maxAttempts)
      | Some k \<Rightarrow> (the (poll_result (net (notary_post url ''/get_proof'' invoice) k)), Suc k))"
proof -
  let ?r = "net (notary_post url ''/get_proof'' invoice)"
  have "poll_loop ?r i fuel =
      (case List.find (\<lambda>k. poll_result (?r k) \<noteq> None) [i ..< i + fuel] of
        None \<Rightarrow> (Inl (JsError ''Timed out waiting for proof''), i + fuel)
      | Some k \<Rightarrow> (the (poll_result (?r k)), Suc k))" for i fuel
  proof (induction fuel arbitrary: i)
    case (Suc fuel)
    have "[i ..< i + Suc fuel] = i # [Suc i ..< Suc i + fuel]" by (simp add: upt_rec)
    with Suc [of "Suc i"] show ?case
      by (auto simp: poll_loop_step simp del: poll_loop.simps(2) upt.simps split: option.split)
  qed simp
  from this [of 0 "nat maxAttempts"] show ?thesis unfolding pollForProof_def add_0 .
qed

text \<open>
  A request that the network rejects ends the polling at once, although a failed status, or an
  answer that the proof is not there yet, is tried again: a burn already paid for is lost to one dropped
  connection.
\<close>

theorem pollForProof_network_failure:
  assumes "i < nat maxAttempts" "net (notary_post url ''/get_proof'' invoice) i \<in> {FetchFail, FetchAbort}"
    and "\<forall>j < i. poll_result (net (notary_post url ''/get_proof'' invoice) j) = None"
  shows "pollForProof net invoice url maxAttempts = (Inl LibError, Suc i)"
  unfolding pollForProof_def
  by (rule poll_loop_stops) (use assms in \<open>auto simp: poll_result_def\<close>)

theorem pollForProof_network_failure_witness:
  "pollForProof (\<lambda>_ k. if k = 0 then Reply 503 None else FetchFail) JNull DEFAULT_NOTARY_URL 120 = (Inl LibError, 2)"
  using pollForProof_network_failure [of 1 120 "\<lambda>_ k. if k = 0 then Reply 503 None else FetchFail" DEFAULT_NOTARY_URL JNull]
  by (simp add: poll_result_def response_ok_def numeral_2_eq_2)

text \<open>
  A proof counts as verified whenever the answer has a \<open>confirmations\<close> member, even when it says
  \<open>verified: false\<close> or has no confirmation yet.
\<close>

theorem verifyProof_confirmations:
  assumes "net (notary_post url ''/verify_proof'' proof) = Reply 200 (Some (JObj ps))"
    and "map_of (rev ps) ''confirmations'' \<noteq> None"
  shows "verifyProof net proof url = Inr True"
  using assms by (simp add: verifyProof_def response_ok_def json_get_def)

theorem verifyProof_confirmations_witness:
  "verifyProof (\<lambda>_. Reply 200 (Some (JObj [(''verified'', JBool False), (''confirmations'', JNum 0)]))) JNull
     DEFAULT_NOTARY_URL = Inr True"
  by (rule verifyProof_confirmations) (rule refl, simp)

end
