(* ===== verification/Client_Log_Worker.thy ===== *)
theory Client_Log_Worker
  imports Js_Json
begin

text \<open>
  \<open>nodns-clientlog-worker/src/index.ts\<close>: the worker that receives error reports. Its state is the
  \<open>rateBuckets\<close> map, with the lines it has logged and the bodies it has forwarded to the bot. A
  request is reduced to what the handler reads of it; the clock, and the UUID drawn when the request
  has no correlation id, are arguments. A handler that throws answers \<open>Threw\<close>.
\<close>

section \<open>State\<close>

definition MAX_BODY_BYTES :: int where "MAX_BODY_BYTES = 64 * 1024"

definition RATE_LIMIT :: nat where "RATE_LIMIT = 50"

definition RATE_WINDOW_MS :: int where "RATE_WINDOW_MS = 60000"

record bucket =
  bk_count :: nat
  bk_windowStart :: int

record log_line =
  ll_correlationId :: string
  ll_type :: string
  ll_message :: string
  ll_stack :: string
  ll_url :: string
  ll_userAgent :: string

record worker =
  wk_buckets :: "(string, bucket) jsmap"
  wk_log :: "log_line list"
  wk_forwarded :: "json list"

record log_request =
  rq_path :: string
  rq_method :: string
  rq_correlationId :: "string option"
  rq_ip :: "string option"
  rq_contentLength :: "string option"
  rq_body :: "json option"

datatype log_reply =
    HealthOk int
  | NoContent
  | ErrorReply int string
  | Received nat
  | Threw

section \<open>Operations\<close>

definition checkRateLimit :: "(string, bucket) jsmap \<Rightarrow> int \<Rightarrow> string \<Rightarrow> bool \<times> (string, bucket) jsmap" where
  "checkRateLimit rateBuckets now ip =
     (case map_get rateBuckets ip of
        None \<Rightarrow> (True, map_set ip \<lparr>bk_count = 1, bk_windowStart = now\<rparr> rateBuckets)
      | Some b \<Rightarrow>
          if now - bk_windowStart b > RATE_WINDOW_MS
          then (True, map_set ip \<lparr>bk_count = 1, bk_windowStart = now\<rparr> rateBuckets)
          else
            let b' = b\<lparr>bk_count := bk_count b + 1\<rparr>
            in (bk_count b' \<le> RATE_LIMIT, map_set ip b' rateBuckets))"

definition client_ip :: "log_request \<Rightarrow> string" where
  "client_ip rq = or_else (rq_ip rq) ''unknown''"

definition content_length :: "log_request \<Rightarrow> int option" where
  "content_length rq = parseInt (or_else (rq_contentLength rq) ''0'')"

definition log_line_of :: "string \<Rightarrow> json \<Rightarrow> log_line" where
  "log_line_of cid err =
     \<lparr>ll_correlationId = cid,
      ll_type = nullish (json_string (json_get err ''type'')) ''unknown'',
      ll_message = slice_to 500 (nullish (json_string (json_get err ''message'')) []),
      ll_stack = slice_to 500 (nullish (json_string (json_get err ''stack'')) []),
      ll_url = slice_to 200 (nullish (json_string (json_get err ''url'')) []),
      ll_userAgent = slice_to 100 (nullish (json_string (json_get err ''userAgent'')) [])\<rparr>"

text \<open>The loop over the reported errors; reading a property of a \<open>null\<close> entry throws, and the lines
  written before stay written.\<close>

fun log_entries :: "string \<Rightarrow> json list \<Rightarrow> log_line list \<Rightarrow> bool \<times> log_line list" where
  "log_entries cid [] out = (True, out)"
| "log_entries cid (err # errs) out =
     (if err = JNull then (False, out) else log_entries cid errs (out @ [log_line_of cid err]))"

definition is_log_post :: "log_request \<Rightarrow> bool" where
  "is_log_post rq \<longleftrightarrow> rq_path rq = ''/api/client-log'' \<and> rq_method rq = ''POST''"

definition worker_fetch :: "worker \<Rightarrow> int \<Rightarrow> string \<Rightarrow> log_request \<Rightarrow> log_reply \<times> worker" where
  "worker_fetch st now uuid rq =
     (let correlationId = nullish (rq_correlationId rq) uuid
      in if rq_path rq = ''/health'' then (HealthOk now, st)
         else if rq_path rq = ''/api/client-log'' \<and> rq_method rq = ''OPTIONS'' then (NoContent, st)
         else if is_log_post rq then
           let (allowed, buckets) = checkRateLimit (wk_buckets st) now (client_ip rq);
               st1 = st\<lparr>wk_buckets := buckets\<rparr>
           in if \<not> allowed then (ErrorReply 429 ''Rate limit exceeded'', st1)
              else if (case content_length rq of Some n \<Rightarrow> n > MAX_BODY_BYTES | None \<Rightarrow> False)
              then (ErrorReply 413 ''Body too large (max 64KB)'', st1)
              else (case rq_body rq of
                  None \<Rightarrow> (ErrorReply 400 ''Invalid JSON'', st1)
                | Some body \<Rightarrow>
                    if body = JNull then (Threw, st1)
                    else
                      let errors = json_array (json_get body ''errors'');
                          (finished, lines) = log_entries correlationId errors [];
                          st2 = st1\<lparr>wk_log := wk_log st1 @ lines\<rparr>
                      in if \<not> finished then (Threw, st2)
                         else (Received (length errors),
                           st2\<lparr>wk_forwarded := wk_forwarded st2 @ [JObj [(''errors'', JArr errors)]]\<rparr>))
         else (ErrorReply 404 ''Not found'', st))"

section \<open>Runs\<close>

text \<open>A visit is a request with its time and its reply; the newest is first. The clock does not run
  backwards.\<close>

type_synonym visit = "int \<times> log_request \<times> log_reply"

definition worker_start :: worker where
  "worker_start = \<lparr>wk_buckets = [], wk_log = [], wk_forwarded = []\<rparr>"

inductive worker_run :: "worker \<Rightarrow> int \<Rightarrow> visit list \<Rightarrow> bool" where
  start: "worker_run worker_start t []"
| visit: "worker_run st t h \<Longrightarrow> t \<le> now \<Longrightarrow> worker_fetch st now uuid rq = (reply, st') \<Longrightarrow>
    worker_run st' now ((now, rq, reply) # h)"

inductive_cases worker_run_ConsE: "worker_run st t (v # h)"

inductive_simps worker_run_Nil: "worker_run st t []"

text \<open>The reports of a client that passed the rate limit, as the times they came at.\<close>

definition admitted :: "string \<Rightarrow> visit list \<Rightarrow> int list" where
  "admitted ip h =
     map fst (filter (\<lambda>(t, rq, reply). is_log_post rq \<and> client_ip rq = ip \<and>
       reply \<noteq> ErrorReply 429 ''Rate limit exceeded'') h)"

definition in_span :: "int \<Rightarrow> int \<Rightarrow> int list \<Rightarrow> nat" where
  "in_span a b ts = length (filter (\<lambda>t. a \<le> t \<and> t \<le> b) ts)"

section \<open>Lemmas\<close>

lemma in_span_simps [simp]:
  "in_span a b [] = 0" "in_span a b (t # ts) = (if a \<le> t \<and> t \<le> b then Suc (in_span a b ts) else in_span a b ts)"
  by (simp_all add: in_span_def)

lemma in_span_split: "in_span a b ts \<le> in_span a (w - 1) ts + in_span w b ts"
  by (induction ts) auto

lemma in_span_mono: "a' \<le> a \<Longrightarrow> b \<le> b' \<Longrightarrow> in_span a b ts \<le> in_span a' b' ts"
  by (induction ts) auto

lemma in_span_empty: "(\<And>t. t \<in> set ts \<Longrightarrow> t < a \<or> b < t) \<Longrightarrow> in_span a b ts = 0"
  by (induction ts) (auto simp: not_le)

lemma worker_fetch_other:
  "\<not> is_log_post rq \<Longrightarrow> worker_fetch st now uuid rq = (reply, st') \<Longrightarrow> st' = st"
  by (auto simp: worker_fetch_def Let_def split: if_splits)

lemma worker_fetch_buckets:
  assumes "is_log_post rq" "worker_fetch st now uuid rq = (reply, st')"
  shows "checkRateLimit (wk_buckets st) now (client_ip rq) =
    (reply \<noteq> ErrorReply 429 ''Rate limit exceeded'', wk_buckets st')"
  using assms
  by (auto simp: worker_fetch_def is_log_post_def Let_def
      split: prod.splits if_splits option.splits)

text \<open>What holds of one client after every visit: the reports admitted in the current window number
  at most the limit and lie in it; an interval as long as a window that ends before the current
  window holds at most two windows' worth, and one window's worth when it reaches up to it.\<close>

definition client_ok :: "bucket \<Rightarrow> int \<Rightarrow> int list \<Rightarrow> bool" where
  "client_ok b t ts \<longleftrightarrow>
     (let w = bk_windowStart b
      in w \<le> t \<and> 1 \<le> bk_count b \<and> (\<forall>u \<in> set ts. u \<le> w + RATE_WINDOW_MS) \<and>
         in_span w (w + RATE_WINDOW_MS) ts = min (bk_count b) RATE_LIMIT \<and>
         in_span (w - RATE_WINDOW_MS) (w - 1) ts \<le> RATE_LIMIT \<and>
         (\<forall>T. T + RATE_WINDOW_MS < w \<longrightarrow> in_span T (T + RATE_WINDOW_MS) ts \<le> 2 * RATE_LIMIT))"

lemma in_span_upper: "\<forall>u \<in> set ts. u \<le> c \<Longrightarrow> in_span a b ts \<le> in_span a c ts"
  by (induction ts) auto

lemma client_ok_simps:
  assumes "client_ok b t ts"
  shows "bk_windowStart b \<le> t" "1 \<le> bk_count b" "\<forall>u \<in> set ts. u \<le> bk_windowStart b + RATE_WINDOW_MS"
    "in_span (bk_windowStart b) (bk_windowStart b + RATE_WINDOW_MS) ts = min (bk_count b) RATE_LIMIT"
    "in_span (bk_windowStart b - RATE_WINDOW_MS) (bk_windowStart b - 1) ts \<le> RATE_LIMIT"
    "T + RATE_WINDOW_MS < bk_windowStart b \<Longrightarrow> in_span T (T + RATE_WINDOW_MS) ts \<le> 2 * RATE_LIMIT"
  using assms by (simp_all add: client_ok_def Let_def)

lemma client_ok_bound:
  assumes "client_ok b t ts"
  shows "in_span T (T + RATE_WINDOW_MS) ts \<le> 2 * RATE_LIMIT"
proof (cases "T + RATE_WINDOW_MS < bk_windowStart b")
  case True
  with assms show ?thesis by (rule client_ok_simps(6))
next
  case False
  let ?w = "bk_windowStart b"
  note c = client_ok_simps [OF assms]
  have "in_span ?w (T + RATE_WINDOW_MS) ts \<le> RATE_LIMIT"
    using in_span_upper [OF c(3), of ?w "T + RATE_WINDOW_MS"] c(4) by simp
  moreover have "in_span T (?w - 1) ts \<le> RATE_LIMIT"
    using in_span_mono [of "?w - RATE_WINDOW_MS" T "?w - 1" "?w - 1" ts] False c(5) by simp
  ultimately show ?thesis using in_span_split [of T "T + RATE_WINDOW_MS" ts ?w] by linarith
qed

lemma limits_pos [simp]: "0 < RATE_LIMIT" "1 \<le> RATE_LIMIT" "0 < RATE_WINDOW_MS" "0 \<le> RATE_WINDOW_MS"
  by (simp_all add: RATE_LIMIT_def RATE_WINDOW_MS_def)

lemma client_ok_first: "client_ok \<lparr>bk_count = 1, bk_windowStart = now\<rparr> now [now]"
  using limits_pos by (auto simp: client_ok_def Let_def min_def)

lemma client_ok_new_window:
  assumes "client_ok b t ts" "now - bk_windowStart b > RATE_WINDOW_MS"
  shows "client_ok \<lparr>bk_count = 1, bk_windowStart = now\<rparr> now (now # ts)"
proof -
  let ?w = "bk_windowStart b"
  note c = client_ok_simps [OF assms(1)]
  have "in_span now (now + RATE_WINDOW_MS) ts = 0"
    using c(3) assms(2) by (intro in_span_empty) fastforce
  moreover have "in_span (now - RATE_WINDOW_MS) (now - 1) ts \<le> RATE_LIMIT"
  proof -
    have "in_span (now - RATE_WINDOW_MS) (now - 1) ts \<le> in_span ?w (now - 1) ts"
      using assms(2) by (intro in_span_mono) auto
    also have "\<dots> \<le> in_span ?w (?w + RATE_WINDOW_MS) ts" by (rule in_span_upper [OF c(3)])
    finally show ?thesis using c(4) by simp
  qed
  moreover have "\<forall>u \<in> set ts. u \<le> now + RATE_WINDOW_MS"
  proof
    fix u assume "u \<in> set ts"
    with c(3) have "u \<le> ?w + RATE_WINDOW_MS" by blast
    with assms(2) limits_pos(3) show "u \<le> now + RATE_WINDOW_MS" by linarith
  qed
  ultimately show ?thesis
    using client_ok_bound [OF assms(1)] limits_pos by (auto simp: client_ok_def Let_def min_def)
qed

lemma client_ok_same_window:
  assumes "client_ok b t ts" "t \<le> now" "now - bk_windowStart b \<le> RATE_WINDOW_MS"
  shows "client_ok (b\<lparr>bk_count := bk_count b + 1\<rparr>) now
    (if bk_count b + 1 \<le> RATE_LIMIT then now # ts else ts)"
proof -
  note c = client_ok_simps [OF assms(1)]
  have w: "bk_windowStart b \<le> now" "now \<le> bk_windowStart b + RATE_WINDOW_MS" using c(1) assms(2,3) by auto
  show ?thesis
    using c w by (auto simp: client_ok_def Let_def min_def)
qed

lemma client_ok_later: "client_ok b t ts \<Longrightarrow> t \<le> t' \<Longrightarrow> client_ok b t' ts"
  by (auto simp: client_ok_def Let_def)

lemma admitted_Cons:
  "admitted ip ((t, rq, reply) # h) =
     (if is_log_post rq \<and> client_ip rq = ip \<and> reply \<noteq> ErrorReply 429 ''Rate limit exceeded''
      then t # admitted ip h else admitted ip h)"
  by (simp add: admitted_def)

definition client_inv :: "(string, bucket) jsmap \<Rightarrow> int \<Rightarrow> string \<Rightarrow> int list \<Rightarrow> bool" where
  "client_inv m t ip ts \<longleftrightarrow>
     (case map_get m ip of None \<Rightarrow> ts = [] | Some b \<Rightarrow> client_ok b t ts)"

lemma checkRateLimit_inv:
  assumes "client_inv m t ip ts" "t \<le> now" "checkRateLimit m now ip = (allowed, m')"
  shows "client_inv m' now ip (if allowed then now # ts else ts)"
proof (cases "map_get m ip")
  case None
  with assms show ?thesis
    by (auto simp: checkRateLimit_def client_inv_def jsmap.get_put client_ok_first [simplified])
next
  case (Some b)
  then have ok: "client_ok b t ts" using assms(1) by (simp add: client_inv_def)
  show ?thesis
  proof (cases "now - bk_windowStart b > RATE_WINDOW_MS")
    case True
    with Some assms(3) client_ok_new_window [OF ok True] show ?thesis
      by (auto simp: checkRateLimit_def client_inv_def jsmap.get_put)
  next
    case False
    with Some assms(3) client_ok_same_window [OF ok assms(2)] show ?thesis
      by (auto simp: checkRateLimit_def client_inv_def jsmap.get_put Let_def)
  qed
qed

lemma checkRateLimit_other:
  "checkRateLimit m now ip = (allowed, m') \<Longrightarrow> ip' \<noteq> ip \<Longrightarrow> map_get m' ip' = map_get m ip'"
  by (auto simp: checkRateLimit_def jsmap.get_put Let_def split: option.splits if_splits)

lemma worker_run_inv: "worker_run st t h \<Longrightarrow> client_inv (wk_buckets st) t ip (admitted ip h)"
proof (induction rule: worker_run.induct)
  case (start t)
  then show ?case by (simp add: worker_start_def client_inv_def admitted_def jsmap.get_empty)
next
  case (visit st t h now uuid rq reply st')
  have later: "client_inv (wk_buckets st) now ip (admitted ip h)"
    using visit.IH visit.hyps(2) by (auto simp: client_inv_def client_ok_later split: option.splits)
  show ?case
  proof (cases "is_log_post rq")
    case False
    with worker_fetch_other [OF False visit.hyps(3)] later show ?thesis by (simp add: admitted_Cons)
  next
    case True
    note b = worker_fetch_buckets [OF True visit.hyps(3)]
    show ?thesis
    proof (cases "client_ip rq = ip")
      case False
      with later checkRateLimit_other [OF b, of ip] show ?thesis
        by (simp add: admitted_Cons client_inv_def)
    next
      case ip: True
      from checkRateLimit_inv [OF visit.IH visit.hyps(2)] b ip True show ?thesis
        by (auto simp: admitted_Cons)
    qed
  qed
qed

section \<open>Properties\<close>

text \<open>
  C7. However the reports of a client are spread over time, at most two limits of them, a hundred,
  pass in any sixty seconds: the fixed window admits fifty, and no interval of its length meets more
  than two windows.
\<close>

theorem worker_rate_bound:
  assumes "worker_run st t h"
  shows "in_span T (T + RATE_WINDOW_MS) (admitted ip h) \<le> 2 * RATE_LIMIT"
proof (cases "map_get (wk_buckets st) ip")
  case None
  with worker_run_inv [OF assms, of ip] show ?thesis by (simp add: client_inv_def)
next
  case (Some b)
  with worker_run_inv [OF assms, of ip] have "client_ok b t (admitted ip h)" by (simp add: client_inv_def)
  then show ?thesis by (rule client_ok_bound)
qed

definition example_report :: log_request where
  "example_report = \<lparr>rq_path = ''/api/client-log'', rq_method = ''POST'', rq_correlationId = Some ''c1'',
     rq_ip = None, rq_contentLength = Some ''20'',
     rq_body = Some (JObj [(''errors'', JArr [JObj [(''type'', JStr ''E'')], JStr ''x''])])\<rparr>"

theorem worker_rate_bound_witness:
  "\<exists>st. worker_run st 7 [(7, example_report, Received 2)] \<and>
     in_span 0 (0 + RATE_WINDOW_MS) (admitted ''unknown'' [(7, example_report, Received 2)]) \<le> 2 * RATE_LIMIT"
proof -
  have "fst (worker_fetch worker_start 7 ''u'' example_report) = Received 2" by code_simp
  then obtain st where "worker_fetch worker_start 7 ''u'' example_report = (Received 2, st)"
    by (metis prod.collapse)
  with worker_run.start [of 0] have "worker_run st 7 [(7, example_report, Received 2)]"
    by (intro worker_run.visit) auto
  from worker_rate_bound [OF this] this show ?thesis by blast
qed

lemma log_entries_all: "JNull \<notin> set errs \<Longrightarrow> log_entries cid errs out = (True, out @ map (log_line_of cid) errs)"
  by (induction errs arbitrary: out) auto

lemma log_entries_null: "JNull \<notin> set errs \<Longrightarrow>
    log_entries cid (errs @ JNull # rest) out = (False, out @ map (log_line_of cid) errs)"
  by (induction errs arbitrary: out) auto

text \<open>
  An admitted report with a JSON body logs one line for each entry up to the first \<open>null\<close>: without
  a \<open>null\<close> it logs them all, forwards the entries once and answers their number; with one the handler
  throws after the lines before it, and nothing is forwarded.
\<close>

theorem worker_report_effect:
  assumes "is_log_post rq" "checkRateLimit (wk_buckets st) now (client_ip rq) = (True, m)"
    and "\<forall>n. content_length rq = Some n \<longrightarrow> n \<le> MAX_BODY_BYTES"
    and "rq_body rq = Some body" "body \<noteq> JNull" "json_array (json_get body ''errors'') = errs @ rest"
    and "JNull \<notin> set errs" "rest = [] \<or> hd rest = JNull"
  shows "worker_fetch st now uuid rq =
    (let logged = wk_log st @ map (log_line_of (nullish (rq_correlationId rq) uuid)) errs
     in if rest = []
        then (Received (length errs), \<lparr>wk_buckets = m, wk_log = logged,
          wk_forwarded = wk_forwarded st @ [JObj [(''errors'', JArr errs)]]\<rparr>)
        else (Threw, \<lparr>wk_buckets = m, wk_log = logged, wk_forwarded = wk_forwarded st\<rparr>))"
proof -
  let ?cid = "nullish (rq_correlationId rq) uuid"
  have le: "log_entries ?cid (errs @ rest) [] = (rest = [], map (log_line_of ?cid) errs)"
    using assms(7,8) by (cases rest) (auto simp: log_entries_all log_entries_null)
  have "\<not> (case content_length rq of Some n \<Rightarrow> n > MAX_BODY_BYTES | None \<Rightarrow> False)"
    using assms(3) by (auto split: option.split)
  with assms le show ?thesis
    by (auto simp: worker_fetch_def is_log_post_def Let_def)
qed

theorem worker_report_effect_witness:
  "fst (worker_fetch worker_start 7 ''u'' example_report) = Received 2 \<and>
   length (wk_log (snd (worker_fetch worker_start 7 ''u'' example_report))) = 2"
proof -
  let ?m = "[(''unknown'', \<lparr>bk_count = 1, bk_windowStart = 7\<rparr>)]"
    and ?errs = "[JObj [(''type'', JStr ''E'')], JStr ''x'']"
  have 1: "is_log_post example_report" by code_simp
  have 2: "checkRateLimit (wk_buckets worker_start) 7 (client_ip example_report) = (True, ?m)" by code_simp
  have 3: "\<forall>n. content_length example_report = Some n \<longrightarrow> n \<le> MAX_BODY_BYTES"
  proof -
    have "content_length example_report = Some 20" by code_simp
    then show ?thesis by (simp add: MAX_BODY_BYTES_def)
  qed
  have 4: "rq_body example_report = Some (JObj [(''errors'', JArr ?errs)])" by (simp add: example_report_def)
  have 5: "json_array (json_get (JObj [(''errors'', JArr ?errs)]) ''errors'') = ?errs @ []" by code_simp
  from worker_report_effect [OF 1 2 3 4 _ 5] show ?thesis by (simp add: worker_start_def)
qed

end
