(* ===== verification/Cli_ZoneFile.thy ===== *)
theory Cli_ZoneFile
  imports Sdk_Zones
begin

text \<open>
  \<open>nodns-cli/src/lib/zone-file.ts\<close>: the command line tool's own reading of record events, its zone
  files and the comparison of record sets. \<open>localeCompare\<close> is the parameter \<open>lc\<close>. The SDK's tags are
  read here with their time to live in field 3 and their data in field 4.
\<close>

section \<open>Records\<close>

record ZoneRecord =
  zr_name :: string
  zr_type :: string
  zr_ttl :: int
  zr_rdata :: string
  zr_npub :: string
  zr_event_id :: string
  zr_created_at :: int

definition TYPE_ORDER :: "string \<Rightarrow> int option" where
  "TYPE_ORDER t = map_of [(''A'', 0), (''AAAA'', 1), (''CNAME'', 2), (''MX'', 3), (''TXT'', 4)] t"

definition DEFAULT_TTL :: int where "DEFAULT_TTL = 3600"
definition SOA_REFRESH :: int where "SOA_REFRESH = 3600"
definition SOA_RETRY :: int where "SOA_RETRY = 600"
definition SOA_EXPIRE :: int where "SOA_EXPIRE = 86400"
definition SOA_MINIMUM :: int where "SOA_MINIMUM = 3600"
definition CLI_QUERY_MAX_WAIT :: int where "CLI_QUERY_MAX_WAIT = 6000"

definition type_rank :: "ZoneRecord \<Rightarrow> int" where
  "type_rank r = nullish (TYPE_ORDER (toUpperCase (zr_type r))) 99"

definition compareRecords :: "(string \<Rightarrow> string \<Rightarrow> int) \<Rightarrow> ZoneRecord \<Rightarrow> ZoneRecord \<Rightarrow> int" where
  "compareRecords lc a b =
     (let nameCmp = lc (toLowerCase (zr_name a)) (toLowerCase (zr_name b))
      in if nameCmp \<noteq> 0 then nameCmp
         else
           let orderA = type_rank a; orderB = type_rank b
           in if orderA \<noteq> orderB then orderA - orderB
              else lc (zr_rdata a) (zr_rdata b))"

definition ttl_or_default :: "string \<Rightarrow> int" where
  "ttl_or_default s = nullish (positive_int s) DEFAULT_TTL"

definition parseRecordTag ::
  "(string \<Rightarrow> string option) \<Rightarrow> tag \<Rightarrow> string \<Rightarrow> string \<Rightarrow> int \<Rightarrow> ZoneRecord option" where
  "parseRecordTag enc tag pubkey eventId createdAt =
     (if nth_opt tag 0 \<noteq> Some ''record'' then None
      else
        let npub = safeNpubEncode enc pubkey;
            type = toUpperCase (nullish (nth_opt tag 1) []);
            rawName = nullish (nth_opt tag 2) [];
            name = (if isNpubDerivedName rawName then npub else rawName)
        in if length tag = 5 then
             Some \<lparr>zr_name = name, zr_type = type, zr_ttl = ttl_or_default (nullish (nth_opt tag 3) []),
               zr_rdata = nullish (nth_opt tag 4) [], zr_npub = npub, zr_event_id = eventId,
               zr_created_at = createdAt\<rparr>
           else if length tag = 11 then
             Some \<lparr>zr_name = name, zr_type = type, zr_ttl = ttl_or_default (nullish (nth_opt tag 10) []),
               zr_rdata = join '' '' (filter (\<lambda>part. part \<noteq> []) (take 7 (drop 3 tag))), zr_npub = npub,
               zr_event_id = eventId, zr_created_at = createdAt\<rparr>
           else None)"

definition zone_key :: "ZoneRecord \<Rightarrow> string" where
  "zone_key r = toLowerCase (zr_name r) @ ''|'' @ toUpperCase (zr_type r)"

text \<open>The records of the events' tags, in the order the two loops meet them, oldest event first.\<close>

definition event_records ::
  "(string \<Rightarrow> string option) \<Rightarrow> NostrEvent list \<Rightarrow> string \<Rightarrow> ZoneRecord list" where
  "event_records enc events zone =
     (let zoneSuffix = ''.'' @ zone;
          sorted = js_sort (\<lambda>a b. ev_created_at a - ev_created_at b) events
      in concat (map (\<lambda>ev. collect (\<lambda>tag.
           case parseRecordTag enc tag (ev_pubkey ev) (ev_id ev) (ev_created_at ev) of
             None \<Rightarrow> None
           | Some r \<Rightarrow> if \<not> endsWith (zr_name r @ zoneSuffix) zoneSuffix then None else Some r)
           (ev_tags ev)) sorted))"

definition parseEventsToRecords ::
  "(string \<Rightarrow> string \<Rightarrow> int) \<Rightarrow> (string \<Rightarrow> string option) \<Rightarrow> NostrEvent list \<Rightarrow> string \<Rightarrow> ZoneRecord list" where
  "parseEventsToRecords lc enc events zone =
     (let latest = last_per_key zone_key (event_records enc events zone)
      in js_sort (compareRecords lc) (filter (\<lambda>r. zr_rdata r \<noteq> []) (map_values latest)))"

section \<open>Zone files\<close>

definition backslash :: char where "backslash = CHR 0x5C"

definition escapeTxt :: "string \<Rightarrow> string" where
  "escapeTxt s = replaceAll_char quote_char [backslash, quote_char]
     (replaceAll_char backslash [backslash, backslash] s)"

definition formatRdata :: "string \<Rightarrow> string \<Rightarrow> string" where
  "formatRdata type rdata =
     (if toUpperCase type = ''TXT'' then quote_char # escapeTxt rdata @ [quote_char] else rdata)"

definition computeSerial :: "ZoneRecord list \<Rightarrow> int" where
  "computeSerial records =
     (if length records = 0 then 1 else Max (set (map zr_created_at records)))"

definition soa_lines :: "string \<Rightarrow> int \<Rightarrow> string list" where
  "soa_lines zone serial =
     [padEnd 20 ''@'' @ '' IN  SOA  ns1.'' @ zone @ ''. admin.'' @ zone @ ''. ('',
      ''                                '' @ show_int serial @ '' ; serial'',
      ''                                '' @ show_int SOA_REFRESH @ ''   ; refresh'',
      ''                                '' @ show_int SOA_RETRY @ ''    ; retry'',
      ''                                '' @ show_int SOA_EXPIRE @ ''  ; expire'',
      ''                                '' @ show_int SOA_MINIMUM @ ''   ; minimum'',
      ''                                )'',
      []]"

definition record_line :: "ZoneRecord \<Rightarrow> string" where
  "record_line r = padEnd 20 (zr_name r) @ '' IN  '' @ padEnd 5 (zr_type r) @ '' '' @ show_int (zr_ttl r) @
     ''  '' @ formatRdata (zr_type r) (zr_rdata r)"

definition newline :: char where "newline = CHR 0x0A"

definition zone_lines :: "(string \<Rightarrow> string \<Rightarrow> int) \<Rightarrow> ZoneRecord list \<Rightarrow> string \<Rightarrow> bool \<Rightarrow> string list" where
  "zone_lines lc records zone includeSoa =
     (let sorted = js_sort (compareRecords lc) records; serial = computeSerial sorted
      in [''$ORIGIN '' @ zone @ ''.'', ''$TTL '' @ show_int DEFAULT_TTL, []] @
         (if includeSoa then soa_lines zone serial else []) @ map record_line sorted)"

definition generateZoneFile ::
  "(string \<Rightarrow> string \<Rightarrow> int) \<Rightarrow> ZoneRecord list \<Rightarrow> string \<Rightarrow> bool option \<Rightarrow> string" where
  "generateZoneFile lc records zone optSoa =
     join [newline] (zone_lines lc records zone (nullish optSoa True)) @ [newline]"

definition fetchZoneEvents :: "relay_query \<Rightarrow> string list \<Rightarrow> js_error + NostrEvent list" where
  "fetchZoneEvents query relays =
     lib_call (query relays (author_filter None 1000) (CLI_QUERY_MAX_WAIT * 5))"

section \<open>Records of the API\<close>

definition api_record_to_zone :: "string \<Rightarrow> DnsRecord \<Rightarrow> ZoneRecord option" where
  "api_record_to_zone zone r =
     (let zoneSuffix = ''.'' @ zone; fqdn = strip_suffix_char (CHR 0x2E) (rec_fqdn r)
      in if \<not> endsWith fqdn zoneSuffix then None
         else
           let name = slice_drop_last (length zoneSuffix) fqdn
           in if name = [] then None
              else Some \<lparr>zr_name = name, zr_type = toUpperCase (rec_type r),
                zr_ttl = (if rec_ttl r = 0 then DEFAULT_TTL else rec_ttl r), zr_rdata = rec_rdata r,
                zr_npub = rec_npub r, zr_event_id = ''api'', zr_created_at = rec_created_at r\<rparr>)"

definition apiRecordsToZoneRecords ::
  "(string \<Rightarrow> string \<Rightarrow> int) \<Rightarrow> DnsRecord list \<Rightarrow> string \<Rightarrow> ZoneRecord list" where
  "apiRecordsToZoneRecords lc records zone =
     js_sort (compareRecords lc) (collect (api_record_to_zone zone) records)"

definition zone_fetchApiRecords ::
  "(string \<Rightarrow> string \<Rightarrow> int) \<Rightarrow> (string \<Rightarrow> DnsRecord list option fetch_outcome) \<Rightarrow> string \<Rightarrow> string \<Rightarrow>
     js_error + ZoneRecord list" where
  "zone_fetchApiRecords lc fetch apiBase zone =
     (case fetch (apiBase @ ''/api/records'') of
        Reply status body \<Rightarrow>
          if \<not> response_ok status then Inl (JsError (''API returned HTTP '' @ show_int status))
          else try_bind (lib_call body) (\<lambda>records. Inr (apiRecordsToZoneRecords lc (nullish records []) zone))
      | _ \<Rightarrow> Inl LibError)"

section \<open>Comparison of record sets\<close>

record RecordDiff =
  df_onlyInA :: "ZoneRecord list"
  df_onlyInB :: "ZoneRecord list"
  df_ttlMismatch :: "(ZoneRecord \<times> ZoneRecord) list"
  df_matching :: nat

definition diff_key :: "ZoneRecord \<Rightarrow> string" where
  "diff_key r = zone_key r @ ''|'' @ zr_rdata r"

definition ttl_partner :: "(string, ZoneRecord) jsmap \<Rightarrow> ZoneRecord \<Rightarrow> ZoneRecord option" where
  "ttl_partner mapB recA =
     map_option snd (List.find (\<lambda>(bkey, recB). startsWith bkey (zone_key recA @ ''|'') \<and>
       zr_rdata recB = zr_rdata recA \<and> zr_ttl recB \<noteq> zr_ttl recA) mapB)"

fun diff_step_A :: "(string, ZoneRecord) jsmap \<Rightarrow> RecordDiff \<Rightarrow> string \<times> ZoneRecord \<Rightarrow> RecordDiff" where
  "diff_step_A mapB d (key, recA) =
     (if map_has mapB key then d\<lparr>df_matching := df_matching d + 1\<rparr>
      else case ttl_partner mapB recA of
          Some recB \<Rightarrow> d\<lparr>df_ttlMismatch := df_ttlMismatch d @ [(recA, recB)]\<rparr>
        | None \<Rightarrow> d\<lparr>df_onlyInA := df_onlyInA d @ [recA]\<rparr>)"

fun diff_step_B :: "(string, ZoneRecord) jsmap \<Rightarrow> RecordDiff \<Rightarrow> string \<times> ZoneRecord \<Rightarrow> RecordDiff" where
  "diff_step_B mapA d (key, recB) =
     (if map_has mapA key then d
      else if list_ex (\<lambda>akey. startsWith akey (zone_key recB @ ''|'') \<and> endsWith akey (''|'' @ zr_rdata recB))
          (map_keys mapA)
      then d
      else d\<lparr>df_onlyInB := df_onlyInB d @ [recB]\<rparr>)"

definition diff_map :: "ZoneRecord list \<Rightarrow> (string, ZoneRecord) jsmap" where
  "diff_map rs = last_per_key diff_key rs"

definition diffRecords :: "ZoneRecord list \<Rightarrow> ZoneRecord list \<Rightarrow> RecordDiff" where
  "diffRecords a b =
     (let mapA = diff_map a; mapB = diff_map b;
          d = foldl (diff_step_A mapB)
            \<lparr>df_onlyInA = [], df_onlyInB = [], df_ttlMismatch = [], df_matching = 0\<rparr> mapA
      in foldl (diff_step_B mapA) d mapB)"

section \<open>Lemmas\<close>

text \<open>The comparison of records is lexicographic; with a host whose \<open>localeCompare\<close> is the order of
  code units it is the combination of two comparators.\<close>

lemma compareRecords_then:
  "compareRecords lc = cmp_then (\<lambda>a b. lc (toLowerCase (zr_name a)) (toLowerCase (zr_name b)))
     (cmp_then (cmp_by type_rank) (\<lambda>a b. lc (zr_rdata a) (zr_rdata b)))"
  by (auto simp: fun_eq_iff compareRecords_def cmp_then_def cmp_by_def Let_def)

lemma comparator_compareRecords:
  assumes "comparator lc" shows "comparator (compareRecords lc)"
  unfolding compareRecords_then
  by (rule comparator_cmp_then [OF comparator_on [OF assms]
        comparator_cmp_then [OF comparator_cmp_by comparator_on [OF assms]]])

interpretation type_then_data:
  comparator_pair "cmp_by type_rank" "\<lambda>a b. cmp_order (zr_rdata a) (zr_rdata b)"
  by (rule comparator_pair.intro [OF comparator_cmp_by comparator_on [OF comparator_cmp_order]])

interpretation code_unit_records: comparator "compareRecords cmp_order"
  by (rule comparator_compareRecords [OF comparator_cmp_order])

text \<open>The order of the events.\<close>

interpretation oldest_first: comparator "\<lambda>a b. ev_created_at a - ev_created_at b"
  using comparator_cmp_by [of ev_created_at] by (simp add: cmp_by_def [abs_def])

text \<open>What an event holds, and what all the events hold as they are given. Every name a record can have
  passes the check of the zone's suffix.\<close>

definition held_records :: "(string \<Rightarrow> string option) \<Rightarrow> NostrEvent \<Rightarrow> ZoneRecord list" where
  "held_records enc ev =
     collect (\<lambda>tag. parseRecordTag enc tag (ev_pubkey ev) (ev_id ev) (ev_created_at ev)) (ev_tags ev)"

definition written_records :: "(string \<Rightarrow> string option) \<Rightarrow> NostrEvent list \<Rightarrow> ZoneRecord list" where
  "written_records enc events = concat (map (\<lambda>ev. collect (\<lambda>tag.
     parseRecordTag enc tag (ev_pubkey ev) (ev_id ev) (ev_created_at ev)) (ev_tags ev)) events)"

lemma written_held: "written_records enc events = concat (map (held_records enc) events)"
  by (simp add: written_records_def held_records_def [abs_def])

lemma event_records_held:
  "event_records enc events zone =
     concat (map (held_records enc) (js_sort (\<lambda>a b. ev_created_at a - ev_created_at b) events))"
proof -
  have "endsWith (x @ z) z" for x z :: string by (auto simp: endsWith_iff)
  then have "(case p of None \<Rightarrow> None | Some r \<Rightarrow> if \<not> endsWith (zr_name r @ z) z then None else Some r) = p" for p :: "ZoneRecord option" and z
    by (simp split: option.split)
  then show ?thesis by (simp only: event_records_def held_records_def [abs_def] Let_def)
qed

lemma held_date: "r \<in> set (held_records enc ev) \<Longrightarrow> zr_created_at r = ev_created_at ev"
  by (auto simp: held_records_def set_collect parseRecordTag_def Let_def split: if_splits)

lemma set_event_records: "set (event_records enc events zone) = set (written_records enc events)"
  by (simp add: event_records_held written_held)

lemma event_records_dated: "sorted_wrt (\<lambda>a b. zr_created_at a \<le> zr_created_at b) (event_records enc events zone)"
  unfolding event_records_held
  by (rule concat_sorted_key [where f = ev_created_at])
    (use oldest_first.sorted_js_sort [of events] in \<open>auto dest: held_date\<close>)

lemma event_records_of_date:
  "filter (\<lambda>r. zr_created_at r = m) (event_records enc events zone) =
     filter (\<lambda>r. zr_created_at r = m) (written_records enc events)"
proof -
  have "filter (\<lambda>r. zr_created_at r = m) (concat (map (held_records enc) es)) =
      concat (map (held_records enc) (filter (\<lambda>ev. ev_created_at ev = m) es))" for es
    by (rule concat_key_filter) (rule held_date)
  then show ?thesis
    unfolding event_records_held written_held using oldest_first.filter_js_sort [of "\<lambda>ev. ev_created_at ev = m" events] by simp
qed

lemma last_of_key:
  fixes k :: string and P :: "ZoneRecord \<Rightarrow> bool"
  assumes "r \<in> set (written_records enc events)" "P r"
  defines "same \<equiv> filter P (written_records enc events)"
  shows "last (filter P (event_records enc events zone)) =
    last (filter (\<lambda>x. zr_created_at x = Max (zr_created_at ` set same)) same)"
proof -
  let ?xs = "filter P (event_records enc events zone)" and ?m = "Max (zr_created_at ` set same)"
  have set: "set ?xs = set same" by (simp add: same_def set_event_records)
  with assms have "?xs \<noteq> []" by (auto simp: filter_empty_conv set_event_records)
  moreover have "sorted_wrt (\<lambda>a b. zr_created_at a \<le> zr_created_at b) ?xs"
    using event_records_dated by (rule sorted_wrt_filter)
  ultimately have "last ?xs = last (filter (\<lambda>x. zr_created_at x = Max (zr_created_at ` set ?xs)) ?xs)"
    by (intro sorted_key_last [symmetric])
  also have "Max (zr_created_at ` set ?xs) = ?m" by (simp only: set)
  also have "filter (\<lambda>x. zr_created_at x = ?m) ?xs = filter P (filter (\<lambda>x. zr_created_at x = ?m) (event_records enc events zone))"
    by (simp add: conj_commute)
  also have "\<dots> = filter (\<lambda>x. zr_created_at x = ?m) same"
    by (simp only: event_records_of_date) (simp add: same_def conj_commute)
  finally show ?thesis .
qed

lemma zone_records_distinct: "distinct (map zone_key (parseEventsToRecords lc enc events zone))"
proof -
  let ?vs = "map_values (last_per_key zone_key (event_records enc events zone))"
  have "distinct (map zone_key ?vs)" by (simp add: map_key_last)
  then have "distinct (map zone_key (filter (\<lambda>r. zr_rdata r \<noteq> []) ?vs))" by (rule distinct_map_filter)
  then show ?thesis by (simp add: parseEventsToRecords_def)
qed

lemma zone_records_newest:
  "r \<in> set (parseEventsToRecords lc enc events zone) \<longleftrightarrow>
     r \<in> set (written_records enc events) \<and> zr_rdata r \<noteq> [] \<and>
     r = last (filter (\<lambda>x. zr_created_at x = Max (zr_created_at ` set (filter (\<lambda>x. zone_key x = zone_key r)
         (written_records enc events)))) (filter (\<lambda>x. zone_key x = zone_key r) (written_records enc events)))"
proof -
  have "r \<in> set (parseEventsToRecords lc enc events zone) \<longleftrightarrow>
      r \<in> set (event_records enc events zone) \<and> zr_rdata r \<noteq> [] \<and>
      r = last (filter (\<lambda>x. zone_key x = zone_key r) (event_records enc events zone))"
    by (auto simp: parseEventsToRecords_def value_last_per_key)
  then show ?thesis
    using last_of_key [of r enc events "\<lambda>x. zone_key x = zone_key r" zone] by (auto simp: set_event_records)
qed

text \<open>A reader of the quoted strings of a zone file: from after the opening quote, the text up to the
  closing one, a backslash taking the next character as it is, and what follows.\<close>

fun read_quoted :: "string \<Rightarrow> (string \<times> string) option" where
  "read_quoted [] = None"
| "read_quoted (c # s) =
     (if c = quote_char then Some ([], s)
      else if c = backslash then
        (case s of [] \<Rightarrow> None | d # s' \<Rightarrow> map_option (\<lambda>(t, r). (d # t, r)) (read_quoted s'))
      else map_option (\<lambda>(t, r). (c # t, r)) (read_quoted s))"

lemma backslash_quote [simp]: "backslash \<noteq> quote_char" "quote_char \<noteq> backslash"
  by (simp_all add: backslash_def quote_char_def)

lemma escapeTxt_simps [simp]:
  "escapeTxt [] = []"
  "escapeTxt (c # s) = (if c = quote_char \<or> c = backslash then backslash # c # escapeTxt s else c # escapeTxt s)"
  by (auto simp: escapeTxt_def replaceAll_char_def)

lemma read_quoted_escape: "read_quoted (escapeTxt s @ quote_char # rest) = Some (s, rest)"
  by (induction s) auto

lemma set_escapeTxt: "c \<in> set (escapeTxt s) \<Longrightarrow> c = backslash \<or> c \<in> set s"
  by (induction s) (auto split: if_splits)

text \<open>A record whose fields stay on one line.\<close>

definition one_line :: "ZoneRecord \<Rightarrow> bool" where
  "one_line r \<longleftrightarrow> newline \<notin> set (zr_name r) \<and> newline \<notin> set (zr_type r) \<and> newline \<notin> set (zr_rdata r)"

lemma newline_no_pad [simp]: "newline \<in> set (padEnd n s) \<longleftrightarrow> newline \<in> set s"
  by (auto simp: padEnd_def newline_def)

lemma newline_no_int [simp]: "newline \<notin> set (show_int n)"
proof -
  have "\<not> is_digit newline" "newline \<noteq> CHR ''-''" by (simp_all add: newline_def is_digit_def code_of_def)
  then show ?thesis using show_nat_digits by (auto simp: show_int_def list_all_iff)
qed

lemma newline_no_format: "newline \<notin> set d \<Longrightarrow> newline \<notin> set (formatRdata t d)"
  using set_escapeTxt [of newline d]
  by (auto simp: formatRdata_def) (auto simp: newline_def quote_char_def backslash_def)

lemma one_line_record: "one_line r \<Longrightarrow> newline \<notin> set (record_line r)"
  using newline_no_format [of "zr_rdata r" "zr_type r"]
  by (simp add: record_line_def one_line_def) (simp add: newline_def)

lemma one_line_soa: "newline \<notin> set zone \<Longrightarrow> list_all (\<lambda>l. newline \<notin> set l) (soa_lines zone serial)"
  by (simp add: soa_lines_def) (simp add: newline_def)

lemma one_line_zone_lines:
  assumes "newline \<notin> set zone" "list_all one_line records" "l \<in> set (zone_lines lc records zone soa)"
  shows "newline \<notin> set l"
proof -
  have "list_all (\<lambda>l. newline \<notin> set l) [''$ORIGIN '' @ zone @ ''.'', ''$TTL '' @ show_int DEFAULT_TTL, []]"
    using assms(1) by simp (simp add: newline_def)
  then show ?thesis
    using assms(2,3) one_line_soa [OF assms(1)] one_line_record
    unfolding zone_lines_def Let_def list_all_iff set_append
    by (auto simp del: set_simps split: if_splits)
qed

text \<open>The lines of a zone file, written out.\<close>

lemma zone_file_lines:
  assumes "newline \<notin> set zone" "list_all one_line records"
  shows "split_on newline (generateZoneFile lc records zone soa) =
    zone_lines lc records zone (nullish soa True) @ [[]]"
proof -
  let ?ls = "zone_lines lc records zone (nullish soa True)"
  have ne: "?ls \<noteq> []" by (simp add: zone_lines_def Let_def)
  have "generateZoneFile lc records zone soa = join [newline] (?ls @ [[]])"
    using ne unfolding generateZoneFile_def
    by (induction ?ls rule: rev_induct) (simp_all add: join_snoc)
  moreover have "newline \<notin> set w" if "w \<in> set (?ls @ [[]])" for w
    using that one_line_zone_lines [OF assms] by auto
  ultimately show ?thesis using split_on_join [of "?ls @ [[]]" newline] by simp
qed

lemma compareRecords_le:
  "compareRecords lc a b \<le> 0 \<longleftrightarrow>
     (let byName = lc (toLowerCase (zr_name a)) (toLowerCase (zr_name b)); rank = type_rank
      in byName < 0 \<or> byName = 0 \<and> (rank a < rank b \<or> rank a = rank b \<and> lc (zr_rdata a) (zr_rdata b) \<le> 0))"
  by (auto simp: compareRecords_def Let_def)

lemma computeSerial_sorted:
  "computeSerial (js_sort c records) = (if records = [] then 1 else Max (zr_created_at ` set records))"
proof -
  have "length (js_sort c records) = 0 \<longleftrightarrow> records = []" by simp
  then show ?thesis by (simp add: computeSerial_def)
qed

lemma soa_asked: "nullish soa True \<longleftrightarrow> soa \<noteq> Some False"
  by (cases soa) auto

lemma apex_padded: "padEnd 20 ''@'' = ''@                   ''"
  by code_simp

lemma zone_lines_written:
  "zone_lines lc records zone (nullish soa True) =
    [''$ORIGIN '' @ zone @ ''.'', ''$TTL '' @ show_int 3600, []] @
    (if soa = Some False then [] else
      [''@                    IN  SOA  ns1.'' @ zone @ ''. admin.'' @ zone @ ''. ('',
       ''                                '' @ show_int (if records = [] then 1 else Max (zr_created_at ` set records)) @ '' ; serial'',
       ''                                '' @ show_int 3600 @ ''   ; refresh'',
       ''                                '' @ show_int 600 @ ''    ; retry'',
       ''                                '' @ show_int 86400 @ ''  ; expire'',
       ''                                '' @ show_int 3600 @ ''   ; minimum'',
       ''                                )'', []]) @
    map (\<lambda>r. padEnd 20 (zr_name r) @ '' IN  '' @ padEnd 5 (zr_type r) @ '' '' @ show_int (zr_ttl r) @ ''  '' @
      (if toUpperCase (zr_type r) = ''TXT'' then quote_char # escapeTxt (zr_rdata r) @ [quote_char] else zr_rdata r))
      (js_sort (compareRecords lc) records)"
  unfolding zone_lines_def Let_def soa_lines_def computeSerial_sorted DEFAULT_TTL_def SOA_REFRESH_def SOA_RETRY_def
    SOA_EXPIRE_def SOA_MINIMUM_def record_line_def [abs_def] formatRdata_def soa_asked apex_padded
  by simp

text \<open>The entries of the two maps of a comparison, and the keys of records without the separator.\<close>

definition no_bar :: "ZoneRecord \<Rightarrow> bool" where
  "no_bar r \<longleftrightarrow> CHR ''|'' \<notin> set (toLowerCase (zr_name r)) \<and> CHR ''|'' \<notin> set (toUpperCase (zr_type r)) \<and>
     CHR ''|'' \<notin> set (zr_rdata r)"

lemma diff_map_entry: "(k, r) \<in> set (diff_map rs) \<Longrightarrow> k = diff_key r \<and> r \<in> set rs"
  by (auto simp: diff_map_def entry_last_per_key)

lemma diff_map_keys: "set (map_keys (diff_map rs)) = diff_key ` set rs" "map_has (diff_map rs) k \<longleftrightarrow> k \<in> diff_key ` set rs"
  by (simp_all add: map_has_iff map_keys_def diff_map_def)

lemma diff_key_bar: "diff_key r = toLowerCase (zr_name r) @ CHR ''|'' # toUpperCase (zr_type r) @ CHR ''|'' # zr_rdata r"
  by (simp add: diff_key_def zone_key_def)

lemma bar_prefix:
  assumes "no_bar a" "no_bar b" "startsWith (diff_key b) (zone_key a @ ''|'')"
  shows "zone_key b = zone_key a"
proof -
  obtain t where "diff_key b = zone_key a @ ''|'' @ t" using assms(3) by (auto simp: startsWith_iff)
  then have "toLowerCase (zr_name b) @ CHR ''|'' # toUpperCase (zr_type b) @ CHR ''|'' # zr_rdata b =
      toLowerCase (zr_name a) @ CHR ''|'' # toUpperCase (zr_type a) @ CHR ''|'' # t"
    by (simp add: diff_key_bar zone_key_def)
  with assms(1,2) show ?thesis by (auto simp: no_bar_def append_sep_eq zone_key_def)
qed

lemma bar_suffix:
  assumes "no_bar a" "no_bar b" "endsWith (diff_key a) (''|'' @ zr_rdata b)"
  shows "zr_rdata a = zr_rdata b"
proof -
  obtain t where "diff_key a = t @ CHR ''|'' # zr_rdata b" using assms(3) by (auto simp: endsWith_iff)
  then have "zone_key a @ CHR ''|'' # zr_rdata a = t @ CHR ''|'' # zr_rdata b" by (simp add: diff_key_def)
  with assms(1,2) show ?thesis by (auto simp: no_bar_def append_sep_eq_right)
qed

lemma fold_diff_A:
  assumes "\<And>k r. (k, r) \<in> set m \<Longrightarrow> \<not> map_has mapB k \<Longrightarrow> ttl_partner mapB r = None"
  shows "foldl (diff_step_A mapB) d m =
    d\<lparr>df_matching := df_matching d + length (filter (\<lambda>(k, r). map_has mapB k) m),
      df_onlyInA := df_onlyInA d @ map snd (filter (\<lambda>(k, r). \<not> map_has mapB k) m)\<rparr>"
  using assms
proof (induction m arbitrary: d)
  case (Cons e m)
  obtain k r where e: "e = (k, r)" by force
  have "\<And>k r. (k, r) \<in> set m \<Longrightarrow> \<not> map_has mapB k \<Longrightarrow> ttl_partner mapB r = None"
    using Cons.prems by auto
  note IH = Cons.IH [OF this]
  show ?case
  proof (cases "map_has mapB k")
    case True
    then show ?thesis by (simp add: e IH)
  next
    case False
    with Cons.prems [of k r] e have "ttl_partner mapB r = None" by simp
    with False show ?thesis by (simp add: e IH)
  qed
qed simp

lemma fold_diff_B:
  assumes "\<And>k r. (k, r) \<in> set m \<Longrightarrow> \<not> map_has mapA k \<Longrightarrow>
      \<not> list_ex (\<lambda>akey. startsWith akey (zone_key r @ ''|'') \<and> endsWith akey (''|'' @ zr_rdata r)) (map_keys mapA)"
  shows "foldl (diff_step_B mapA) d m =
    d\<lparr>df_onlyInB := df_onlyInB d @ map snd (filter (\<lambda>(k, r). \<not> map_has mapA k) m)\<rparr>"
  using assms
proof (induction m arbitrary: d)
  case (Cons e m)
  obtain k r where e: "e = (k, r)" by force
  have "\<And>k r. (k, r) \<in> set m \<Longrightarrow> \<not> map_has mapA k \<Longrightarrow>
      \<not> list_ex (\<lambda>akey. startsWith akey (zone_key r @ ''|'') \<and> endsWith akey (''|'' @ zr_rdata r)) (map_keys mapA)"
    using Cons.prems by auto
  note IH = Cons.IH [OF this]
  show ?case
  proof (cases "map_has mapA k")
    case True
    then show ?thesis by (simp add: e IH)
  next
    case False
    with Cons.prems [of k r] e
    have "\<not> list_ex (\<lambda>akey. startsWith akey (zone_key r @ ''|'') \<and> endsWith akey (''|'' @ zr_rdata r)) (map_keys mapA)"
      by simp
    with False show ?thesis by (simp add: e IH)
  qed
qed simp

text \<open>The entries of one map whose keys the other has, or has not.\<close>

definition entries :: "bool \<Rightarrow> ZoneRecord list \<Rightarrow> ZoneRecord list \<Rightarrow> (string \<times> ZoneRecord) list" where
  "entries common a b = filter (\<lambda>(k, r). map_has (diff_map b) k = common) (diff_map a)"

lemma keys_of_entries: "diff_key ` snd ` set (entries common a b) = {k \<in> diff_key ` set a. (k \<in> diff_key ` set b) = common}"
proof -
  have "diff_key ` snd ` set (entries common a b) = fst ` set (entries common a b)"
    using diff_map_entry by (force simp: entries_def image_iff)
  also have "\<dots> = {k \<in> fst ` set (diff_map a). (k \<in> diff_key ` set b) = common}"
    by (auto simp: entries_def diff_map_keys(2))
  also have "fst ` set (diff_map a) = diff_key ` set a"
    using diff_map_keys(1) [of a] by (simp add: map_keys_def)
  finally show ?thesis .
qed

lemma length_entries: "length (entries common a b) = card {k \<in> diff_key ` set a. (k \<in> diff_key ` set b) = common}"
proof -
  have "distinct (map fst (entries common a b))"
    unfolding entries_def diff_map_def by (rule distinct_map_filter) (rule distinct_last_keys)
  then have "length (entries common a b) = card (fst ` set (entries common a b))"
    by (metis distinct_card length_map list.set_map)
  also have "fst ` set (entries common a b) = diff_key ` snd ` set (entries common a b)"
    using diff_map_entry by (force simp: entries_def image_iff)
  finally show ?thesis by (simp only: keys_of_entries)
qed

lemma diffRecords_entries:
  assumes "list_all no_bar a" "list_all no_bar b"
  shows "diffRecords a b =
    \<lparr>df_onlyInA = map snd (entries False a b), df_onlyInB = map snd (entries False b a),
     df_ttlMismatch = [], df_matching = length (entries True a b)\<rparr>"
proof -
  have A: "ttl_partner (diff_map b) r = None" if "(k, r) \<in> set (diff_map a)" "\<not> map_has (diff_map b) k" for k r
  proof (rule ccontr)
    assume "ttl_partner (diff_map b) r \<noteq> None"
    then obtain bkey recB where "List.find (\<lambda>(bkey, recB). startsWith bkey (zone_key r @ ''|'') \<and>
        zr_rdata recB = zr_rdata r \<and> zr_ttl recB \<noteq> zr_ttl r) (diff_map b) = Some (bkey, recB)"
      by (auto simp: ttl_partner_def)
    from find_Some_mem [OF this] have f: "(bkey, recB) \<in> set (diff_map b)"
      "startsWith bkey (zone_key r @ ''|'')" "zr_rdata recB = zr_rdata r" by auto
    from diff_map_entry [OF f(1)] diff_map_entry [OF that(1)] assms
    have m: "bkey = diff_key recB" "recB \<in> set b" "k = diff_key r" "no_bar r" "no_bar recB"
      by (auto simp: list_all_iff)
    with f have "zone_key recB = zone_key r" using bar_prefix by blast
    with f(3) have "diff_key recB = diff_key r" by (simp add: diff_key_def)
    with m that(2) show False by (metis diff_map_keys(2) image_eqI)
  qed
  have B: "\<not> list_ex (\<lambda>akey. startsWith akey (zone_key r @ ''|'') \<and> endsWith akey (''|'' @ zr_rdata r))
      (map_keys (diff_map a))" if "(k, r) \<in> set (diff_map b)" "\<not> map_has (diff_map a) k" for k r
  proof
    assume "list_ex (\<lambda>akey. startsWith akey (zone_key r @ ''|'') \<and> endsWith akey (''|'' @ zr_rdata r))
      (map_keys (diff_map a))"
    then obtain recA where f: "recA \<in> set a" "startsWith (diff_key recA) (zone_key r @ ''|'')"
        "endsWith (diff_key recA) (''|'' @ zr_rdata r)"
      unfolding list_ex_iff diff_map_keys(1) by blast
    from diff_map_entry [OF that(1)] f(1) assms have m: "k = diff_key r" "no_bar r" "no_bar recA"
      by (auto simp: list_all_iff)
    from bar_prefix [OF m(2,3) f(2)] bar_suffix [OF m(3,2) f(3)] have "diff_key recA = diff_key r"
      by (simp add: diff_key_def)
    with m that(2) f(1) show False by (metis diff_map_keys(2) image_eqI)
  qed
  show ?thesis
    unfolding diffRecords_def Let_def
    by (subst fold_diff_A, erule (1) A, subst fold_diff_B, erule (1) B) (simp add: entries_def)
qed

section \<open>Properties\<close>

text \<open>
  C3. A zone's records, read from the events, are one for each name (case aside) and type. Of the records
  of that name and type that the events' tags hold, it is one with the greatest date, the last of these
  in the order the events and their tags are given; it is listed when its data is not empty, so that an
  empty one deletes.
\<close>

theorem parseEventsToRecords_spec:
  "let key = (\<lambda>r. toLowerCase (zr_name r) @ ''|'' @ toUpperCase (zr_type r));
       written = concat (map (\<lambda>ev. collect (\<lambda>tag.
         parseRecordTag enc tag (ev_pubkey ev) (ev_id ev) (ev_created_at ev)) (ev_tags ev)) events)
   in distinct (map key (parseEventsToRecords lc enc events zone)) \<and>
      (\<forall>r. r \<in> set (parseEventsToRecords lc enc events zone) \<longleftrightarrow>
         r \<in> set written \<and> zr_rdata r \<noteq> [] \<and>
         (let same = filter (\<lambda>x. key x = key r) written; newest = Max (zr_created_at ` set same)
          in r = last (filter (\<lambda>x. zr_created_at x = newest) same)))"
  using zone_records_distinct [of lc enc events zone]
  unfolding Let_def zone_key_def [abs_def, symmetric] written_records_def [symmetric]
  by (simp add: zone_records_newest)

text \<open>
  C32. What the SDK builds, the command line tool reads: the tag of a record with a positive time to live
  gives back type, time to live and data, under the name or, at the apex, the key; a deletion tag gives
  an empty record of the same name and type.
\<close>

theorem parseRecordTag_buildRecordTag:
  assumes "0 < ttl"
  shows "parseRecordTag enc (buildRecordTag t name rdata ttl) pubkey eventId date =
      Some \<lparr>zr_name = (if isNpubDerivedName name then safeNpubEncode enc pubkey else name),
        zr_type = toUpperCase t, zr_ttl = ttl, zr_rdata = rdata, zr_npub = safeNpubEncode enc pubkey,
        zr_event_id = eventId, zr_created_at = date\<rparr> \<and>
    map_option (\<lambda>r. (zone_key r, zr_rdata r)) (parseRecordTag enc (buildDeleteTag t name) pubkey eventId date) =
      map_option (\<lambda>r. (zone_key r, [])) (parseRecordTag enc (buildRecordTag t name rdata ttl) pubkey eventId date)"
  using assms
  by (simp add: parseRecordTag_def buildRecordTag_def buildDeleteTag_def ttl_or_default_def positive_int_def
      zone_key_def Let_def)

theorem parseRecordTag_buildRecordTag_witness:
  "map_option zr_rdata (parseRecordTag (\<lambda>_. None) (buildRecordTag ''a'' ''www'' ''1.2.3.4'' 300) ''ab'' ''e'' 5)
     = Some ''1.2.3.4''"
  using parseRecordTag_buildRecordTag [of 300 "\<lambda>_. None" "''a''" "''www''" "''1.2.3.4''" "''ab''" "''e''" 5]
  by simp

text \<open>
  C31. The data of a TXT record survives the zone file: a reader of quoted strings, at the data as it
  was written, reads exactly it and stops at its end.
\<close>

theorem formatRdata_round_trip:
  assumes "toUpperCase t = ''TXT''"
  shows "\<exists>body. formatRdata t rdata @ rest = quote_char # body \<and> read_quoted body = Some (rdata, rest)"
  using assms read_quoted_escape [of rdata rest] by (simp add: formatRdata_def)

theorem formatRdata_round_trip_witness:
  "\<exists>body. formatRdata ''txt'' [quote_char, backslash] @ ''x'' = quote_char # body \<and>
     read_quoted body = Some ([quote_char, backslash], ''x'')"
proof -
  have "toUpperCase ''txt'' = ''TXT''" by code_simp
  then show ?thesis by (rule formatRdata_round_trip)
qed

text \<open>
  C30. For records and a zone without line breaks, and a \<open>localeCompare\<close> that orders, the lines of the zone
  file are these: the origin and the default time to live; unless the caller declines it, the SOA record
  with the greatest date of the records as its serial (1 when there is none); and one line for each record,
  by name (case aside), then by the rank of the type (A, AAAA, CNAME, MX, TXT, others), then by the data,
  with the data of a TXT record escaped between quotes. Each line is ended by a line break.
\<close>

theorem generateZoneFile_lines:
  assumes "comparator lc" "newline \<notin> set zone" "list_all one_line records"
  shows "\<exists>sorted. mset sorted = mset records \<and>
    sorted_wrt (\<lambda>a b.
      let byName = lc (toLowerCase (zr_name a)) (toLowerCase (zr_name b));
          rank = (\<lambda>r. nullish (map_of [(''A'', 0), (''AAAA'', 1), (''CNAME'', 2), (''MX'', 3), (''TXT'', 4)]
            (toUpperCase (zr_type r))) (99 :: int))
      in byName < 0 \<or> byName = 0 \<and> (rank a < rank b \<or> rank a = rank b \<and> lc (zr_rdata a) (zr_rdata b) \<le> 0)) sorted \<and>
    split_on newline (generateZoneFile lc records zone soa) =
      [''$ORIGIN '' @ zone @ ''.'', ''$TTL '' @ show_int 3600, []] @
      (if soa = Some False then [] else
        [''@                    IN  SOA  ns1.'' @ zone @ ''. admin.'' @ zone @ ''. ('',
         ''                                '' @ show_int (if records = [] then 1 else Max (zr_created_at ` set records)) @ '' ; serial'',
         ''                                '' @ show_int 3600 @ ''   ; refresh'',
         ''                                '' @ show_int 600 @ ''    ; retry'',
         ''                                '' @ show_int 86400 @ ''  ; expire'',
         ''                                '' @ show_int 3600 @ ''   ; minimum'',
         ''                                )'', []]) @
      map (\<lambda>r. padEnd 20 (zr_name r) @ '' IN  '' @ padEnd 5 (zr_type r) @ '' '' @ show_int (zr_ttl r) @ ''  '' @
        (if toUpperCase (zr_type r) = ''TXT'' then quote_char # escapeTxt (zr_rdata r) @ [quote_char] else zr_rdata r))
        sorted @ [[]]"
proof -
  let ?sorted = "js_sort (compareRecords lc) records"
  have "sorted_wrt (\<lambda>a b. compareRecords lc a b \<le> 0) ?sorted"
    by (rule comparator.sorted_js_sort [OF comparator_compareRecords [OF assms(1)]])
  then show ?thesis
    unfolding zone_file_lines [OF assms(2,3)] compareRecords_le
    by (intro exI [of _ ?sorted] conjI mset_js_sort) (simp_all only: type_rank_def [abs_def] TYPE_ORDER_def zone_lines_written append_assoc)
qed

text \<open>
  On records without the separator \<open>|\<close> the comparison of two record sets is the difference of their
  keys: it counts the common keys, lists the records of the keys only one side has, and never reports
  a difference of times to live.
\<close>

theorem diffRecords_spec:
  assumes "list_all no_bar a" "list_all no_bar b"
  shows "df_ttlMismatch (diffRecords a b) = [] \<and>
    df_matching (diffRecords a b) = card (diff_key ` set a \<inter> diff_key ` set b) \<and>
    diff_key ` set (df_onlyInA (diffRecords a b)) = diff_key ` set a - diff_key ` set b \<and>
    diff_key ` set (df_onlyInB (diffRecords a b)) = diff_key ` set b - diff_key ` set a"
proof -
  have "{k \<in> diff_key ` set a. (k \<in> diff_key ` set b) = True} = diff_key ` set a \<inter> diff_key ` set b" by auto
  moreover have "diff_key ` snd ` set (entries False a b) = diff_key ` set a - diff_key ` set b"
    "diff_key ` snd ` set (entries False b a) = diff_key ` set b - diff_key ` set a"
    unfolding keys_of_entries by auto
  ultimately show ?thesis
    unfolding diffRecords_entries [OF assms] by (simp add: length_entries)
qed

definition example_record :: "string \<Rightarrow> string \<Rightarrow> int \<Rightarrow> ZoneRecord" where
  "example_record name rdata ttl = \<lparr>zr_name = name, zr_type = ''A'', zr_ttl = ttl, zr_rdata = rdata,
     zr_npub = ''npub1ab'', zr_event_id = ''e'', zr_created_at = 7\<rparr>"

theorem generateZoneFile_lines_witness:
  "length (split_on newline (generateZoneFile cmp_order [example_record ''www'' ''1.2.3.4'' 300] ''nodns.shop''
     (Some False))) = 5"
proof -
  have "newline \<notin> set ''nodns.shop''" "list_all one_line [example_record ''www'' ''1.2.3.4'' 300]"
    by (simp_all add: newline_def one_line_def example_record_def)
  from generateZoneFile_lines [OF comparator_cmp_order this, of "Some False"]
  show ?thesis by (auto dest!: mset_eq_length)
qed

theorem diffRecords_spec_witness:
  "df_ttlMismatch (diffRecords [example_record ''www'' ''1.2.3.4'' 300] [example_record ''www'' ''1.2.3.4'' 60]) = [] \<and>
   df_matching (diffRecords [example_record ''www'' ''1.2.3.4'' 300] [example_record ''www'' ''1.2.3.4'' 60]) = 1"
proof -
  let ?a = "[example_record ''www'' ''1.2.3.4'' 300]" and ?b = "[example_record ''www'' ''1.2.3.4'' 60]"
  have "list_all no_bar ?a" "list_all no_bar ?b" by code_simp+
  moreover have "diff_key ` set ?a = diff_key ` set ?b"
    by (simp add: example_record_def diff_key_def zone_key_def)
  ultimately show ?thesis using diffRecords_spec [of ?a ?b] by simp
qed

end
