(* ===== verification/Cli_Dns.thy ===== *)
theory Cli_Dns
  imports Cli_ZoneFile
begin

text \<open>
  \<open>nodns-cli/src/lib/dns.ts\<close>, \<open>constants.ts\<close> and \<open>zones.ts\<close>: the tool's DNS queries, its relay lists,
  and its own copy of the zone check. The system resolver of \<open>node:dns\<close> is the record \<open>node_dns\<close>.
\<close>

section \<open>Constants\<close>

definition DEFAULT_MINT_URL :: string where "DEFAULT_MINT_URL = ''https://testnut.cashu.space''"

definition DOH_ENDPOINT :: string where "DOH_ENDPOINT = ''https://dns.google/resolve''"

definition DNS_TYPES :: "string list" where "DNS_TYPES = [''A'', ''AAAA'', ''CNAME'', ''TXT'', ''MX'']"

definition publishRelays :: "string option \<Rightarrow> string list" where
  "publishRelays relayFlag = (if truthy relayFlag then [the relayFlag] else PUBLISH_RELAYS)"

definition readRelays :: "string option \<Rightarrow> string list" where
  "readRelays relayFlag = (if truthy relayFlag then [the relayFlag] else DEFAULT_READ_RELAYS)"

section \<open>DNS\<close>

record DnsQueryResult =
  dq_name :: string
  dq_type :: string
  dq_ttl :: int
  dq_rdata :: string

record soa_record =
  soa_nsname :: string
  soa_hostmaster :: string
  soa_serial :: int
  soa_refresh :: int
  soa_retry :: int
  soa_expire :: int
  soa_minttl :: int

record node_dns =
  nd_soa :: "string \<Rightarrow> soa_record option"
  nd_ns :: "string \<Rightarrow> string list option"
  nd_resolve4 :: "string \<Rightarrow> string list option"
  nd_resolve6 :: "string \<Rightarrow> string list option"
  nd_cname :: "string \<Rightarrow> string list option"
  nd_txt :: "string \<Rightarrow> string list list option"
  nd_mx :: "string \<Rightarrow> (int \<times> string) list option"

record ZoneApexResult =
  za_soa :: "soa_record option"
  za_ns :: "string list"

text \<open>\<open>safeResolve\<close>: a rejected promise becomes the fallback.\<close>

definition safeResolve :: "'a option \<Rightarrow> 'a \<Rightarrow> 'a" where
  "safeResolve promise fallback = nullish promise fallback"

definition queryAllRecords :: "doh \<Rightarrow> string \<Rightarrow> DnsQueryResult list" where
  "queryAllRecords fetch fqdn =
     map (\<lambda>r. \<lparr>dq_name = dns_name r, dq_type = dns_type r, dq_ttl = dns_ttl r, dq_rdata = dns_data r\<rparr>)
       (queryAllDnsRecordTypes fetch fqdn [''A'', ''AAAA'', ''TXT'', ''CNAME'', ''MX''] None)"

definition queryZoneApex :: "node_dns \<Rightarrow> string \<Rightarrow> ZoneApexResult" where
  "queryZoneApex D zone =
     \<lparr>za_soa = safeResolve (map_option Some (nd_soa D zone)) None, za_ns = safeResolve (nd_ns D zone) []\<rparr>"

definition dns_result_to_zone :: "string \<Rightarrow> DnsQueryResult \<Rightarrow> ZoneRecord" where
  "dns_result_to_zone zone r =
     (let zoneSuffix = ''.'' @ zone;
          name = strip_suffix_char (CHR ''.'') (dq_name r);
          name' = (if endsWith name zoneSuffix then slice_drop_last (length zoneSuffix) name else name)
      in \<lparr>zr_name = name', zr_type = toUpperCase (dq_type r),
          zr_ttl = (if dq_ttl r = 0 then 3600 else dq_ttl r), zr_rdata = dq_rdata r,
          zr_npub = ''dns'', zr_event_id = ''dns'', zr_created_at = 0\<rparr>)"

definition dnsResultsToZoneRecords ::
  "(string \<Rightarrow> string \<Rightarrow> int) \<Rightarrow> DnsQueryResult list \<Rightarrow> string \<Rightarrow> ZoneRecord list" where
  "dnsResultsToZoneRecords lc results zone =
     js_sort (compareRecords lc) (map (dns_result_to_zone zone) results)"

text \<open>\<open>queryAllRecords\<close> never rejects, so every promise of \<open>allSettled\<close> is fulfilled.\<close>

definition queryZoneRecords ::
  "(string \<Rightarrow> string \<Rightarrow> int) \<Rightarrow> doh \<Rightarrow> string \<Rightarrow> string list \<Rightarrow> ZoneRecord list" where
  "queryZoneRecords lc fetch zone knownFqdns =
     dnsResultsToZoneRecords lc (concat (map (queryAllRecords fetch) (js_uniq knownFqdns))) zone"

section \<open>The zone check of the tool\<close>

record CliZonePricing =
  cp_createPrice :: int
  cp_updatePrice :: int
  cp_deletePrice :: int

record CliZoneInfo =
  cz_zone :: string
  cz_npub :: string
  cz_testnet :: bool
  cz_optedIn :: bool
  cz_pricing :: "CliZonePricing option"
  cz_mintUrl :: "string option"
  cz_npubNamesFree :: bool
  cz_handlerEventFound :: bool
  cz_verified :: bool

datatype CliZoneCheckOutcome =
    CliVerified CliZoneInfo
  | CliTestnet CliZoneInfo
  | CliUnverified CliZoneInfo
  | CliNotOptedIn

definition cli_buildZoneInfo :: "(string, string) jsmap \<Rightarrow> string \<Rightarrow> CliZoneInfo" where
  "cli_buildZoneInfo parsed zone =
     (let npub = nullish (map_get parsed ''npub'') [];
          testnet = (map_get parsed ''testnet'' = Some ''1'' \<or> map_get parsed ''testnet'' = Some ''true'');
          npubNamesFree = (if map_get parsed ''npub_free'' = None then True
            else map_get parsed ''npub_free'' = Some ''true'' \<or> map_get parsed ''npub_free'' = Some ''1'');
          createPrice = parseInt_or (nullish (map_get parsed ''create'') ''0'') 0;
          updatePrice = parseInt_or (nullish (map_get parsed ''update'') ''0'') 0;
          deletePrice = parseInt_or (nullish (map_get parsed ''delete'') ''0'') 0;
          pricing = (if createPrice > 0 \<or> updatePrice > 0 \<or> deletePrice > 0
            then Some \<lparr>cp_createPrice = createPrice, cp_updatePrice = updatePrice, cp_deletePrice = deletePrice\<rparr>
            else None);
          mintUrl = map_get parsed ''mint'';
          mintUrl' = (if truthy mintUrl \<and> \<not> startsWith (the mintUrl) ''http''
            then Some (''https://'' @ the mintUrl) else mintUrl)
      in \<lparr>cz_zone = zone, cz_npub = npub, cz_testnet = testnet, cz_optedIn = True, cz_pricing = pricing,
          cz_mintUrl = mintUrl', cz_npubNamesFree = npubNamesFree, cz_handlerEventFound = False,
          cz_verified = False\<rparr>)"

definition cli_fetchZoneHandler :: "relay_query \<Rightarrow> string list \<Rightarrow> string \<Rightarrow> NostrEvent option" where
  "cli_fetchZoneHandler query relays pubkeyHex =
     (case query relays \<lparr>rf_kinds = [ZONE_HANDLER_KIND], rf_authors = Some [pubkeyHex], rf_limit = Some 1,
         rf_k = None, rf_e = None\<rparr> CLI_QUERY_MAX_WAIT of
        Some events \<Rightarrow> (if length events > 0 then Some (hd events) else None)
      | None \<Rightarrow> None)"

definition cli_checkZone ::
  "relay_query \<Rightarrow> doh \<Rightarrow> string \<Rightarrow> string list \<Rightarrow> bool \<Rightarrow> CliZoneCheckOutcome" where
  "cli_checkZone query fetch zone relays skipCheck =
     (if skipCheck then
        CliVerified \<lparr>cz_zone = zone, cz_npub = [], cz_testnet = False, cz_optedIn = True, cz_pricing = None,
          cz_mintUrl = None, cz_npubNamesFree = True, cz_handlerEventFound = True, cz_verified = True\<rparr>
      else
        let txt = fetchDnsTxt fetch zone DEFAULT_DOH_ENDPOINT
        in if \<not> truthy txt then CliNotOptedIn
           else
             let info = cli_buildZoneInfo (parseZoneTxt (the txt)) zone
             in if cz_npub info = [] then CliUnverified info
                else
                  let handler = cli_fetchZoneHandler query relays (cz_npub info)
                  in if handler \<noteq> None \<and> toLowerCase (ev_pubkey (the handler)) = toLowerCase (cz_npub info)
                     then
                       let info' = info\<lparr>cz_handlerEventFound := True, cz_verified := True, cz_optedIn := True\<rparr>
                       in if cz_testnet info' then CliTestnet info' else CliVerified info'
                     else CliUnverified (info\<lparr>cz_handlerEventFound := handler \<noteq> None, cz_verified := False\<rparr>))"

section \<open>Lemmas\<close>

text \<open>The SDK's outcome in the tool's types.\<close>

definition cli_pricing :: "ZonePricing \<Rightarrow> CliZonePricing" where
  "cli_pricing p = \<lparr>cp_createPrice = zp_create p, cp_updatePrice = zp_update p, cp_deletePrice = zp_delete p\<rparr>"

definition cli_info :: "ZoneInfo \<Rightarrow> CliZoneInfo" where
  "cli_info i = \<lparr>cz_zone = zi_zone i, cz_npub = zi_npub i, cz_testnet = zi_testnet i, cz_optedIn = zi_optedIn i,
     cz_pricing = map_option cli_pricing (zi_pricing i), cz_mintUrl = zi_mintUrl i,
     cz_npubNamesFree = zi_npubNamesFree i, cz_handlerEventFound = zi_handlerEventFound i,
     cz_verified = zi_verified i\<rparr>"

fun cli_outcome :: "ZoneCheckOutcome \<Rightarrow> CliZoneCheckOutcome" where
  "cli_outcome (Verified i) = CliVerified (cli_info i)"
| "cli_outcome (Testnet i) = CliTestnet (cli_info i)"
| "cli_outcome (Unverified i) = CliUnverified (cli_info i)"
| "cli_outcome NotOptedIn = CliNotOptedIn"

lemma cli_buildZoneInfo_refines: "cli_buildZoneInfo parsed zone = cli_info (buildZoneInfo parsed zone)"
  by (auto simp: cli_buildZoneInfo_def buildZoneInfo_def cli_info_def cli_pricing_def price_field_def
      flag_set_def truthy_def Let_def split: option.split)

lemma cli_fetchZoneHandler_eq: "cli_fetchZoneHandler query relays pk = fetchZoneHandler query relays pk"
proof -
  have "CLI_QUERY_MAX_WAIT = ZONES_QUERY_MAX_WAIT" by (simp add: CLI_QUERY_MAX_WAIT_def ZONES_QUERY_MAX_WAIT_def)
  moreover have "(if length xs > 0 then Some (hd xs) else None) = nth_opt xs 0" for xs :: "NostrEvent list"
    by (cases xs) auto
  ultimately show ?thesis
    by (simp only: cli_fetchZoneHandler_def fetchZoneHandler_def zone_filter_def)
qed

lemma cli_info_simps [simp]:
  "cz_npub (cli_info i) = zi_npub i" "cz_testnet (cli_info i) = zi_testnet i"
  "cli_info (i\<lparr>zi_handlerEventFound := h, zi_verified := v\<rparr>) = (cli_info i)\<lparr>cz_handlerEventFound := h, cz_verified := v\<rparr>"
  "cli_info (i\<lparr>zi_handlerEventFound := h, zi_verified := v, zi_optedIn := x\<rparr>) =
     (cli_info i)\<lparr>cz_handlerEventFound := h, cz_verified := v, cz_optedIn := x\<rparr>"
  by (simp_all add: cli_info_def)

section \<open>Properties\<close>

text \<open>
  C9. The command line tool's copy of the zone check gives, field by field, the outcome of the SDK's.
\<close>

theorem cli_checkZone_refines:
  "cli_checkZone query fetch zone relays skip = cli_outcome (checkZone query fetch zone relays skip None)"
proof -
  have skip: "cli_outcome (checkZone query fetch zone relays True None) = cli_checkZone query fetch zone relays True"
    by (simp add: checkZone_def cli_checkZone_def cli_info_def)
  show ?thesis
  proof (cases skip)
    case False
    then show ?thesis
      by (auto simp: checkZone_def cli_checkZone_def cli_buildZoneInfo_refines cli_fetchZoneHandler_eq Let_def
          split: option.split)
  qed (simp add: skip)
qed

text \<open>Records found in DNS for names of the zone are filed under the names relative to it, so that a
  comparison with the API's records meets equal names.\<close>

lemma dns_names_relative:
  "zr_name (dns_result_to_zone zone (r\<lparr>dq_name := label @ ''.'' @ zone @ ''.''\<rparr>)) = label"
proof -
  have "strip_suffix_char (CHR ''.'') (s @ ''.'') = s" for s by (simp add: strip_suffix_char_def)
  from this [of "label @ ''.'' @ zone"] show ?thesis
    using endsWith_append [of label "''.'' @ zone"] slice_drop_last_append [of "''.'' @ zone" label]
    by (simp add: dns_result_to_zone_def Let_def)
qed

end
