(* ===== verification/Cli_Publish.thy ===== *)
theory Cli_Publish
  imports Cli_Dns
begin

text \<open>
  \<open>nodns-cli/src/lib/nostr.ts\<close>: signing an event, with proof of work, and publishing it. The parts of
  \<open>nostr-tools\<close> it calls are the record \<open>signer\<close>; its promises are the predicate \<open>signer_ok\<close>. What the
  tool writes is a list of console lines, in which a mark outside ASCII is its UTF-8 bytes.
\<close>

section \<open>The console\<close>

datatype console = Out string | Err string

definition check_mark :: string where "check_mark = [CHR 0xE2, CHR 0x9C, CHR 0x93]"

definition cross_mark :: string where "cross_mark = [CHR 0xE2, CHR 0x9C, CHR 0x97]"

definition warn_mark :: string where "warn_mark = [CHR 0xE2, CHR 0x9A, CHR 0xA0]"

definition em_dash :: string where "em_dash = [CHR 0xE2, CHR 0x80, CHR 0x94]"

section \<open>Signing and publishing\<close>

record event_template =
  et_kind :: int
  et_content :: string
  et_tags :: "tag list"
  et_created_at :: int

text \<open>\<open>minePow\<close> takes a template with its public key and a difficulty and gives an unsigned event with
  its id; \<open>finalizeEvent\<close> signs a template; \<open>stringify\<close> is the JSON text printed.\<close>

record signer =
  sg_getPublicKey :: "bytes \<Rightarrow> string option"
  sg_minePow :: "event_template \<Rightarrow> string \<Rightarrow> int \<Rightarrow> (event_template \<times> string) option"
  sg_finalize :: "event_template \<Rightarrow> bytes \<Rightarrow> NostrEvent option"
  sg_stringify :: "NostrEvent \<Rightarrow> string"

definition mine_template ::
  "signer \<Rightarrow> bytes \<Rightarrow> event_template \<Rightarrow> int \<Rightarrow> console list \<times> (js_error + event_template)" where
  "mine_template S sk template powDifficulty =
     (if powDifficulty > 0 then
        case sg_getPublicKey S sk of
          None \<Rightarrow> ([], Inl LibError)
        | Some pubkey \<Rightarrow>
            let start = Err (''Mining PoW (difficulty: '' @ show_int powDifficulty @ '')...'')
            in case sg_minePow S template pubkey powDifficulty of
                 None \<Rightarrow> ([start], Inl LibError)
               | Some (mined, mined_id) \<Rightarrow> ([start, Err (check_mark @ '' PoW mined'')], Inr mined)
      else ([], Inr template))"

text \<open>\<open>pool.publish([url], event)\<close> either throws (an address it cannot read), with the text the reason prints,
  or returns an array that holds the promise of the relay's answer: kept when the relay accepts, or
  broken with its reason. \<open>await\<close> on an array does not wait for the promises in it, so the second case
  counts as success whatever the relay answers. What the runtime does about a broken promise that nobody
  listens to is not modelled.\<close>

datatype relay_call = CallThrew string | CallPromised "string option"

fun call_threw :: "relay_call \<Rightarrow> bool" where
  "call_threw (CallThrew _) = True"
| "call_threw (CallPromised _) = False"

definition publish_lines ::
  "(string \<Rightarrow> NostrEvent \<Rightarrow> relay_call) \<Rightarrow> NostrEvent \<Rightarrow> string list \<Rightarrow> console list" where
  "publish_lines publish event relays =
     map (\<lambda>url. case publish url event of
         CallPromised _ \<Rightarrow> Err (check_mark @ '' '' @ url @ '' '' @ em_dash @ '' '' @ ev_id event)
       | CallThrew reason \<Rightarrow> Err (cross_mark @ '' publish failed: '' @ reason)) relays"

definition publish_count ::
  "(string \<Rightarrow> NostrEvent \<Rightarrow> relay_call) \<Rightarrow> NostrEvent \<Rightarrow> string list \<Rightarrow> nat \<times> nat" where
  "publish_count publish event relays =
     (length (filter (\<lambda>url. \<not> call_threw (publish url event)) relays),
      length (filter (\<lambda>url. call_threw (publish url event)) relays))"

text \<open>The third component is the calls of \<open>pool.publish\<close>, each with its relay and event.\<close>

definition signAndPublish ::
  "signer \<Rightarrow> (string \<Rightarrow> NostrEvent \<Rightarrow> relay_call) \<Rightarrow> int \<Rightarrow> bytes \<Rightarrow> string list \<Rightarrow> tag list \<Rightarrow> string \<Rightarrow>
     bool \<Rightarrow> int \<Rightarrow> console list \<times> (js_error + NostrEvent) \<times> (string \<times> NostrEvent) list" where
  "signAndPublish S publish nowMs sk relays tags content dryRun powDifficulty =
     (let template = \<lparr>et_kind = RECORD_KIND, et_content = content, et_tags = tags,
            et_created_at = nowMs div 1000\<rparr>;
          (mineLog, mined) = mine_template S sk template powDifficulty
      in case mined of
           Inl e \<Rightarrow> (mineLog, Inl e, [])
         | Inr template' \<Rightarrow>
             (case sg_finalize S template' sk of
                None \<Rightarrow> (mineLog, Inl LibError, [])
              | Some event \<Rightarrow>
                  let lines = mineLog @ [Out (sg_stringify S event)]
                  in if dryRun
                     then (lines @ [Err (''(dry run '' @ em_dash @ '' not publishing)'')], Inr event, [])
                     else
                       let (succeeded, failed) = publish_count publish event relays;
                           lines' = lines @ publish_lines publish event relays;
                           sent = map (\<lambda>url. (url, event)) relays
                       in if succeeded = 0 \<and> failed > 0
                          then (lines', Inl (JsError (''Failed to publish to all '' @ show_nat failed @ '' relay(s)'')), sent)
                          else (lines', Inr event, sent)))"

section \<open>What the library promises\<close>

text \<open>The id of an event is a hash of its author and contents; mining returns a template whose id has the
  asked leading zero bits, and signing a template gives the event of that id.\<close>

definition signer_ok :: "signer \<Rightarrow> (event_template \<Rightarrow> string \<Rightarrow> string) \<Rightarrow> bool" where
  "signer_ok S event_hash \<longleftrightarrow>
     (\<forall>t pk d t' i. sg_minePow S t pk d = Some (t', i) \<longrightarrow>
        int (countLeadingZeroBits (event_hash t' pk)) \<ge> d \<and>
        et_kind t' = et_kind t \<and> et_content t' = et_content t) \<and>
     (\<forall>t sk ev. sg_finalize S t sk = Some ev \<longrightarrow>
        sg_getPublicKey S sk = Some (ev_pubkey ev) \<and> ev_id ev = event_hash t (ev_pubkey ev) \<and>
        ev_kind ev = et_kind t \<and> ev_tags ev = et_tags t \<and> ev_content ev = et_content t)"

lemma mined_ok:
  "signer_ok S h \<Longrightarrow> sg_minePow S t pk d = Some (t', i) \<Longrightarrow>
     d \<le> int (countLeadingZeroBits (h t' pk)) \<and> et_kind t' = et_kind t \<and> et_content t' = et_content t"
  unfolding signer_ok_def by blast

lemma signed_ok:
  "signer_ok S h \<Longrightarrow> sg_finalize S t sk = Some ev \<Longrightarrow>
     sg_getPublicKey S sk = Some (ev_pubkey ev) \<and> ev_id ev = h t (ev_pubkey ev) \<and> ev_kind ev = et_kind t"
  unfolding signer_ok_def by blast

lemma signAndPublish_event:
  assumes "signAndPublish S publish now sk relays tags content dry pow = (lines, Inr ev, sent)"
  obtains t where "mine_template S sk \<lparr>et_kind = RECORD_KIND, et_content = content, et_tags = tags,
      et_created_at = now div 1000\<rparr> pow = (fst (mine_template S sk \<lparr>et_kind = RECORD_KIND, et_content = content,
      et_tags = tags, et_created_at = now div 1000\<rparr> pow), Inr t)" "sg_finalize S t sk = Some ev"
  using assms
  by (auto simp: signAndPublish_def Let_def split: prod.splits sum.splits option.splits if_splits)

lemma signed_tags: "signer_ok S h \<Longrightarrow> sg_finalize S t sk = Some ev \<Longrightarrow> ev_tags ev = et_tags t"
  unfolding signer_ok_def by blast

text \<open>Mining adds a \<open>nonce\<close> tag and no other, and drops none.\<close>

definition adds_nonce :: "signer \<Rightarrow> bool" where
  "adds_nonce S \<longleftrightarrow> (\<forall>t pk d t' i. sg_minePow S t pk d = Some (t', i) \<longrightarrow>
     (\<forall>tag \<in> set (et_tags t'). tag \<in> set (et_tags t) \<or> tag_is ''nonce'' tag))"

definition keeps_tags :: "signer \<Rightarrow> bool" where
  "keeps_tags S \<longleftrightarrow> (\<forall>t pk d t' i. sg_minePow S t pk d = Some (t', i) \<longrightarrow> set (et_tags t) \<subseteq> set (et_tags t'))"

lemma mined_tags:
  assumes "snd (mine_template S sk t pow) = Inr t'"
  shows "keeps_tags S \<Longrightarrow> set (et_tags t) \<subseteq> set (et_tags t')"
    and "adds_nonce S \<Longrightarrow> tag \<in> set (et_tags t') \<Longrightarrow> tag \<in> set (et_tags t) \<or> tag_is ''nonce'' tag"
proof -
  have "t' = t \<or> (\<exists>pk i. sg_minePow S t pk pow = Some (t', i))"
    using assms by (auto simp: mine_template_def Let_def split: option.splits if_splits)
  then show "keeps_tags S \<Longrightarrow> set (et_tags t) \<subseteq> set (et_tags t')"
    and "adds_nonce S \<Longrightarrow> tag \<in> set (et_tags t') \<Longrightarrow> tag \<in> set (et_tags t) \<or> tag_is ''nonce'' tag"
    unfolding keeps_tags_def adds_nonce_def by blast+
qed

text \<open>What is handed to a relay carries the given tags and, but for the one mining adds, no other.\<close>

lemma handed_tags:
  assumes "signer_ok S h" "(url, ev) \<in> set (snd (snd (signAndPublish S publish now sk relays tags content dry pow)))"
  shows "keeps_tags S \<Longrightarrow> set tags \<subseteq> set (ev_tags ev)"
    and "adds_nonce S \<Longrightarrow> tag \<in> set (ev_tags ev) \<Longrightarrow> tag \<in> set tags \<or> tag_is ''nonce'' tag"
proof -
  let ?t = "\<lparr>et_kind = RECORD_KIND, et_content = content, et_tags = tags, et_created_at = now div 1000\<rparr>"
  obtain t where t: "snd (mine_template S sk ?t pow) = Inr t" "sg_finalize S t sk = Some ev"
    using assms(2) by (auto simp: signAndPublish_def Let_def split: prod.splits sum.splits option.splits if_splits)
  note same = signed_tags [OF assms(1) t(2)]
  show "keeps_tags S \<Longrightarrow> set tags \<subseteq> set (ev_tags ev)"
    using mined_tags(1) [OF t(1)] by (simp add: same)
  show "adds_nonce S \<Longrightarrow> tag \<in> set (ev_tags ev) \<Longrightarrow> tag \<in> set tags \<or> tag_is ''nonce'' tag"
    using mined_tags(2) [OF t(1), of tag] by (simp add: same)
qed


text \<open>A signer that hashes nothing but the key: it keeps the promises for every key whose text has the
  zero bits asked for.\<close>

definition example_signer :: signer where
  "example_signer = \<lparr>sg_getPublicKey = (\<lambda>_. Some ''00ab''),
     sg_minePow = (\<lambda>t pk d. if d \<le> int (countLeadingZeroBits pk) then Some (t, pk) else None),
     sg_finalize = (\<lambda>t sk. Some \<lparr>ev_id = ''00ab'', ev_pubkey = ''00ab'', ev_created_at = et_created_at t,
       ev_kind = et_kind t, ev_tags = et_tags t, ev_content = et_content t, ev_sig = []\<rparr>),
     sg_stringify = ev_id\<rparr>"

lemma example_signer_ok: "signer_ok example_signer (\<lambda>t pk. pk)"
  by (auto simp: signer_ok_def example_signer_def split: if_splits)

section \<open>Properties\<close>

text \<open>
  C26. With a signing library that keeps its promises, an event that \<open>signAndPublish\<close> returns is a record
  event of the given key whose id has at least the asked number of leading zero bits.
\<close>

theorem signAndPublish_difficulty:
  assumes "signer_ok S h" "signAndPublish S publish now sk relays tags content dry pow = (lines, Inr ev, sent)"
  shows "pow \<le> int (countLeadingZeroBits (ev_id ev)) \<and> ev_kind ev = RECORD_KIND \<and>
    sg_getPublicKey S sk = Some (ev_pubkey ev)"
proof -
  let ?t0 = "\<lparr>et_kind = RECORD_KIND, et_content = content, et_tags = tags, et_created_at = now div 1000\<rparr>"
  obtain t where m: "snd (mine_template S sk ?t0 pow) = Inr t" and f: "sg_finalize S t sk = Some ev"
    using signAndPublish_event [OF assms(2)] by (metis snd_conv)
  note s = signed_ok [OF assms(1) f]
  show ?thesis
  proof (cases "pow > 0")
    case False
    with m s show ?thesis by (auto simp: mine_template_def)
  next
    case True
    with m s obtain i where p: "sg_minePow S ?t0 (ev_pubkey ev) pow = Some (t, i)"
      by (auto simp: mine_template_def Let_def split: option.splits)
    from mined_ok [OF assms(1) p] s show ?thesis by auto
  qed
qed

theorem signAndPublish_difficulty_witness:
  "\<exists>lines ev sent. signAndPublish example_signer (\<lambda>_ _. CallPromised None) 7000 [] [''wss://r''] [] [] False 8 = (lines, Inr ev, sent) \<and>
     8 \<le> int (countLeadingZeroBits (ev_id ev))"
proof -
  let ?r = "signAndPublish example_signer (\<lambda>_ _. CallPromised None) 7000 [] [''wss://r''] [] [] False 8"
  have "(case ?r of (_, Inr ev, _) \<Rightarrow> True | _ \<Rightarrow> False)" by code_simp
  then obtain lines ev sent where r: "?r = (lines, Inr ev, sent)"
    by (auto split: prod.splits sum.splits)
  from signAndPublish_difficulty [OF example_signer_ok r] r show ?thesis by blast
qed



text \<open>
  An event that its only relay refuses is reported as published there, and the call succeeds.
\<close>

theorem signAndPublish_refusal_unseen:
  assumes "mine_template S sk \<lparr>et_kind = RECORD_KIND, et_content = content, et_tags = tags,
      et_created_at = now div 1000\<rparr> pow = (mineLog, Inr t)" "sg_finalize S t sk = Some ev"
    and "publish url ev = CallPromised (Some why)"
  shows "signAndPublish S publish now sk [url] tags content False pow =
    (mineLog @ [Out (sg_stringify S ev), Err (check_mark @ '' '' @ url @ '' '' @ em_dash @ '' '' @ ev_id ev)], Inr ev, [(url, ev)])"
proof -
  have "publish_count publish ev [url] = (1, 0)"
    "publish_lines publish ev [url] = [Err (check_mark @ '' '' @ url @ '' '' @ em_dash @ '' '' @ ev_id ev)]"
    using assms(3) by (simp_all add: publish_count_def publish_lines_def)
  then show ?thesis by (simp add: signAndPublish_def Let_def assms(1,2))
qed

end
