(* ===== verification/Cli_Payment.thy ===== *)
theory Cli_Payment
  imports Cli_Publish
begin

text \<open>
  \<open>nodns-cli/src/lib/cashu.ts\<close> and \<open>p2pk.ts\<close>: paying with ecash. The wallet of \<open>cashu-ts\<close> is the record
  \<open>mint_wallet\<close>; its answer to the \<open>k\<close>-th question whether the invoice is paid, and the \<open>k\<close>-th reading
  of the clock, are functions of \<open>k\<close>. The waiting loops need not end when the clock stands still, so
  they are partial functions, \<^const>\<open>None\<close> being no return.
\<close>

definition PAYMENT_TIMEOUT_MS :: int where "PAYMENT_TIMEOUT_MS = 300000"

definition POLL_INTERVAL_MS :: int where "POLL_INTERVAL_MS = 3000"

definition SECONDS_PER_DAY :: int where "SECONDS_PER_DAY = 86400"

definition payment_timeout :: js_error where
  "payment_timeout = JsError ''Payment timeout (300s). Please try again.''"

section \<open>The wallet\<close>

record cashu_proof =
  pf_amount :: int
  pf_secret :: string

record p2pk_options =
  po_pubkey :: string
  po_locktime :: int
  po_refundKeys :: "string list"

record mint_quote =
  mq_request :: string
  mq_quote :: string

record mint_wallet =
  mw_load :: "unit option"
  mw_p2pk :: "bool option"
  mw_createQuote :: "int \<Rightarrow> mint_quote option"
  mw_paid :: "nat \<Rightarrow> bool option"
  mw_mintProofs :: "int \<Rightarrow> string \<Rightarrow> cashu_proof list option"
  mw_send :: "int \<Rightarrow> cashu_proof list \<Rightarrow> p2pk_options option \<Rightarrow> cashu_proof list option"
  mw_receive :: "string \<Rightarrow> string \<Rightarrow> cashu_proof list option"

text \<open>A mint is reached under its address; \<open>encode\<close> is \<open>getEncodedToken\<close>.\<close>

record cashu_lib =
  cl_wallet :: "string \<Rightarrow> mint_wallet"
  cl_encode :: "string \<Rightarrow> cashu_proof list \<Rightarrow> string"
  cl_decode :: "string \<Rightarrow> (string option \<times> cashu_proof list) option"
  cl_parseP2PK :: "string \<Rightarrow> (string \<times> tag list option) option"

section \<open>Waiting for a payment\<close>

partial_function (option) pay_loop ::
  "(nat \<Rightarrow> bool option) \<Rightarrow> (nat \<Rightarrow> int) \<Rightarrow> int \<Rightarrow> nat \<Rightarrow> (js_error + bool \<times> nat) option" where
  "pay_loop paid clock startTime k =
     (if clock k - startTime < PAYMENT_TIMEOUT_MS then
        case paid k of
          None \<Rightarrow> Some (Inl LibError)
        | Some p \<Rightarrow> if p then Some (Inr (True, k)) else pay_loop paid clock startTime (Suc k)
      else Some (Inr (False, k)))"

text \<open>\<open>createPaymentToken\<close>: the clock is read once before the loop (reading 0) and once for each test.\<close>

definition createPaymentToken ::
  "cashu_lib \<Rightarrow> (nat \<Rightarrow> int) \<Rightarrow> string \<Rightarrow> int \<Rightarrow> (js_error + string) option" where
  "createPaymentToken C clock mintUrl amountSats =
     (let wallet = cl_wallet C mintUrl
      in case mw_load wallet of
           None \<Rightarrow> Some (Inl LibError)
         | Some _ \<Rightarrow>
             (case mw_createQuote wallet amountSats of
                None \<Rightarrow> Some (Inl LibError)
              | Some quote \<Rightarrow>
                  map_option (\<lambda>r. try_bind r (\<lambda>(paid, k).
                      if paid then
                        try_bind (lib_call (mw_mintProofs wallet amountSats (mq_quote quote))) (\<lambda>proofs.
                        try_bind (lib_call (mw_send wallet amountSats proofs None)) (\<lambda>send.
                          Inr (cl_encode C mintUrl send)))
                      else Inl payment_timeout))
                    (pay_loop (mw_paid wallet) (\<lambda>k. clock (Suc k)) (clock 0) 0)))"

section \<open>Locked tokens\<close>

record P2PKTokenOptions =
  pt_zonePubkeyHex :: string
  pt_userPubkeyHex :: string
  pt_refundAfterDays :: int
  pt_amountSats :: int
  pt_mintUrl :: string

text \<open>A date is its number of milliseconds.\<close>

record P2PKTokenResult =
  pr_token :: string
  pr_refundDate :: int
  pr_zonePubkey :: string
  pr_p2pk :: bool

definition nostrToCompressed :: "string \<Rightarrow> string" where
  "nostrToCompressed hex = ''02'' @ hex"

definition mintSupportsP2PK :: "cashu_lib \<Rightarrow> string \<Rightarrow> bool" where
  "mintSupportsP2PK C mintUrl =
     (let wallet = cl_wallet C mintUrl in mw_load wallet \<noteq> None \<and> mw_p2pk wallet = Some True)"

text \<open>The clock readings of the unlocked path go on after those of the payment: \<open>late\<close> is the reading
  after it. In the locked path reading 0 is the start, reading \<open>k + 1\<close> the \<open>k\<close>-th test, and the two
  readings after the last test are the second time-out test and the date of the lock.\<close>

definition createP2pkTokenWithRefund ::
  "cashu_lib \<Rightarrow> (nat \<Rightarrow> int) \<Rightarrow> int \<Rightarrow> P2PKTokenOptions \<Rightarrow> (js_error + P2PKTokenResult) option" where
  "createP2pkTokenWithRefund C clock late opts =
     (if \<not> mintSupportsP2PK C (pt_mintUrl opts) then
        map_option (\<lambda>r. try_bind r (\<lambda>token.
            Inr \<lparr>pr_token = token, pr_refundDate = late + pt_refundAfterDays opts * SECONDS_PER_DAY * 1000,
              pr_zonePubkey = nostrToCompressed (pt_zonePubkeyHex opts), pr_p2pk = False\<rparr>))
          (createPaymentToken C clock (pt_mintUrl opts) (pt_amountSats opts))
      else
        let wallet = cl_wallet C (pt_mintUrl opts)
        in case mw_load wallet of
             None \<Rightarrow> Some (Inl LibError)
           | Some _ \<Rightarrow>
               (case mw_createQuote wallet (pt_amountSats opts) of
                  None \<Rightarrow> Some (Inl LibError)
                | Some quote \<Rightarrow>
                    map_option (\<lambda>r. try_bind r (\<lambda>(paid, k).
                        if clock (k + 2) - clock 0 \<ge> PAYMENT_TIMEOUT_MS then Inl payment_timeout
                        else
                          try_bind (lib_call (mw_mintProofs wallet (pt_amountSats opts) (mq_quote quote))) (\<lambda>proofs.
                          let zoneCompressed = nostrToCompressed (pt_zonePubkeyHex opts);
                              userCompressed = nostrToCompressed (pt_userPubkeyHex opts);
                              refundTimestamp = clock (k + 3) div 1000 + pt_refundAfterDays opts * SECONDS_PER_DAY
                          in try_bind (lib_call (mw_send wallet (pt_amountSats opts) proofs
                               (Some \<lparr>po_pubkey = zoneCompressed, po_locktime = refundTimestamp,
                                 po_refundKeys = [userCompressed]\<rparr>))) (\<lambda>send.
                             Inr \<lparr>pr_token = cl_encode C (pt_mintUrl opts) send,
                               pr_refundDate = refundTimestamp * 1000, pr_zonePubkey = zoneCompressed,
                               pr_p2pk = True\<rparr>))))
                      (pay_loop (mw_paid wallet) (\<lambda>k. clock (Suc k)) (clock 0) 0)))"

section \<open>Refunds\<close>

record RefundCheckResult =
  rc_isP2PK :: bool
  rc_eligible :: bool
  rc_userIsRefundKey :: bool
  rc_refundDate :: "int option"
  rc_locktime :: "int option"
  rc_lockPubkey :: "string option"
  rc_refundPubkeys :: "string list"
  rc_mint :: "string option"

fun find_locktime :: "tag list \<Rightarrow> int option" where
  "find_locktime [] = None"
| "find_locktime (t # ts) =
     (if nth_opt t 0 = Some ''locktime'' \<and> truthy (nth_opt t 1) then parseInt (t ! 1) else find_locktime ts)"

definition extractLocktime :: "tag list option \<Rightarrow> int option" where
  "extractLocktime tags = (case tags of None \<Rightarrow> None | Some ts \<Rightarrow> find_locktime ts)"

definition extractRefundKeys :: "tag list option \<Rightarrow> string list" where
  "extractRefundKeys tags =
     (case tags of None \<Rightarrow> []
      | Some ts \<Rightarrow> map (\<lambda>t. t ! 1) (filter (\<lambda>t. nth_opt t 0 = Some ''refund'' \<and> truthy (nth_opt t 1)) ts))"

definition proof_refund :: "int \<Rightarrow> string option \<Rightarrow> string option \<Rightarrow> string \<times> tag list option \<Rightarrow> RefundCheckResult" where
  "proof_refund now userPubkeyHex mint secretData =
     (let (data, tags) = secretData;
          locktime = extractLocktime tags;
          refundKeys = extractRefundKeys tags;
          userIsRefundKey = (if truthy userPubkeyHex
            then the userPubkeyHex \<in> set refundKeys \<or> nostrToCompressed (the userPubkeyHex) \<in> set refundKeys
            else False)
      in case locktime of
           None \<Rightarrow> \<lparr>rc_isP2PK = True, rc_eligible = False, rc_userIsRefundKey = userIsRefundKey,
             rc_refundDate = None, rc_locktime = None, rc_lockPubkey = Some data,
             rc_refundPubkeys = refundKeys, rc_mint = mint\<rparr>
         | Some l \<Rightarrow> \<lparr>rc_isP2PK = True, rc_eligible = (now \<ge> l), rc_userIsRefundKey = userIsRefundKey,
             rc_refundDate = Some (l * 1000), rc_locktime = Some l, rc_lockPubkey = Some data,
             rc_refundPubkeys = refundKeys, rc_mint = mint\<rparr>)"

fun refund_loop :: "(string \<Rightarrow> (string \<times> tag list option) option) \<Rightarrow> int \<Rightarrow> string option \<Rightarrow> string option \<Rightarrow>
    cashu_proof list \<Rightarrow> RefundCheckResult" where
  "refund_loop parseP2PK now userPubkeyHex mint [] =
     \<lparr>rc_isP2PK = False, rc_eligible = False, rc_userIsRefundKey = False, rc_refundDate = None,
      rc_locktime = None, rc_lockPubkey = None, rc_refundPubkeys = [], rc_mint = mint\<rparr>"
| "refund_loop parseP2PK now userPubkeyHex mint (p # ps) =
     (case parseP2PK (pf_secret p) of
        None \<Rightarrow> refund_loop parseP2PK now userPubkeyHex mint ps
      | Some secretData \<Rightarrow> proof_refund now userPubkeyHex mint secretData)"

definition checkRefundEligibility :: "cashu_lib \<Rightarrow> int \<Rightarrow> string \<Rightarrow> string option \<Rightarrow> RefundCheckResult" where
  "checkRefundEligibility C nowMs token userPubkeyHex =
     (case cl_decode C token of
        None \<Rightarrow> \<lparr>rc_isP2PK = False, rc_eligible = False, rc_userIsRefundKey = False, rc_refundDate = None,
          rc_locktime = None, rc_lockPubkey = None, rc_refundPubkeys = [], rc_mint = None\<rparr>
      | Some (mint, proofs) \<Rightarrow> refund_loop (cl_parseP2PK C) (nowMs div 1000) userPubkeyHex mint proofs)"

definition reclaimExpiredToken :: "cashu_lib \<Rightarrow> string \<Rightarrow> string \<Rightarrow> string \<Rightarrow> js_error + string" where
  "reclaimExpiredToken C token userPrivkeyHex mintUrl =
     (let wallet = cl_wallet C mintUrl
      in try_bind (lib_call (mw_load wallet)) (\<lambda>_.
         try_bind (lib_call (mw_receive wallet token userPrivkeyHex)) (\<lambda>proofs.
         let total = foldl (\<lambda>sum p. sum + pf_amount p) 0 proofs
         in try_bind (lib_call (mw_send wallet total proofs None)) (\<lambda>send.
            Inr (cl_encode C mintUrl send)))))"

section \<open>Lemmas\<close>

lemma pay_loop_returns:
  assumes "\<forall>j. startTime + POLL_INTERVAL_MS * int j \<le> clock j" "k \<le> 100"
  shows "\<exists>r. pay_loop paid clock startTime k = Some r \<and> (\<forall>b n. r = Inr (b, n) \<longrightarrow> n \<le> 100)"
  using assms(2)
proof (induction "100 - k" arbitrary: k)
  case 0
  then have "k = 100" by simp
  moreover have "\<not> clock 100 - startTime < PAYMENT_TIMEOUT_MS"
    using assms(1) [rule_format, of 100] by (simp add: PAYMENT_TIMEOUT_MS_def POLL_INTERVAL_MS_def)
  ultimately show ?case by (subst pay_loop.simps) simp
next
  case (Suc n)
  then have "n = 100 - Suc k" "Suc k \<le> 100" by simp_all
  with Suc.hyps(1) [of "Suc k"] Suc.prems show ?case
    by (subst pay_loop.simps) (auto split: option.split)
qed

text \<open>The loop asks fewer than a hundred and one questions: what the mint would answer to a later one makes
  no difference.\<close>

lemma pay_loop_asks:
  assumes "\<forall>j. startTime + POLL_INTERVAL_MS * int j \<le> clock j" "\<forall>j < 100. paid' j = paid j"
  shows "pay_loop paid' clock startTime k = pay_loop paid clock startTime k"
proof (induction "100 - k" arbitrary: k)
  case 0
  then have "100 \<le> k" by simp
  then have "\<not> clock k - startTime < PAYMENT_TIMEOUT_MS"
    using assms(1) [rule_format, of k] by (simp add: PAYMENT_TIMEOUT_MS_def POLL_INTERVAL_MS_def)
  then show ?case by (simp add: pay_loop.simps [of _ clock startTime k])
next
  case (Suc n)
  then have "n = 100 - Suc k" "paid' k = paid k" using assms(2) by simp_all
  with Suc.hyps(1) [of "Suc k"] show ?case
    by (simp add: pay_loop.simps [of _ clock startTime k] split: option.split)
qed

lemma pay_loop_paid:
  assumes "\<forall>j \<le> n. clock (k + j) - startTime < PAYMENT_TIMEOUT_MS" "\<forall>j < n. paid (k + j) = Some False"
    "paid (k + n) = Some True"
  shows "pay_loop paid clock startTime k = Some (Inr (True, k + n))"
  using assms
proof (induction n arbitrary: k)
  case 0
  then show ?case by (subst pay_loop.simps) simp
next
  case (Suc n)
  have "\<forall>j \<le> n. clock (Suc k + j) - startTime < PAYMENT_TIMEOUT_MS"
    "\<forall>j < n. paid (Suc k + j) = Some False" "paid (Suc k + n) = Some True"
    using Suc.prems by (auto dest: spec [of _ "Suc _"])
  from Suc.IH [OF this] Suc.prems(1) [rule_format, of 0] Suc.prems(2) [rule_format, of 0]
  show ?case by (subst pay_loop.simps) simp
qed

section \<open>Properties\<close>

text \<open>
  C21. Paying ends: when the clock moves on by the polling interval of three seconds or more from each test
  of the time to the next, \<open>createPaymentToken\<close> returns whatever the mint answers, failures included, and
  its result is fixed by the answers to the first hundred questions: a mint that would answer later
  ones differently makes no difference.
\<close>

theorem createPaymentToken_returns:
  assumes "\<forall>j. clock 0 + 3000 * int j \<le> clock (Suc j)"
  shows "createPaymentToken C clock mintUrl amount \<noteq> None \<and>
    (\<forall>paid'. (\<forall>j < 100. paid' j = mw_paid (cl_wallet C mintUrl) j) \<longrightarrow>
       createPaymentToken (C\<lparr>cl_wallet := (cl_wallet C)(mintUrl := (cl_wallet C mintUrl)\<lparr>mw_paid := paid'\<rparr>)\<rparr>) clock mintUrl amount =
         createPaymentToken C clock mintUrl amount)"
proof (intro conjI allI impI)
  have clock: "\<forall>j. clock 0 + POLL_INTERVAL_MS * int j \<le> clock (Suc j)" using assms by (simp add: POLL_INTERVAL_MS_def)
  obtain r where "pay_loop (mw_paid (cl_wallet C mintUrl)) (\<lambda>k. clock (Suc k)) (clock 0) 0 = Some r"
    using pay_loop_returns [of "clock 0" "\<lambda>k. clock (Suc k)" 0 "mw_paid (cl_wallet C mintUrl)"] clock by blast
  then show "createPaymentToken C clock mintUrl amount \<noteq> None"
    by (auto simp: createPaymentToken_def Let_def split: option.split)
  fix paid'
  assume "\<forall>j < 100. paid' j = mw_paid (cl_wallet C mintUrl) j"
  note same = pay_loop_asks [OF clock this]
  let ?w = "cl_wallet C mintUrl"
  let ?C = "C\<lparr>cl_wallet := (cl_wallet C)(mintUrl := ?w\<lparr>mw_paid := paid'\<rparr>)\<rparr>"
  have C: "cl_wallet ?C mintUrl = ?w\<lparr>mw_paid := paid'\<rparr>" "cl_encode ?C = cl_encode C"
    and w: "mw_load (?w\<lparr>mw_paid := paid'\<rparr>) = mw_load ?w" "mw_createQuote (?w\<lparr>mw_paid := paid'\<rparr>) = mw_createQuote ?w"
      "mw_mintProofs (?w\<lparr>mw_paid := paid'\<rparr>) = mw_mintProofs ?w" "mw_send (?w\<lparr>mw_paid := paid'\<rparr>) = mw_send ?w"
      "mw_paid (?w\<lparr>mw_paid := paid'\<rparr>) = paid'" by simp_all
  show "createPaymentToken ?C clock mintUrl amount = createPaymentToken C clock mintUrl amount"
    unfolding createPaymentToken_def Let_def C w same by (rule refl)
qed

definition example_wallet :: mint_wallet where
  "example_wallet = \<lparr>mw_load = Some (), mw_p2pk = Some True,
     mw_createQuote = (\<lambda>a. Some \<lparr>mq_request = ''lnbc'', mq_quote = ''q''\<rparr>), mw_paid = (\<lambda>k. Some (k = 2)),
     mw_mintProofs = (\<lambda>a q. Some [\<lparr>pf_amount = a, pf_secret = ''s''\<rparr>]), mw_send = (\<lambda>a ps v. Some ps),
     mw_receive = (\<lambda>t k. None)\<rparr>"

definition example_cashu :: cashu_lib where
  "example_cashu = \<lparr>cl_wallet = (\<lambda>_. example_wallet), cl_encode = (\<lambda>m ps. ''cashuB''),
     cl_decode = (\<lambda>t. Some (Some ''https://mint'', [\<lparr>pf_amount = 5, pf_secret = ''s''\<rparr>])),
     cl_parseP2PK = (\<lambda>s. Some (''02ef'', Some [[''locktime'', show_int 100], [''refund'', nostrToCompressed ''ab'']]))\<rparr>"

theorem createPaymentToken_returns_witness:
  "createPaymentToken example_cashu (\<lambda>k. 3000 * int k) ''https://mint'' 5 \<noteq> None"
proof -
  have "\<forall>j. 3000 * int 0 + 3000 * int j \<le> 3000 * int (Suc j)" by simp
  from conjunct1 [OF createPaymentToken_returns [OF this]] show ?thesis .
qed

text \<open>
  A payment seen in time gives the token: when the mint says paid at question \<open>k\<close>, before the time
  limit, the proofs minted for the quote are sent and encoded.
\<close>

theorem createPaymentToken_paid:
  assumes "mw_load (cl_wallet C mintUrl) \<noteq> None" "mw_createQuote (cl_wallet C mintUrl) amount = Some q"
    and "\<forall>j \<le> k. clock (Suc j) - clock 0 < PAYMENT_TIMEOUT_MS"
    and "\<forall>j < k. mw_paid (cl_wallet C mintUrl) j = Some False" "mw_paid (cl_wallet C mintUrl) k = Some True"
    and "mw_mintProofs (cl_wallet C mintUrl) amount (mq_quote q) = Some ps"
    and "mw_send (cl_wallet C mintUrl) amount ps None = Some send"
  shows "createPaymentToken C clock mintUrl amount = Some (Inr (cl_encode C mintUrl send))"
proof -
  have "pay_loop (mw_paid (cl_wallet C mintUrl)) (\<lambda>k. clock (Suc k)) (clock 0) 0 = Some (Inr (True, 0 + k))"
    using assms by (intro pay_loop_paid) auto
  with assms show ?thesis by (auto simp: createPaymentToken_def Let_def)
qed

theorem createPaymentToken_paid_witness:
  "createPaymentToken example_cashu (\<lambda>k. 3000 * int k) ''https://mint'' 5 = Some (Inr ''cashuB'')"
proof -
  have w: "cl_wallet example_cashu ''https://mint'' = example_wallet" by (simp add: example_cashu_def)
  have "createPaymentToken example_cashu (\<lambda>k. 3000 * int k) ''https://mint'' 5 =
      Some (Inr (cl_encode example_cashu ''https://mint'' [\<lparr>pf_amount = 5, pf_secret = ''s''\<rparr>]))"
    by (rule createPaymentToken_paid [where k = 2 and q = "\<lparr>mq_request = ''lnbc'', mq_quote = ''q''\<rparr>"])
      (auto simp: w example_wallet_def PAYMENT_TIMEOUT_MS_def)
  then show ?thesis by (simp add: example_cashu_def)
qed

text \<open>
  A locked token can be lost to the clock: when the mint says paid at question \<open>k\<close>, tested in time,
  but the next reading of the clock is past the limit, \<open>createP2pkTokenWithRefund\<close> reports a time-out
  and mints nothing, although the invoice is paid.
\<close>

theorem createP2pkToken_paid_timeout:
  assumes "mintSupportsP2PK C (pt_mintUrl opts)"
    and "mw_createQuote (cl_wallet C (pt_mintUrl opts)) (pt_amountSats opts) = Some q"
    and "\<forall>j \<le> k. clock (Suc j) - clock 0 < PAYMENT_TIMEOUT_MS"
    and "\<forall>j < k. mw_paid (cl_wallet C (pt_mintUrl opts)) j = Some False"
    and "mw_paid (cl_wallet C (pt_mintUrl opts)) k = Some True"
    and "clock (k + 2) - clock 0 \<ge> PAYMENT_TIMEOUT_MS"
  shows "createP2pkTokenWithRefund C clock late opts = Some (Inl payment_timeout)"
proof -
  have "pay_loop (mw_paid (cl_wallet C (pt_mintUrl opts))) (\<lambda>k. clock (Suc k)) (clock 0) 0 = Some (Inr (True, 0 + k))"
    using assms by (intro pay_loop_paid) auto
  with assms show ?thesis by (auto simp: createP2pkTokenWithRefund_def mintSupportsP2PK_def Let_def split: option.split)
qed

definition example_payment :: P2PKTokenOptions where
  "example_payment = \<lparr>pt_zonePubkeyHex = ''ef'', pt_userPubkeyHex = ''ab'', pt_refundAfterDays = 7,
     pt_amountSats = 5, pt_mintUrl = ''https://mint''\<rparr>"

theorem createP2pkToken_paid_timeout_witness:
  "createP2pkTokenWithRefund example_cashu (\<lambda>k. if k < 4 then int k else 300000) 0 example_payment =
     Some (Inl payment_timeout)"
  by (rule createP2pkToken_paid_timeout [where k = 2 and q = "\<lparr>mq_request = ''lnbc'', mq_quote = ''q''\<rparr>"])
    (auto simp: mintSupportsP2PK_def example_cashu_def example_payment_def example_wallet_def
      PAYMENT_TIMEOUT_MS_def)

text \<open>
  A token locked the way the tool locks it, with one lock time and the user's key as refund key, is
  found refundable to that user, and eligible exactly from the second of the lock time on.
\<close>

theorem checkRefundEligibility_own_token:
  assumes "cl_decode C token = Some (mint, p # ps)" "user \<noteq> []"
    and "cl_parseP2PK C (pf_secret p) =
      Some (lockKey, Some [[''locktime'', show_int l], [''refund'', nostrToCompressed user]])"
  shows "checkRefundEligibility C nowMs token (Some user) =
    \<lparr>rc_isP2PK = True, rc_eligible = (l \<le> nowMs div 1000), rc_userIsRefundKey = True,
     rc_refundDate = Some (l * 1000), rc_locktime = Some l, rc_lockPubkey = Some lockKey,
     rc_refundPubkeys = [nostrToCompressed user], rc_mint = mint\<rparr>"
  using assms
  by (simp add: checkRefundEligibility_def proof_refund_def extractLocktime_def extractRefundKeys_def
      nostrToCompressed_def Let_def)

theorem checkRefundEligibility_own_token_witness:
  "rc_eligible (checkRefundEligibility example_cashu 100999 ''cashuB'' (Some ''ab'')) \<and>
   \<not> rc_eligible (checkRefundEligibility example_cashu 99999 ''cashuB'' (Some ''ab''))"
proof -
  have d: "cl_decode example_cashu ''cashuB'' = Some (Some ''https://mint'', \<lparr>pf_amount = 5, pf_secret = ''s''\<rparr> # [])"
    by (simp add: example_cashu_def)
  have k: "cl_parseP2PK example_cashu (pf_secret \<lparr>pf_amount = 5, pf_secret = ''s''\<rparr>) =
      Some (''02ef'', Some [[''locktime'', show_int 100], [''refund'', nostrToCompressed ''ab'']])"
    by (simp add: example_cashu_def)
  show ?thesis
    using checkRefundEligibility_own_token [OF d _ k, of 100999] checkRefundEligibility_own_token [OF d _ k, of 99999]
    by simp
qed

end
