(* ===== verification/Cli_Commands.thy ===== *)
theory Cli_Commands
  imports Cli_Payment Sdk_Notary Sdk_Validation
begin

text \<open>
  The commands that publish and pay: \<open>nodns-cli/src/commands/add.ts\<close>, \<open>delete.ts\<close>, \<open>refund.ts\<close>, \<open>burn.ts\<close>
  and \<open>key.ts\<close>. A command's run is the lines it writes, the events it hands to relays and how it ends.
  The three second pauses before an unverified zone change nothing else and are left out. The texts of
  dates and of values printed from a notary's answer are parameters (\<open>toISOString\<close>, \<open>String\<close>).
\<close>

section \<open>Runs\<close>

datatype ending = Finished | Exited int | Uncaught_error js_error | No_return

record cmd_run =
  rn_lines :: "console list"
  rn_published :: "(string \<times> NostrEvent) list"
  rn_end :: ending

definition stop :: "ending \<Rightarrow> cmd_run" where
  "stop e = \<lparr>rn_lines = [], rn_published = [], rn_end = e\<rparr>"

definition says :: "console list \<Rightarrow> cmd_run \<Rightarrow> cmd_run" where
  "says ls r = r\<lparr>rn_lines := ls @ rn_lines r\<rparr>"

definition sends :: "(string \<times> NostrEvent) list \<Rightarrow> cmd_run \<Rightarrow> cmd_run" where
  "sends evs r = r\<lparr>rn_published := evs @ rn_published r\<rparr>"

lemma run_simps [simp]:
  "rn_published (stop e) = []" "rn_lines (stop e) = []" "rn_end (stop e) = e"
  "rn_published (says ls r) = rn_published r" "rn_lines (says ls r) = ls @ rn_lines r" "rn_end (says ls r) = rn_end r"
  "rn_published (sends evs r) = evs @ rn_published r" "rn_lines (sends evs r) = rn_lines r"
  "rn_end (sends evs r) = rn_end r"
  by (simp_all add: stop_def says_def sends_def)

record cli_env =
  ce_lib :: nostr_lib
  ce_signer :: signer
  ce_publish :: "string \<Rightarrow> NostrEvent \<Rightarrow> relay_call"
  ce_query :: relay_query
  ce_doh :: doh
  ce_cashu :: cashu_lib
  ce_nowMs :: int
  ce_clock :: "nat \<Rightarrow> int"
  ce_late :: int
  ce_iso :: "int \<Rightarrow> string"

record GlobalOpts =
  go_relay :: "string option"
  go_zone :: "string option"
  go_sec :: "string option"
  go_skipZoneCheck :: "bool option"

definition quote1 :: "string \<Rightarrow> string" where
  "quote1 s = [CHR 0x27] @ s @ [CHR 0x27]"

definition npub_preview :: "string \<Rightarrow> string" where
  "npub_preview npub = (if npub \<noteq> [] then slice_to 16 npub @ ''...'' else ''(unknown)'')"

definition continuing :: "bool \<Rightarrow> console list" where
  "continuing force = (if force then [] else [Err ''  Continuing in 3s... (Ctrl+C to abort)''])"

definition no_key_line :: console where
  "no_key_line = Err ''Error: no secret key provided. Use --sec, NODNS_SECRET_KEY, or config file''"

definition pow_line :: console where
  "pow_line = Err ''Error: --pow must be a non-negative integer''"

text \<open>The call of \<open>signAndPublish\<close> at the end of a command, and the line after it.\<close>

definition publish_run :: "cli_env \<Rightarrow> bytes \<Rightarrow> string list \<Rightarrow> tag list \<Rightarrow> bool \<Rightarrow> int \<Rightarrow> console \<Rightarrow> cmd_run" where
  "publish_run E sk relays tags dryRun pow lastLine =
     (let (lines, res, sent) = signAndPublish (ce_signer E) (ce_publish E) (ce_nowMs E) sk relays tags [] dryRun pow
      in says lines (sends sent (case res of
           Inl e \<Rightarrow> stop (Uncaught_error e)
         | Inr _ \<Rightarrow> if dryRun then stop Finished else says [lastLine] (stop Finished))))"

section \<open>add\<close>

record add_opts =
  ad_type :: string
  ad_data :: string
  ad_name :: "string option"
  ad_ttl :: string
  ad_dryRun :: "bool option"
  ad_force :: "bool option"
  ad_refundDays :: string
  ad_pow :: string

text \<open>\<open>runZoneGate\<close>: the lines written, and the zone's description, \<^const>\<open>None\<close> when the process exits.\<close>

definition runZoneGate ::
  "cli_env \<Rightarrow> string \<Rightarrow> string list \<Rightarrow> bool \<Rightarrow> bool \<Rightarrow> console list \<times> CliZoneInfo option" where
  "runZoneGate E zone relays skip force =
     (case cli_checkZone (ce_query E) (ce_doh E) zone relays skip of
        CliNotOptedIn \<Rightarrow>
          ([Err (cross_mark @ '' Zone '' @ quote1 zone @ '' has NOT opted in.''),
            Err (''  No _nodns.'' @ zone @ '' TXT record found. DNS records will not resolve.''),
            Err (''  Publish a TXT record at _nodns.'' @ zone @ '' with: v=2;npub=YOUR_HEX_PUBKEY'')], None)
      | CliUnverified info \<Rightarrow>
          ([Err (warn_mark @ '' Zone '' @ quote1 zone @ '' TXT record found but verification failed.''),
            Err (''  TXT npub: '' @ cz_npub info)] @ continuing force, Some info)
      | CliTestnet info \<Rightarrow>
          ([Err (warn_mark @ '' Zone '' @ quote1 zone @ '' is on TESTNET.''),
            Err ''  Records may be temporary. This zone is for testing only.''] @ continuing force, Some info)
      | CliVerified info \<Rightarrow>
          ([Err (check_mark @ '' Zone '' @ quote1 zone @ '' verified (npub: '' @ npub_preview (cz_npub info) @ '')'')],
           Some info))"

definition needs_payment :: "CliZoneInfo \<Rightarrow> string \<Rightarrow> bool" where
  "needs_payment zoneInfo name \<longleftrightarrow>
     (let isNpubName = (name = [])
      in \<not> (cz_npubNamesFree zoneInfo \<and> isNpubName) \<and> cz_pricing zoneInfo \<noteq> None \<and>
         cp_createPrice (the (cz_pricing zoneInfo)) > 0)"

definition add_payment ::
  "cli_env \<Rightarrow> CliZoneInfo \<Rightarrow> Keypair \<Rightarrow> int \<Rightarrow> console list \<times> (js_error + tag) option" where
  "add_payment E zoneInfo kp refundDays =
     (let mintUrl = nullish (cz_mintUrl zoneInfo) DEFAULT_MINT_URL;
          price = cp_createPrice (the (cz_pricing zoneInfo));
          start = [Err ([newline] @ ''Custom name requires '' @ show_int price @ '' sats payment via Cashu.''),
            Err (''Creating P2PK-locked token with '' @ show_int refundDays @ ''-day refund condition.''),
            Err (''Zone owner must claim within '' @ show_int refundDays @ '' days to confirm registration.'')]
      in case createP2pkTokenWithRefund (ce_cashu E) (ce_clock E) (ce_late E)
             \<lparr>pt_zonePubkeyHex = cz_npub zoneInfo, pt_userPubkeyHex = kp_pubkey kp,
              pt_refundAfterDays = refundDays, pt_amountSats = price, pt_mintUrl = mintUrl\<rparr> of
           None \<Rightarrow> (start, None)
         | Some (Inl e) \<Rightarrow> (start, Some (Inl e))
         | Some (Inr r) \<Rightarrow>
             (start @ [if pr_p2pk r
                then Err (check_mark @ '' P2PK token created. Refund eligible after: '' @ ce_iso E (pr_refundDate r))
                else Err (check_mark @ '' Token created (unlocked '' @ em_dash @ '' mint lacks P2PK support).''),
               Err []],
              Some (Inr (buildCashuTag (pr_token r) mintUrl price))))"

definition add_finish ::
  "cli_env \<Rightarrow> CliZoneInfo option \<Rightarrow> Keypair \<Rightarrow> string \<Rightarrow> string \<Rightarrow> string list \<Rightarrow> tag \<Rightarrow> bool \<Rightarrow> int \<Rightarrow> int \<Rightarrow> cmd_run"
  where
  "add_finish E zoneInfo kp zone name relays recordTag dryRun refundDays powDifficulty =
     (let publish = (\<lambda>tags. publish_run E (kp_secretKey kp) relays tags dryRun powDifficulty
            (Err ([newline] @ ''Record live at '' @ kp_npub kp @ ''.'' @ zone)))
      in case zoneInfo of
           Some info \<Rightarrow>
             if \<not> dryRun \<and> needs_payment info name then
               let (lines, paid) = add_payment E info kp refundDays
               in says lines (case paid of
                    None \<Rightarrow> stop No_return
                  | Some (Inl e) \<Rightarrow> stop (Uncaught_error e)
                  | Some (Inr cashuTag) \<Rightarrow> publish [recordTag, cashuTag])
             else publish [recordTag]
         | None \<Rightarrow> publish [recordTag])"

definition addCommand :: "cli_env \<Rightarrow> GlobalOpts \<Rightarrow> add_opts \<Rightarrow> cmd_run" where
  "addCommand E o' opts =
     (let relays = publishRelays (go_relay o'); zone = nullish (go_zone o') ''nodns.shop'';
          sec = go_sec o'; skipZoneCheck = nullish (go_skipZoneCheck o') False;
          recordType = toUpperCase (ad_type opts); name = nullish (ad_name opts) [];
          data = ad_data opts; ttl = parseInt_or (ad_ttl opts) 3600;
          dryRun = nullish (ad_dryRun opts) False; force = nullish (ad_force opts) False;
          refundDays = parseInt_or (ad_refundDays opts) 7
      in case parseInt (ad_pow opts) of
           None \<Rightarrow> says [pow_line] (stop (Exited 1))
         | Some powDifficulty \<Rightarrow>
             if powDifficulty < 0 then says [pow_line] (stop (Exited 1))
             else (case validateRecord recordType name data of
               Some validationError \<Rightarrow> says [Err (''Error: '' @ validationError)] (stop (Exited 1))
             | None \<Rightarrow>
                 if \<not> truthy sec then says [no_key_line] (stop (Exited 1))
                 else (case decodeSec (ce_lib E) (the sec) of
                   Inl e \<Rightarrow> stop (Uncaught_error e)
                 | Inr kp \<Rightarrow>
                     let recordTag = buildRecordTag recordType name data ttl
                     in if \<not> dryRun \<and> \<not> skipZoneCheck then
                          let (lines, info) = runZoneGate E zone relays False force
                          in says lines (case info of
                               None \<Rightarrow> stop (Exited 1)
                             | Some zoneInfo \<Rightarrow>
                                 add_finish E (Some zoneInfo) kp zone name relays recordTag dryRun refundDays powDifficulty)
                        else add_finish E None kp zone name relays recordTag dryRun refundDays powDifficulty)))"

section \<open>delete\<close>

record delete_opts =
  dl_type :: string
  dl_name :: "string option"
  dl_dryRun :: "bool option"
  dl_force :: "bool option"
  dl_pow :: string

definition delete_gate :: "cli_env \<Rightarrow> string \<Rightarrow> string list \<Rightarrow> bool \<Rightarrow> console list \<times> bool" where
  "delete_gate E zone relays force =
     (case cli_checkZone (ce_query E) (ce_doh E) zone relays False of
        CliNotOptedIn \<Rightarrow>
          ([Err (cross_mark @ '' Zone '' @ quote1 zone @ '' has NOT opted in.''),
            Err (''  No _nodns.'' @ zone @ '' TXT record found.'')], False)
      | CliUnverified info \<Rightarrow>
          (Err (warn_mark @ '' Zone '' @ quote1 zone @ '' TXT found but verification failed.'') # continuing force, True)
      | CliTestnet info \<Rightarrow>
          ([Err (warn_mark @ '' Zone '' @ quote1 zone @ '' is on TESTNET.''),
            Err ''  Records may be temporary.''] @ continuing force, True)
      | CliVerified info \<Rightarrow>
          ([Err (check_mark @ '' Zone '' @ quote1 zone @ '' verified (npub: '' @ npub_preview (cz_npub info) @ '')'')],
           True))"

definition delete_finish :: "cli_env \<Rightarrow> string option \<Rightarrow> string \<Rightarrow> string \<Rightarrow> string list \<Rightarrow> tag \<Rightarrow> bool \<Rightarrow> int \<Rightarrow> cmd_run" where
  "delete_finish E sec zone name relays deleteTag dryRun powDifficulty =
     (if \<not> truthy sec then says [no_key_line] (stop (Exited 1))
      else case decodeSec (ce_lib E) (the sec) of
          Inl e \<Rightarrow> stop (Uncaught_error e)
        | Inr kp \<Rightarrow>
            publish_run E (kp_secretKey kp) relays [deleteTag] dryRun powDifficulty
              (Err ([newline] @ ''Delete published for '' @ (if name \<noteq> [] then name else ''npub-derived'') @ ''.'' @ zone)))"

definition deleteCommand :: "cli_env \<Rightarrow> GlobalOpts \<Rightarrow> delete_opts \<Rightarrow> cmd_run" where
  "deleteCommand E o' opts =
     (let relays = publishRelays (go_relay o'); zone = nullish (go_zone o') ''nodns.shop'';
          sec = go_sec o'; skipZoneCheck = nullish (go_skipZoneCheck o') False;
          recordType = toUpperCase (dl_type opts); name = nullish (dl_name opts) [];
          dryRun = nullish (dl_dryRun opts) False; force = nullish (dl_force opts) False
      in case parseInt (dl_pow opts) of
           None \<Rightarrow> says [pow_line] (stop (Exited 1))
         | Some powDifficulty \<Rightarrow>
             if powDifficulty < 0 then says [pow_line] (stop (Exited 1))
             else
               let finish = delete_finish E sec zone name relays (buildDeleteTag recordType name) dryRun powDifficulty
               in if \<not> dryRun \<and> \<not> skipZoneCheck then
                    let (lines, go) = delete_gate E zone relays force
                    in says lines (if go then finish else stop (Exited 1))
                  else finish)"

section \<open>refund\<close>



definition refund_details :: "cli_env \<Rightarrow> string option \<Rightarrow> RefundCheckResult \<Rightarrow> console list" where
  "refund_details E userPubkeyHex result =
     [Err ''P2PK Lock Details:'',
      Err (''  Locked to:    '' @ nullish (rc_lockPubkey result) ''(unknown)''),
      Err (''  Refund keys:  '' @ or_else (Some (join '', '' (rc_refundPubkeys result))) ''(none)''),
      (case rc_locktime result of
         Some l \<Rightarrow> Err (''  Locktime:     '' @
           (case rc_refundDate result of Some d \<Rightarrow> ce_iso E d | None \<Rightarrow> show_int l))
       | None \<Rightarrow> Err (''  Locktime:     (permanent '' @ em_dash @ '' no refund path)''))] @
     (if truthy userPubkeyHex
      then [Err (''  Your key:     '' @ (if rc_userIsRefundKey result then check_mark @ '' matches refund key''
             else cross_mark @ '' does NOT match refund key''))]
      else [])"


section \<open>burn\<close>

definition proof_lines :: "(json option \<Rightarrow> string) \<Rightarrow> (json option \<Rightarrow> string) \<Rightarrow> json \<Rightarrow> console list" where
  "proof_lines str thousandth pf =
     [Out ([newline] @ check_mark @ '' Burn confirmed!''),
      Out (''  TXID: '' @ str (json_get pf ''txid'')),
      Out (''  Block: '' @ str (json_get pf ''block_height'')),
      Out (''  Amount: '' @ thousandth (json_get pf ''leaf_value'') @ '' sats''),
      Out (''  Event: '' @ str (json_get pf ''event_id'')),
      Out ([newline] @ ''The notary will publish a kind 30021 proof to Nostr relays.''),
      Out ''The bot will verify and accept it automatically.'']"

text \<open>\<open>Math.floor(timeoutSec / 3)\<close> attempts; a time-out that is no number makes none.\<close>

definition burn_attempts :: "string \<Rightarrow> int" where
  "burn_attempts timeout = (case parseInt timeout of Some t \<Rightarrow> t div 3 | None \<Rightarrow> 0)"

definition burnCommand ::
  "(http_request \<Rightarrow> (string \<times> json fetch_outcome)) \<Rightarrow> (http_request \<Rightarrow> nat \<Rightarrow> json fetch_outcome) \<Rightarrow> bytes \<Rightarrow>
     (json option \<Rightarrow> string) \<Rightarrow> (json option \<Rightarrow> string) \<Rightarrow> (js_error \<Rightarrow> string) \<Rightarrow>
     string \<Rightarrow> string \<Rightarrow> string \<Rightarrow> string \<Rightarrow> cmd_run" where
  "burnCommand net pollNet random str thousandth show_error eventId sats notaryUrl timeout =
     (case parseInt sats of
        None \<Rightarrow> says [Err ''Invalid sats amount''] (stop (Exited 1))
      | Some valueSats \<Rightarrow>
          if valueSats \<le> 0 then says [Err ''Invalid sats amount''] (stop (Exited 1))
          else says [Out (''Creating burn request: '' @ show_int valueSats @ '' sats for event '' @ slice_to 16 eventId @ ''...''),
              Out (''Notary: '' @ notaryUrl)]
            (case createBurnRequest net \<lparr>np_event_id = eventId, np_value_sats = valueSats, np_nonce = None\<rparr> notaryUrl random of
               Inl e \<Rightarrow> says [Err (''Failed to create burn request: '' @ show_error e)] (stop (Exited 1))
             | Inr invoice \<Rightarrow>
                 if invoice = JNull then says [Out ([newline] @ ''Lightning invoice:'')] (stop (Uncaught_error LibError))
                 else says [Out ([newline] @ ''Lightning invoice:''), Out (str (json_get invoice ''invoice'')),
                     Out ([newline] @ ''Pay this invoice to fund the burn. Waiting for payment...'')]
                   (case fst (pollForProof pollNet invoice notaryUrl (burn_attempts timeout)) of
                      Inr pf \<Rightarrow> says (proof_lines str thousandth pf) (stop Finished)
                    | Inl e \<Rightarrow> says [Err ([newline] @ cross_mark @ '' '' @ show_error e)] (stop (Exited 1)))))"

section \<open>key\<close>

definition generateCommand :: "nostr_lib \<Rightarrow> bytes \<Rightarrow> cmd_run" where
  "generateCommand L random =
     (case generateKeypair L random of
        Inl e \<Rightarrow> stop (Uncaught_error e)
      | Inr kp \<Rightarrow> says [Out (''nsec: '' @ kp_nsec kp), Out (''npub: '' @ kp_npub kp),
          Err ([newline] @ ''Save the nsec to your config or use --sec=nsec1...'')] (stop Finished))"

definition deriveCommand :: "nostr_lib \<Rightarrow> string \<Rightarrow> cmd_run" where
  "deriveCommand L key =
     (case decodeSec L key of
        Inl _ \<Rightarrow> says [Err ''Error: invalid secret key. Provide an nsec1... or 64-char hex key.''] (stop (Exited 1))
      | Inr kp \<Rightarrow> says [Out (kp_npub kp)] (stop Finished))"

section \<open>Lemmas\<close>

fun outcome_info :: "CliZoneCheckOutcome \<Rightarrow> CliZoneInfo option" where
  "outcome_info (CliVerified i) = Some i"
| "outcome_info (CliTestnet i) = Some i"
| "outcome_info (CliUnverified i) = Some i"
| "outcome_info CliNotOptedIn = None"

lemma runZoneGate_info: "snd (runZoneGate E zone relays skip force) =
    outcome_info (cli_checkZone (ce_query E) (ce_doh E) zone relays skip)"
  by (simp add: runZoneGate_def split: CliZoneCheckOutcome.split)

lemma sent_relays:
  assumes "(url, ev) \<in> set (snd (snd (signAndPublish S publish now sk relays tags content dry pow)))"
  shows "url \<in> set relays \<and> \<not> dry"
  using assms
  by (auto simp: signAndPublish_def Let_def split: prod.splits sum.splits option.splits if_splits)

lemma publish_run_sent:
  "rn_published (publish_run E sk relays tags dry pow l) =
     snd (snd (signAndPublish (ce_signer E) (ce_publish E) (ce_nowMs E) sk relays tags [] dry pow))"
  by (simp add: publish_run_def split: sum.split prod.split)

text \<open>What a publication with a promising signer sends: to the relays given, unless it is a dry run, with the
  tags given and at most the one that mining adds.\<close>

definition sent_with :: "tag list \<Rightarrow> NostrEvent \<Rightarrow> bool" where
  "sent_with tags ev \<longleftrightarrow> set tags \<subseteq> set (ev_tags ev) \<and> (\<forall>tag \<in> set (ev_tags ev). tag \<in> set tags \<or> tag_is ''nonce'' tag)"

lemma publish_run_published:
  assumes "signer_ok (ce_signer E) h" "keeps_tags (ce_signer E)" "adds_nonce (ce_signer E)"
    and "(url, ev) \<in> set (rn_published (publish_run E sk relays tags dry pow l))"
  shows "url \<in> set relays \<and> \<not> dry \<and> sent_with tags ev"
proof -
  have sent: "(url, ev) \<in> set (snd (snd (signAndPublish (ce_signer E) (ce_publish E) (ce_nowMs E) sk relays tags [] dry pow)))"
    using assms(4) by (simp only: publish_run_sent)
  show ?thesis
    using sent_relays [OF sent] handed_tags [OF assms(1) sent] assms(2,3) unfolding sent_with_def by blast
qed

text \<open>The tags that pay for a name.\<close>

definition paying_tags :: "cli_env \<Rightarrow> CliZoneInfo option \<Rightarrow> Keypair \<Rightarrow> string \<Rightarrow> int \<Rightarrow> tag list \<Rightarrow> bool" where
  "paying_tags E zoneInfo kp name days paid \<longleftrightarrow>
     (case zoneInfo of
        None \<Rightarrow> paid = []
      | Some info \<Rightarrow>
          if needs_payment info name then \<exists>cashu. snd (add_payment E info kp days) = Some (Inr cashu) \<and> paid = [cashu]
          else paid = [])"

lemma add_finish_published:
  assumes "signer_ok (ce_signer E) h" "keeps_tags (ce_signer E)" "adds_nonce (ce_signer E)"
    and sent: "(url, ev) \<in> set (rn_published (add_finish E zoneInfo kp zone name relays t dry days pow))"
  shows "url \<in> set relays \<and> \<not> dry \<and> (\<exists>paid. sent_with (t # paid) ev \<and> paying_tags E zoneInfo kp name days paid)"
proof -
  note run = publish_run_published [OF assms(1-3)]
  show ?thesis
  proof (cases zoneInfo)
    case None
    with sent show ?thesis by (auto simp: add_finish_def paying_tags_def dest!: run)
  next
    case (Some info)
    show ?thesis
    proof (cases "needs_payment info name")
      case False
      with sent Some show ?thesis by (auto simp: add_finish_def paying_tags_def dest!: run)
    next
      case True
      obtain lines p where p: "add_payment E info kp days = (lines, p)" by force
      with True sent Some show ?thesis
        by (auto simp: add_finish_def paying_tags_def dest!: run split: if_splits option.splits sum.splits)
    qed
  qed
qed

lemma add_payment_tag:
  assumes "snd (add_payment E info kp days) = Some (Inr cashu)"
  shows "\<exists>r. createP2pkTokenWithRefund (ce_cashu E) (ce_clock E) (ce_late E)
      \<lparr>pt_zonePubkeyHex = cz_npub info, pt_userPubkeyHex = kp_pubkey kp, pt_refundAfterDays = days,
       pt_amountSats = cp_createPrice (the (cz_pricing info)), pt_mintUrl = nullish (cz_mintUrl info) DEFAULT_MINT_URL\<rparr> =
        Some (Inr r) \<and>
    cashu = buildCashuTag (pr_token r) (nullish (cz_mintUrl info) DEFAULT_MINT_URL) (cp_createPrice (the (cz_pricing info)))"
  using assms by (auto simp: add_payment_def Let_def split: option.splits sum.splits)

lemma needs_payment_price:
  "needs_payment info name \<longleftrightarrow>
     (\<exists>p. cz_pricing info = Some p \<and> 0 < cp_createPrice p) \<and> \<not> (cz_npubNamesFree info \<and> name = [])"
  by (auto simp: needs_payment_def)

text \<open>The guards \<open>add\<close> passes before it publishes.\<close>

lemma addCommand_passes:
  assumes "(url, ev) \<in> set (rn_published (addCommand E g opts))"
  obtains pow kp zoneInfo where
    "validateRecord (toUpperCase (ad_type opts)) (nullish (ad_name opts) []) (ad_data opts) = None"
    "truthy (go_sec g)" "decodeSec (ce_lib E) (the (go_sec g)) = Inr kp"
    "zoneInfo = (if nullish (ad_dryRun opts) False \<or> nullish (go_skipZoneCheck g) False then None
       else outcome_info (cli_checkZone (ce_query E) (ce_doh E) (nullish (go_zone g) ''nodns.shop'')
         (publishRelays (go_relay g)) False))"
    "nullish (ad_dryRun opts) False \<or> nullish (go_skipZoneCheck g) False \<or> zoneInfo \<noteq> None"
    "(url, ev) \<in> set (rn_published (add_finish E zoneInfo kp (nullish (go_zone g) ''nodns.shop'')
       (nullish (ad_name opts) []) (publishRelays (go_relay g))
       (buildRecordTag (toUpperCase (ad_type opts)) (nullish (ad_name opts) []) (ad_data opts) (parseInt_or (ad_ttl opts) 3600))
       (nullish (ad_dryRun opts) False) (parseInt_or (ad_refundDays opts) 7) pow))"
proof -
  let ?gate = "runZoneGate E (nullish (go_zone g) ''nodns.shop'') (publishRelays (go_relay g)) False
      (nullish (ad_force opts) False)"
  obtain pow where pow: "parseInt (ad_pow opts) = Some pow" "\<not> pow < 0"
    using assms by (auto simp: addCommand_def Let_def split: option.splits if_splits)
  have v: "validateRecord (toUpperCase (ad_type opts)) (nullish (ad_name opts) []) (ad_data opts) = None"
    using assms pow by (auto simp: addCommand_def Let_def split: option.splits)
  have sec: "truthy (go_sec g)"
    using assms pow v by (auto simp: addCommand_def Let_def split: if_splits)
  obtain kp where kp: "decodeSec (ce_lib E) (the (go_sec g)) = Inr kp"
    using assms pow v sec by (cases "decodeSec (ce_lib E) (the (go_sec g))") (auto simp: addCommand_def Let_def)
  note facts = pow v sec kp
  show thesis
  proof (cases "nullish (ad_dryRun opts) False \<or> nullish (go_skipZoneCheck g) False")
    case True
    with assms facts show thesis by (intro that [OF v sec kp refl]) (auto simp: addCommand_def Let_def)
  next
    case False
    obtain lines where g: "?gate = (lines, snd ?gate)" by (metis prod.collapse)
    with assms facts False obtain info where info: "snd ?gate = Some info"
      by (cases "snd ?gate") (auto simp: addCommand_def Let_def split: prod.splits)
    with False have z: "Some info = (if nullish (ad_dryRun opts) False \<or> nullish (go_skipZoneCheck g) False then None
       else outcome_info (cli_checkZone (ce_query E) (ce_doh E) (nullish (go_zone g) ''nodns.shop'')
         (publishRelays (go_relay g)) False))" by (simp add: runZoneGate_info)
    show thesis
      using assms facts False g info by (intro that [OF v sec kp z]) (auto simp: addCommand_def Let_def split: prod.splits)
  qed
qed

text \<open>The details of a lock are all written to the error output.\<close>

lemma refund_details_err [simp]:
  "Out t \<notin> set (refund_details E key r)" "filter (\<lambda>l. \<exists>x. l = Out x) (refund_details E key r) = []"
  by (auto simp: refund_details_def split: option.split)

section \<open>Properties\<close>

text \<open>
  C6. What \<open>add\<close> hands to a relay, no dry run and to one of the chosen relays, carries the record tag of the
  given type, name, data and time to live, which has passed the validation. Unless the user skips the
  zone check, the zone has opted in, and where it asks a price for the name, the event carries the tag of
  a token made for that price, this zone and this user; where it asks none, or the check is skipped,
  there is no payment. Nothing else is in the event but the tag mining adds. The hypotheses are
  what the signing library promises about tags.
\<close>

theorem addCommand_published:
  assumes "signer_ok (ce_signer E) h" "keeps_tags (ce_signer E)" "adds_nonce (ce_signer E)"
    and "(url, ev) \<in> set (rn_published (addCommand E g opts))"
  shows "let relays = publishRelays (go_relay g); zone = nullish (go_zone g) ''nodns.shop'';
       type = toUpperCase (ad_type opts); name = nullish (ad_name opts) [];
       recordTag = buildRecordTag type name (ad_data opts) (parseInt_or (ad_ttl opts) 3600)
     in url \<in> set relays \<and> nullish (ad_dryRun opts) False = False \<and> validateRecord type name (ad_data opts) = None \<and>
       (\<exists>kp paid. decodeSec (ce_lib E) (the (go_sec g)) = Inr kp \<and>
         set (recordTag # paid) \<subseteq> set (ev_tags ev) \<and>
         (\<forall>tag \<in> set (ev_tags ev). tag \<in> set (recordTag # paid) \<or> tag_is ''nonce'' tag) \<and>
         (if nullish (go_skipZoneCheck g) False then paid = []
          else \<exists>info. outcome_info (cli_checkZone (ce_query E) (ce_doh E) zone relays False) = Some info \<and>
            (case cz_pricing info of
               Some p \<Rightarrow>
                 if 0 < cp_createPrice p \<and> \<not> (cz_npubNamesFree info \<and> name = [])
                 then \<exists>r. createP2pkTokenWithRefund (ce_cashu E) (ce_clock E) (ce_late E)
                     \<lparr>pt_zonePubkeyHex = cz_npub info, pt_userPubkeyHex = kp_pubkey kp,
                      pt_refundAfterDays = parseInt_or (ad_refundDays opts) 7, pt_amountSats = cp_createPrice p,
                      pt_mintUrl = nullish (cz_mintUrl info) DEFAULT_MINT_URL\<rparr> = Some (Inr r) \<and>
                   paid = [buildCashuTag (pr_token r) (nullish (cz_mintUrl info) DEFAULT_MINT_URL) (cp_createPrice p)]
                 else paid = []
             | None \<Rightarrow> paid = [])))"
proof -
  let ?tag = "buildRecordTag (toUpperCase (ad_type opts)) (nullish (ad_name opts) []) (ad_data opts) (parseInt_or (ad_ttl opts) 3600)"
  let ?days = "parseInt_or (ad_refundDays opts) 7"
  from addCommand_passes [OF assms(4)] obtain pow kp zoneInfo where
    v: "validateRecord (toUpperCase (ad_type opts)) (nullish (ad_name opts) []) (ad_data opts) = None"
    and kp: "decodeSec (ce_lib E) (the (go_sec g)) = Inr kp"
    and z: "zoneInfo = (if nullish (ad_dryRun opts) False \<or> nullish (go_skipZoneCheck g) False then None
       else outcome_info (cli_checkZone (ce_query E) (ce_doh E) (nullish (go_zone g) ''nodns.shop'')
         (publishRelays (go_relay g)) False))"
    and some: "nullish (ad_dryRun opts) False \<or> nullish (go_skipZoneCheck g) False \<or> zoneInfo \<noteq> None"
    and sent: "(url, ev) \<in> set (rn_published (add_finish E zoneInfo kp (nullish (go_zone g) ''nodns.shop'')
       (nullish (ad_name opts) []) (publishRelays (go_relay g)) ?tag (nullish (ad_dryRun opts) False) ?days pow))"
    by metis
  from add_finish_published [OF assms(1-3) sent] obtain paid where
    f: "url \<in> set (publishRelays (go_relay g))" "\<not> nullish (ad_dryRun opts) False" "sent_with (?tag # paid) ev"
    and p: "paying_tags E zoneInfo kp (nullish (ad_name opts) []) ?days paid" by blast
  have "if nullish (go_skipZoneCheck g) False then paid = []
      else \<exists>info. zoneInfo = Some info \<and>
        (if needs_payment info (nullish (ad_name opts) []) then \<exists>cashu. snd (add_payment E info kp ?days) = Some (Inr cashu) \<and> paid = [cashu]
         else paid = [])"
    using p z some f(2) by (auto simp: paying_tags_def split: option.splits)
  with v kp z f show ?thesis
    unfolding Let_def sent_with_def needs_payment_price
    by (auto 0 3 dest!: add_payment_tag split: if_splits option.split)
qed

text \<open>A zone whose handler event does not match its TXT record, one relay.\<close>

definition example_env :: cli_env where
  "example_env = \<lparr>ce_lib = example_lib, ce_signer = example_signer, ce_publish = (\<lambda>_ _. CallPromised None), ce_query = zone_query,
     ce_doh = zone_doh, ce_cashu = example_cashu, ce_nowMs = 7000, ce_clock = int, ce_late = 9, ce_iso = show_int\<rparr>"

definition example_global :: GlobalOpts where
  "example_global = \<lparr>go_relay = Some ''wss://r'', go_zone = None, go_sec = Some ''01'', go_skipZoneCheck = None\<rparr>"

definition example_add :: add_opts where
  "example_add = \<lparr>ad_type = ''txt'', ad_data = ''hi'', ad_name = None, ad_ttl = ''60'', ad_dryRun = None,
     ad_force = Some True, ad_refundDays = ''7'', ad_pow = ''0''\<rparr>"

lemma example_signer_tags: "keeps_tags example_signer" "adds_nonce example_signer"
  by (auto simp: keeps_tags_def adds_nonce_def example_signer_def split: if_splits)

theorem addCommand_published_witness:
  "\<exists>url ev. (url, ev) \<in> set (rn_published (addCommand example_env example_global example_add)) \<and>
     url \<in> set (publishRelays (go_relay example_global)) \<and> [''record'', ''TXT'', [], ''60'', ''hi''] \<in> set (ev_tags ev)"
proof -
  let ?r = "rn_published (addCommand example_env example_global example_add)"
  have "map fst ?r = [''wss://r'']" by code_simp
  then obtain ev where ev: "(''wss://r'', ev) \<in> set ?r" by (cases ?r) auto
  have s: "ce_signer example_env = example_signer" by (simp add: example_env_def)
  have t: "buildRecordTag (toUpperCase (ad_type example_add)) (nullish (ad_name example_add) []) (ad_data example_add)
      (parseInt_or (ad_ttl example_add) 3600) = [''record'', ''TXT'', [], ''60'', ''hi'']" by code_simp
  show ?thesis
    using addCommand_published [of example_env, unfolded s, OF example_signer_ok example_signer_tags ev] ev
    unfolding Let_def t by auto
qed

text \<open>
  The apex has two spellings that give the same name in the zone, the empty one and \<open>@\<close>; where
  names under the key are free and others cost, \<open>add\<close> charges for the second spelling only.
\<close>

theorem needs_payment_apex:
  assumes "cz_npubNamesFree info" "cz_pricing info = Some p" "0 < cp_createPrice p"
  shows "computeFqdn enc ''@'' pk zone = computeFqdn enc [] pk zone \<and>
    needs_payment info ''@'' \<and> \<not> needs_payment info []"
  using assms by (simp add: needs_payment_def computeFqdn_def isNpubDerivedName_def)

definition example_info :: CliZoneInfo where
  "example_info = \<lparr>cz_zone = ''z'', cz_npub = ''ab'', cz_testnet = False, cz_optedIn = True,
     cz_pricing = Some \<lparr>cp_createPrice = 5, cp_updatePrice = 0, cp_deletePrice = 0\<rparr>, cz_mintUrl = None,
     cz_npubNamesFree = True, cz_handlerEventFound = True, cz_verified = True\<rparr>"

theorem needs_payment_apex_witness:
  "needs_payment example_info ''@'' \<and> \<not> needs_payment example_info []"
  using needs_payment_apex [of example_info "\<lparr>cp_createPrice = 5, cp_updatePrice = 0, cp_deletePrice = 0\<rparr>"]
  by (simp add: example_info_def)




end
