(* ===== verification/Cli_Listing.thy ===== *)
theory Cli_Listing
  imports Cli_Commands
begin

text \<open>
  The commands that only read: \<open>nodns-cli/src/commands/list.ts\<close>, \<open>resolve.ts\<close>, \<open>zone-check.ts\<close> and
  \<open>zone-export.ts\<close>. \<open>JSON.stringify\<close> is a parameter. The texts of errors are given by \<open>show_error\<close>.
\<close>

section \<open>Records in tags\<close>

record CliDnsRecord =
  cd_type :: string
  cd_name :: string
  cd_ttl :: int
  cd_rdata :: string

definition cli_record_of_tag :: "tag \<Rightarrow> CliDnsRecord option" where
  "cli_record_of_tag tag =
     (case tag of
        t0 # t1 # t2 # t3 # t4 # _ \<Rightarrow>
          if t0 = ''record''
          then Some \<lparr>cd_type = t1, cd_name = t2, cd_ttl = parseInt_or t3 3600, cd_rdata = t4\<rparr>
          else None
      | _ \<Rightarrow> None)"

definition extractRecords :: "tag list \<Rightarrow> CliDnsRecord list" where
  "extractRecords tags = collect cli_record_of_tag tags"

section \<open>list\<close>

definition POB_QUERY_MAX_WAIT :: int where "POB_QUERY_MAX_WAIT = 10000"

definition resolvePubkeyHex :: "nostr_lib \<Rightarrow> string \<Rightarrow> js_error + string" where
  "resolvePubkeyHex L npubOrHex =
     (if startsWith npubOrHex ''npub1'' then
        (case nl_decode L npubOrHex of
           Some (DNpub hex) \<Rightarrow> Inr hex
         | Some _ \<Rightarrow> Inl (JsError ''Invalid npub'')
         | None \<Rightarrow> Inl LibError)
      else Inr npubOrHex)"

definition pob_step :: "(string, int) jsmap \<Rightarrow> NostrEvent \<Rightarrow> (string, int) jsmap" where
  "pob_step proofMap ev =
     (case (List.find (\<lambda>t. nth_opt t 0 = Some ''e'' \<and> length t \<ge> 2) (ev_tags ev),
            List.find (\<lambda>t. nth_opt t 0 = Some ''n'' \<and> length t \<ge> 5) (ev_tags ev)) of
        (Some eTag, Some nTag) \<Rightarrow>
          (case parseInt (nTag ! 4) of
             Some leafValue \<Rightarrow>
               if map_has proofMap (eTag ! 1) then proofMap else map_set (eTag ! 1) leafValue proofMap
           | None \<Rightarrow> proofMap)
      | _ \<Rightarrow> proofMap)"

definition pob_filter :: "string list \<Rightarrow> relay_filter" where
  "pob_filter eventIds = \<lparr>rf_kinds = [POB_PROOF_KIND], rf_authors = None, rf_limit = Some 100,
     rf_k = None, rf_e = Some eventIds\<rparr>"

definition fetchPobProofs ::
  "relay_query \<Rightarrow> string list \<Rightarrow> string list \<Rightarrow> js_error + (string, int) jsmap" where
  "fetchPobProofs query relays eventIds =
     (if eventIds = [] then Inr []
      else try_bind (lib_call (query relays (pob_filter eventIds) POB_QUERY_MAX_WAIT))
        (\<lambda>events. Inr (foldl pob_step [] events)))"

record RecordRow =
  ro_pow :: nat
  ro_pob :: "int option"
  ro_eventIdShort :: string
  ro_name :: string
  ro_type :: string
  ro_ttl :: int
  ro_rdata :: string

definition event_rows :: "(string, int) jsmap \<Rightarrow> NostrEvent \<Rightarrow> RecordRow list" where
  "event_rows pobProofs ev =
     map (\<lambda>r. \<lparr>ro_pow = countLeadingZeroBits (ev_id ev), ro_pob = map_get pobProofs (ev_id ev),
         ro_eventIdShort = slice_to 8 (ev_id ev), ro_name = (if cd_name r \<noteq> [] then cd_name r else ''@''),
         ro_type = cd_type r, ro_ttl = cd_ttl r, ro_rdata = cd_rdata r\<rparr>)
       (extractRecords (ev_tags ev))"

definition list_header :: string where
  "list_header = padStart 3 ''POW'' @ '' '' @ padStart 5 ''POB'' @ ''  '' @ padEnd 8 ''EVENT'' @ ''  '' @
     padEnd 20 ''NAME'' @ '' '' @ padEnd 6 ''TYPE'' @ '' '' @ padEnd 8 ''TTL'' @ '' DATA''"

definition row_line :: "RecordRow \<Rightarrow> string" where
  "row_line row = padStart 3 (show_nat (ro_pow row)) @ '' '' @
     padStart 5 (case ro_pob row of Some v \<Rightarrow> show_int v | None \<Rightarrow> ''-'') @ ''  '' @ ro_eventIdShort row @ ''  '' @
     padEnd 20 (ro_name row) @ '' '' @ padEnd 6 (ro_type row) @ '' '' @ padEnd 8 (show_int (ro_ttl row)) @ '' '' @
     ro_rdata row"

definition row_passes :: "RecordRow \<Rightarrow> bool" where
  "row_passes r \<longleftrightarrow> int (ro_pow r) \<ge> DEFAULT_POW_DIFFICULTY \<or> ro_pob r \<noteq> None"

record list_opts =
  lo_npub :: "string option"
  lo_pob :: bool

text \<open>The key whose records are listed: the line of the error and the exit otherwise.\<close>

definition list_pubkey ::
  "nostr_lib \<Rightarrow> string option \<Rightarrow> string option \<Rightarrow> cmd_run + string" where
  "list_pubkey L npub sec =
     (if truthy npub then
        (case resolvePubkeyHex L (the npub) of
           Inl _ \<Rightarrow> Inl (says [Err ''Error: invalid npub or hex pubkey''] (stop (Exited 1)))
         | Inr hex \<Rightarrow> Inr hex)
      else if \<not> truthy sec then
        Inl (says [Err ''Error: no secret key provided. Use --sec, or --npub to list another key's records'']
          (stop (Exited 1)))
      else
        (case (if startsWith (the sec) ''nsec1'' then
                 (case nl_decode L (the sec) of
                    None \<Rightarrow> Inl (stop (Uncaught_error LibError))
                  | Some (DNsec sk) \<Rightarrow> Inr sk
                  | Some _ \<Rightarrow> Inl (says [Err ''Error: invalid nsec''] (stop (Exited 1))))
               else (case nl_hexToBytes L (the sec) of
                    None \<Rightarrow> Inl (stop (Uncaught_error LibError))
                  | Some sk \<Rightarrow> Inr sk)) of
           Inl run \<Rightarrow> Inl run
         | Inr sk \<Rightarrow> (case nl_getPublicKey L sk of
               None \<Rightarrow> Inl (stop (Uncaught_error LibError))
             | Some pubkey \<Rightarrow> Inr pubkey)))"

definition list_rows :: "NostrEvent list \<Rightarrow> RecordRow list \<Rightarrow> cmd_run" where
  "list_rows events rows =
     (if rows = [] then says [Err ''No DNS records found in events.''] (stop Finished)
      else says ([Out list_header, Out (replicate (max (length list_header) 72) (CHR ''-''))] @
          map (\<lambda>row. Out (row_line row)) rows @
          [Out ([newline] @ show_nat (length rows) @ '' record(s) from '' @ show_nat (length events) @
             '' event(s) '' @ em_dash @ '' '' @ show_nat (length (filter row_passes rows)) @ '' would pass PoW>='' @
             show_int DEFAULT_POW_DIFFICULTY @ '' OR PoB gate'')])
        (stop Finished))"

definition listCommand ::
  "cli_env \<Rightarrow> (js_error \<Rightarrow> string) \<Rightarrow> GlobalOpts \<Rightarrow> list_opts \<Rightarrow> cmd_run" where
  "listCommand E show_error o' opts =
     (let relays = readRelays (go_relay o')
      in case list_pubkey (ce_lib E) (lo_npub opts) (go_sec o') of
           Inl run \<Rightarrow> run
         | Inr pubkeyHex \<Rightarrow>
             (case fetchEvents (ce_lib E) (ce_query E) relays pubkeyHex DEFAULT_QUERY_LIMIT of
                Inl e \<Rightarrow> says [Err (''Error fetching events: '' @ show_error e)] (stop (Exited 1))
              | Inr events \<Rightarrow>
                  if events = [] then says [Err ''No records found.''] (stop Finished)
                  else (case (if lo_pob opts then fetchPobProofs (ce_query E) relays (map ev_id events) else Inr []) of
                      Inl e \<Rightarrow> stop (Uncaught_error e)
                    | Inr pobProofs \<Rightarrow> list_rows events (concat (map (event_rows pobProofs) events)))))"

section \<open>resolve\<close>

definition tab :: string where "tab = [CHR 0x09]"

definition extractNpubFromDomain :: "string \<Rightarrow> string option" where
  "extractNpubFromDomain domain =
     (case split_on (CHR ''.'') domain of
        p # q # r # _ \<Rightarrow> if startsWith p ''npub1'' then Some p else None
      | _ \<Rightarrow> None)"

definition pubkeyNpubToHex :: "nostr_lib \<Rightarrow> string \<Rightarrow> string option" where
  "pubkeyNpubToHex L npub = (case nl_decode L npub of Some (DNpub hex) \<Rightarrow> Some hex | _ \<Rightarrow> None)"

definition dns_line :: "string \<Rightarrow> string \<Rightarrow> string \<Rightarrow> console" where
  "dns_line domain type rdata = Out (''  '' @ domain @ ''.'' @ tab @ tab @ type @ tab @ rdata)"

text \<open>Every query of \<open>resolveViaDns\<close> has its own \<open>catch\<close>, so that the outer one is never reached.\<close>

definition resolveViaDns :: "node_dns \<Rightarrow> string \<Rightarrow> string \<Rightarrow> console list" where
  "resolveViaDns D domain recordType =
     (let type = toUpperCase recordType;
          part = (\<lambda>t lines. if type = t \<or> type = ''ANY'' then map (dns_line domain t) lines else [])
      in [Out '';; DNS ANSWER:''] @
         part ''A'' (nullish (nd_resolve4 D domain) []) @
         part ''AAAA'' (nullish (nd_resolve6 D domain) []) @
         part ''CNAME'' (nullish (nd_cname D domain) []) @
         part ''TXT'' (map (\<lambda>t. quote_char # concat t @ [quote_char]) (nullish (nd_txt D domain) [])) @
         part ''MX'' (map (\<lambda>(priority, exchange). show_int priority @ '' '' @ exchange) (nullish (nd_mx D domain) [])))"

definition record_fields :: "CliDnsRecord \<Rightarrow> string" where
  "record_fields r = (if cd_name r \<noteq> [] then cd_name r else ''@'') @ tab @ cd_type r @ tab @ show_int (cd_ttl r) @
     tab @ cd_rdata r"

definition resolveViaNostr ::
  "cli_env \<Rightarrow> (js_error \<Rightarrow> string) \<Rightarrow> string list \<Rightarrow> string \<Rightarrow> console list" where
  "resolveViaNostr E show_error relays npubStr =
     [Out '';; NOSTR EVENTS (kind 11111):''] @
     (let hex = pubkeyNpubToHex (ce_lib E) npubStr
      in if \<not> truthy hex then [Err ''  (invalid npub)'']
         else case fetchEvents (ce_lib E) (ce_query E) relays (the hex) DEFAULT_QUERY_LIMIT of
             Inl e \<Rightarrow> [Err (''  (nostr query failed: '' @ show_error e @ '')'')]
           | Inr events \<Rightarrow>
               if events = [] then [Out (''  (no events found for '' @ npubStr @ '')'')]
               else map (\<lambda>r. Out (''  '' @ record_fields r)) (concat (map (\<lambda>ev. extractRecords (ev_tags ev)) events)))"

text \<open>The JSON body of the API: the records, when there are any, and the count.\<close>

type_synonym api_body = "DnsRecord list option \<times> int option"

definition api_url :: "string \<Rightarrow> string \<Rightarrow> string option \<Rightarrow> string" where
  "api_url apiBase domain npubStr =
     (if truthy npubStr then apiBase @ ''/api/records/by-npub/'' @ the npubStr
      else apiBase @ ''/api/records?domain='' @ encodeURIComponent domain)"

definition dns_fallback :: "node_dns \<Rightarrow> string \<Rightarrow> console list" where
  "dns_fallback D domain = Err ''  ;; falling back to DNS...'' # resolveViaDns D domain ''ANY''"

definition resolveViaApi ::
  "node_dns \<Rightarrow> (string \<Rightarrow> api_body fetch_outcome) \<Rightarrow> (js_error \<Rightarrow> string) \<Rightarrow> string \<Rightarrow> string \<Rightarrow> string option \<Rightarrow>
     console list" where
  "resolveViaApi D fetch show_error apiBase domain npubStr =
     (let failed = Err (''  (api query failed: '' @ show_error LibError @ '')'') # dns_fallback D domain
      in Out ('';; API RECORDS ('' @ apiBase @ ''):'') #
         (case fetch (api_url apiBase domain npubStr) of
            Reply status body \<Rightarrow>
              if \<not> response_ok status
              then Err (''  (api query failed: HTTP '' @ show_int status @ '')'') # dns_fallback D domain
              else (case body of
                None \<Rightarrow> failed
              | Some (recs, countField) \<Rightarrow>
                  let records = nullish recs []
                  in if records = [] then [Out (''  (no records found for '' @ domain @ '')'')]
                     else map (\<lambda>r. Out (''  '' @ (if rec_name r \<noteq> [] then rec_name r else ''@'') @ tab @ rec_type r @ tab @
                         show_int (rec_ttl r) @ tab @ rec_rdata r @ tab @ rec_fqdn r)) records @
                       [Out (''  ;; '' @ show_int (nullish countField (int (length records))) @ '' record(s)'')])
          | _ \<Rightarrow> failed))"

record resolve_opts =
  re_type :: string
  re_dns :: bool
  re_nostr :: bool
  re_apiBase :: string

definition resolveCommand ::
  "cli_env \<Rightarrow> node_dns \<Rightarrow> (string \<Rightarrow> api_body fetch_outcome) \<Rightarrow> (js_error \<Rightarrow> string) \<Rightarrow> GlobalOpts \<Rightarrow> string \<Rightarrow>
     resolve_opts \<Rightarrow> cmd_run" where
  "resolveCommand E D fetch show_error o' domain opts =
     (let relays = readRelays (go_relay o'); recordType = toUpperCase (re_type opts);
          npubStr = extractNpubFromDomain domain
      in says
           (if re_dns opts then resolveViaDns D domain recordType
            else if re_nostr opts then
              (if \<not> truthy npubStr then [Err ''Cannot extract npub from domain. Use <npub>.nodns.shop format.'']
               else resolveViaNostr E show_error relays (the npubStr) @ [Out []])
            else resolveViaApi D fetch show_error (re_apiBase opts) domain npubStr)
           (stop Finished))"

section \<open>zone-check\<close>

definition fmtPricing :: "int \<Rightarrow> int \<Rightarrow> int \<Rightarrow> string" where
  "fmtPricing createPrice updatePrice deletePrice =
     ''create='' @ show_int createPrice @ '' update='' @ show_int updatePrice @ '' delete='' @ show_int deletePrice"

definition fetchHandlerDetails :: "relay_query \<Rightarrow> string list \<Rightarrow> string \<Rightarrow> NostrEvent option" where
  "fetchHandlerDetails query relays pubkeyHex =
     (case query relays (zone_filter None (Some [pubkeyHex]) (Some 1)) 6000 of
        Some (ev # _) \<Rightarrow> Some ev
      | _ \<Rightarrow> None)"

text \<open>The lines about the zone's description; it is what \<open>buildZoneInfo\<close> of \<open>zones.ts\<close> computes, written
  out again in the command.\<close>

definition zone_details :: "CliZoneInfo \<Rightarrow> console list" where
  "zone_details info =
     [Out ''Zone details:'',
      Out (''  npub:       '' @ (if cz_npub info \<noteq> [] then cz_npub info else ''(not set)'')),
      Out (''  testnet:    '' @ (if cz_testnet info then ''yes'' else ''no'')),
      Out (''  npub free:  '' @ (if cz_npubNamesFree info then ''yes'' else ''no''))] @
     (case cz_pricing info of
        Some p \<Rightarrow> [Out (''  pricing:    '' @ fmtPricing (cp_createPrice p) (cp_updatePrice p) (cp_deletePrice p))]
      | None \<Rightarrow> []) @
     (if truthy (cz_mintUrl info) then [Out (''  mint:       '' @ the (cz_mintUrl info))] else [])"

definition handler_lines :: "string \<Rightarrow> CliZoneInfo \<Rightarrow> NostrEvent option \<Rightarrow> console list" where
  "handler_lines zone info handler =
     (case handler of
        Some h \<Rightarrow>
          if toLowerCase (ev_pubkey h) = toLowerCase (cz_npub info) then
            [Out ([newline] @ check_mark @ '' Zone '' @ quote1 zone @ '' VERIFIED''),
             Out (''  Handler event found: '' @ ev_id h),
             Out ''  Signer matches TXT npub: yes''] @
            (if cz_testnet info then
               [Out ([newline] @ warn_mark @ '' WARNING: Zone '' @ quote1 zone @ '' is on TESTNET.''),
                Out ''  Records may be temporary. This zone is for testing only.'']
             else [])
          else
            [Out ([newline] @ warn_mark @ '' Zone '' @ quote1 zone @ '' UNVERIFIED''),
             Out ''  Handler event found but signer does not match TXT npub.'',
             Out (''  TXT npub:     '' @ cz_npub info),
             Out (''  Event signer: '' @ ev_pubkey h)]
      | None \<Rightarrow>
          [Out ([newline] @ warn_mark @ '' Zone '' @ quote1 zone @ '' UNVERIFIED''),
           Out (''  No handler event found from npub '' @ slice_to 16 (cz_npub info) @ ''...''),
           Out ''  The TXT record exists but the zone operator has not published'',
           Out (''  a kind '' @ show_int ZONE_HANDLER_KIND @ '' Nostr event.'')])"

definition not_opted_in :: "string \<Rightarrow> console list" where
  "not_opted_in zone =
     [Out (cross_mark @ '' Zone '' @ quote1 zone @ '' has NOT opted in.''),
      Out (''  No _nodns.'' @ zone @ '' TXT record found.''),
      Out ''  DNS records published to this zone will NOT resolve.'',
      Out ([newline] @ ''  To opt in, publish a TXT record at _nodns.'' @ zone @ '':''),
      Out ''    v=2;npub=YOUR_HEX_PUBKEY'']"

definition zoneCheckCommand :: "cli_env \<Rightarrow> GlobalOpts \<Rightarrow> string option \<Rightarrow> cmd_run" where
  "zoneCheckCommand E o' zoneArg =
     (let relays = readRelays (go_relay o');
          zone = nullish zoneArg (nullish (go_zone o') ''nodns.shop'')
      in says [Err (''Checking zone '' @ quote1 zone @ ''...'' @ [newline])]
        (case fetchDnsTxt (ce_doh E) zone DEFAULT_DOH_ENDPOINT of
           None \<Rightarrow> says (not_opted_in zone) (stop Finished)
         | Some txt \<Rightarrow>
             if txt = [] then says (not_opted_in zone) (stop Finished)
             else
               let info = cli_buildZoneInfo (parseZoneTxt txt) zone
               in says ([Out (''TXT record found at _nodns.'' @ zone @ '':''), Out (''  '' @ txt @ [newline])] @
                    zone_details info)
                    (if cz_npub info = [] then
                       says [Out ([newline] @ warn_mark @ '' Zone '' @ quote1 zone @
                         '' TXT found but missing npub field. Verification failed.'')] (stop Finished)
                     else
                       says (Err ([newline] @ ''Checking Nostr handler event (kind '' @ show_int ZONE_HANDLER_KIND @ '')...'') #
                         handler_lines zone info (fetchHandlerDetails (ce_query E) relays (cz_npub info)))
                         (stop Finished))))"

section \<open>zone-export\<close>

record export_opts =
  xo_fromApi :: string
  xo_apiBase :: string
  xo_json :: bool
  xo_soa :: "bool option"

definition export_records ::
  "cli_env \<Rightarrow> (string \<Rightarrow> string \<Rightarrow> int) \<Rightarrow> (string \<Rightarrow> DnsRecord list option fetch_outcome) \<Rightarrow> (js_error \<Rightarrow> string) \<Rightarrow>
     string list \<Rightarrow> string \<Rightarrow> string \<Rightarrow> cmd_run + ZoneRecord list" where
  "export_records E lc fetch show_error relays zone fromApi =
     (if fromApi \<noteq> [] then
        (case zone_fetchApiRecords lc fetch fromApi zone of
           Inl e \<Rightarrow> Inl (says [Err (''Error fetching from API: '' @ show_error e)] (stop (Exited 1)))
         | Inr records \<Rightarrow> Inr records)
      else
        (case fetchZoneEvents (ce_query E) relays of
           Inl e \<Rightarrow> Inl (says [Err (''Error fetching from relay: '' @ show_error e)] (stop (Exited 1)))
         | Inr events \<Rightarrow> Inr (parseEventsToRecords lc (nl_npubEncode (ce_lib E)) events zone)))"

definition zoneExportCommand ::
  "cli_env \<Rightarrow> (string \<Rightarrow> string \<Rightarrow> int) \<Rightarrow> (string \<Rightarrow> DnsRecord list option fetch_outcome) \<Rightarrow> (js_error \<Rightarrow> string) \<Rightarrow>
     (string \<Rightarrow> nat \<Rightarrow> ZoneRecord list \<Rightarrow> string) \<Rightarrow> GlobalOpts \<Rightarrow> string \<Rightarrow> export_opts \<Rightarrow> cmd_run" where
  "zoneExportCommand E lc fetch show_error stringify o' zone opts =
     (let relays = readRelays (go_relay o'); includeSoa = (xo_soa opts \<noteq> Some False)
      in case export_records E lc fetch show_error relays zone (xo_fromApi opts) of
           Inl run \<Rightarrow> run
         | Inr records \<Rightarrow>
             if xo_json opts then says [Out (stringify zone (length records) records)] (stop Finished)
             else says [Out (generateZoneFile lc records zone (Some includeSoa))] (stop Finished))"

section \<open>Properties\<close>

text \<open>
  A record tag in the eleven field form, which the zone file library reads as data in fields 3 to 9
  and a time to live in field 10, is misread by \<open>list\<close> and \<open>resolve\<close>: the first data field becomes the
  time to live, the second one the data.
\<close>

theorem extractRecords_eleven_fields:
  "extractRecords [[''record'', t, n, f3, f4, f5, f6, f7, f8, f9, ttl]] =
     [\<lparr>cd_type = t, cd_name = n, cd_ttl = parseInt_or f3 3600, cd_rdata = f4\<rparr>] \<and>
   map_option (\<lambda>r. (zr_ttl r, zr_rdata r))
     (parseRecordTag enc [''record'', t, n, f3, f4, f5, f6, f7, f8, f9, ttl] pubkey eventId date) =
     Some (ttl_or_default ttl, join '' '' (filter (\<lambda>f. f \<noteq> []) [f3, f4, f5, f6, f7, f8, f9]))"
  by (simp add: extractRecords_def cli_record_of_tag_def parseRecordTag_def Let_def)

lemma handler_lines_verified:
  "Out ([newline] @ check_mark @ '' Zone '' @ quote1 zone @ '' VERIFIED'') \<in> set (handler_lines zone info handler) \<longleftrightarrow>
     handler \<noteq> None \<and> toLowerCase (ev_pubkey (the handler)) = toLowerCase (cz_npub info)"
  by (auto simp: handler_lines_def check_mark_def warn_mark_def newline_def split: option.split)

lemma fetchHandlerDetails_eq: "fetchHandlerDetails query relays k = cli_fetchZoneHandler query relays k"
  by (auto simp: fetchHandlerDetails_def cli_fetchZoneHandler_def zone_filter_def CLI_QUERY_MAX_WAIT_def
      split: option.split list.split)

lemma details_not_verified: "Out ([newline] @ s) \<notin> set (zone_details info)"
  by (auto simp: zone_details_def newline_def split: option.split)

text \<open>
  \<open>zone-check\<close> announces a zone as verified exactly when the zone check that guards \<open>add\<close> and
  \<open>delete\<close> would let it pass as verified or as a test zone.
\<close>

theorem zoneCheckCommand_agrees:
  "Out ([newline] @ check_mark @ '' Zone '' @ quote1 zone @ '' VERIFIED'') \<in>
       set (rn_lines (zoneCheckCommand E g (Some zone))) \<longleftrightarrow>
     (\<exists>info. cli_checkZone (ce_query E) (ce_doh E) zone (readRelays (go_relay g)) False \<in> {CliVerified info, CliTestnet info})"
proof -
  let ?l = "Out ([newline] @ check_mark @ '' Zone '' @ quote1 zone @ '' VERIFIED'')"
  let ?txt = "fetchDnsTxt (ce_doh E) zone DEFAULT_DOH_ENDPOINT"
  let ?info = "cli_buildZoneInfo (parseZoneTxt (the ?txt)) zone"
  let ?h = "cli_fetchZoneHandler (ce_query E) (readRelays (go_relay g)) (cz_npub ?info)"
  have "?l \<in> set (rn_lines (zoneCheckCommand E g (Some zone))) \<longleftrightarrow>
      truthy ?txt \<and> cz_npub ?info \<noteq> [] \<and> ?l \<in> set (handler_lines zone ?info ?h)"
    using details_not_verified [of "check_mark @ '' Zone '' @ quote1 zone @ '' VERIFIED''" ?info]
    by (cases ?txt) (auto simp: zoneCheckCommand_def Let_def not_opted_in_def fetchHandlerDetails_eq
        newline_def check_mark_def cross_mark_def warn_mark_def)
  also have "\<dots> \<longleftrightarrow> (\<exists>info. cli_checkZone (ce_query E) (ce_doh E) zone (readRelays (go_relay g)) False
      \<in> {CliVerified info, CliTestnet info})"
    unfolding handler_lines_verified by (auto simp: cli_checkZone_def Let_def)
  finally show ?thesis .
qed

end
