(* ===== verification/Cli_Conformance.thy ===== *)
theory Cli_Conformance
  imports Cli_Commands
begin

text \<open>
  \<open>nodns-cli/src/commands/conformance.ts\<close>: the comparison of a zone's records from the relays (source A),
  the API (source B) and DNS (source C), its line difference of two zone files and its verdict. The text
  of an error is given by \<open>show_error\<close>.
\<close>

section \<open>Comparison\<close>

text \<open>\<open>replace(/\\"/g, '"')\<close>: every backslash before a quote is dropped.\<close>

fun unescape_quotes :: "string \<Rightarrow> string" where
  "unescape_quotes (c # d # s) =
     (if c = backslash \<and> d = quote_char then quote_char # unescape_quotes s else c # unescape_quotes (d # s))"
| "unescape_quotes s = s"

definition normalizeRdata :: "string \<Rightarrow> string \<Rightarrow> string" where
  "normalizeRdata type rdata =
     (let upper = toUpperCase type
      in if upper = ''TXT'' then
           unescape_quotes (strip_suffix_char quote_char (strip_prefix_char quote_char rdata))
         else if upper = ''CNAME'' then strip_suffix_char (CHR ''.'') (toLowerCase rdata)
         else if upper = ''MX'' then
           (case split_spaces (trim rdata) of
              priority # p # ps \<Rightarrow> priority @ '' '' @ strip_suffix_char (CHR ''.'') (toLowerCase (join '' '' (p # ps)))
            | _ \<Rightarrow> rdata)
         else rdata)"

definition recordCompareKey :: "ZoneRecord \<Rightarrow> string" where
  "recordCompareKey r =
     (let type = toUpperCase (zr_type r)
      in toLowerCase (zr_name r) @ ''|'' @ type @ ''|'' @ normalizeRdata type (zr_rdata r))"

record DiffResult =
  ds_matchCount :: nat
  ds_onlyInA :: "ZoneRecord list"
  ds_onlyInB :: "ZoneRecord list"

definition diffRecordSets ::
  "(string \<Rightarrow> string \<Rightarrow> int) \<Rightarrow> ZoneRecord list \<Rightarrow> ZoneRecord list \<Rightarrow> DiffResult" where
  "diffRecordSets lc a b =
     (let mapA = last_per_key recordCompareKey a; mapB = last_per_key recordCompareKey b
      in \<lparr>ds_matchCount = length (filter (\<lambda>(key, _). map_has mapB key) mapA),
          ds_onlyInA = js_sort (compareRecords lc) (map snd (filter (\<lambda>(key, _). \<not> map_has mapB key) mapA)),
          ds_onlyInB = js_sort (compareRecords lc) (map snd (filter (\<lambda>(key, _). \<not> map_has mapA key) mapB))\<rparr>)"

definition ellipsis :: "nat \<Rightarrow> nat \<Rightarrow> string \<Rightarrow> string" where
  "ellipsis limit keep s = (if length s > limit then slice_to keep s @ ''...'' else s)"

definition formatRecordLine :: "ZoneRecord \<Rightarrow> string" where
  "formatRecordLine r =
     padEnd 32 (ellipsis 30 27 (zr_name r)) @ '' '' @ padEnd 6 (zr_type r) @ '' '' @
     ellipsis 40 37 (formatRdata (zr_type r) (zr_rdata r))"

section \<open>Line difference\<close>

text \<open>The loop of \<open>generateUnifiedDiff\<close>; the indices \<open>i\<close> and \<open>j\<close> are the lines still to come on each side.\<close>

fun unified_loop :: "string list \<Rightarrow> string list \<Rightarrow> string list \<Rightarrow> string list \<Rightarrow> string list" where
  "unified_loop setA setB [] [] = []"
| "unified_loop setA setB (lineA # as) [] = (''- '' @ lineA) # unified_loop setA setB as []"
| "unified_loop setA setB [] (lineB # bs) = (''+ '' @ lineB) # unified_loop setA setB [] bs"
| "unified_loop setA setB (lineA # as) (lineB # bs) =
     (if lineA = lineB then (''  '' @ lineA) # unified_loop setA setB as bs
      else if lineA \<notin> set setB then (''- '' @ lineA) # unified_loop setA setB as (lineB # bs)
      else if lineB \<notin> set setA then (''+ '' @ lineB) # unified_loop setA setB (lineA # as) bs
      else (''- '' @ lineA) # (''+ '' @ lineB) # unified_loop setA setB as bs)"

definition generateUnifiedDiff :: "string list \<Rightarrow> string list \<Rightarrow> string" where
  "generateUnifiedDiff linesA linesB = join [newline] (unified_loop linesA linesB linesA linesB)"

section \<open>The command\<close>

definition only_lines :: "string \<Rightarrow> ZoneRecord list \<Rightarrow> console list" where
  "only_lines what rs =
     (if length rs > 0
      then Out (''  '' @ warn_mark @ '' '' @ show_nat (length rs) @ '' records '' @ what) #
        map (\<lambda>r. Out (''    - '' @ formatRecordLine r)) rs
      else [])"

definition diff_lines :: "string \<Rightarrow> string \<Rightarrow> string \<Rightarrow> DiffResult \<Rightarrow> console list" where
  "diff_lines title onlyA onlyB d =
     [Out title, Out (''  '' @ check_mark @ '' '' @ show_nat (ds_matchCount d) @ '' records match'')] @
     only_lines onlyA (ds_onlyInA d) @ only_lines onlyB (ds_onlyInB d) @ [Out []]"

definition source_line :: "string \<Rightarrow> ZoneRecord list option \<Rightarrow> console" where
  "source_line label src = Out (label @
     (case src of Some rs \<Rightarrow> show_nat (length rs) @ '' records'' | None \<Rightarrow> ''UNAVAILABLE''))"

definition zone_diff_lines ::
  "(string \<Rightarrow> string \<Rightarrow> int) \<Rightarrow> string \<Rightarrow> ZoneRecord list \<Rightarrow> ZoneRecord list \<Rightarrow> console list" where
  "zone_diff_lines lc zone sourceA sourceB =
     (let zoneA = generateZoneFile lc sourceA zone (Some False);
          zoneB = generateZoneFile lc sourceB zone (Some False);
          lines = (\<lambda>z. filter (\<lambda>l. length l > 0) (split_on newline z))
      in if zoneA \<noteq> zoneB
         then [Out ''Zone file diff (A vs B):'', Out (generateUnifiedDiff (lines zoneA) (lines zoneB)), Out []]
         else [])"

definition has_differences :: "DiffResult option \<Rightarrow> bool" where
  "has_differences d =
     (case d of Some d \<Rightarrow> length (ds_onlyInA d) > 0 \<or> length (ds_onlyInB d) > 0 | None \<Rightarrow> False)"

definition verdict :: "bool \<Rightarrow> bool \<Rightarrow> DiffResult option \<Rightarrow> DiffResult option \<Rightarrow> string" where
  "verdict relayOk apiOk diffAB diffBC =
     (let unprocessed = (case diffAB of Some d \<Rightarrow> length (ds_onlyInA d) | None \<Rightarrow> 0);
          dnsMissing = (case diffBC of Some d \<Rightarrow> length (ds_onlyInA d) | None \<Rightarrow> 0)
      in if \<not> relayOk \<or> \<not> apiOk
         then ''VERDICT: '' @ cross_mark @ '' INCOMPLETE '' @ em_dash @ '' one or more sources unavailable''
         else if \<not> (has_differences diffAB \<or> has_differences diffBC)
         then ''VERDICT: '' @ check_mark @ '' MATCH '' @ em_dash @ '' all sources agree''
         else ''VERDICT: '' @ warn_mark @ '' PARTIAL '' @ em_dash @ '' '' @
           join '', '' ((if unprocessed > 0 then [show_nat unprocessed @ '' unprocessed events''] else []) @
             (if dnsMissing > 0 then [show_nat dnsMissing @ '' DNS-missing records''] else [])))"

definition pair_sources ::
  "(ZoneRecord list \<Rightarrow> ZoneRecord list \<Rightarrow> 'a) \<Rightarrow> ZoneRecord list option \<Rightarrow> ZoneRecord list option \<Rightarrow> 'a option" where
  "pair_sources f x y = (case (x, y) of (Some a, Some b) \<Rightarrow> Some (f a b) | _ \<Rightarrow> None)"

text \<open>Everything after the three fetches; an unavailable source is \<^const>\<open>None\<close>.\<close>

definition report ::
  "(string \<Rightarrow> string \<Rightarrow> int) \<Rightarrow> string \<Rightarrow> ZoneRecord list option \<Rightarrow> ZoneRecord list option \<Rightarrow>
     ZoneRecord list option \<Rightarrow> console list" where
  "report lc zone sourceA sourceB sourceC =
     (let diffAB = pair_sources (diffRecordSets lc) sourceA sourceB;
          diffBC = pair_sources (diffRecordSets lc) sourceB sourceC
      in [source_line ''Source A (relay): '' sourceA, source_line ''Source B (API):   '' sourceB,
          source_line ''Source C (DNS):   '' sourceC, Out []] @
         (case diffAB of
            Some d \<Rightarrow> diff_lines ''A vs B (relay vs API):'' ''ONLY in relay (not processed by bot):''
              ''ONLY in API (deleted from relay?):'' d
          | None \<Rightarrow> []) @
         (case diffBC of
            Some d \<Rightarrow> diff_lines ''B vs C (API vs DNS):'' ''in API but MISSING from DNS:''
              ''ONLY in DNS (stale?):'' d
          | None \<Rightarrow> []) @
         nullish (pair_sources (zone_diff_lines lc zone) sourceA sourceB) [] @
         [Out (verdict (sourceA \<noteq> None) (sourceB \<noteq> None) diffAB diffBC)])"

definition source_relay ::
  "cli_env \<Rightarrow> (string \<Rightarrow> string \<Rightarrow> int) \<Rightarrow> string list \<Rightarrow> string \<Rightarrow> js_error + ZoneRecord list" where
  "source_relay E lc relays zone =
     try_bind (fetchZoneEvents (ce_query E) relays)
       (\<lambda>events. Inr (parseEventsToRecords lc (nl_npubEncode (ce_lib E)) events zone))"

definition source_dns ::
  "cli_env \<Rightarrow> (string \<Rightarrow> string \<Rightarrow> int) \<Rightarrow> string \<Rightarrow> ZoneRecord list option \<Rightarrow> ZoneRecord list option" where
  "source_dns E lc zone sourceB =
     (case sourceB of
        Some rs \<Rightarrow>
          if length rs > 0
          then Some (queryZoneRecords lc (ce_doh E) zone (js_uniq (map (\<lambda>r. zr_name r @ ''.'' @ zone) rs)))
          else None
      | None \<Rightarrow> None)"

definition ok_source :: "js_error + 'a \<Rightarrow> 'a option" where
  "ok_source r = (case r of Inl _ \<Rightarrow> None | Inr v \<Rightarrow> Some v)"

definition failure_line :: "(js_error \<Rightarrow> string) \<Rightarrow> string \<Rightarrow> js_error + 'a \<Rightarrow> console list" where
  "failure_line show_error what r =
     (case r of Inl e \<Rightarrow> [Err (''  '' @ cross_mark @ '' '' @ what @ '' failed: '' @ show_error e)] | Inr _ \<Rightarrow> [])"

definition conformanceCommand ::
  "cli_env \<Rightarrow> (string \<Rightarrow> string \<Rightarrow> int) \<Rightarrow> (string \<Rightarrow> DnsRecord list option fetch_outcome) \<Rightarrow> (js_error \<Rightarrow> string) \<Rightarrow>
     GlobalOpts \<Rightarrow> string \<Rightarrow> string option \<Rightarrow> cmd_run" where
  "conformanceCommand E lc fetch show_error o' zone apiBaseOpt =
     (let relays = readRelays (go_relay o'); apiBase = or_else apiBaseOpt DEFAULT_API_BASE;
          a = source_relay E lc relays zone; b = zone_fetchApiRecords lc fetch apiBase zone
      in says (Out (''=== Conformance Test: '' @ zone @ '' ==='' @ [newline]) #
            failure_line show_error ''Relay fetch'' a @ failure_line show_error ''API fetch'' b @
            report lc zone (ok_source a) (ok_source b) (source_dns E lc zone (ok_source b)))
          (stop Finished))"

section \<open>Lemmas\<close>

text \<open>The two halves of a map keyed by \<open>key\<close>: the keys that another set of records has, or has not.\<close>

lemma keyed_half:
  "key ` set (map snd (filter (\<lambda>(k, _). P k) (last_per_key key xs))) = {k \<in> key ` set xs. P k}"
proof -
  let ?f = "filter (\<lambda>(k, _). P k) (last_per_key key xs)"
  have "key ` set (map snd ?f) = fst ` set ?f"
    by (force simp: entry_last_per_key image_iff)
  also have "\<dots> = {k \<in> fst ` set (last_per_key key xs). P k}" by auto
  also have "fst ` set (last_per_key key xs) = key ` set xs"
    by (metis keys_last_per_key list.set_map set_js_uniq)
  finally show ?thesis .
qed

lemma length_keyed_half:
  "length (filter (\<lambda>(k, _). P k) (last_per_key key xs)) = card {k \<in> key ` set xs. P k}"
proof -
  let ?f = "filter (\<lambda>(k, _). P k) (last_per_key key xs)"
  have "distinct (map fst ?f)" by (rule distinct_map_filter) simp
  then have "length ?f = card (fst ` set ?f)" by (metis distinct_card length_map list.set_map)
  also have "fst ` set ?f = {k \<in> fst ` set (last_per_key key xs). P k}" by auto
  also have "fst ` set (last_per_key key xs) = key ` set xs"
    by (metis keys_last_per_key list.set_map set_js_uniq)
  finally show ?thesis .
qed

lemma has_last_per_key: "map_has (last_per_key key xs) k \<longleftrightarrow> k \<in> key ` set xs"
  unfolding map_has_iff map_keys_def keys_last_per_key by simp

text \<open>The two sides of a difference: the lines marked as kept or as the side's own, without the mark.\<close>

definition old_side :: "string list \<Rightarrow> string list" where
  "old_side ls = map (drop 2) (filter (\<lambda>l. startsWith l ''  '' \<or> startsWith l ''- '') ls)"

definition new_side :: "string list \<Rightarrow> string list" where
  "new_side ls = map (drop 2) (filter (\<lambda>l. startsWith l ''  '' \<or> startsWith l ''+ '') ls)"

lemma sides_simps [simp]:
  "old_side [] = []" "new_side [] = []"
  "old_side ((''  '' @ l) # ls) = l # old_side ls" "new_side ((''  '' @ l) # ls) = l # new_side ls"
  "old_side ((''- '' @ l) # ls) = l # old_side ls" "new_side ((''- '' @ l) # ls) = new_side ls"
  "old_side ((''+ '' @ l) # ls) = old_side ls" "new_side ((''+ '' @ l) # ls) = l # new_side ls"
  by (simp_all add: old_side_def new_side_def)

lemma unified_loop_sides:
  "old_side (unified_loop SA SB as bs) = as" "new_side (unified_loop SA SB as bs) = bs"
  by (induction SA SB as bs rule: unified_loop.induct) (simp_all del: append_Cons append.append_Cons)

lemma unified_loop_lines:
  "l \<in> set (unified_loop SA SB as bs) \<Longrightarrow> \<exists>m \<in> set (as @ bs). l \<in> {''  '' @ m, ''- '' @ m, ''+ '' @ m}"
  by (induction SA SB as bs rule: unified_loop.induct) (auto split: if_splits)

lemma diff_only_keys:
  "recordCompareKey ` set (ds_onlyInA (diffRecordSets lc a b)) = recordCompareKey ` set a - recordCompareKey ` set b"
  "recordCompareKey ` set (ds_onlyInB (diffRecordSets lc a b)) = recordCompareKey ` set b - recordCompareKey ` set a"
  "ds_matchCount (diffRecordSets lc a b) = card (recordCompareKey ` set a \<inter> recordCompareKey ` set b)"
proof -
  have keys: "{k \<in> A. k \<notin> B} = A - B" "{k \<in> A. k \<in> B} = A \<inter> B" for A B :: "string set" by auto
  show "recordCompareKey ` set (ds_onlyInA (diffRecordSets lc a b)) = recordCompareKey ` set a - recordCompareKey ` set b"
    "recordCompareKey ` set (ds_onlyInB (diffRecordSets lc a b)) = recordCompareKey ` set b - recordCompareKey ` set a"
    by (simp_all add: diffRecordSets_def Let_def has_last_per_key keyed_half keys del: set_map)
  show "ds_matchCount (diffRecordSets lc a b) = card (recordCompareKey ` set a \<inter> recordCompareKey ` set b)"
    by (simp add: diffRecordSets_def Let_def has_last_per_key length_keyed_half keys)
qed

lemma no_differences_iff:
  "\<not> has_differences (Some (diffRecordSets lc a b)) \<longleftrightarrow> recordCompareKey ` set a = recordCompareKey ` set b"
proof -
  have "ds_onlyInA (diffRecordSets lc a b) = [] \<longleftrightarrow> recordCompareKey ` set a - recordCompareKey ` set b = {}"
    "ds_onlyInB (diffRecordSets lc a b) = [] \<longleftrightarrow> recordCompareKey ` set b - recordCompareKey ` set a = {}"
    using diff_only_keys(1,2) [where lc = lc and a = a and b = b] by (metis image_is_empty set_empty)+
  then show ?thesis by (auto simp: has_differences_def)
qed

lemma unescape_plain: "backslash \<notin> set s \<Longrightarrow> unescape_quotes (escapeTxt s) = s"
proof (induction s)
  case (Cons c s)
  then show ?case by (cases "escapeTxt s") (auto split: if_splits)
qed simp

definition match_line :: string where
  "match_line = ''VERDICT: '' @ check_mark @ '' MATCH '' @ em_dash @ '' all sources agree''"

lemma verdict_match:
  "verdict relayOk apiOk ab bc = match_line \<longleftrightarrow>
     relayOk \<and> apiOk \<and> \<not> has_differences ab \<and> \<not> has_differences bc"
  by (auto simp: verdict_def match_line_def check_mark_def cross_mark_def warn_mark_def Let_def)

section \<open>Properties\<close>

text \<open>
  C35. The line difference loses nothing: read back line by line, the kept and the removed lines are the
  old file, the kept and the added ones the new file, in order.
\<close>

theorem generateUnifiedDiff_sides:
  assumes "linesA @ linesB \<noteq> []" "\<forall>l \<in> set (linesA @ linesB). newline \<notin> set l"
  shows "old_side (split_on newline (generateUnifiedDiff linesA linesB)) = linesA \<and>
    new_side (split_on newline (generateUnifiedDiff linesA linesB)) = linesB"
proof -
  let ?u = "unified_loop linesA linesB linesA linesB"
  have "?u \<noteq> []" using assms(1) unified_loop_sides [of linesA linesB linesA linesB] by auto
  moreover have "newline \<notin> set l" if "l \<in> set ?u" for l
    using unified_loop_lines [OF that] assms(2) by (auto simp: newline_def)
  ultimately have "split_on newline (generateUnifiedDiff linesA linesB) = ?u"
    unfolding generateUnifiedDiff_def by (intro split_on_join) auto
  then show ?thesis by (simp add: unified_loop_sides)
qed

theorem generateUnifiedDiff_sides_witness:
  "old_side (split_on newline (generateUnifiedDiff [''a'', ''b''] [''c'', ''b'', ''a''])) = [''a'', ''b'']"
  using generateUnifiedDiff_sides [of "[''a'', ''b'']" "[''c'', ''b'', ''a'']"] by (simp add: newline_def)

text \<open>
  The verdict is a match exactly when relays and API answered and name the same normalised records
  and, if the API named any record at all, DNS names these too: for an empty zone the match is announced
  although DNS was never asked.
\<close>

theorem conformance_match:
  "last (rn_lines (conformanceCommand E lc fetch show_error g zone api)) = Out match_line \<longleftrightarrow>
    (\<exists>a b. source_relay E lc (readRelays (go_relay g)) zone = Inr a \<and>
       zone_fetchApiRecords lc fetch (or_else api DEFAULT_API_BASE) zone = Inr b \<and>
       recordCompareKey ` set a = recordCompareKey ` set b \<and>
       (\<forall>c. source_dns E lc zone (Some b) = Some c \<longrightarrow> recordCompareKey ` set b = recordCompareKey ` set c))"
proof -
  let ?a = "ok_source (source_relay E lc (readRelays (go_relay g)) zone)"
  let ?b = "ok_source (zone_fetchApiRecords lc fetch (or_else api DEFAULT_API_BASE) zone)"
  let ?c = "source_dns E lc zone ?b"
  have "last (rn_lines (conformanceCommand E lc fetch show_error g zone api)) = Out match_line \<longleftrightarrow>
      verdict (?a \<noteq> None) (?b \<noteq> None) (pair_sources (diffRecordSets lc) ?a ?b)
        (pair_sources (diffRecordSets lc) ?b ?c) = match_line"
    by (simp add: conformanceCommand_def report_def Let_def)
  also have "\<dots> \<longleftrightarrow> (\<exists>a b. ?a = Some a \<and> ?b = Some b \<and> recordCompareKey ` set a = recordCompareKey ` set b \<and>
      (\<forall>c. source_dns E lc zone (Some b) = Some c \<longrightarrow> recordCompareKey ` set b = recordCompareKey ` set c))"
  proof (cases "?a = None \<or> ?b = None")
    case False
    then obtain a b where ab: "?a = Some a" "?b = Some b" by auto
    show ?thesis
      unfolding verdict_match ab pair_sources_def
      by (cases "source_dns E lc zone (Some b)") (simp_all add: no_differences_iff, simp add: has_differences_def)
  qed (auto simp: verdict_match)
  finally show ?thesis by (auto simp: ok_source_def split: sum.splits)
qed

theorem conformance_match_witness:
  "last (rn_lines (conformanceCommand example_env length_compare (\<lambda>_. Reply 200 (Some (Some []))) (\<lambda>_. []) example_global
     ''x.org'' None)) = Out match_line"
proof -
  have "source_relay example_env length_compare (readRelays (go_relay example_global)) ''x.org'' = Inr []" by code_simp
  moreover have "zone_fetchApiRecords length_compare (\<lambda>_. Reply 200 (Some (Some []))) (or_else None DEFAULT_API_BASE) ''x.org'' =
      Inr []" by code_simp
  moreover have "source_dns example_env length_compare ''x.org'' (Some []) = None" by code_simp
  ultimately show ?thesis by (subst conformance_match) auto
qed

text \<open>
  The data of a TXT record without backslashes is recognised when it comes back in the quoted and
  escaped form of the zone file.
\<close>

theorem normalizeRdata_formatRdata:
  assumes "toUpperCase t = ''TXT''" "backslash \<notin> set rdata"
  shows "normalizeRdata t (formatRdata t rdata) = rdata"
  using assms unescape_plain [of rdata]
  by (simp add: normalizeRdata_def formatRdata_def Let_def strip_suffix_char_def strip_prefix_char_def)

theorem normalizeRdata_formatRdata_witness:
  "normalizeRdata ''TXT'' (formatRdata ''TXT'' (quote_char # ''a'')) = quote_char # ''a''"
proof -
  have "toUpperCase ''TXT'' = ''TXT''" by code_simp
  moreover have "backslash \<notin> set (quote_char # ''a'')" by (simp add: backslash_def quote_char_def)
  ultimately show ?thesis by (rule normalizeRdata_formatRdata)
qed

text \<open>
  The comparison of two sets of records is the difference of their normalised keys, and counts the
  keys in common.
\<close>

theorem diffRecordSets_spec:
  "ds_matchCount (diffRecordSets lc a b) = card (recordCompareKey ` set a \<inter> recordCompareKey ` set b) \<and>
   recordCompareKey ` set (ds_onlyInA (diffRecordSets lc a b)) = recordCompareKey ` set a - recordCompareKey ` set b \<and>
   recordCompareKey ` set (ds_onlyInB (diffRecordSets lc a b)) = recordCompareKey ` set b - recordCompareKey ` set a"
  by (simp only: diff_only_keys)

end
