(* ===== verification/Reg_Identity.thy ===== *)
theory Reg_Identity
  imports Sdk_Nostr Js_Json
begin

text \<open>
  \<open>nodns-registrar/src/lib/identity.ts\<close>: the accounts and keys that the registrar keeps in the browser's
  local storage. A stored text is modelled by what reading it back gives: for the list of accounts,
  which is written by \<open>JSON.stringify\<close> and read by \<open>JSON.parse\<close>, that is a JSON value, or \<^const>\<open>None\<close> for
  a text that \<open>JSON.parse\<close> rejects. Reading a property of a \<open>null\<close> entry throws.
\<close>

section \<open>Storage\<close>

record local_storage =
  ls_accounts :: "json option option"
  ls_last :: "string option"
  ls_ephemeral :: "string option"
  ls_seed :: "string option"

definition empty_storage :: local_storage where
  "empty_storage = \<lparr>ls_accounts = None, ls_last = None, ls_ephemeral = None, ls_seed = None\<rparr>"

record SavedAccount =
  sa_pubkey :: string
  sa_nsec :: string
  sa_npub :: string
  sa_addedAt :: int

definition account_json :: "SavedAccount \<Rightarrow> json" where
  "account_json a = JObj [(''pubkey'', JStr (sa_pubkey a)), (''nsec'', JStr (sa_nsec a)), (''npub'', JStr (sa_npub a)),
     (''addedAt'', JNum (of_int (sa_addedAt a)))]"

definition getAccounts :: "local_storage \<Rightarrow> json list" where
  "getAccounts st = (case ls_accounts st of Some v \<Rightarrow> json_array v | None \<Rightarrow> [])"

definition has_pubkey :: "string \<Rightarrow> json \<Rightarrow> bool" where
  "has_pubkey pubkey a \<longleftrightarrow> json_get a ''pubkey'' = Some (JStr pubkey)"

text \<open>\<open>accounts.findIndex((a) => a.pubkey === pubkey)\<close>.\<close>

fun account_index :: "string \<Rightarrow> json list \<Rightarrow> js_error + nat option" where
  "account_index pubkey [] = Inr None"
| "account_index pubkey (a # as) =
     (if a = JNull then Inl LibError
      else if has_pubkey pubkey a then Inr (Some 0)
      else map_sum id (map_option Suc) (account_index pubkey as))"

definition account_find :: "string \<Rightarrow> json list \<Rightarrow> js_error + json option" where
  "account_find pubkey as = map_sum id (map_option (\<lambda>i. as ! i)) (account_index pubkey as)"

definition saveAccount :: "nostr_lib \<Rightarrow> int \<Rightarrow> string \<Rightarrow> string \<Rightarrow> local_storage \<Rightarrow> js_error + local_storage" where
  "saveAccount L now pubkey nsec st =
     (let accounts = getAccounts st
      in try_bind (lib_call (nl_npubEncode L pubkey)) (\<lambda>npub.
         try_bind (account_index pubkey accounts) (\<lambda>idx.
           let a = account_json \<lparr>sa_pubkey = pubkey, sa_nsec = nsec, sa_npub = npub, sa_addedAt = now\<rparr>;
               accounts' = (case idx of Some i \<Rightarrow> accounts[i := a] | None \<Rightarrow> accounts @ [a])
           in Inr (st\<lparr>ls_accounts := Some (Some (JArr accounts'))\<rparr>))))"

definition removeAccount :: "string \<Rightarrow> local_storage \<Rightarrow> js_error + local_storage" where
  "removeAccount pubkey st =
     (let accounts = getAccounts st
      in if JNull \<in> set accounts then Inl LibError
         else Inr (st\<lparr>ls_accounts := Some (Some (JArr (filter (\<lambda>a. \<not> has_pubkey pubkey a) accounts)))\<rparr>))"

definition getLastAccount :: "local_storage \<Rightarrow> string option" where
  "getLastAccount st = ls_last st"

definition setLastAccount :: "string \<Rightarrow> local_storage \<Rightarrow> local_storage" where
  "setLastAccount pubkey st = st\<lparr>ls_last := Some pubkey\<rparr>"

definition clearLastAccount :: "local_storage \<Rightarrow> local_storage" where
  "clearLastAccount st = st\<lparr>ls_last := None\<rparr>"

definition getEphemeralNsec :: "local_storage \<Rightarrow> string option" where
  "getEphemeralNsec st = ls_ephemeral st"

definition setEphemeralNsec :: "string \<Rightarrow> local_storage \<Rightarrow> local_storage" where
  "setEphemeralNsec nsec st = st\<lparr>ls_ephemeral := Some nsec\<rparr>"

text \<open>\<open>generateEphemeral\<close>, given the drawn key: the key is stored before its \<open>npub\<close> is encoded.\<close>

definition generateEphemeral :: "nostr_lib \<Rightarrow> bytes \<Rightarrow> local_storage \<Rightarrow> (js_error + Keypair) \<times> local_storage" where
  "generateEphemeral L sk st =
     (case try_bind (lib_call (nl_getPublicKey L sk)) (\<lambda>pk.
           try_bind (lib_call (nl_nsecEncode L sk)) (\<lambda>nsec. Inr (pk, nsec))) of
        Inl e \<Rightarrow> (Inl e, st)
      | Inr (pk, nsec) \<Rightarrow>
          (try_bind (lib_call (nl_npubEncode L pk)) (\<lambda>npub.
             Inr \<lparr>kp_secretKey = sk, kp_pubkey = pk, kp_nsec = nsec, kp_npub = npub\<rparr>),
           setEphemeralNsec nsec st))"

section \<open>Seeds\<close>

text \<open>\<open>seed.set(src, off)\<close> on a byte array: a source that does not fit throws.\<close>

definition typed_set :: "nat \<Rightarrow> bytes \<Rightarrow> bytes \<Rightarrow> js_error + bytes" where
  "typed_set off src arr =
     (if off + length src \<le> length arr
      then Inr (take off arr @ src @ drop (off + length src) arr) else Inl LibError)"

definition nsecToSeed :: "nostr_lib \<Rightarrow> string \<Rightarrow> js_error + bytes" where
  "nsecToSeed L nsec =
     try_bind (lib_call (nl_decode L nsec)) (\<lambda>decoded.
       case decoded of
         DNsec sk \<Rightarrow> try_bind (typed_set 0 sk (replicate 64 0)) (typed_set 32 sk)
       | _ \<Rightarrow> Inl (JsError ''Expected nsec''))"

definition getWalletSeed :: "nostr_lib \<Rightarrow> bytes \<Rightarrow> local_storage \<Rightarrow> js_error + (bytes \<times> local_storage)" where
  "getWalletSeed L random st =
     (let fresh = Inr (random, st\<lparr>ls_seed := Some (nl_bytesToHex L random)\<rparr>)
      in case ls_seed st of
           Some stored \<Rightarrow>
             if stored \<noteq> [] then
               try_bind (lib_call (nl_hexToBytes L stored)) (\<lambda>bs. if length bs = 64 then Inr (bs, st) else fresh)
             else fresh
         | None \<Rightarrow> fresh)"

section \<open>The account store\<close>

text \<open>What the session relies on: the account of a key is the one saved last, until it is removed.\<close>

locale account_store =
  fixes ok :: "'s \<Rightarrow> bool"
    and lookup :: "'s \<Rightarrow> 'k \<Rightarrow> 'a option"
    and save :: "'k \<Rightarrow> 'a \<Rightarrow> 's \<Rightarrow> 's"
    and remove :: "'k \<Rightarrow> 's \<Rightarrow> 's"
  assumes ok_save: "ok st \<Longrightarrow> ok (save k a st)"
    and ok_remove: "ok st \<Longrightarrow> ok (remove k st)"
    and lookup_save: "ok st \<Longrightarrow> lookup (save k a st) k' = (if k' = k then Some a else lookup st k')"
    and lookup_remove: "ok st \<Longrightarrow> lookup (remove k st) k' = (if k' = k then None else lookup st k')"
begin

lemma ok_saves: "ok st \<Longrightarrow> ok (fold (\<lambda>(k, a). save k a) kas st)"
  by (induction kas arbitrary: st) (auto simp: ok_save)

lemma lookup_saves:
  "ok st \<Longrightarrow> lookup (fold (\<lambda>(k, a). save k a) kas st) k =
     (case map_of (rev kas) k of Some a \<Rightarrow> Some a | None \<Rightarrow> lookup st k)"
proof (induction kas arbitrary: st)
  case (Cons ka kas)
  obtain k' a where ka: "ka = (k', a)" by force
  show ?case
    using Cons.IH [OF ok_save [OF Cons.prems, of k' a]] lookup_save [OF Cons.prems]
    by (simp add: ka map_add_def split: option.splits)
qed simp

lemma save_remove: "ok st \<Longrightarrow> lookup (remove k (save k a st)) k' = lookup (remove k st) k'"
  by (simp add: lookup_remove ok_save lookup_save)

end

text \<open>The lists of accounts in which no entry is \<open>null\<close>, and the two updates on them.\<close>

definition put_account :: "string \<Rightarrow> json \<Rightarrow> json list \<Rightarrow> json list" where
  "put_account pubkey a as =
     (case account_index pubkey as of Inr (Some i) \<Rightarrow> as[i := a] | _ \<Rightarrow> as @ [a])"

definition lookup_account :: "json list \<Rightarrow> string \<Rightarrow> json option" where
  "lookup_account as pubkey = List.find (has_pubkey pubkey) as"

lemma account_index_no_null: "JNull \<notin> set as \<Longrightarrow> \<exists>i. account_index pubkey as = Inr i"
  by (induction as) auto

lemma account_index_Some:
  "account_index pubkey as = Inr (Some i) \<Longrightarrow> i < length as \<and> has_pubkey pubkey (as ! i)"
proof (induction as arbitrary: i)
  case (Cons a as)
  then show ?case by (cases "account_index pubkey as") (auto split: if_splits)
qed simp

lemma account_index_find:
  "JNull \<notin> set as \<Longrightarrow> account_find pubkey as = Inr (lookup_account as pubkey)"
proof (induction as)
  case Nil
  then show ?case by (simp add: account_find_def lookup_account_def)
next
  case (Cons a as)
  then show ?case
    by (cases "account_index pubkey as") (auto simp: account_find_def lookup_account_def option.map_comp comp_def)
qed

lemma has_pubkey_inj: "has_pubkey p a \<Longrightarrow> has_pubkey q a \<Longrightarrow> p = q"
  by (simp add: has_pubkey_def)

lemma lookup_put_account:
  assumes "has_pubkey pubkey a" "JNull \<notin> set as"
  shows "lookup_account (put_account pubkey a as) k = (if k = pubkey then Some a else lookup_account as k)"
  using assms(2)
proof (induction as)
  case Nil
  then show ?case using assms(1) has_pubkey_inj by (auto simp: put_account_def lookup_account_def)
next
  case (Cons b as)
  then obtain i where i: "account_index pubkey as = Inr i" using account_index_no_null by auto
  show ?case
    using Cons i assms(1) has_pubkey_inj [of k] has_pubkey_inj [of pubkey]
    by (cases i) (auto simp: put_account_def lookup_account_def split: if_splits)
qed

lemma lookup_filter_account:
  "lookup_account (filter (\<lambda>a. \<not> has_pubkey pubkey a) as) k = (if k = pubkey then None else lookup_account as k)"
  by (induction as) (auto simp: lookup_account_def dest: has_pubkey_inj)

lemma no_null_put: "JNull \<notin> set as \<Longrightarrow> has_pubkey pubkey a \<Longrightarrow> JNull \<notin> set (put_account pubkey a as)"
  by (auto simp: put_account_def has_pubkey_def split: sum.split option.split dest: set_update_subset_insert [THEN subsetD])

text \<open>The stored accounts of a storage, with the updates of the code where they do not throw.\<close>

definition storage_ok :: "local_storage \<Rightarrow> bool" where
  "storage_ok st \<longleftrightarrow> JNull \<notin> set (getAccounts st)"

definition saved_account :: "nostr_lib \<Rightarrow> int \<Rightarrow> string \<Rightarrow> string \<Rightarrow> json" where
  "saved_account L now pubkey nsec = account_json \<lparr>sa_pubkey = pubkey, sa_nsec = nsec,
     sa_npub = nullish (nl_npubEncode L pubkey) [], sa_addedAt = now\<rparr>"

definition store_account :: "nostr_lib \<Rightarrow> string \<Rightarrow> int \<times> string \<Rightarrow> local_storage \<Rightarrow> local_storage" where
  "store_account L pubkey a st =
     st\<lparr>ls_accounts := Some (Some (JArr (put_account pubkey (saved_account L (fst a) pubkey (snd a)) (getAccounts st))))\<rparr>"

definition drop_account :: "string \<Rightarrow> local_storage \<Rightarrow> local_storage" where
  "drop_account pubkey st =
     st\<lparr>ls_accounts := Some (Some (JArr (filter (\<lambda>a. \<not> has_pubkey pubkey a) (getAccounts st))))\<rparr>"

definition stored_nsec :: "local_storage \<Rightarrow> string \<Rightarrow> string option" where
  "stored_nsec st pubkey = Option.bind (lookup_account (getAccounts st) pubkey) (\<lambda>a. json_string (json_get a ''nsec''))"

lemma getAccounts_set [simp]:
  "getAccounts (st\<lparr>ls_accounts := Some (Some (JArr as))\<rparr>) = as" "getAccounts (st\<lparr>ls_last := l\<rparr>) = getAccounts st"
  "getAccounts (st\<lparr>ls_ephemeral := e\<rparr>) = getAccounts st" "getAccounts (st\<lparr>ls_seed := e\<rparr>) = getAccounts st"
  by (simp_all add: getAccounts_def json_array_def)

lemma saved_account_members [simp]:
  "has_pubkey k (saved_account L now pubkey nsec) \<longleftrightarrow> k = pubkey"
  "json_get (saved_account L now pubkey nsec) ''nsec'' = Some (JStr nsec)"
  by (auto simp: saved_account_def account_json_def has_pubkey_def json_get_def)

interpretation accounts: account_store storage_ok stored_nsec "\<lambda>k n. store_account L k (now, n)" drop_account for L now
proof
  fix st k a k'
  assume ok: "storage_ok st"
  show "storage_ok (store_account L k (now, a) st)"
    using ok no_null_put [of "getAccounts st" k] by (simp add: storage_ok_def store_account_def)
  show "storage_ok (drop_account k st)"
    using ok by (simp add: storage_ok_def drop_account_def)
  show "stored_nsec (store_account L k (now, a) st) k' = (if k' = k then Some a else stored_nsec st k')"
    using ok lookup_put_account [of k "saved_account L now k a" "getAccounts st"]
    by (simp add: stored_nsec_def store_account_def storage_ok_def json_string_def)
  show "stored_nsec (drop_account k st) k' = (if k' = k then None else stored_nsec st k')"
    by (simp add: stored_nsec_def drop_account_def lookup_filter_account)
qed

lemma saveAccount_store:
  assumes "storage_ok st" "nl_npubEncode L pubkey = Some npub"
  shows "saveAccount L now pubkey nsec st = Inr (store_account L pubkey (now, nsec) st)"
proof -
  obtain i where i: "account_index pubkey (getAccounts st) = Inr i"
    using assms(1) account_index_no_null by (auto simp: storage_ok_def)
  show ?thesis
    using assms(2) i
    by (cases i) (auto simp: saveAccount_def store_account_def put_account_def saved_account_def Let_def)
qed

lemma removeAccount_drop: "storage_ok st \<Longrightarrow> removeAccount pubkey st = Inr (drop_account pubkey st)"
  by (simp add: removeAccount_def drop_account_def storage_ok_def Let_def)

section \<open>Properties\<close>

text \<open>The documented behaviour of the coding functions of nostr-tools: an encoded secret key decodes to
  itself, hexadecimal text has two lower case digits for each byte and reads back.\<close>

definition codec_ok :: "nostr_lib \<Rightarrow> bool" where
  "codec_ok L \<longleftrightarrow> (\<forall>sk n. nl_nsecEncode L sk = Some n \<longrightarrow> nl_decode L n = Some (DNsec sk)) \<and>
     (\<forall>bs. nl_bytesToHex L bs = concat (map byte_hex bs)) \<and>
     (\<forall>bs. nl_hexToBytes L (concat (map byte_hex bs)) = Some bs)"

definition codec_lib :: nostr_lib where
  "codec_lib = \<lparr>nl_npubEncode = (\<lambda>pk. Some (''npub1'' @ pk)),
     nl_nsecEncode = (\<lambda>sk. Some (''nsec1'' @ concat (map byte_hex sk))),
     nl_decode = (\<lambda>s. if startsWith s ''nsec1'' then Some (DNsec (hexToBytes (drop 5 s)))
       else if startsWith s ''npub1'' then Some (DNpub (drop 5 s)) else None),
     nl_getPublicKey = (\<lambda>sk. Some (concat (map byte_hex sk))), nl_bytesToHex = (\<lambda>bs. concat (map byte_hex bs)),
     nl_hexToBytes = (\<lambda>s. Some (hexToBytes s))\<rparr>"

lemma codec_lib_ok: "codec_ok codec_lib"
  by (auto simp: codec_ok_def codec_lib_def hexToBytes_byte_hex)

lemma length_hex_bytes: "length (concat (map byte_hex bs)) = 2 * length bs"
  by (induction bs) (simp_all add: byte_hex_def)

text \<open>
  The list of saved accounts is a map from keys to secret keys: saving replaces or adds the one
  account, removing takes exactly it away.
\<close>

theorem account_updates:
  assumes "storage_ok st" "nl_npubEncode L pubkey \<noteq> None"
  shows "(\<exists>st'. saveAccount L now pubkey nsec st = Inr st' \<and> storage_ok st' \<and>
      (\<forall>k. stored_nsec st' k = (if k = pubkey then Some nsec else stored_nsec st k))) \<and>
    (\<exists>st'. removeAccount pubkey st = Inr st' \<and> storage_ok st' \<and>
      (\<forall>k. stored_nsec st' k = (if k = pubkey then None else stored_nsec st k)))"
  using assms saveAccount_store [of st L pubkey] removeAccount_drop [of st pubkey]
    accounts.ok_save accounts.ok_remove accounts.lookup_save accounts.lookup_remove by auto

theorem account_updates_witness:
  "(\<exists>st'. saveAccount codec_lib 5 ''ab'' ''nsec1ab'' empty_storage = Inr st' \<and> storage_ok st' \<and>
      (\<forall>k. stored_nsec st' k = (if k = ''ab'' then Some ''nsec1ab'' else stored_nsec empty_storage k)))"
proof -
  have "storage_ok empty_storage" by (simp add: storage_ok_def getAccounts_def empty_storage_def)
  moreover have "nl_npubEncode codec_lib ''ab'' \<noteq> None" by (simp add: codec_lib_def)
  ultimately show ?thesis using account_updates [of empty_storage codec_lib "''ab''" 5 "''nsec1ab''"] by blast
qed

text \<open>
  The wallet's seed is drawn once: the seed that a call returns is stored, and every later call
  returns it, whatever the random source would give.
\<close>

theorem getWalletSeed_stable:
  assumes "codec_ok L" "length random = 64" "getWalletSeed L random st = Inr (seed, st')"
  shows "length seed = 64 \<and> getWalletSeed L random' st' = Inr (seed, st')"
proof (cases "ls_seed st = None \<or> ls_seed st = Some [] \<or>
    (\<exists>stored bs. ls_seed st = Some stored \<and> nl_hexToBytes L stored = Some bs \<and> length bs \<noteq> 64)")
  case True
  then have r: "seed = random" "st' = st\<lparr>ls_seed := Some (nl_bytesToHex L random)\<rparr>"
    using assms(3) by (auto simp: getWalletSeed_def Let_def split: if_splits)
  have "length (nl_bytesToHex L random) = 128"
    using assms(1,2) length_hex_bytes [of random] by (simp add: codec_ok_def)
  then have "nl_bytesToHex L random \<noteq> []" by force
  then show ?thesis using assms(1,2) by (simp add: r getWalletSeed_def codec_ok_def)
next
  case False
  then show ?thesis
    using assms(3) by (auto simp: getWalletSeed_def Let_def lib_call_def split: option.splits if_splits)
qed

theorem getWalletSeed_stable_witness:
  "\<exists>seed st'. getWalletSeed codec_lib (replicate 64 7) empty_storage = Inr (seed, st') \<and> length seed = 64 \<and>
     getWalletSeed codec_lib [] st' = Inr (seed, st')"
proof -
  obtain seed st' where r: "getWalletSeed codec_lib (replicate 64 7) empty_storage = Inr (seed, st')"
    by (simp add: getWalletSeed_def empty_storage_def Let_def)
  from getWalletSeed_stable [OF codec_lib_ok _ r] r show ?thesis by auto
qed

text \<open>
  The seed derived from a secret key of 32 bytes is the key written twice.
\<close>

theorem nsecToSeed_twice:
  assumes "nl_decode L nsec = Some (DNsec sk)" "length sk = 32"
  shows "nsecToSeed L nsec = Inr (sk @ sk)"
  using assms by (simp add: nsecToSeed_def typed_set_def)

theorem nsecToSeed_twice_witness:
  "nsecToSeed codec_lib (''nsec1'' @ concat (map byte_hex (replicate 32 7))) = Inr (replicate 32 7 @ replicate 32 7)"
proof -
  have "nl_decode codec_lib (''nsec1'' @ concat (map byte_hex (replicate 32 7))) = Some (DNsec (replicate 32 7))"
    using hexToBytes_byte_hex [of "replicate 32 7"] by (simp add: codec_lib_def)
  from nsecToSeed_twice [OF this] show ?thesis by simp
qed

end
