(* ===== verification/Reg_Session.thy ===== *)
theory Reg_Session
  imports Reg_Identity
begin

text \<open>
  \<open>nodns-registrar/src/contexts/IdentityContext.tsx\<close>: the registrar's login state, a React context. Its
  state is one record; an operation is a function from the state to the error it throws, if any, and the
  next state. A callback sees the state of the render it was made in: the effect that runs on mounting
  tests the session of the first render.
\<close>

section \<open>State\<close>

datatype AuthMethod = AuthNsec | AuthExtension | AuthEphemeral

record Session =
  se_pubkey :: string
  se_secretKeyHex :: "string option"
  se_authMethod :: AuthMethod

record identity_ctx =
  ic_storage :: local_storage
  ic_session :: "Session option"
  ic_extension :: bool
  ic_accounts :: "json list"
  ic_loading :: bool
  ic_nsec :: "string option"

definition first_render :: "local_storage \<Rightarrow> identity_ctx" where
  "first_render st = \<lparr>ic_storage = st, ic_session = None, ic_extension = False, ic_accounts = [],
     ic_loading = True, ic_nsec = None\<rparr>"

type_synonym step_result = "js_error option \<times> identity_ctx"

definition login_key :: "nostr_lib \<Rightarrow> AuthMethod \<Rightarrow> string \<Rightarrow> Keypair \<Rightarrow> identity_ctx \<Rightarrow> identity_ctx" where
  "login_key L authMethod nsec k ctx =
     ctx\<lparr>ic_nsec := Some nsec,
       ic_session := Some \<lparr>se_pubkey = kp_pubkey k, se_secretKeyHex = Some (nl_bytesToHex L (kp_secretKey k)),
         se_authMethod = authMethod\<rparr>\<rparr>"

text \<open>\<open>decodeNsec(account.nsec)\<close>: a field that is not a text makes the decoder throw.\<close>

definition decode_account :: "nostr_lib \<Rightarrow> json \<Rightarrow> js_error + string \<times> Keypair" where
  "decode_account L a =
     (case json_string (json_get a ''nsec'') of
        None \<Rightarrow> Inl LibError
      | Some nsec \<Rightarrow> map_sum id (\<lambda>k. (nsec, k)) (decodeNsec L nsec))"

section \<open>Mounting\<close>

definition mount_saved :: "nostr_lib \<Rightarrow> identity_ctx \<Rightarrow> js_error + identity_ctx" where
  "mount_saved L ctx =
     (let lastPubkey = getLastAccount (ic_storage ctx)
      in if \<not> truthy lastPubkey then Inr ctx
         else try_bind (account_find (the lastPubkey) (getAccounts (ic_storage ctx))) (\<lambda>account.
           case account of
             None \<Rightarrow> Inr ctx
           | Some a \<Rightarrow> (case decode_account L a of
               Inl _ \<Rightarrow> Inr ctx
             | Inr (nsec, k) \<Rightarrow> Inr (login_key L AuthNsec nsec k ctx))))"

definition mount_ephemeral :: "nostr_lib \<Rightarrow> Session option \<Rightarrow> identity_ctx \<Rightarrow> identity_ctx" where
  "mount_ephemeral L rendered ctx =
     (if rendered \<noteq> None then ctx
      else
        let ephemeralNsec = getEphemeralNsec (ic_storage ctx)
        in if \<not> truthy ephemeralNsec then ctx
           else (case decodeNsec L (the ephemeralNsec) of
               Inl _ \<Rightarrow> ctx
             | Inr k \<Rightarrow> login_key L AuthEphemeral (the ephemeralNsec) k ctx))"

text \<open>\<open>extensionNow\<close> is the first test for a browser extension; the timer's later tests are a step of
  their own.\<close>

definition mount_effect :: "nostr_lib \<Rightarrow> bool \<Rightarrow> identity_ctx \<Rightarrow> step_result" where
  "mount_effect L extensionNow ctx =
     (let rendered = ic_session ctx;
          ctx1 = ctx\<lparr>ic_accounts := getAccounts (ic_storage ctx), ic_extension := ic_extension ctx \<or> extensionNow\<rparr>
      in case mount_saved L ctx1 of
           Inl e \<Rightarrow> (Some e, ctx1)
         | Inr ctx2 \<Rightarrow> (None, (mount_ephemeral L rendered ctx2)\<lparr>ic_loading := False\<rparr>))"

text \<open>The timer: the extension is tested every 100 ms until it is there or 21 tests are done.\<close>

definition extension_poll :: "(nat \<Rightarrow> bool) \<Rightarrow> identity_ctx \<Rightarrow> identity_ctx" where
  "extension_poll available ctx = (if list_ex available [1 ..< 22] then ctx\<lparr>ic_extension := True\<rparr> else ctx)"

section \<open>Operations\<close>

definition loginWithExtension :: "bool \<Rightarrow> string option \<Rightarrow> identity_ctx \<Rightarrow> step_result" where
  "loginWithExtension available pk ctx =
     (if \<not> available then (Some (JsError ''No Nostr extension found''), ctx)
      else case pk of
          None \<Rightarrow> (Some LibError, ctx)
        | Some pk \<Rightarrow> (None, ctx\<lparr>ic_storage := setLastAccount pk (ic_storage ctx), ic_nsec := None,
            ic_session := Some \<lparr>se_pubkey = pk, se_secretKeyHex = None, se_authMethod = AuthExtension\<rparr>\<rparr>))"

definition loginWithNsec :: "nostr_lib \<Rightarrow> int \<Rightarrow> string \<Rightarrow> bool \<Rightarrow> identity_ctx \<Rightarrow> step_result" where
  "loginWithNsec L now nsec remember ctx =
     (case decodeNsec L nsec of
        Inl e \<Rightarrow> (Some e, ctx)
      | Inr k \<Rightarrow>
          (case (if remember then saveAccount L now (kp_pubkey k) nsec (ic_storage ctx) else Inr (ic_storage ctx)) of
             Inl e \<Rightarrow> (Some e, ctx)
           | Inr st \<Rightarrow>
               (None, login_key L AuthNsec nsec k
                  (ctx\<lparr>ic_storage := setLastAccount (kp_pubkey k) st,
                    ic_accounts := (if remember then getAccounts st else ic_accounts ctx)\<rparr>))))"

definition loginWithEphemeral :: "nostr_lib \<Rightarrow> bytes \<Rightarrow> identity_ctx \<Rightarrow> step_result" where
  "loginWithEphemeral L sk ctx =
     (case generateEphemeral L sk (ic_storage ctx) of
        (Inl e, st) \<Rightarrow> (Some e, ctx\<lparr>ic_storage := st\<rparr>)
      | (Inr k, st) \<Rightarrow>
          (None, login_key L AuthEphemeral (kp_nsec k) k (ctx\<lparr>ic_storage := setLastAccount (kp_pubkey k) st\<rparr>)))"

definition loginWithSavedAccount :: "nostr_lib \<Rightarrow> string \<Rightarrow> identity_ctx \<Rightarrow> step_result" where
  "loginWithSavedAccount L pubkey ctx =
     (case account_find pubkey (getAccounts (ic_storage ctx)) of
        Inl e \<Rightarrow> (Some e, ctx)
      | Inr None \<Rightarrow> (Some (JsError ''Account not found''), ctx)
      | Inr (Some a) \<Rightarrow>
          (case decode_account L a of
             Inl e \<Rightarrow> (Some e, ctx)
           | Inr (nsec, k) \<Rightarrow>
               (None, login_key L AuthNsec nsec k (ctx\<lparr>ic_storage := setLastAccount pubkey (ic_storage ctx)\<rparr>))))"

definition generateNewKey :: "nostr_lib \<Rightarrow> bytes \<Rightarrow> identity_ctx \<Rightarrow> step_result" where
  "generateNewKey L sk ctx = loginWithEphemeral L sk ctx"

definition logout :: "identity_ctx \<Rightarrow> identity_ctx" where
  "logout ctx = ctx\<lparr>ic_storage := clearLastAccount (ic_storage ctx), ic_nsec := None, ic_session := None\<rparr>"

definition removeSavedAccount :: "string \<Rightarrow> identity_ctx \<Rightarrow> step_result" where
  "removeSavedAccount pubkey ctx =
     (case removeAccount pubkey (ic_storage ctx) of
        Inl e \<Rightarrow> (Some e, ctx)
      | Inr st \<Rightarrow> (None, ctx\<lparr>ic_storage := st, ic_accounts := getAccounts st\<rparr>))"

text \<open>\<open>match(/[\da-f]{2}/gi)\<close>: the pairs of hexadecimal digits from the left, without overlap.\<close>

fun hex_pairs :: "string \<Rightarrow> string list" where
  "hex_pairs (a # b # s) = (if is_hex a \<and> is_hex b then [a, b] # hex_pairs s else hex_pairs (b # s))"
| "hex_pairs s = []"

text \<open>The secret key in the context's value; no pair at all would make the code throw.\<close>

definition ctx_secretKey :: "identity_ctx \<Rightarrow> js_error + bytes option" where
  "ctx_secretKey ctx =
     (let hex = Option.bind (ic_session ctx) se_secretKeyHex
      in if \<not> truthy hex then Inr None
         else if hex_pairs (the hex) = [] then Inl LibError
         else Inr (Some (map (\<lambda>h. to_byte (parseInt16 h)) (hex_pairs (the hex)))))"

section \<open>Runs\<close>

inductive identity_run :: "nostr_lib \<Rightarrow> identity_ctx \<Rightarrow> bool" for L where
  run_start: "identity_run L (first_render st)"
| run_mount: "identity_run L ctx \<Longrightarrow> identity_run L (snd (mount_effect L ext ctx))"
| run_poll: "identity_run L ctx \<Longrightarrow> identity_run L (extension_poll available ctx)"
| run_extension: "identity_run L ctx \<Longrightarrow> identity_run L (snd (loginWithExtension available pk ctx))"
| run_nsec: "identity_run L ctx \<Longrightarrow> identity_run L (snd (loginWithNsec L now nsec remember ctx))"
| run_ephemeral: "identity_run L ctx \<Longrightarrow> identity_run L (snd (loginWithEphemeral L sk ctx))"
| run_new_key: "identity_run L ctx \<Longrightarrow> identity_run L (snd (generateNewKey L sk ctx))"
| run_saved: "identity_run L ctx \<Longrightarrow> identity_run L (snd (loginWithSavedAccount L pubkey ctx))"
| run_logout: "identity_run L ctx \<Longrightarrow> identity_run L (logout ctx)"
| run_remove: "identity_run L ctx \<Longrightarrow> identity_run L (snd (removeSavedAccount pubkey ctx))"

text \<open>The key the context holds is the key of the session.\<close>

definition session_sound :: "nostr_lib \<Rightarrow> identity_ctx \<Rightarrow> bool" where
  "session_sound L ctx \<longleftrightarrow>
     (case ic_session ctx of
        None \<Rightarrow> ic_nsec ctx = None
      | Some s \<Rightarrow>
          if se_authMethod s = AuthExtension then ic_nsec ctx = None \<and> se_secretKeyHex s = None
          else (\<exists>nsec k. ic_nsec ctx = Some nsec \<and> decodeNsec L nsec = Inr k \<and> se_pubkey s = kp_pubkey k \<and>
            se_secretKeyHex s = Some (nl_bytesToHex L (kp_secretKey k))))"

lemma session_sound_login:
  "decodeNsec L nsec = Inr k \<Longrightarrow> m \<noteq> AuthExtension \<Longrightarrow> session_sound L (login_key L m nsec k ctx)"
  by (simp add: session_sound_def login_key_def)

lemma session_sound_irrelevant [simp]:
  "session_sound L (ctx\<lparr>ic_storage := st\<rparr>) = session_sound L ctx"
  "session_sound L (ctx\<lparr>ic_accounts := as\<rparr>) = session_sound L ctx"
  "session_sound L (ctx\<lparr>ic_extension := b\<rparr>) = session_sound L ctx"
  "session_sound L (ctx\<lparr>ic_loading := b\<rparr>) = session_sound L ctx"
  by (cases "ic_session ctx"; simp add: session_sound_def)+

lemma decodeNsec_npub:
  assumes "decodeNsec L nsec = Inr k" shows "\<exists>npub. nl_npubEncode L (kp_pubkey k) = Some npub"
proof -
  obtain d where "nl_decode L nsec = Some d" using assms by (auto simp: decodeNsec_def try_bind_Inr_iff lib_call_Inr_iff)
  then show ?thesis using assms by (cases d) (auto simp: decodeNsec_def try_bind_Inr_iff lib_call_Inr_iff)
qed

lemma decode_account_decodes:
  assumes "decode_account L a = Inr (nsec, k)" shows "decodeNsec L nsec = Inr k"
proof (cases "json_string (json_get a ''nsec'')")
  case (Some n)
  with assms show ?thesis by (cases "decodeNsec L n") (auto simp: decode_account_def)
qed (use assms in \<open>simp add: decode_account_def\<close>)

lemma generateEphemeral_decodes:
  assumes "codec_ok L" "generateEphemeral L sk st = (Inr k, st')"
  shows "\<exists>k'. decodeNsec L (kp_nsec k) = Inr k' \<and> kp_pubkey k' = kp_pubkey k \<and> kp_secretKey k' = kp_secretKey k"
  using assms
  by (auto simp: generateEphemeral_def codec_ok_def decodeNsec_def try_bind_Inr_iff lib_call_Inr_iff split: sum.splits)

section \<open>Properties\<close>

lemma mount_saved_total:
  assumes "storage_ok (ic_storage ctx)"
  shows "\<exists>c. mount_saved L ctx = Inr c \<and> ic_storage c = ic_storage ctx"
  using assms account_index_find [of "getAccounts (ic_storage ctx)" "the (getLastAccount (ic_storage ctx))"]
  by (auto simp: mount_saved_def Let_def storage_ok_def login_key_def split: option.split sum.split)

lemma mount_saved_sound:
  assumes "mount_saved L ctx = Inr ctx2" "session_sound L ctx" shows "session_sound L ctx2"
proof (cases "truthy (getLastAccount (ic_storage ctx))")
  case True
  with assms(1) obtain acc where
    f: "account_find (the (getLastAccount (ic_storage ctx))) (getAccounts (ic_storage ctx)) = Inr acc"
    by (auto simp: mount_saved_def Let_def try_bind_Inr_iff)
  show ?thesis
  proof (cases acc)
    case (Some a)
    with assms True f show ?thesis
      by (cases "decode_account L a")
        (auto simp: mount_saved_def Let_def session_sound_login dest: decode_account_decodes)
  qed (use assms True f in \<open>simp add: mount_saved_def Let_def\<close>)
qed (use assms in \<open>simp add: mount_saved_def Let_def\<close>)

lemma mount_effect_sound:
  assumes "session_sound L ctx" shows "session_sound L (snd (mount_effect L ext ctx))"
proof (cases "mount_saved L (ctx\<lparr>ic_accounts := getAccounts (ic_storage ctx), ic_extension := ic_extension ctx \<or> ext\<rparr>)")
  case (Inl e)
  then show ?thesis using assms by (simp add: mount_effect_def Let_def)
next
  case (Inr ctx2)
  have "session_sound L ctx2" using mount_saved_sound [OF Inr] assms by simp
  then have "session_sound L (mount_ephemeral L rendered ctx2)" for rendered
    by (auto simp: mount_ephemeral_def Let_def session_sound_login split: sum.splits)
  with Inr show ?thesis by (simp add: mount_effect_def Let_def)
qed

lemma loginWithEphemeral_sound:
  assumes "codec_ok L" "session_sound L ctx" shows "session_sound L (snd (loginWithEphemeral L sk ctx))"
proof (cases "generateEphemeral L sk (ic_storage ctx)")
  case (Pair r st)
  show ?thesis
  proof (cases r)
    case (Inr k)
    with Pair generateEphemeral_decodes [OF assms(1)] obtain k' where
      "decodeNsec L (kp_nsec k) = Inr k'" "kp_pubkey k' = kp_pubkey k" "kp_secretKey k' = kp_secretKey k" by blast
    with Pair Inr show ?thesis
      by (simp add: loginWithEphemeral_def login_key_def session_sound_def)
  qed (use assms Pair in \<open>simp add: loginWithEphemeral_def\<close>)
qed

text \<open>
  C14. Whatever is done, the session and the key in the context belong together: without a session there is
  no key, an extension session keeps none, and any other session has the public and the secret key that
  the context's \<open>nsec\<close> decodes to.
\<close>

theorem identity_session_sound:
  assumes "codec_ok L" "identity_run L ctx"
  shows "session_sound L ctx"
  using assms(2)
proof induction
  case (run_start st)
  then show ?case by (simp add: session_sound_def first_render_def)
next
  case (run_mount ctx ext)
  then show ?case by (simp add: mount_effect_sound)
next
  case (run_poll ctx available)
  then show ?case by (simp add: extension_poll_def)
next
  case (run_extension ctx available pk)
  then show ?case by (auto simp: loginWithExtension_def session_sound_def split: option.split)
next
  case (run_nsec ctx now nsec remember)
  then show ?case
    by (auto simp: loginWithNsec_def session_sound_login split: sum.split)
next
  case (run_ephemeral ctx sk)
  then show ?case by (simp add: loginWithEphemeral_sound assms(1))
next
  case (run_new_key ctx sk)
  then show ?case by (simp add: generateNewKey_def loginWithEphemeral_sound assms(1))
next
  case (run_saved ctx pubkey)
  then show ?case
    by (auto simp: loginWithSavedAccount_def session_sound_login dest!: decode_account_decodes
        split: sum.split option.split)
next
  case (run_logout ctx)
  then show ?case by (simp add: logout_def session_sound_def)
next
  case (run_remove ctx pubkey)
  then show ?case by (auto simp: removeSavedAccount_def split: sum.split)
qed

theorem identity_session_sound_witness:
  "session_sound codec_lib (logout (snd (loginWithEphemeral codec_lib (replicate 32 7) (first_render empty_storage))))"
  by (intro identity_session_sound codec_lib_ok run_logout run_ephemeral run_start)

text \<open>
  On mounting, a stored ephemeral key always wins: the effect tests the session of the first render,
  which is empty, so the session of the account used last, just restored, is replaced.
\<close>

theorem mount_ephemeral_wins:
  assumes "storage_ok st" "ls_ephemeral st = Some n" "n \<noteq> []" "decodeNsec L n = Inr k"
  shows "ic_session (snd (mount_effect L ext (first_render st))) =
    Some \<lparr>se_pubkey = kp_pubkey k, se_secretKeyHex = Some (nl_bytesToHex L (kp_secretKey k)),
      se_authMethod = AuthEphemeral\<rparr>"
proof -
  let ?c = "(first_render st)\<lparr>ic_accounts := getAccounts st, ic_extension := ext\<rparr>"
  obtain c where c: "mount_saved L ?c = Inr c" "ic_storage c = st"
    using mount_saved_total [of ?c L] assms(1) by (auto simp: first_render_def)
  then show ?thesis
    using assms(2-)
    by (simp add: mount_effect_def Let_def mount_ephemeral_def getEphemeralNsec_def login_key_def)
      (simp add: mount_ephemeral_def getEphemeralNsec_def login_key_def first_render_def)
qed

lemma codec_lib_decodeNsec:
  "decodeNsec codec_lib (''nsec1'' @ concat (map byte_hex sk)) =
     Inr \<lparr>kp_secretKey = sk, kp_pubkey = concat (map byte_hex sk), kp_nsec = ''nsec1'' @ concat (map byte_hex sk),
       kp_npub = ''npub1'' @ concat (map byte_hex sk)\<rparr>"
proof -
  have "nl_decode codec_lib (''nsec1'' @ concat (map byte_hex sk)) = Some (DNsec sk)"
    using hexToBytes_byte_hex [of sk] by (simp add: codec_lib_def)
  then show ?thesis by (simp add: decodeNsec_def lib_call_def) (simp add: codec_lib_def)
qed

theorem mount_ephemeral_wins_witness:
  "ic_session (snd (mount_effect codec_lib False (first_render
       (setEphemeralNsec (''nsec1'' @ concat (map byte_hex [7])) (setLastAccount ''ab'' empty_storage))))) \<noteq> None"
proof -
  let ?st = "setEphemeralNsec (''nsec1'' @ concat (map byte_hex [7])) (setLastAccount ''ab'' empty_storage)"
  have "storage_ok ?st" "ls_ephemeral ?st = Some (''nsec1'' @ concat (map byte_hex [7]))"
    by (simp_all add: storage_ok_def getAccounts_def setEphemeralNsec_def setLastAccount_def empty_storage_def)
  from mount_ephemeral_wins [OF this _ codec_lib_decodeNsec] show ?thesis by simp
qed

lemma parseInt16_pairs: "map (\<lambda>h. to_byte (parseInt16 h)) (hex_pairs (concat (map byte_hex bs))) = bs"
proof -
  have "is_hex (hex_char d)" if "d < 16" for d using that by (simp add: is_hex_def)
  then have "hex_pairs (byte_hex b @ s) = byte_hex b # hex_pairs s" for b s
    using unsigned_less [of b, where ?'a = nat] by (simp add: byte_hex_def)
  then have "hex_pairs (concat (map byte_hex bs)) = map byte_hex bs" by (induction bs) simp_all
  moreover have "to_byte (parseInt16 (byte_hex b)) = b" for b
    using hexToBytes_byte_hex [of "[b]"] by (simp add: byte_hex_def)
  ultimately show ?thesis by (simp add: comp_def)
qed

text \<open>
  The secret key that the context hands out, taken from the hexadecimal text of the session, is the
  key that its \<open>nsec\<close> decodes to.
\<close>

theorem ctx_secretKey_round_trip:
  assumes "codec_ok L" "decodeNsec L nsec = Inr k" "kp_secretKey k \<noteq> []"
  shows "ctx_secretKey (login_key L m nsec k ctx) = Inr (Some (kp_secretKey k))"
proof -
  let ?h = "concat (map byte_hex (kp_secretKey k))"
  have "?h \<noteq> []" using assms(3) length_hex_bytes [of "kp_secretKey k"] by (metis length_0_conv mult_eq_0_iff zero_neq_numeral)
  moreover have "hex_pairs ?h \<noteq> []" using parseInt16_pairs [of "kp_secretKey k"] assms(3) by auto
  ultimately show ?thesis
    using assms(1) parseInt16_pairs [of "kp_secretKey k"]
    by (simp add: ctx_secretKey_def login_key_def codec_ok_def)
qed

theorem ctx_secretKey_round_trip_witness:
  "\<exists>ctx. ctx_secretKey ctx = Inr (Some [7])"
  using ctx_secretKey_round_trip [OF codec_lib_ok codec_lib_decodeNsec, of "[7]"] by auto

text \<open>
  A key remembered at login can be used again: after any further logins and logouts that do not touch
  the list of accounts, logging in with the saved account restores the same session.
\<close>

theorem remembered_login:
  assumes "storage_ok (ic_storage ctx)" "loginWithNsec L now nsec True ctx = (None, ctx')" "decodeNsec L nsec = Inr k"
    and "getAccounts (ic_storage later) = getAccounts (ic_storage ctx')"
  shows "\<exists>c. loginWithSavedAccount L (kp_pubkey k) later = (None, c) \<and> ic_session c = ic_session ctx' \<and>
    ic_nsec c = Some nsec"
proof -
  obtain npub where n: "nl_npubEncode L (kp_pubkey k) = Some npub" using decodeNsec_npub [OF assms(3)] by blast
  note s = saveAccount_store [OF assms(1) n, of now nsec]
  let ?st = "store_account L (kp_pubkey k) (now, nsec) (ic_storage ctx)"
  have c: "ctx' = login_key L AuthNsec nsec k (ctx\<lparr>ic_storage := setLastAccount (kp_pubkey k) ?st,
      ic_accounts := getAccounts ?st\<rparr>)"
    using assms(2,3) by (simp add: loginWithNsec_def s)
  have l: "getAccounts (ic_storage later) = getAccounts ?st"
    using assms(4) by (simp add: c login_key_def setLastAccount_def)
  have "storage_ok ?st" by (rule accounts.ok_save [OF assms(1)])
  then have "account_find (kp_pubkey k) (getAccounts ?st) = Inr (lookup_account (getAccounts ?st) (kp_pubkey k))"
    unfolding storage_ok_def by (rule account_index_find)
  moreover have "stored_nsec ?st (kp_pubkey k) = Some nsec"
    using accounts.lookup_save [OF assms(1)] by simp
  then obtain a where "lookup_account (getAccounts ?st) (kp_pubkey k) = Some a" "json_string (json_get a ''nsec'') = Some nsec"
    by (auto simp: stored_nsec_def bind_eq_Some_conv)
  ultimately show ?thesis
    using assms(3) by (simp add: loginWithSavedAccount_def l decode_account_def c login_key_def)
qed

theorem remembered_login_witness:
  "\<exists>ctx' c. loginWithNsec codec_lib 5 (''nsec1'' @ concat (map byte_hex [7])) True (first_render empty_storage) = (None, ctx') \<and>
     loginWithSavedAccount codec_lib (concat (map byte_hex [7])) (logout ctx') = (None, c) \<and> ic_session c = ic_session ctx'"
proof -
  let ?n = "''nsec1'' @ concat (map byte_hex [7])"
  have ok: "storage_ok (ic_storage (first_render empty_storage))"
    by (simp add: storage_ok_def getAccounts_def empty_storage_def first_render_def)
  have "nl_npubEncode codec_lib (concat (map byte_hex [7])) = Some (''npub1'' @ concat (map byte_hex [7]))"
    by (simp add: codec_lib_def)
  note s = saveAccount_store [OF ok this]
  obtain ctx' where l: "loginWithNsec codec_lib 5 ?n True (first_render empty_storage) = (None, ctx')"
    unfolding loginWithNsec_def codec_lib_decodeNsec using s [of 5 ?n] by simp
  have "getAccounts (ic_storage (logout ctx')) = getAccounts (ic_storage ctx')"
    by (simp add: logout_def clearLastAccount_def)
  from remembered_login [OF ok l codec_lib_decodeNsec this] l show ?thesis by auto
qed

end
