(* ===== verification/Reg_Api.thy ===== *)
theory Reg_Api
  imports Sdk_ApiClient
begin

text \<open>
  \<open>nodns-registrar/src/lib/api.ts\<close> and \<open>pricing.ts\<close>: the registrar's own requests to the service and
  its price table. The base address is the parameter \<open>base\<close> (a setting of the build), the network a
  function from the address to the outcome, and \<open>text_of\<close> the text that the language makes of a JSON
  value that is no string.
\<close>

section \<open>Requests\<close>

type_synonym reg_net = "string \<Rightarrow> json fetch_outcome"

text \<open>The status and the body of the answer; a body that is no JSON is \<^const>\<open>None\<close>.\<close>

definition safeFetch :: "reg_net \<Rightarrow> string \<Rightarrow> js_error + int \<times> json option" where
  "safeFetch net url =
     (case net url of
        FetchAbort \<Rightarrow> Inl (JsError ''Request timed out. Please try again.'')
      | FetchFail \<Rightarrow> Inl (JsError ''Unable to connect. Please check your network.'')
      | Reply status body \<Rightarrow> Inr (status, body))"

definition sanitizeError :: "string \<Rightarrow> string" where
  "sanitizeError raw =
     (if str_includes raw ''<'' \<or> str_includes raw ''stack'' then ''Server error. Please try again.''
      else take 200 raw)"

definition reg_fetchPricing :: "reg_net \<Rightarrow> string \<Rightarrow> string \<Rightarrow> js_error + json" where
  "reg_fetchPricing net base zone =
     try_bind (safeFetch net (base @ ''/api/zones/'' @ encodeURIComponent zone @ ''/pricing'')) (\<lambda>(status, body).
       if \<not> response_ok status then Inl (JsError ''Failed to fetch pricing'') else lib_call body)"

record AvailabilityResult =
  av_name :: string
  av_zone :: string
  av_fqdn :: string
  av_available :: bool
  av_price :: "json option"
  av_reason :: "string option"

definition check_url :: "string \<Rightarrow> string \<Rightarrow> string \<Rightarrow> string" where
  "check_url base name zone =
     base @ ''/api/check?name='' @ encodeURIComponent name @ ''&zone='' @ encodeURIComponent zone"

text \<open>\<open>body.error || `HTTP ...`\<close>, where \<open>body\<close> is an empty object if the answer is no JSON.\<close>

definition check_failure :: "(json \<Rightarrow> string) \<Rightarrow> int \<Rightarrow> json option \<Rightarrow> js_error" where
  "check_failure text_of status body =
     (case nullish body (JObj []) of
        JNull \<Rightarrow> LibError
      | b \<Rightarrow>
          let e = json_get b ''error''
          in JsError (if json_truthy e then (case the e of JStr s \<Rightarrow> s | v \<Rightarrow> text_of v)
             else ''HTTP '' @ show_int status))"

definition registered_in :: "json \<Rightarrow> string \<Rightarrow> json option" where
  "registered_in data source = Option.bind (json_get data source) (\<lambda>s. json_get s ''registered'')"

text \<open>A price that the service does not give is undefined; a failed request for it is a price of zero.\<close>

definition create_price :: "js_error + json \<Rightarrow> json option" where
  "create_price pricing =
     (case pricing of Inl _ \<Rightarrow> Some (JNum 0) | Inr JNull \<Rightarrow> Some (JNum 0) | Inr p \<Rightarrow> json_get p ''create_price'')"

definition checkAvailability ::
  "(json \<Rightarrow> string) \<Rightarrow> reg_net \<Rightarrow> string \<Rightarrow> string \<Rightarrow> string \<Rightarrow> js_error + AvailabilityResult" where
  "checkAvailability text_of net base name zone =
     try_bind (safeFetch net (check_url base name zone)) (\<lambda>(status, body).
       if \<not> response_ok status then Inl (check_failure text_of status body)
       else try_bind (lib_call body) (\<lambda>data.
         let apiRegistered = json_truthy (registered_in data ''api'');
             dnsRegistered = json_truthy (registered_in data ''dns'');
             available = \<not> apiRegistered \<and> \<not> dnsRegistered
         in Inr \<lparr>av_name = name, av_zone = zone, av_fqdn = name @ ''.'' @ zone, av_available = available,
              av_price = create_price (reg_fetchPricing net base zone),
              av_reason = (if available then None else Some ''Name already registered'')\<rparr>))"

record reg_DnsRecord =
  rg_record_type :: json
  rg_name :: string
  rg_rdata :: json
  rg_ttl :: json
  rg_zone :: json
  rg_npub :: "json option"
  rg_event_id :: "json option"
  rg_created_at :: "json option"
  rg_deleted :: bool

definition json_or :: "json option \<Rightarrow> json \<Rightarrow> json" where
  "json_or v d = (case v of None \<Rightarrow> d | Some JNull \<Rightarrow> d | Some x \<Rightarrow> x)"

text \<open>\<open>((v as string) || '').replace(...)\<close>: a truthy value that is no string has no \<open>replace\<close>.\<close>

definition text_field :: "json option \<Rightarrow> js_error + string" where
  "text_field v = (if \<not> json_truthy v then Inr [] else lib_call (json_string v))"

definition derived_zone :: "string \<Rightarrow> string" where
  "derived_zone fqdn =
     (let parts = split_on (CHR ''.'') fqdn
      in if length parts > 1 then join ''.'' (drop 1 parts) else DEFAULT_ZONE)"

definition reg_record :: "json \<Rightarrow> js_error + reg_DnsRecord" where
  "reg_record r =
     (if r = JNull then Inl LibError
      else try_bind (text_field (json_get r ''fqdn'')) (\<lambda>f.
        let fqdn = strip_suffix_char (CHR ''.'') f; derivedZone = derived_zone fqdn
        in try_bind (text_field (json_get r ''name'')) (\<lambda>n.
          Inr \<lparr>rg_record_type = json_or (json_get r ''type'') (json_or (json_get r ''record_type'') (JStr [])),
            rg_name = (if n = ''@'' then [] else n),
            rg_rdata = json_or (json_get r ''rdata'') (JStr []),
            rg_ttl = json_or (json_get r ''ttl'') (JNum 3600),
            rg_zone = (if json_truthy (json_get r ''zone'') then the (json_get r ''zone'') else JStr derivedZone),
            rg_npub = json_get r ''npub'', rg_event_id = json_get r ''event_id'',
            rg_created_at = json_get r ''created_at'', rg_deleted = False\<rparr>)))"

fun map_throwing :: "('a \<Rightarrow> 'e + 'b) \<Rightarrow> 'a list \<Rightarrow> 'e + 'b list" where
  "map_throwing f [] = Inr []"
| "map_throwing f (x # xs) = try_bind (f x) (\<lambda>y. try_bind (map_throwing f xs) (\<lambda>ys. Inr (y # ys)))"

definition fetchRecords :: "reg_net \<Rightarrow> string \<Rightarrow> string \<Rightarrow> js_error + reg_DnsRecord list" where
  "fetchRecords net base npub =
     try_bind (safeFetch net (base @ ''/api/records?pubkey='' @ encodeURIComponent npub)) (\<lambda>(status, body).
       if \<not> response_ok status then Inl (JsError ''Failed to fetch records'')
       else try_bind (lib_call body) (\<lambda>data.
         case (case data of JArr xs \<Rightarrow> data | _ \<Rightarrow> json_or (json_get data ''records'') (JArr [])) of
           JArr records \<Rightarrow> map_throwing reg_record records
         | _ \<Rightarrow> Inl LibError))"

definition healthCheck :: "reg_net \<Rightarrow> string \<Rightarrow> bool" where
  "healthCheck net base =
     (case safeFetch net (base @ ''/api/health'') of Inr (status, _) \<Rightarrow> response_ok status | Inl _ \<Rightarrow> False)"

section \<open>Prices\<close>

definition calculatePrice :: "int \<Rightarrow> bool \<Rightarrow> int" where
  "calculatePrice nameLength isNpub =
     (if isNpub then 0
      else if nameLength \<le> 3 then 100
      else if nameLength \<le> 6 then 50
      else if nameLength \<le> 10 then 20
      else 10)"

definition formatSats :: "int \<Rightarrow> string" where
  "formatSats sats = (if sats = 0 then ''free'' else show_int sats @ '' sats'')"

section \<open>Lemmas\<close>

lemma map_throwing_Inr_iff: "map_throwing f xs = Inr ys \<longleftrightarrow> map f xs = map Inr ys"
  by (induction xs arbitrary: ys) (auto simp: try_bind_Inr_iff Cons_eq_map_conv)

lemma includes_take: "str_includes (take n s) p \<Longrightarrow> str_includes s p"
  unfolding includes_iff by (metis append.assoc append_take_drop_id)

lemma derived_zone_label:
  assumes "CHR ''.'' \<notin> set l" shows "derived_zone (l @ ''.'' @ zone) = zone"
proof -
  have "split_on (CHR ''.'') (l @ CHR ''.'' # zone) = l # split_on (CHR ''.'') zone"
    using assms by (rule split_on_append)
  then show ?thesis by (simp add: derived_zone_def join_split_on)
qed

section \<open>Properties\<close>

text \<open>
  What the registrar shows of an error is at most 200 characters long and holds neither markup nor
  the word of a stack trace.
\<close>

theorem sanitizeError_safe:
  "length (sanitizeError raw) \<le> 200 \<and> CHR ''<'' \<notin> set (sanitizeError raw) \<and> \<not> str_includes (sanitizeError raw) ''stack''"
proof (cases "str_includes raw ''<'' \<or> str_includes raw ''stack''")
  case True
  have "\<not> str_includes ''Server error. Please try again.'' ''stack''" by code_simp
  with True show ?thesis by (simp add: sanitizeError_def)
next
  case False
  then show ?thesis
    using includes_take [of 200 raw] by (auto simp: sanitizeError_def includes_singleton dest: in_set_takeD)
qed

text \<open>
  A name is offered exactly when the service answers and neither the API nor DNS reports it as
  registered; a failing request for the price does not matter, the price is then zero.
\<close>

theorem checkAvailability_available:
  "(\<exists>a. checkAvailability text_of net base name zone = Inr a \<and> av_available a) \<longleftrightarrow>
     (\<exists>status data. net (check_url base name zone) = Reply status (Some data) \<and> response_ok status \<and>
        \<not> json_truthy (registered_in data ''api'') \<and> \<not> json_truthy (registered_in data ''dns''))"
  by (cases "net (check_url base name zone)")
    (auto simp: checkAvailability_def safeFetch_def try_bind_Inr_iff lib_call_Inr_iff Let_def split: if_splits)

text \<open>
  A record of the service whose zone is not given gets the zone after the first label of its full
  name, whether or not the name ends in a dot.
\<close>

theorem reg_record_zone:
  assumes "json_get r ''fqdn'' = Some (JStr (l @ ''.'' @ zone @ dot))" "dot = [] \<or> dot = ''.''"
    and "CHR ''.'' \<notin> set l" "zone \<noteq> []" "last zone \<noteq> CHR ''.''" "\<not> json_truthy (json_get r ''zone'')"
    and "reg_record r = Inr rec"
  shows "rg_zone rec = JStr zone"
proof -
  have t: "text_field (json_get r ''fqdn'') = Inr (l @ ''.'' @ zone @ dot)"
    by (simp add: assms(1) text_field_def json_truthy_def json_string_def)
  have "strip_suffix_char (CHR ''.'') (l @ ''.'' @ zone @ dot) = l @ ''.'' @ zone"
    using assms(2,4,5) by (auto simp: strip_suffix_char_def butlast_append)
  then show ?thesis
    using assms(6,7) derived_zone_label [OF assms(3), of zone]
    by (auto simp: reg_record_def t try_bind_Inr_iff Let_def split: if_splits)
qed

theorem reg_record_zone_witness:
  "\<exists>rec. reg_record (JObj [(''fqdn'', JStr ''a.nodns.shop.''), (''type'', JStr ''A'')]) = Inr rec \<and>
     rg_zone rec = JStr ''nodns.shop''"
proof -
  let ?r = "JObj [(''fqdn'', JStr ''a.nodns.shop.''), (''type'', JStr ''A'')]"
  have f: "json_get ?r ''fqdn'' = Some (JStr (''a'' @ ''.'' @ ''nodns.shop'' @ ''.''))"
    "json_get ?r ''zone'' = None" "json_get ?r ''name'' = None"
    by (simp_all add: json_get_def)
  then obtain rec where r: "reg_record ?r = Inr rec"
    by (simp add: reg_record_def text_field_def json_truthy_def json_string_def Let_def)
  have "rg_zone rec = JStr ''nodns.shop''"
    by (rule reg_record_zone [OF f(1) _ _ _ _ _ r]) (simp_all add: f json_truthy_def)
  with r show ?thesis by blast
qed

text \<open>
  A longer name never costs more, and only the names derived from a key are free.
\<close>

theorem calculatePrice_antitone:
  "(m \<le> n \<longrightarrow> calculatePrice n isNpub \<le> calculatePrice m isNpub) \<and> (calculatePrice n isNpub = 0 \<longleftrightarrow> isNpub) \<and>
   (formatSats (calculatePrice n isNpub) = ''free'' \<longleftrightarrow> isNpub)"
proof -
  have "show_int k @ '' sats'' \<noteq> ''free''" for k
  proof
    assume "show_int k @ '' sats'' = ''free''"
    then have "last (show_int k @ '' sats'') = last ''free''" by (rule arg_cong)
    then show False by simp
  qed
  then show ?thesis by (simp add: calculatePrice_def formatSats_def)
qed

theorem calculatePrice_antitone_witness: "calculatePrice 12 False \<le> calculatePrice 3 False"
  using calculatePrice_antitone [of 3 12 False] by simp

end
