(* ===== verification/Reg_Publish.thy ===== *)
theory Reg_Publish
  imports Cli_Publish
begin

text \<open>
  \<open>nodns-registrar/src/lib/nostr.ts\<close> and \<open>contexts/ZoneContext.tsx\<close>: publishing from the browser, with
  a secret key or a signing extension, and the choice of a zone.
\<close>

section \<open>Publishing\<close>

text \<open>The extension, \<open>window.nostr\<close>: its two calls, \<^const>\<open>None\<close> when the promise is rejected.\<close>

record browser_ext =
  xt_getPublicKey :: "string option"
  xt_signEvent :: "event_template \<Rightarrow> NostrEvent option"

definition no_method :: js_error where
  "no_method = JsError ''No signing method available''"

definition isExtensionAvailable :: "browser_ext option \<Rightarrow> bool" where
  "isExtensionAvailable ext \<longleftrightarrow> ext \<noteq> None"

definition signing_pubkey :: "signer \<Rightarrow> browser_ext option \<Rightarrow> bytes option \<Rightarrow> js_error + string" where
  "signing_pubkey S ext secretKey =
     (case secretKey of
        Some sk \<Rightarrow> lib_call (sg_getPublicKey S sk)
      | None \<Rightarrow> (if isExtensionAvailable ext then lib_call (xt_getPublicKey (the ext)) else Inl no_method))"

definition sign_template :: "signer \<Rightarrow> browser_ext option \<Rightarrow> bytes option \<Rightarrow> event_template \<Rightarrow> js_error + NostrEvent" where
  "sign_template S ext secretKey template =
     (case secretKey of
        Some sk \<Rightarrow> lib_call (sg_finalize S template sk)
      | None \<Rightarrow> (if isExtensionAvailable ext then lib_call (xt_signEvent (the ext) template) else Inl no_method))"

definition mine_step ::
  "signer \<Rightarrow> js_error + string \<Rightarrow> event_template \<Rightarrow> int \<Rightarrow> js_error + event_template" where
  "mine_step S pubkey template powDifficulty =
     (if powDifficulty > 0 then
        try_bind pubkey (\<lambda>pk. map_sum id fst (lib_call (sg_minePow S template pk powDifficulty)))
      else Inr template)"

text \<open>The answers of the relays are awaited (\<open>Promise.allSettled\<close>) and not read: the second component,
  the messages sent, and the result do not depend on them.\<close>

definition reg_signAndPublish ::
  "signer \<Rightarrow> browser_ext option \<Rightarrow> int \<Rightarrow> bytes option \<Rightarrow> tag list \<Rightarrow> string \<Rightarrow> int \<Rightarrow>
     (js_error + NostrEvent) \<times> (string \<times> NostrEvent) list" where
  "reg_signAndPublish S ext nowMs secretKey tags content powDifficulty =
     (let template = \<lparr>et_kind = 11111, et_content = content, et_tags = tags, et_created_at = nowMs div 1000\<rparr>
      in case try_bind (mine_step S (signing_pubkey S ext secretKey) template powDifficulty) (sign_template S ext secretKey) of
           Inl e \<Rightarrow> (Inl e, [])
         | Inr event \<Rightarrow> (Inr event, map (\<lambda>url. (url, event)) PUBLISH_RELAYS))"

section \<open>The zones\<close>

record zone_ctx =
  zx_zones :: "DiscoveredZone list"
  zx_selected :: "DiscoveredZone option"
  zx_loading :: bool
  zx_error :: "string option"

definition zone_ctx_start :: zone_ctx where
  "zone_ctx_start = \<lparr>zx_zones = [], zx_selected = None, zx_loading = True, zx_error = None\<rparr>"

text \<open>The end of \<open>load\<close>, when the component is still shown: the zones, or the text of the error.\<close>

definition zones_loaded :: "string + DiscoveredZone list \<Rightarrow> zone_ctx \<Rightarrow> zone_ctx" where
  "zones_loaded result ctx =
     (case result of
        Inl e \<Rightarrow> ctx\<lparr>zx_error := Some e, zx_loading := False\<rparr>
      | Inr discovered \<Rightarrow>
          let verified = filter dz_verified discovered;
              ctx' = ctx\<lparr>zx_zones := discovered, zx_loading := False\<rparr>
          in if length discovered > 0
             then ctx'\<lparr>zx_selected := Some (nullish (nth_opt verified 0) (discovered ! 0))\<rparr> else ctx')"

definition selectZone :: "string \<Rightarrow> zone_ctx \<Rightarrow> zone_ctx" where
  "selectZone zone ctx =
     (case List.find (\<lambda>z. dz_zone z = zone) (zx_zones ctx) of
        None \<Rightarrow> ctx | Some found \<Rightarrow> ctx\<lparr>zx_selected := Some found\<rparr>)"

inductive zone_run :: "zone_ctx \<Rightarrow> bool" where
  zone_start: "zone_run zone_ctx_start"
| zone_load: "zone_run ctx \<Longrightarrow> zx_loading ctx \<Longrightarrow> zone_run (zones_loaded result ctx)"
| zone_select: "zone_run ctx \<Longrightarrow> zone_run (selectZone zone ctx)"

section \<open>Lemmas\<close>

text \<open>What a mined and signed template has, shared by the ways of publishing.\<close>

lemma mined_and_signed:
  assumes "signer_ok S event_hash" "mine_step S pubkey template pow = Inr t" "sg_finalize S t sk = Some event"
    and "\<And>pk. pow > 0 \<Longrightarrow> pubkey = Inr pk \<Longrightarrow> sg_getPublicKey S sk = Some pk"
  shows "ev_kind event = et_kind template \<and> ev_content event = et_content template \<and>
    sg_getPublicKey S sk = Some (ev_pubkey event) \<and> (pow > 0 \<longrightarrow> pow \<le> int (countLeadingZeroBits (ev_id event)))"
proof -
  note s = signed_ok [OF assms(1,3)]
  have c: "ev_content event = et_content t" using assms(1,3) unfolding signer_ok_def by blast
  show ?thesis
  proof (cases "pow > 0")
    case True
    with assms(2) obtain pk where pk: "pubkey = Inr pk" "map_sum id fst (lib_call (sg_minePow S template pk pow)) = Inr t"
      by (auto simp: mine_step_def try_bind_Inr_iff)
    then obtain i where m: "sg_minePow S template pk pow = Some (t, i)"
      by (cases "sg_minePow S template pk pow") auto
    show ?thesis using mined_ok [OF assms(1) m] s c assms(4) [OF True pk(1)] by simp
  next
    case False
    with assms(2) have "t = template" by (simp add: mine_step_def)
    with False s c show ?thesis by simp
  qed
qed

section \<open>Properties\<close>

text \<open>
  With a secret key, what the registrar hands to the relays is one record event of that key with the
  tags' content and the proof of work asked for; it reaches every relay's queue, and nothing else does.
\<close>

theorem reg_signAndPublish_signed:
  assumes "signer_ok S event_hash" "reg_signAndPublish S ext now (Some sk) tags content pow = (Inr event, sent)"
  shows "ev_kind event = RECORD_KIND \<and> ev_content event = content \<and> sg_getPublicKey S sk = Some (ev_pubkey event) \<and>
    (pow > 0 \<longrightarrow> pow \<le> int (countLeadingZeroBits (ev_id event))) \<and> sent = map (\<lambda>url. (url, event)) PUBLISH_RELAYS"
proof -
  let ?t = "\<lparr>et_kind = 11111, et_content = content, et_tags = tags, et_created_at = now div 1000\<rparr>"
  have r: "try_bind (mine_step S (signing_pubkey S ext (Some sk)) ?t pow) (sign_template S ext (Some sk)) = Inr event"
    "sent = map (\<lambda>url. (url, event)) PUBLISH_RELAYS"
    using assms(2) by (auto simp: reg_signAndPublish_def Let_def split: sum.splits)
  then obtain t where t: "mine_step S (signing_pubkey S ext (Some sk)) ?t pow = Inr t" "sg_finalize S t sk = Some event"
    by (auto simp: try_bind_Inr_iff sign_template_def lib_call_Inr_iff)
  have "sg_getPublicKey S sk = Some pk" if "signing_pubkey S ext (Some sk) = Inr pk" for pk
    using that by (simp add: signing_pubkey_def lib_call_Inr_iff)
  then show ?thesis using mined_and_signed [OF assms(1) t] r(2) by (simp add: RECORD_KIND_def)
qed

theorem reg_signAndPublish_signed_witness:
  "\<exists>event sent. reg_signAndPublish example_signer None 5000 (Some [7]) [] ''hello'' 8 = (Inr event, sent) \<and>
     ev_content event = ''hello'' \<and> 8 \<le> int (countLeadingZeroBits (ev_id event))"
proof -
  have "countLeadingZeroBits ''00ab'' = 8" by code_simp
  then obtain event sent where e: "reg_signAndPublish example_signer None 5000 (Some [7]) [] ''hello'' 8 = (Inr event, sent)"
    by (simp add: reg_signAndPublish_def example_signer_def signing_pubkey_def sign_template_def mine_step_def Let_def)
  from reg_signAndPublish_signed [OF example_signer_ok e] e show ?thesis by auto
qed

text \<open>
  Without a secret key and without an extension nothing is sent.
\<close>

theorem reg_signAndPublish_no_method:
  "reg_signAndPublish S None now None tags content pow = (Inl no_method, [])"
  by (simp add: reg_signAndPublish_def signing_pubkey_def sign_template_def isExtensionAvailable_def mine_step_def Let_def)

text \<open>
  The selected zone is always one of the zones shown, and once zones are loaded one is selected.
\<close>

theorem zone_selection:
  assumes "zone_run ctx"
  shows "(case zx_selected ctx of Some z \<Rightarrow> z \<in> set (zx_zones ctx) | None \<Rightarrow> zx_zones ctx = []) \<and>
    (zx_loading ctx \<longrightarrow> zx_zones ctx = [])"
  using assms
proof induction
  case zone_start
  then show ?case by (simp add: zone_ctx_start_def)
next
  case (zone_load ctx result)
  have "nullish (nth_opt (filter dz_verified ds) 0) (ds ! 0) \<in> set ds" if "ds \<noteq> []" for ds
    using that by (cases "filter dz_verified ds") (auto simp: filter_eq_Cons_iff)
  then show ?case using zone_load by (auto simp: zones_loaded_def Let_def split: sum.split option.splits)
next
  case (zone_select ctx zone)
  then show ?case by (auto simp: selectZone_def split: option.splits dest: find_Some_mem)
qed

theorem zone_selection_witness:
  "case zx_selected (selectZone ''x'' (zones_loaded (Inl ''offline'') zone_ctx_start)) of
     Some z \<Rightarrow> z \<in> set (zx_zones (selectZone ''x'' (zones_loaded (Inl ''offline'') zone_ctx_start)))
   | None \<Rightarrow> zx_zones (selectZone ''x'' (zones_loaded (Inl ''offline'') zone_ctx_start)) = []"
  by (rule conjunct1 [OF zone_selection]) (intro zone_run.intros, simp add: zone_ctx_start_def)

end
