(* ===== verification/Reg_Wallet.thy ===== *)
theory Reg_Wallet
  imports Sdk_Nostr Js_Json
begin

text \<open>
  \<open>nodns-registrar/src/lib/wallet.ts\<close> and \<open>contexts/WalletContext.tsx\<close>: the Cashu wallet of the
  browser. The wallet manager of \<open>coco-cashu-core\<close> is a library with a state \<open>'w\<close> of its own; its calls
  are the fields of \<open>wallet_lib\<close>, \<^const>\<open>None\<close> or \<^const>\<open>False\<close> being a rejected promise. Opening its
  database is the parameter \<open>opened\<close>.
\<close>

section \<open>The library\<close>

datatype send_result = SendText string | SendJson json

text \<open>What receiving gives: for each proof its amount, \<^const>\<open>None\<close> for a value without one.\<close>

datatype receive_result = ProofList "int option list" | OneProof "int option"

record 'w wallet_lib =
  wl_addMint :: "string \<Rightarrow> 'w \<Rightarrow> bool \<times> 'w"
  wl_watch :: "'w \<Rightarrow> bool \<times> 'w"
  wl_process :: "'w \<Rightarrow> bool \<times> 'w"
  wl_balances :: "'w \<Rightarrow> (string \<Rightarrow> int option) option"
  wl_mint_prepare :: "string \<Rightarrow> int \<Rightarrow> 'w \<Rightarrow> (string \<times> string) option \<times> 'w"
  wl_mint_finalize :: "string \<Rightarrow> 'w \<Rightarrow> bool \<times> 'w"
  wl_send_prepare :: "string \<Rightarrow> int \<Rightarrow> 'w \<Rightarrow> string option \<times> 'w"
  wl_send_execute :: "string \<Rightarrow> 'w \<Rightarrow> send_result option \<times> 'w"
  wl_receive_prepare :: "string \<Rightarrow> 'w \<Rightarrow> string option \<times> 'w"
  wl_receive_execute :: "string \<Rightarrow> 'w \<Rightarrow> receive_result option \<times> 'w"

definition MINT_URL :: string where "MINT_URL = ''https://testnut.cashu.space''"

text \<open>The manager and whether the mint is online; the two watchers are optional.\<close>

definition createWalletManager :: "'w wallet_lib \<Rightarrow> js_error + 'w \<Rightarrow> js_error + 'w \<times> bool" where
  "createWalletManager W opened =
     try_bind opened (\<lambda>w.
       let (mintOnline, w1) = wl_addMint W MINT_URL w
       in if mintOnline then
            (let (watching, w2) = wl_watch W w1
             in Inr (if watching then snd (wl_process W w2) else w2, True))
          else Inr (w1, False))"

definition mint_balance :: "(string \<Rightarrow> int option) \<Rightarrow> int" where
  "mint_balance balances = nullish (balances MINT_URL) 0"

section \<open>The context\<close>

record 'w wallet_ctx =
  wx_manager :: "'w option"
  wx_balance :: int
  wx_ready :: bool

definition wallet_start :: "'w wallet_ctx" where
  "wallet_start = \<lparr>wx_manager = None, wx_balance = 0, wx_ready = False\<rparr>"

definition refreshBalance :: "'w wallet_lib \<Rightarrow> 'w wallet_ctx \<Rightarrow> 'w wallet_ctx" where
  "refreshBalance W ctx =
     (case wx_manager ctx of
        None \<Rightarrow> ctx
      | Some mgr \<Rightarrow> (case wl_balances W mgr of None \<Rightarrow> ctx | Some b \<Rightarrow> ctx\<lparr>wx_balance := mint_balance b\<rparr>))"

text \<open>\<open>init\<close>; \<open>disposed\<close> tells whether the component was removed while the manager was made.\<close>

definition wallet_init :: "'w wallet_lib \<Rightarrow> js_error + 'w \<Rightarrow> bool \<Rightarrow> 'w wallet_ctx \<Rightarrow> 'w wallet_ctx" where
  "wallet_init W opened disposed ctx =
     (case createWalletManager W opened of
        Inl _ \<Rightarrow> ctx\<lparr>wx_ready := True\<rparr>
      | Inr (mgr, mintOnline) \<Rightarrow>
          if disposed then ctx\<lparr>wx_ready := False\<rparr>
          else
            let ctx' = ctx\<lparr>wx_manager := Some mgr\<rparr>
            in (if mintOnline then refreshBalance W ctx' else ctx')\<lparr>wx_ready := True\<rparr>)"

definition wallet_unmount :: "'w wallet_ctx \<Rightarrow> 'w wallet_ctx" where
  "wallet_unmount ctx = ctx\<lparr>wx_manager := None\<rparr>"

definition not_ready :: js_error where "not_ready = JsError ''Wallet not ready''"

text \<open>An operation on the manager: it throws when there is none.\<close>

definition with_manager ::
  "('w \<Rightarrow> (js_error + 'a) \<times> 'w) \<Rightarrow> 'w wallet_ctx \<Rightarrow> (js_error + 'a) \<times> 'w wallet_ctx" where
  "with_manager f ctx =
     (case wx_manager ctx of
        None \<Rightarrow> (Inl not_ready, ctx)
      | Some mgr \<Rightarrow> let (r, mgr') = f mgr in (r, ctx\<lparr>wx_manager := Some mgr'\<rparr>))"

definition topUp :: "'w wallet_lib \<Rightarrow> int \<Rightarrow> 'w wallet_ctx \<Rightarrow> (js_error + string \<times> string) \<times> 'w wallet_ctx" where
  "topUp W amount = with_manager (\<lambda>mgr.
     let (pending, mgr') = wl_mint_prepare W MINT_URL amount mgr in (lib_call pending, mgr'))"

definition checkTopUpStatus :: "'w wallet_lib \<Rightarrow> string \<Rightarrow> 'w wallet_ctx \<Rightarrow> (js_error + bool) \<times> 'w wallet_ctx" where
  "checkTopUpStatus W operationId ctx =
     (let (r, ctx') = with_manager (\<lambda>mgr. let (done, mgr') = wl_mint_finalize W operationId mgr in (Inr done, mgr')) ctx
      in (r, if r = Inr True then refreshBalance W ctx' else ctx'))"

definition prepare_execute ::
  "('w \<Rightarrow> string option \<times> 'w) \<Rightarrow> (string \<Rightarrow> 'w \<Rightarrow> 'r option \<times> 'w) \<Rightarrow> 'w \<Rightarrow> (js_error + 'r) \<times> 'w" where
  "prepare_execute prepare execute mgr =
     (case prepare mgr of
        (None, mgr1) \<Rightarrow> (Inl LibError, mgr1)
      | (Some opId, mgr1) \<Rightarrow> let (r, mgr2) = execute opId mgr1 in (lib_call r, mgr2))"

definition sendTokens ::
  "'w wallet_lib \<Rightarrow> (json \<Rightarrow> string) \<Rightarrow> int \<Rightarrow> 'w wallet_ctx \<Rightarrow> (js_error + string) \<times> 'w wallet_ctx" where
  "sendTokens W stringify amountSats = with_manager (\<lambda>mgr.
     let (r, mgr') = prepare_execute (wl_send_prepare W MINT_URL amountSats) (wl_send_execute W) mgr
     in (map_sum id (\<lambda>result. case result of SendText t \<Rightarrow> t | SendJson j \<Rightarrow> stringify j) r, mgr'))"

fun proofs_total :: "int option list \<Rightarrow> int \<Rightarrow> int" where
  "proofs_total [] acc = acc"
| "proofs_total (p # ps) acc = proofs_total ps (case p of Some amount \<Rightarrow> acc + amount | None \<Rightarrow> acc)"

definition received_total :: "receive_result \<Rightarrow> int" where
  "received_total result = proofs_total (case result of ProofList ps \<Rightarrow> ps | OneProof p \<Rightarrow> [p]) 0"

definition receiveTokens :: "'w wallet_lib \<Rightarrow> string \<Rightarrow> 'w wallet_ctx \<Rightarrow> (js_error + int) \<times> 'w wallet_ctx" where
  "receiveTokens W token ctx =
     (let (r, ctx') = with_manager (prepare_execute (wl_receive_prepare W token) (wl_receive_execute W)) ctx
      in case r of
           Inl e \<Rightarrow> (Inl e, ctx')
         | Inr result \<Rightarrow> (Inr (received_total result), refreshBalance W ctx'))"

text \<open>The library's payment request, made with the random id \<open>uuid\<close>; encoding it is the parameter
  \<open>encode\<close>.\<close>

record payment_request =
  pq_target :: string
  pq_id :: string
  pq_amount :: int
  pq_unit :: string
  pq_mints :: "string list"
  pq_description :: string

definition createPaymentRequest :: "(payment_request \<Rightarrow> string) \<Rightarrow> string \<Rightarrow> int \<Rightarrow> string \<Rightarrow> string" where
  "createPaymentRequest encode uuid amountSats description =
     encode \<lparr>pq_target = MINT_URL, pq_id = uuid, pq_amount = amountSats, pq_unit = ''sat'', pq_mints = [MINT_URL],
       pq_description = description\<rparr>"

section \<open>Lemmas\<close>

lemma with_manager_None: "wx_manager ctx = None \<Longrightarrow> with_manager f ctx = (Inl not_ready, ctx)"
  by (simp add: with_manager_def)

lemma with_manager_Some:
  "wx_manager ctx = Some mgr \<Longrightarrow> with_manager f ctx = (fst (f mgr), ctx\<lparr>wx_manager := Some (snd (f mgr))\<rparr>)"
  by (simp add: with_manager_def Let_def split: prod.split)

lemma proofs_total_sum: "proofs_total ps acc = acc + sum_list (map (\<lambda>p. nullish p 0) ps)"
  by (induction ps arbitrary: acc) (auto split: option.split)

lemma refreshBalance_manager [simp]: "wx_manager (refreshBalance W ctx) = wx_manager ctx"
  by (simp add: refreshBalance_def split: option.split)

lemma createWalletManager_opened: "opened = Inr w \<Longrightarrow> \<exists>mgr online. createWalletManager W opened = Inr (mgr, online)"
  by (cases "wl_addMint W MINT_URL w") (auto simp: createWalletManager_def split_beta)

text \<open>The balance shown is the one of the manager, as far as the manager reports one.\<close>

definition balance_current :: "'w wallet_lib \<Rightarrow> 'w wallet_ctx \<Rightarrow> bool" where
  "balance_current W ctx \<longleftrightarrow>
     (\<forall>mgr b. wx_manager ctx = Some mgr \<longrightarrow> wl_balances W mgr = Some b \<longrightarrow> wx_balance ctx = mint_balance b)"

lemma refreshBalance_current: "balance_current W (refreshBalance W ctx)"
  by (auto simp: balance_current_def refreshBalance_def split: option.splits)

section \<open>Properties\<close>

text \<open>
  Starting the wallet always ends ready while the component is shown, even if the database cannot be
  opened; a manager is there exactly when it could, and with the mint online the balance is current.
\<close>

theorem wallet_init_ready:
  "wx_ready (wallet_init W opened False wallet_start) \<and>
   (wx_manager (wallet_init W opened False wallet_start) = None \<longleftrightarrow> (\<exists>e. opened = Inl e)) \<and>
   (\<forall>mgr. createWalletManager W opened = Inr (mgr, True) \<longrightarrow>
      balance_current W (wallet_init W opened False wallet_start))"
proof (cases opened)
  case (Inl e)
  then show ?thesis by (simp add: wallet_init_def createWalletManager_def wallet_start_def)
next
  case (Inr w)
  obtain mgr online where c: "createWalletManager W opened = Inr (mgr, online)"
    using createWalletManager_opened [OF Inr, of W] by auto
  have i: "wallet_init W opened False wallet_start =
      (if online then refreshBalance W (wallet_start\<lparr>wx_manager := Some mgr\<rparr>)
       else wallet_start\<lparr>wx_manager := Some mgr\<rparr>)\<lparr>wx_ready := True\<rparr>"
    by (simp add: wallet_init_def c)
  have "balance_current W (wallet_init W opened False wallet_start)" if online
    using refreshBalance_current [of W "wallet_start\<lparr>wx_manager := Some mgr\<rparr>"] that
    by (simp add: i balance_current_def)
  moreover have "wx_manager (wallet_init W opened False wallet_start) = Some mgr" by (simp add: i)
  moreover have "wx_ready (wallet_init W opened False wallet_start)" by (simp add: i)
  ultimately show ?thesis using c Inr by auto
qed

theorem wallet_init_ready_witness:
  "wx_ready (wallet_init W (Inl LibError :: js_error + nat) False wallet_start)"
  using wallet_init_ready by blast

text \<open>
  Before the manager is there every operation fails with the same message and changes nothing.
\<close>

theorem wallet_not_ready:
  assumes "wx_manager ctx = None"
  shows "topUp W amount ctx = (Inl not_ready, ctx) \<and> checkTopUpStatus W opId ctx = (Inl not_ready, ctx) \<and>
    sendTokens W stringify amount ctx = (Inl not_ready, ctx) \<and> receiveTokens W token ctx = (Inl not_ready, ctx) \<and>
    refreshBalance W ctx = ctx"
  using assms
  by (simp add: topUp_def checkTopUpStatus_def sendTokens_def receiveTokens_def with_manager_None refreshBalance_def)

theorem wallet_not_ready_witness:
  "topUp W 21 (wallet_start :: nat wallet_ctx) = (Inl not_ready, wallet_start)"
  using wallet_not_ready [of "wallet_start :: nat wallet_ctx" W 21] by (simp add: wallet_start_def)

text \<open>
  After tokens are received, or a payment is found to have arrived, the balance shown is the
  manager's; the amount reported is the sum of the amounts of the proofs.
\<close>

theorem receiveTokens_balance:
  assumes "receiveTokens W token ctx = (Inr sats, ctx')"
  shows "balance_current W ctx' \<and>
    (\<exists>mgr result mgr'. wx_manager ctx = Some mgr \<and>
       prepare_execute (wl_receive_prepare W token) (wl_receive_execute W) mgr = (Inr result, mgr') \<and>
       wx_manager ctx' = Some mgr' \<and>
       sats = sum_list (map (\<lambda>p. nullish p 0) (case result of ProofList ps \<Rightarrow> ps | OneProof p \<Rightarrow> [p])))"
proof -
  obtain mgr where m: "wx_manager ctx = Some mgr"
    using assms by (cases "wx_manager ctx") (auto simp: receiveTokens_def with_manager_None)
  obtain r mgr' where r: "prepare_execute (wl_receive_prepare W token) (wl_receive_execute W) mgr = (r, mgr')" by force
  show ?thesis
    using assms refreshBalance_current
    by (cases r) (auto simp: receiveTokens_def with_manager_Some [OF m] r m received_total_def proofs_total_sum)
qed

definition counting_wallet :: "int wallet_lib" where
  "counting_wallet = \<lparr>wl_addMint = (\<lambda>_ w. (True, w)), wl_watch = (\<lambda>w. (True, w)), wl_process = (\<lambda>w. (True, w)),
     wl_balances = (\<lambda>w. Some (\<lambda>url. if url = MINT_URL then Some w else None)),
     wl_mint_prepare = (\<lambda>_ n w. (Some (''invoice'', ''op''), w)), wl_mint_finalize = (\<lambda>_ w. (True, w + 10)),
     wl_send_prepare = (\<lambda>_ n w. (Some ''op'', w - n)), wl_send_execute = (\<lambda>_ w. (Some (SendText ''token''), w)),
     wl_receive_prepare = (\<lambda>_ w. (Some ''op'', w)),
     wl_receive_execute = (\<lambda>_ w. (Some (ProofList [Some 4, None, Some 1]), w + 5))\<rparr>"

theorem receiveTokens_balance_witness:
  "\<exists>ctx'. receiveTokens counting_wallet ''token'' (wallet_init counting_wallet (Inr 7) False wallet_start) = (Inr 5, ctx') \<and>
     balance_current counting_wallet ctx' \<and> wx_balance ctx' = 12"
proof -
  obtain ctx' where r: "receiveTokens counting_wallet ''token'' (wallet_init counting_wallet (Inr 7) False wallet_start) = (Inr 5, ctx')"
    and b: "wx_manager ctx' = Some 12"
    by (simp add: receiveTokens_def wallet_init_def createWalletManager_def counting_wallet_def wallet_start_def
        refreshBalance_def with_manager_def prepare_execute_def received_total_def)
  from receiveTokens_balance [OF r] have "balance_current counting_wallet ctx'" by simp
  with r b show ?thesis by (auto simp: balance_current_def counting_wallet_def mint_balance_def)
qed

end
