(* ===== verification/Reg_Pages.thy ===== *)
theory Reg_Pages
  imports Reg_Api Reg_Publish Reg_Wallet Sdk_Validation
begin

text \<open>
  \<open>nodns-registrar/src/pages\<close>: what the pages \<open>Domain\<close>, \<open>Dashboard\<close> and \<open>Landing\<close> do, apart from what they
  draw. A page's record has the types its interface declares; the prices are whole numbers. The session's
  public key is \<open>session\<close>, \<open>show_error\<close> the text of an error, and a message sent is a pair of relay and
  event.
\<close>

section \<open>Records and settings\<close>

record page_record =
  pr_id :: "string option"
  pr_type :: string
  pr_name :: string
  pr_rdata :: string
  pr_ttl :: int
  pr_zone :: "string option"
  pr_npub :: "string option"
  pr_event_id :: "string option"
  pr_created_at :: "int option"
  pr_deleted :: bool

record PricingInfo =
  pi_create_price :: int
  pi_update_price :: int
  pi_delete_price :: int
  pi_npub_names_free :: bool
  pi_mint_url :: string

record identity_env =
  ie_session :: "string option"
  ie_npub :: "string option"
  ie_secretKey :: "bytes option"

definition page_mint :: string where "page_mint = ''https://testnut.cashu.space''"

section \<open>The domain page\<close>

definition is_npub_domain :: "string \<Rightarrow> string option \<Rightarrow> bool" where
  "is_npub_domain queryName npub \<longleftrightarrow> queryName = [] \<or> (truthy npub \<and> Some queryName = npub)"

definition effective_name :: "string \<Rightarrow> string option \<Rightarrow> string" where
  "effective_name queryName npub = (if is_npub_domain queryName npub then [] else queryName)"

definition page_fqdn :: "string \<Rightarrow> string option \<Rightarrow> string \<Rightarrow> string" where
  "page_fqdn queryName npub zone =
     (if is_npub_domain queryName npub
      then (if truthy npub then the npub @ ''.'' @ zone else ''npub.'' @ zone)
      else queryName @ ''.'' @ zone)"

definition domain_filter :: "string \<Rightarrow> string option \<Rightarrow> page_record list \<Rightarrow> page_record list" where
  "domain_filter queryName npub allRecords =
     filter (\<lambda>r. if is_npub_domain queryName npub then pr_name r = [] \<or> Some (pr_name r) = npub
       else pr_name r = queryName) allRecords"

definition createCost :: "string \<Rightarrow> string option \<Rightarrow> PricingInfo option \<Rightarrow> int" where
  "createCost queryName npub pricing =
     (if is_npub_domain queryName npub then 0
      else case pricing of
          Some p \<Rightarrow> pi_create_price p
        | None \<Rightarrow> calculatePrice (int (length queryName)) False)"

definition insufficientFunds :: "int \<Rightarrow> 'w wallet_ctx \<Rightarrow> bool" where
  "insufficientFunds cost ctx \<longleftrightarrow> cost > 0 \<and> wx_ready ctx \<and> wx_balance ctx < cost"

definition search_records :: "string \<Rightarrow> page_record list \<Rightarrow> page_record list" where
  "search_records searchQuery records =
     (if trim searchQuery = [] then records
      else
        let q = toLowerCase searchQuery
        in filter (\<lambda>r. str_includes (toLowerCase (pr_type r)) q \<or> str_includes (toLowerCase (pr_name r)) q \<or>
             str_includes (toLowerCase (pr_rdata r)) q) records)"

text \<open>The surroundings of a page's handlers: signer, extension, clock, wallet library, identity.\<close>

record 'w page_env =
  pe_signer :: signer
  pe_ext :: "browser_ext option"
  pe_now :: int
  pe_wallet :: "'w wallet_lib"
  pe_stringify :: "json \<Rightarrow> string"
  pe_identity :: identity_env

type_synonym 'w published = "(js_error + NostrEvent) \<times> 'w wallet_ctx \<times> (string \<times> NostrEvent) list"

definition page_sign ::
  "'w page_env \<Rightarrow> tag list \<Rightarrow> 'w wallet_ctx \<Rightarrow> 'w published" where
  "page_sign E tags ctx =
     (let (r, sent) = reg_signAndPublish (pe_signer E) (pe_ext E) (pe_now E) (ie_secretKey (pe_identity E)) tags []
            DEFAULT_POW_DIFFICULTY
      in (r, ctx, sent))"

definition handlePublish :: "'w page_env \<Rightarrow> tag list \<Rightarrow> int \<Rightarrow> 'w wallet_ctx \<Rightarrow> 'w published" where
  "handlePublish E tags cost ctx =
     (if \<not> truthy (ie_session (pe_identity E)) then (Inl (JsError ''Not authenticated''), ctx, [])
      else if cost > 0 then
        if wx_balance ctx < cost
        then (Inl (JsError (''Insufficient balance: need '' @ show_int cost @ '' sats, have '' @
            show_int (wx_balance ctx) @ '' sats'')), ctx, [])
        else (case sendTokens (pe_wallet E) (pe_stringify E) cost ctx of
            (Inl e, ctx') \<Rightarrow> (Inl e, ctx', [])
          | (Inr token, ctx') \<Rightarrow> page_sign E (tags @ [buildCashuTag token page_mint cost]) ctx')
      else page_sign E tags ctx)"

text \<open>The page's messages and switches; \<open>records\<close> as the last load left them.\<close>

record domain_page =
  dp_records :: "page_record list"
  dp_loading :: bool
  dp_error :: "string option"
  dp_success :: "string option"
  dp_busy :: bool
  dp_formValue :: string
  dp_editingId :: "string option"
  dp_editValue :: string
  dp_editTtl :: int
  dp_deleteTarget :: "page_record option"

text \<open>\<open>fetched\<close> is the outcome of the request for the key's records.\<close>

definition domain_load ::
  "string \<Rightarrow> string option \<Rightarrow> js_error + page_record list \<Rightarrow> domain_page \<Rightarrow> domain_page" where
  "domain_load queryName npub fetched page =
     (if \<not> truthy npub then page
      else (case fetched of
          Inr allRecords \<Rightarrow> page\<lparr>dp_records := domain_filter queryName npub allRecords, dp_loading := False\<rparr>
        | Inl _ \<Rightarrow> page\<lparr>dp_error := Some ''Failed to load records'', dp_loading := False\<rparr>))"

text \<open>The common shape of the three handlers, from \<open>setBusy(true)\<close> on: publish, then \<open>after\<close> and a
  reload, or the error's text; in the end the page is idle again.\<close>

definition publish_and_reload ::
  "'w page_env \<Rightarrow> (js_error \<Rightarrow> string) \<Rightarrow> string \<Rightarrow> js_error + page_record list \<Rightarrow> tag list \<Rightarrow> int \<Rightarrow>
     (domain_page \<Rightarrow> domain_page) \<Rightarrow> domain_page \<Rightarrow> 'w wallet_ctx \<Rightarrow>
     domain_page \<times> 'w wallet_ctx \<times> (string \<times> NostrEvent) list" where
  "publish_and_reload E show_error queryName fetched tags cost after page ctx =
     (case handlePublish E tags cost ctx of
        (Inl e, ctx', sent) \<Rightarrow> (page\<lparr>dp_error := Some (show_error e), dp_busy := False\<rparr>, ctx', sent)
      | (Inr _, ctx', sent) \<Rightarrow>
          ((domain_load queryName (ie_npub (pe_identity E)) fetched (after page))\<lparr>dp_busy := False\<rparr>, ctx', sent))"

definition handleAddRecord ::
  "'w page_env \<Rightarrow> (js_error \<Rightarrow> string) \<Rightarrow> string \<Rightarrow> string \<Rightarrow> PricingInfo option \<Rightarrow> js_error + page_record list \<Rightarrow>
     string \<Rightarrow> string \<Rightarrow> int \<Rightarrow> domain_page \<Rightarrow> 'w wallet_ctx \<Rightarrow>
     domain_page \<times> 'w wallet_ctx \<times> (string \<times> NostrEvent) list" where
  "handleAddRecord E show_error queryName zone pricing fetched formType formName formTtl page ctx =
     (let npub = ie_npub (pe_identity E);
          page0 = page\<lparr>dp_error := None, dp_success := None\<rparr>;
          nameToUse = or_else (Some formName) (effective_name queryName npub)
      in case validateRecord formType nameToUse (dp_formValue page) of
           Some e \<Rightarrow> (page0\<lparr>dp_error := Some e\<rparr>, ctx, [])
         | None \<Rightarrow>
             publish_and_reload E show_error queryName fetched
               [buildRecordTag formType nameToUse (dp_formValue page) formTtl] (createCost queryName npub pricing)
               (\<lambda>p. p\<lparr>dp_success := Some (formType @ '' record published for '' @ page_fqdn queryName npub zone),
                  dp_formValue := []\<rparr>)
               (page0\<lparr>dp_busy := True\<rparr>) ctx)"

definition edit_id :: "page_record \<Rightarrow> string" where
  "edit_id r = or_else (pr_id r)
     (pr_type r @ ''-'' @ pr_name r @ ''-'' @ pr_rdata r @ ''-'' @ show_int (pr_ttl r))"

definition startEdit :: "page_record \<Rightarrow> domain_page \<Rightarrow> domain_page" where
  "startEdit r page = page\<lparr>dp_editingId := Some (edit_id r), dp_editValue := pr_rdata r, dp_editTtl := pr_ttl r\<rparr>"

definition handleSaveEdit ::
  "'w page_env \<Rightarrow> (js_error \<Rightarrow> string) \<Rightarrow> string \<Rightarrow> PricingInfo option \<Rightarrow> js_error + page_record list \<Rightarrow>
     page_record \<Rightarrow> domain_page \<Rightarrow> 'w wallet_ctx \<Rightarrow> domain_page \<times> 'w wallet_ctx \<times> (string \<times> NostrEvent) list" where
  "handleSaveEdit E show_error queryName pricing fetched r page ctx =
     (case validateRecord (pr_type r) (pr_name r) (dp_editValue page) of
        Some e \<Rightarrow> (page\<lparr>dp_error := Some e\<rparr>, ctx, [])
      | None \<Rightarrow>
          publish_and_reload E show_error queryName fetched
            [buildRecordTag (pr_type r) (pr_name r) (dp_editValue page) (dp_editTtl page)]
            (nullish (map_option pi_update_price pricing) 0)
            (\<lambda>p. p\<lparr>dp_success := Some ''Record updated'', dp_editingId := None\<rparr>)
            (page\<lparr>dp_error := None, dp_busy := True\<rparr>) ctx)"

definition handleDeleteRecord ::
  "'w page_env \<Rightarrow> (js_error \<Rightarrow> string) \<Rightarrow> string \<Rightarrow> PricingInfo option \<Rightarrow> js_error + page_record list \<Rightarrow>
     page_record \<Rightarrow> domain_page \<Rightarrow> 'w wallet_ctx \<Rightarrow> domain_page \<times> 'w wallet_ctx \<times> (string \<times> NostrEvent) list" where
  "handleDeleteRecord E show_error queryName pricing fetched r page ctx =
     publish_and_reload E show_error queryName fetched [buildRecordTag (pr_type r) (pr_name r) [] (pr_ttl r)]
       (nullish (map_option pi_delete_price pricing) 0)
       (\<lambda>p. p\<lparr>dp_success := Some (pr_type r @ '' record deleted''), dp_deleteTarget := None\<rparr>)
       (page\<lparr>dp_error := None, dp_busy := True\<rparr>) ctx"

section \<open>The dashboard\<close>

definition dash_timeAgo :: "int \<Rightarrow> int \<Rightarrow> string" where
  "dash_timeAgo nowMs ts =
     (if ts = 0 then ''never''
      else
        let seconds = nowMs div 1000 - ts; minutes = seconds div 60; hours = minutes div 60; days = hours div 24;
            months = days div 30
        in if seconds < 0 then ''just now''
           else if seconds < 60 then show_int seconds @ ''s ago''
           else if minutes < 60 then show_int minutes @ ''m ago''
           else if hours < 24 then show_int hours @ ''h ago''
           else if days < 30 then show_int days @ ''d ago''
           else show_int months @ ''mo ago'')"

definition dash_truncateNpub :: "string option \<Rightarrow> string" where
  "dash_truncateNpub npub =
     (if \<not> truthy npub then ''npub''
      else if length (the npub) \<le> 20 then the npub
      else slice_to 12 (the npub) @ ''...'' @ drop (length (the npub) - 6) (the npub))"

datatype domain_status = Active | Expired | Grace

record DomainInfo =
  dm_fqdn :: string
  dm_name :: string
  dm_zone :: string
  dm_recordCount :: nat
  dm_records :: "page_record list"
  dm_lastSeen :: int
  dm_status :: domain_status

definition domain_key :: "page_record \<Rightarrow> string" where
  "domain_key r = pr_name r @ ''|'' @ or_else (pr_zone r) DEFAULT_ZONE"

definition domain_push :: "(string, page_record list) jsmap \<Rightarrow> page_record \<Rightarrow> (string, page_record list) jsmap" where
  "domain_push groups r =
     (if pr_deleted r then groups
      else let key = domain_key r in map_set key (nullish (map_get groups key) [] @ [r]) groups)"

definition last_seen :: "page_record list \<Rightarrow> int" where
  "last_seen recs = foldl (\<lambda>m r. max m (nullish (pr_created_at r) 0)) 0 recs"

fun domain_info :: "string option \<Rightarrow> string \<times> page_record list \<Rightarrow> DomainInfo" where
  "domain_info npub (key, recs) =
     (let name = split_on (CHR ''|'') key ! 0; zone = split_on (CHR ''|'') key ! 1;
          label = or_else (Some name) (dash_truncateNpub npub)
      in \<lparr>dm_fqdn = label @ ''.'' @ zone, dm_name = name, dm_zone = zone, dm_recordCount = length recs,
          dm_records = recs, dm_lastSeen = last_seen recs, dm_status = Active\<rparr>)"

definition groupRecordsByDomain :: "page_record list \<Rightarrow> string option \<Rightarrow> DomainInfo list" where
  "groupRecordsByDomain records npub =
     js_sort (\<lambda>a b. dm_lastSeen b - dm_lastSeen a) (map (domain_info npub) (foldl domain_push [] records))"

definition totalRecords :: "DomainInfo list \<Rightarrow> nat" where
  "totalRecords domains = foldl (\<lambda>n d. n + dm_recordCount d) 0 domains"

section \<open>The landing page\<close>

text \<open>\<open>replace(new RegExp(`\.${zoneEscaped}$`, 'i'), '')\<close>: the escaped zone matches itself.\<close>

definition strip_zone_suffix :: "string \<Rightarrow> string \<Rightarrow> string" where
  "strip_zone_suffix zone s =
     (if endsWith (toLowerCase s) (toLowerCase (''.'' @ zone)) then slice_drop_last (length (''.'' @ zone)) s else s)"

record landing_page =
  lp_result :: "AvailabilityResult option"
  lp_searching :: bool
  lp_searchError :: "string option"
  lp_registering :: bool
  lp_registerError :: "string option"
  lp_registeredFqdn :: "string option"

text \<open>\<open>check name\<close> is the request for the availability of the name in the active zone.\<close>

definition handleSearch ::
  "(js_error \<Rightarrow> string) \<Rightarrow> (string \<Rightarrow> js_error + AvailabilityResult) \<Rightarrow> string \<Rightarrow> string \<Rightarrow> landing_page \<Rightarrow> landing_page" where
  "handleSearch show_error check activeZone query page =
     (let name = strip_zone_suffix activeZone (toLowerCase (trim query))
      in if name = [] then page
         else case validateDomainName name of
             Some e \<Rightarrow> page\<lparr>lp_searchError := Some e, lp_result := None\<rparr>
           | None \<Rightarrow>
               let page' = page\<lparr>lp_searchError := None, lp_result := None, lp_registeredFqdn := None,
                     lp_registerError := None, lp_searching := False\<rparr>
               in case check name of
                    Inr res \<Rightarrow> page'\<lparr>lp_result := Some res\<rparr>
                  | Inl e \<Rightarrow> page'\<lparr>lp_searchError := Some (show_error e)\<rparr>)"

definition landing_price :: "AvailabilityResult \<Rightarrow> int" where
  "landing_price r = (case av_price r of Some (JNum n) \<Rightarrow> \<lfloor>n\<rfloor> | _ \<Rightarrow> 0)"

definition register_message :: "int \<Rightarrow> string \<Rightarrow> string" where
  "register_message price msg =
     (if str_includes msg ''proofs'' \<or> str_includes msg ''Not enough'' \<or> str_includes msg ''insufficient''
      then ''Insufficient balance. You need '' @ show_int price @ '' sats '' @ em_dash @ '' top up your wallet first.''
      else if str_includes msg ''mint'' \<or> str_includes msg ''swap''
      then ''Wallet error. Try again or top up your wallet.''
      else msg)"

definition handleRegister ::
  "'w page_env \<Rightarrow> (js_error \<Rightarrow> string) \<Rightarrow> landing_page \<Rightarrow> 'w wallet_ctx \<Rightarrow>
     landing_page \<times> 'w wallet_ctx \<times> (string \<times> NostrEvent) list" where
  "handleRegister E show_error page ctx =
     (case lp_result page of
        None \<Rightarrow> (page, ctx, [])
      | Some result \<Rightarrow>
          if ie_session (pe_identity E) = None then (page, ctx, [])
          else
            let page0 = page\<lparr>lp_registering := False, lp_registerError := None\<rparr>;
                price = landing_price result;
                tags = [buildRecordTag ''TXT'' (av_name result) ''registered'' 3600];
                failed = (\<lambda>e. page0\<lparr>lp_registerError := Some (register_message price (show_error e))\<rparr>);
                finish = (\<lambda>tags ctx. case page_sign E tags ctx of
                    (Inr _, ctx', sent) \<Rightarrow> (page0\<lparr>lp_registeredFqdn := Some (av_fqdn result)\<rparr>, ctx', sent)
                  | (Inl e, ctx', sent) \<Rightarrow> (failed e, ctx', sent))
            in if price > 0 then
                 (case sendTokens (pe_wallet E) (pe_stringify E) price ctx of
                    (Inl e, ctx') \<Rightarrow> (failed e, ctx', [])
                  | (Inr token, ctx') \<Rightarrow> finish (tags @ [buildCashuTag token page_mint price]) ctx')
               else finish tags ctx)"

definition resetSearch :: "landing_page \<Rightarrow> landing_page" where
  "resetSearch page = page\<lparr>lp_registeredFqdn := None, lp_result := None, lp_searchError := None, lp_registerError := None\<rparr>"

section \<open>Lemmas\<close>

interpretation latest_domain: comparator "\<lambda>a b. dm_lastSeen b - dm_lastSeen a"
  by unfold_locales auto

lemma handlePublish_unpaid:
  "truthy (ie_session (pe_identity E)) \<Longrightarrow> cost \<le> 0 \<Longrightarrow> handlePublish E tags cost ctx = page_sign E tags ctx"
  by (simp add: handlePublish_def)

lemma page_sign_sent:
  "page_sign E tags ctx = (r, ctx', sent) \<longleftrightarrow>
     ctx' = ctx \<and> reg_signAndPublish (pe_signer E) (pe_ext E) (pe_now E) (ie_secretKey (pe_identity E)) tags []
       DEFAULT_POW_DIFFICULTY = (r, sent)"
  by (auto simp: page_sign_def split: prod.split)

lemma reg_signAndPublish_fails: "reg_signAndPublish S ext now sk tags content pow = (Inl e, sent) \<Longrightarrow> sent = []"
  by (auto simp: reg_signAndPublish_def Let_def split: sum.splits)

text \<open>The tags that reach the signer: the record's, and the token when there is something to pay.\<close>

definition paid_tags ::
  "'w page_env \<Rightarrow> tag list \<Rightarrow> int \<Rightarrow> 'w wallet_ctx \<Rightarrow> tag list \<Rightarrow> 'w wallet_ctx \<Rightarrow> bool" where
  "paid_tags E tags cost ctx allTags ctx' \<longleftrightarrow>
     (if cost > 0
      then cost \<le> wx_balance ctx \<and> (\<exists>token. sendTokens (pe_wallet E) (pe_stringify E) cost ctx = (Inr token, ctx') \<and>
        allTags = tags @ [buildCashuTag token page_mint cost])
      else allTags = tags \<and> ctx' = ctx)"

lemma handlePublish_sent:
  assumes "handlePublish E tags cost ctx = (Inr event, ctx', sent)"
  shows "truthy (ie_session (pe_identity E)) \<and> (\<exists>allTags. paid_tags E tags cost ctx allTags ctx' \<and>
    reg_signAndPublish (pe_signer E) (pe_ext E) (pe_now E) (ie_secretKey (pe_identity E)) allTags []
      DEFAULT_POW_DIFFICULTY = (Inr event, sent))"
  using assms
  by (auto simp: handlePublish_def paid_tags_def page_sign_sent split: if_splits prod.splits sum.splits)

lemma handlePublish_fails:
  "handlePublish E tags cost ctx = (Inl e, ctx', sent) \<Longrightarrow> sent = []"
  by (auto simp: handlePublish_def page_sign_sent dest: reg_signAndPublish_fails split: if_splits prod.splits sum.splits)

lemma domain_load_parts [simp]:
  "dp_success (domain_load q npub fetched page) = dp_success page"
  "dp_busy (domain_load q npub fetched page) = dp_busy page"
  "dp_editingId (domain_load q npub fetched page) = dp_editingId page"
  "dp_deleteTarget (domain_load q npub fetched page) = dp_deleteTarget page"
  by (simp_all add: domain_load_def split: sum.split)

lemma domain_push_eq: "domain_push groups r = (if pr_deleted r then groups else group_push domain_key groups r)"
  by (simp add: domain_push_def group_push_def Let_def nullish_def)

lemma foldl_domain_push:
  "foldl domain_push groups records = foldl (group_push domain_key) groups (filter (\<lambda>r. \<not> pr_deleted r) records)"
  by (induction records arbitrary: groups) (simp_all add: domain_push_eq)

lemma last_seen_Max: "last_seen recs = Max (insert 0 ((\<lambda>r. nullish (pr_created_at r) 0) ` set recs))"
proof -
  have "foldl (\<lambda>m r. max m (nullish (pr_created_at r) 0)) a recs = Max (insert a ((\<lambda>r. nullish (pr_created_at r) 0) ` set recs))" for a
  proof (induction recs arbitrary: a)
    case (Cons r recs)
    have "Max (insert (max a b) S) = Max (insert a (insert b S))" if "finite S" for b and S :: "int set"
      using that by (cases "S = {}") (auto simp: max.assoc)
    with Cons show ?case by simp
  qed simp
  then show ?thesis by (simp add: last_seen_def)
qed

lemma totalRecords_sum: "totalRecords ds = sum_list (map dm_recordCount ds)"
proof -
  have "foldl (\<lambda>n d. n + dm_recordCount d) a ds = a + sum_list (map dm_recordCount ds)" for a
    by (induction ds arbitrary: a) simp_all
  then show ?thesis by (simp add: totalRecords_def)
qed

section \<open>Properties\<close>

text \<open>
  C16. What the domain page's form sends has passed the record checks, is signed for a session, and carries a
  token over the whole cost, taken from a sufficient balance, when the name is not free; the page then
  shows the success and is idle.
\<close>

theorem handleAddRecord_published:
  assumes "handleAddRecord E show_error queryName zone pricing fetched ty name ttl page ctx = (page', ctx', sent)"
    and "sent \<noteq> []"
  shows "let nameToUse = or_else (Some name) (effective_name queryName (ie_npub (pe_identity E))) in
    validateRecord ty nameToUse (dp_formValue page) = None \<and> truthy (ie_session (pe_identity E)) \<and>
    (\<exists>allTags event. paid_tags E [buildRecordTag ty nameToUse (dp_formValue page) ttl]
        (createCost queryName (ie_npub (pe_identity E)) pricing) ctx allTags ctx' \<and>
      reg_signAndPublish (pe_signer E) (pe_ext E) (pe_now E) (ie_secretKey (pe_identity E)) allTags []
        DEFAULT_POW_DIFFICULTY = (Inr event, sent)) \<and>
    dp_success page' = Some (ty @ '' record published for '' @ page_fqdn queryName (ie_npub (pe_identity E)) zone) \<and>
    \<not> dp_busy page'"
proof -
  let ?n = "or_else (Some name) (effective_name queryName (ie_npub (pe_identity E)))"
  let ?tags = "[buildRecordTag ty ?n (dp_formValue page) ttl]"
  let ?cost = "createCost queryName (ie_npub (pe_identity E)) pricing"
  have v: "validateRecord ty ?n (dp_formValue page) = None"
    using assms by (auto simp: handleAddRecord_def Let_def split: option.splits)
  obtain r where h: "handlePublish E ?tags ?cost ctx = (r, ctx', sent)"
    using assms(1) v by (auto simp: handleAddRecord_def Let_def publish_and_reload_def split: prod.splits sum.splits)
  then obtain event where r: "r = Inr event" using handlePublish_fails [of E ?tags ?cost ctx] assms(2)
    by (cases r) auto
  have "dp_success page' = Some (ty @ '' record published for '' @ page_fqdn queryName (ie_npub (pe_identity E)) zone) \<and>
      \<not> dp_busy page'"
    using assms(1) v h r by (auto simp: handleAddRecord_def Let_def publish_and_reload_def)
  with v handlePublish_sent [OF h [unfolded r]] show ?thesis by (auto simp: Let_def)
qed

definition example_page_env :: "int page_env" where
  "example_page_env = \<lparr>pe_signer = example_signer\<lparr>sg_getPublicKey := (\<lambda>_. Some ''00000a'')\<rparr>, pe_ext = None, pe_now = 5000, pe_wallet = counting_wallet,
     pe_stringify = (\<lambda>_. []), pe_identity = \<lparr>ie_session = Some ''00ab'', ie_npub = Some ''npub1x'', ie_secretKey = Some [7]\<rparr>\<rparr>"

definition example_page :: domain_page where
  "example_page = \<lparr>dp_records = [], dp_loading = False, dp_error = None, dp_success = None, dp_busy = False,
     dp_formValue = ''hello'', dp_editingId = None, dp_editValue = [], dp_editTtl = 0, dp_deleteTarget = None\<rparr>"

theorem handleAddRecord_published_witness:
  "\<exists>page' ctx' event. handleAddRecord example_page_env (\<lambda>_. []) ''bob'' ''z'' None (Inr []) ''TXT'' [] 3600 example_page
       \<lparr>wx_manager = Some 900, wx_balance = 900, wx_ready = True\<rparr> = (page', ctx', map (\<lambda>url. (url, event)) PUBLISH_RELAYS) \<and>
     dp_success page' = Some (''TXT record published for '' @ page_fqdn ''bob'' (Some ''npub1x'') ''z'') \<and> \<not> dp_busy page'"
proof -
  let ?ctx = "\<lparr>wx_manager = Some (900::int), wx_balance = 900, wx_ready = True\<rparr>"
  have n: "effective_name ''bob'' (Some ''npub1x'') = ''bob''" by code_simp
  have v: "validateRecord ''TXT'' ''bob'' ''hello'' = None" by code_simp
  have c: "createCost ''bob'' (Some ''npub1x'') None = 100" by code_simp
  have "20 \<le> int (countLeadingZeroBits ''00000a'')" by code_simp
  then obtain page' ctx' event where r: "handleAddRecord example_page_env (\<lambda>_. []) ''bob'' ''z'' None (Inr []) ''TXT'' [] 3600
      example_page ?ctx = (page', ctx', map (\<lambda>url. (url, event)) PUBLISH_RELAYS)"
    by (auto simp: handleAddRecord_def publish_and_reload_def handlePublish_def page_sign_def truthy_def
        example_page_env_def example_page_def n v c or_else_def sendTokens_def with_manager_def prepare_execute_def
        counting_wallet_def reg_signAndPublish_def example_signer_def mine_step_def signing_pubkey_def
        sign_template_def DEFAULT_POW_DIFFICULTY_def Let_def)
  have "PUBLISH_RELAYS \<noteq> []" by (simp add: PUBLISH_RELAYS_def)
  with handleAddRecord_published [OF r] r show ?thesis
    by (auto simp: Let_def example_page_env_def)
qed

text \<open>
  A payment is lost when signing fails after the token has been made: the wallet has already given the
  token away, nothing is sent, and the error is all the caller gets.
\<close>

theorem handlePublish_payment_lost:
  assumes "truthy (ie_session (pe_identity E))" "0 < cost" "cost \<le> wx_balance ctx"
    and "sendTokens (pe_wallet E) (pe_stringify E) cost ctx = (Inr token, ctx')"
    and "fst (reg_signAndPublish (pe_signer E) (pe_ext E) (pe_now E) (ie_secretKey (pe_identity E))
      (tags @ [buildCashuTag token page_mint cost]) [] DEFAULT_POW_DIFFICULTY) = Inl e"
  shows "handlePublish E tags cost ctx = (Inl e, ctx', [])"
proof -
  obtain sent where "reg_signAndPublish (pe_signer E) (pe_ext E) (pe_now E) (ie_secretKey (pe_identity E))
      (tags @ [buildCashuTag token page_mint cost]) [] DEFAULT_POW_DIFFICULTY = (Inl e, sent)"
    using assms(5) by (metis prod.collapse)
  then have "page_sign E (tags @ [buildCashuTag token page_mint cost]) ctx' = (Inl e, ctx', [])"
    using reg_signAndPublish_fails page_sign_sent by metis
  with assms show ?thesis by (simp add: handlePublish_def)
qed

theorem handlePublish_payment_lost_witness:
  "let E = example_page_env\<lparr>pe_identity := \<lparr>ie_session = Some ''00ab'', ie_npub = None, ie_secretKey = None\<rparr>\<rparr>;
       (r, ctx', sent) = handlePublish E [] 100 \<lparr>wx_manager = Some 900, wx_balance = 900, wx_ready = True\<rparr>
   in r = Inl no_method \<and> wx_manager ctx' = Some 800 \<and> sent = []"
proof -
  let ?E = "example_page_env\<lparr>pe_identity := \<lparr>ie_session = Some ''00ab'', ie_npub = None, ie_secretKey = None\<rparr>\<rparr>"
  have "handlePublish ?E [] 100 \<lparr>wx_manager = Some 900, wx_balance = 900, wx_ready = True\<rparr> =
      (Inl no_method, \<lparr>wx_manager = Some 800, wx_balance = 900, wx_ready = True\<rparr>, [])"
    by (rule handlePublish_payment_lost [where token = "''token''"])
      (simp_all add: example_page_env_def sendTokens_def with_manager_def prepare_execute_def counting_wallet_def truthy_def
        reg_signAndPublish_def signing_pubkey_def mine_step_def DEFAULT_POW_DIFFICULTY_def isExtensionAvailable_def)
  then show ?thesis by (simp add: Let_def)
qed

text \<open>
  The records the domain page shows do not depend on their zones: those of another zone under the same
  name are shown too.
\<close>

theorem domain_filter_zone:
  "domain_filter queryName npub (map (\<lambda>r. r\<lparr>pr_zone := z\<rparr>) records) =
     map (\<lambda>r. r\<lparr>pr_zone := z\<rparr>) (domain_filter queryName npub records)"
  by (simp add: domain_filter_def filter_map comp_def cong: filter_cong)

text \<open>
  The dashboard's domains partition the records that are not deleted: every domain has at least one, all
  those of one name and zone; the counts add up; the domains are listed by their latest record, the
  newest first.
\<close>

theorem groupRecordsByDomain_spec:
  "mset (concat (map dm_records (groupRecordsByDomain records npub))) = mset (filter (\<lambda>r. \<not> pr_deleted r) records) \<and>
   totalRecords (groupRecordsByDomain records npub) = length (filter (\<lambda>r. \<not> pr_deleted r) records) \<and>
   sorted_wrt (\<lambda>a b. dm_lastSeen b \<le> dm_lastSeen a) (groupRecordsByDomain records npub) \<and>
   (\<forall>d \<in> set (groupRecordsByDomain records npub). \<exists>r \<in> set (dm_records d).
      dm_records d = filter (\<lambda>x. \<not> pr_deleted x \<and> domain_key x = domain_key r) records \<and>
      dm_lastSeen d = Max (insert 0 ((\<lambda>r. nullish (pr_created_at r) 0) ` set (dm_records d))))"
proof -
  let ?live = "filter (\<lambda>r. \<not> pr_deleted r) records"
  let ?ks = "js_uniq (map domain_key ?live)"
  let ?groups = "map (\<lambda>k. (k, filter (\<lambda>x. domain_key x = k) ?live)) ?ks"
  let ?ds = "groupRecordsByDomain records npub"
  have ds: "?ds = js_sort (\<lambda>a b. dm_lastSeen b - dm_lastSeen a) (map (domain_info npub) ?groups)"
    unfolding groupRecordsByDomain_def foldl_domain_push foldl_group_push ..
  have info: "dm_records (domain_info npub g) = snd g \<and> dm_recordCount (domain_info npub g) = length (snd g) \<and>
      dm_lastSeen (domain_info npub g) = last_seen (snd g)" for g
    by (cases g) (simp add: Let_def)
  note [simp del] = domain_info.simps
  have "mset (concat (map dm_records ?ds)) = sum_mset (image_mset (\<lambda>d. mset (dm_records d)) (mset ?ds))"
    by (simp add: mset_concat sum_mset_sum_list comp_def flip: mset_map)
  also have "\<dots> = mset (concat (map dm_records (map (domain_info npub) ?groups)))"
    unfolding ds by (simp add: mset_concat sum_mset_sum_list comp_def flip: mset_map)
  also have "\<dots> = mset (concat (map (\<lambda>k. filter (\<lambda>x. domain_key x = k) ?live) ?ks))"
    by (simp add: info comp_def)
  finally have m: "mset (concat (map dm_records ?ds)) = mset ?live" unfolding mset_groups .
  have "\<forall>d \<in> set ?ds. dm_recordCount d = length (dm_records d)" by (auto simp: ds info)
  then have "totalRecords ?ds = length (concat (map dm_records ?ds))"
    by (simp add: totalRecords_sum length_concat comp_def cong: map_cong)
  moreover have "length (concat (map dm_records ?ds)) = length ?live" by (rule mset_eq_length [OF m])
  moreover have "sorted_wrt (\<lambda>a b. dm_lastSeen b \<le> dm_lastSeen a) ?ds"
    using latest_domain.sorted_js_sort [of "map (domain_info npub) ?groups"] by (simp add: ds)
  moreover have "\<forall>d \<in> set ?ds. \<exists>r \<in> set (dm_records d).
      dm_records d = filter (\<lambda>x. \<not> pr_deleted x \<and> domain_key x = domain_key r) records \<and>
      dm_lastSeen d = Max (insert 0 ((\<lambda>r. nullish (pr_created_at r) 0) ` set (dm_records d)))"
    by (auto simp: ds info last_seen_Max conj_commute)
  ultimately show ?thesis using m by simp
qed

theorem groupRecordsByDomain_spec_witness:
  "totalRecords (groupRecordsByDomain
     [\<lparr>pr_id = None, pr_type = ''A'', pr_name = ''x'', pr_rdata = ''1.2.3.4'', pr_ttl = 60, pr_zone = None,
        pr_npub = None, pr_event_id = None, pr_created_at = Some 9,
        pr_deleted = False\<rparr>] (Some ''npub1'')) = 1"
  using groupRecordsByDomain_spec
    [of "[\<lparr>pr_id = None, pr_type = ''A'', pr_name = ''x'', pr_rdata = ''1.2.3.4'', pr_ttl = 60, pr_zone = None,
        pr_npub = None, pr_event_id = None, pr_created_at = Some 9, pr_deleted = False\<rparr>]" "Some ''npub1''"] by simp

text \<open>
  The availability the landing page shows is that of a valid name in the active zone, and the page is not
  searching any more.
\<close>

theorem handleSearch_result:
  assumes "lp_result (handleSearch show_error check activeZone query page) = Some res" "lp_result page = None"
  shows "\<exists>name. name = strip_zone_suffix activeZone (toLowerCase (trim query)) \<and> name \<noteq> [] \<and> validateDomainName name = None \<and>
    check name = Inr res \<and> lp_searchError (handleSearch show_error check activeZone query page) = None \<and>
    \<not> lp_searching (handleSearch show_error check activeZone query page)"
  using assms by (auto simp: handleSearch_def Let_def split: if_splits option.splits sum.splits)

theorem handleSearch_result_witness:
  "\<not> lp_searching (handleSearch (\<lambda>_. []) (\<lambda>name. Inr \<lparr>av_name = name, av_zone = ''z'', av_fqdn = name @ ''.z'',
       av_available = True, av_price = Some (JNum 5), av_reason = None\<rparr>) ''z'' '' Bob.Z '' (resetSearch
       \<lparr>lp_result = None, lp_searching = True, lp_searchError = None, lp_registering = False, lp_registerError = None,
         lp_registeredFqdn = None\<rparr>))"
proof -
  have n: "strip_zone_suffix ''z'' (toLowerCase (trim '' Bob.Z '')) = ''bob''" by code_simp
  have v: "validateDomainName ''bob'' = None" by code_simp
  have "lp_result (handleSearch (\<lambda>_. []) (\<lambda>name. Inr \<lparr>av_name = name, av_zone = ''z'', av_fqdn = name @ ''.z'',
       av_available = True, av_price = Some (JNum 5), av_reason = None\<rparr>) ''z'' '' Bob.Z '' (resetSearch
       \<lparr>lp_result = None, lp_searching = True, lp_searchError = None, lp_registering = False, lp_registerError = None,
         lp_registeredFqdn = None\<rparr>)) =
     Some \<lparr>av_name = ''bob'', av_zone = ''z'', av_fqdn = ''bob.z'', av_available = True, av_price = Some (JNum 5), av_reason = None\<rparr>"
    by (simp add: handleSearch_def n v)
  from handleSearch_result [OF this] show ?thesis by (auto simp: resetSearch_def)
qed

text \<open>
  A registration that reaches the relays marks the name with a TXT record and, when the name has a price,
  carries a token of that price; it is reported exactly then.
\<close>

theorem handleRegister_published:
  assumes "handleRegister E show_error page ctx = (page', ctx', sent)" "sent \<noteq> []"
  shows "\<exists>result allTags event. lp_result page = Some result \<and> ie_session (pe_identity E) \<noteq> None \<and>
    lp_registeredFqdn page' = Some (av_fqdn result) \<and> lp_registerError page' = None \<and> \<not> lp_registering page' \<and>
    (let tag = buildRecordTag ''TXT'' (av_name result) ''registered'' 3600; price = landing_price result
     in if price > 0
        then \<exists>token. sendTokens (pe_wallet E) (pe_stringify E) price ctx = (Inr token, ctx') \<and>
          allTags = [tag, buildCashuTag token page_mint price]
        else allTags = [tag] \<and> ctx' = ctx) \<and>
    reg_signAndPublish (pe_signer E) (pe_ext E) (pe_now E) (ie_secretKey (pe_identity E)) allTags []
      DEFAULT_POW_DIFFICULTY = (Inr event, sent)"
  using assms
  by (auto simp: handleRegister_def Let_def page_sign_sent dest: reg_signAndPublish_fails
      split: if_splits prod.splits sum.splits option.splits)

theorem handleRegister_published_witness:
  "\<exists>page' ctx' event. handleRegister example_page_env (\<lambda>_. [])
       \<lparr>lp_result = Some \<lparr>av_name = ''bob'', av_zone = ''z'', av_fqdn = ''bob.z'', av_available = True, av_price = Some (JNum 5),
          av_reason = None\<rparr>, lp_searching = False, lp_searchError = None, lp_registering = False, lp_registerError = None,
          lp_registeredFqdn = None\<rparr>
       \<lparr>wx_manager = Some 900, wx_balance = 900, wx_ready = True\<rparr> = (page', ctx', map (\<lambda>url. (url, event)) PUBLISH_RELAYS) \<and>
     lp_registeredFqdn page' = Some ''bob.z''"
proof -
  have "20 \<le> int (countLeadingZeroBits ''00000a'')" by code_simp
  then obtain page' ctx' event where r: "handleRegister example_page_env (\<lambda>_. [])
       \<lparr>lp_result = Some \<lparr>av_name = ''bob'', av_zone = ''z'', av_fqdn = ''bob.z'', av_available = True, av_price = Some (JNum 5),
          av_reason = None\<rparr>, lp_searching = False, lp_searchError = None, lp_registering = False, lp_registerError = None,
          lp_registeredFqdn = None\<rparr>
       \<lparr>wx_manager = Some 900, wx_balance = 900, wx_ready = True\<rparr> = (page', ctx', map (\<lambda>url. (url, event)) PUBLISH_RELAYS)"
    by (auto simp: handleRegister_def landing_price_def page_sign_def
        example_page_env_def sendTokens_def with_manager_def prepare_execute_def
        counting_wallet_def reg_signAndPublish_def example_signer_def mine_step_def signing_pubkey_def
        sign_template_def DEFAULT_POW_DIFFICULTY_def Let_def)
  have "PUBLISH_RELAYS \<noteq> []" by (simp add: PUBLISH_RELAYS_def)
  with handleRegister_published [OF r] r show ?thesis by auto
qed

end
