(* ===== verification/Explorer_ZoneFile.thy ===== *)
theory Explorer_ZoneFile
  imports Cli_ZoneFile
begin

text \<open>
  \<open>nodns-explorer/src/lib/zone-file.ts\<close> and \<open>dns-lookup.ts\<close>: the explorer's zone files and its DNS
  queries. Its \<open>ZoneRecord\<close> has the fields of the command line tool's; a record's name is a full
  domain name here. \<open>localeCompare\<close> is the parameter \<open>lc\<close>, the time printed is \<open>stamp\<close>.
\<close>

type_synonym ex_ZoneRecord = ZoneRecord

section \<open>Zone files\<close>

definition toRelativeLabel :: "string \<Rightarrow> string \<Rightarrow> string" where
  "toRelativeLabel fqdn zone =
     (let suffix = toLowerCase (''.'' @ zone); lower = toLowerCase fqdn
      in if endsWith lower suffix then
           let rel = slice_to (length fqdn - length suffix) fqdn
           in if length rel > 0 then rel else ''@''
         else fqdn)"

definition ex_escapeTxt :: "string \<Rightarrow> string" where
  "ex_escapeTxt d =
     quote_char # replaceAll_char quote_char [backslash, quote_char] (replaceAll_char backslash [backslash, backslash] d) @
     [quote_char]"

definition ex_compare :: "(string \<Rightarrow> string \<Rightarrow> int) \<Rightarrow> ex_ZoneRecord \<Rightarrow> ex_ZoneRecord \<Rightarrow> int" where
  "ex_compare lc a b =
     (let nameCmp = lc (toLowerCase (zr_name a)) (toLowerCase (zr_name b))
      in if nameCmp \<noteq> 0 then nameCmp
         else
           let typeCmp = lc (toUpperCase (zr_type a)) (toUpperCase (zr_type b))
           in if typeCmp \<noteq> 0 then typeCmp else lc (zr_rdata a) (zr_rdata b))"

text \<open>\<open>Math.max(n, ...ns)\<close>.\<close>

definition max_of :: "nat \<Rightarrow> nat list \<Rightarrow> nat" where
  "max_of n ns = foldl max n ns"

definition ex_record_line :: "string \<Rightarrow> nat \<Rightarrow> nat \<Rightarrow> ex_ZoneRecord \<Rightarrow> string" where
  "ex_record_line zone nameWidth typeWidth r =
     (let label = or_else (Some (toRelativeLabel (zr_name r) zone)) ''@'';
          rdata = (if toUpperCase (zr_type r) = ''TXT'' then ex_escapeTxt (zr_rdata r) else zr_rdata r)
      in padEnd nameWidth label @ ''  IN  '' @ padEnd typeWidth (toUpperCase (zr_type r)) @ ''  '' @
         show_int (zr_ttl r) @ ''  '' @ rdata)"

definition ex_zone_lines :: "(string \<Rightarrow> string \<Rightarrow> int) \<Rightarrow> string \<Rightarrow> ex_ZoneRecord list \<Rightarrow> string \<Rightarrow> string list" where
  "ex_zone_lines lc stamp records zone =
     (let sorted = js_sort (ex_compare lc) records;
          labels = map (\<lambda>r. toRelativeLabel (zr_name r) zone) sorted;
          nameWidth = max_of 1 (map length labels);
          typeWidth = max_of 3 (map (\<lambda>r. length (zr_type r)) sorted)
      in [''$ORIGIN '' @ zone @ ''.'', ''$TTL 3600'', ''; generated '' @ stamp,
          ''; '' @ show_nat (length records) @ '' records'', []] @
         map (ex_record_line zone nameWidth typeWidth) sorted)"

definition ex_generateZoneFile :: "(string \<Rightarrow> string \<Rightarrow> int) \<Rightarrow> string \<Rightarrow> ex_ZoneRecord list \<Rightarrow> string \<Rightarrow> string" where
  "ex_generateZoneFile lc stamp records zone = join [newline] (ex_zone_lines lc stamp records zone) @ [newline]"

section \<open>DNS queries\<close>

definition DNS_QUERY_TYPES :: "string list" where
  "DNS_QUERY_TYPES = [''A'', ''AAAA'', ''TXT'', ''CNAME'', ''MX'']"

definition dns_zone_record :: "string \<Rightarrow> string \<Rightarrow> string \<Rightarrow> ex_ZoneRecord" where
  "dns_zone_record fqdn type rdata = \<lparr>zr_name = fqdn, zr_type = type, zr_ttl = 3600, zr_rdata = rdata,
     zr_npub = [], zr_event_id = [], zr_created_at = 0\<rparr>"

text \<open>\<open>Promise.all\<close>: the results in order, or a rejection as soon as one is rejected; of several, which
  one comes first is not determined, and the first in the list stands for it.\<close>

fun promise_all :: "('e + 'a) list \<Rightarrow> 'e + 'a list" where
  "promise_all [] = Inr []"
| "promise_all (p # ps) = try_bind p (\<lambda>v. try_bind (promise_all ps) (\<lambda>vs. Inr (v # vs)))"

definition ex_queryZoneRecords :: "doh \<Rightarrow> string \<Rightarrow> js_error + ex_ZoneRecord list" where
  "ex_queryZoneRecords fetch fqdn =
     try_bind (promise_all (map (\<lambda>type.
         try_bind (queryDnsRecords fetch fqdn type None) (\<lambda>rdatas.
           Inr (map (dns_zone_record fqdn type) rdatas))) DNS_QUERY_TYPES))
       (\<lambda>results. Inr (concat results))"

section \<open>Lemmas\<close>

lemma promise_all_Inr_iff: "promise_all ps = Inr vs \<longleftrightarrow> ps = map Inr vs"
  by (induction ps arbitrary: vs) (auto simp: try_bind_Inr_iff)

lemma promise_all_Inl: "promise_all ps = Inl e \<Longrightarrow> Inl e \<in> set ps"
proof (induction ps)
  case (Cons p ps)
  then show ?case by (cases p; cases "promise_all ps") auto
qed simp

lemma promise_all_bind:
  "promise_all (map (\<lambda>x. try_bind (q x) (\<lambda>v. Inr (h x v))) xs) = Inr ws \<longleftrightarrow>
     (\<exists>vs. map q xs = map Inr vs \<and> ws = map2 h xs vs)"
proof (induction xs arbitrary: ws)
  case (Cons x xs)
  have "promise_all (map (\<lambda>x. try_bind (q x) (\<lambda>v. Inr (h x v))) (x # xs)) = Inr ws \<longleftrightarrow>
      (\<exists>v ws'. q x = Inr v \<and> promise_all (map (\<lambda>x. try_bind (q x) (\<lambda>v. Inr (h x v))) xs) = Inr ws' \<and> ws = h x v # ws')"
    by (auto simp: try_bind_Inr_iff)
  also have "\<dots> \<longleftrightarrow> (\<exists>v vs. q x = Inr v \<and> map q xs = map Inr vs \<and> ws = h x v # map2 h xs vs)"
    unfolding Cons.IH by blast
  also have "\<dots> \<longleftrightarrow> (\<exists>vs. map q (x # xs) = map Inr vs \<and> ws = map2 h (x # xs) vs)"
  proof
    assume "\<exists>v vs. q x = Inr v \<and> map q xs = map Inr vs \<and> ws = h x v # map2 h xs vs"
    then obtain v vs where "q x = Inr v" "map q xs = map Inr vs" "ws = h x v # map2 h xs vs" by blast
    then show "\<exists>vs. map q (x # xs) = map Inr vs \<and> ws = map2 h (x # xs) vs" by (intro exI [of _ "v # vs"]) simp
  qed auto
  finally show ?case .
qed auto

lemma ex_escapeTxt_cli: "ex_escapeTxt d = quote_char # escapeTxt d @ [quote_char]"
  by (simp add: ex_escapeTxt_def escapeTxt_def)

lemma comparator_ex_compare:
  assumes "comparator lc" shows "comparator (ex_compare lc)"
proof -
  have "ex_compare lc = cmp_then (\<lambda>a b. lc (toLowerCase (zr_name a)) (toLowerCase (zr_name b)))
     (cmp_then (\<lambda>a b. lc (toUpperCase (zr_type a)) (toUpperCase (zr_type b))) (\<lambda>a b. lc (zr_rdata a) (zr_rdata b)))"
    by (auto simp: fun_eq_iff ex_compare_def cmp_then_def Let_def)
  then show ?thesis
    using comparator_cmp_then comparator_on [OF assms] by metis
qed

interpretation ex_order: comparator "ex_compare cmp_order"
  by (rule comparator_ex_compare [OF comparator_cmp_order])

section \<open>Properties\<close>

text \<open>
  A name below the zone becomes the label that, completed with the zone, is the name again up to
  letter case. The zone's own name has no such label and is written unchanged, without a final dot.
\<close>

theorem toRelativeLabel_spec:
  "(\<forall>l. l \<noteq> [] \<longrightarrow> toRelativeLabel (l @ ''.'' @ zone) zone = l) \<and>
   (endsWith (toLowerCase fqdn) (toLowerCase (''.'' @ zone)) \<and> toRelativeLabel fqdn zone \<noteq> ''@'' \<longrightarrow>
      toLowerCase (toRelativeLabel fqdn zone @ ''.'' @ zone) = toLowerCase fqdn) \<and>
   toRelativeLabel zone zone = zone"
proof (intro conjI allI impI)
  fix l :: string
  assume "l \<noteq> []"
  then show "toRelativeLabel (l @ ''.'' @ zone) zone = l"
    by (simp add: toRelativeLabel_def Let_def slice_to_def toLowerCase_append [of l])
next
  assume a: "endsWith (toLowerCase fqdn) (toLowerCase (''.'' @ zone)) \<and> toRelativeLabel fqdn zone \<noteq> ''@''"
  then obtain t where t: "toLowerCase fqdn = t @ toLowerCase (''.'' @ zone)" by (auto simp: endsWith_iff)
  then have l: "length fqdn - length (toLowerCase (''.'' @ zone)) = length t"
    by (metis add_diff_cancel_right' length_append length_toLowerCase)
  have "toLowerCase (take (length t) fqdn) = t"
    using t by (simp add: toLowerCase_def take_map [symmetric])
  with a l show "toLowerCase (toRelativeLabel fqdn zone @ ''.'' @ zone) = toLowerCase fqdn"
    by (auto simp: toRelativeLabel_def Let_def slice_to_def toLowerCase_append t split: if_splits)
next
  have "\<not> endsWith (toLowerCase zone) (toLowerCase (''.'' @ zone))"
  proof
    assume "endsWith (toLowerCase zone) (toLowerCase (''.'' @ zone))"
    then obtain t where "toLowerCase zone = t @ toLowerCase (''.'' @ zone)" by (auto simp: endsWith_iff)
    then have "length (toLowerCase zone) = length (t @ toLowerCase (''.'' @ zone))" by (rule arg_cong)
    then show False by simp
  qed
  then show "toRelativeLabel zone zone = zone" by (simp add: toRelativeLabel_def Let_def)
qed

theorem toRelativeLabel_spec_witness:
  "toRelativeLabel ''a.Zone'' ''zone'' = ''a'' \<and> toRelativeLabel ''zone'' ''zone'' = ''zone'' \<and>
   toRelativeLabel ''b.zone'' ''zone'' = ''b''"
proof -
  have "toRelativeLabel ''a.Zone'' ''zone'' = ''a''" by code_simp
  moreover have "toRelativeLabel (''b'' @ ''.'' @ ''zone'') ''zone'' = ''b''"
    using toRelativeLabel_spec [of "''zone''" "''a.Zone''"] by blast
  ultimately show ?thesis using toRelativeLabel_spec [of "''zone''" "''a.Zone''"] by simp
qed

text \<open>
  Asking DNS for a name succeeds exactly when the queries of all five types do, and gives their
  records in the order of the types; otherwise it fails with the error of one of the queries.
\<close>

theorem ex_queryZoneRecords_spec:
  "(ex_queryZoneRecords fetch fqdn = Inr rs \<longleftrightarrow>
      (\<exists>vs. map (\<lambda>type. queryDnsRecords fetch fqdn type None) DNS_QUERY_TYPES = map Inr vs \<and>
         rs = concat (map2 (\<lambda>type v. map (dns_zone_record fqdn type) v) DNS_QUERY_TYPES vs))) \<and>
   (ex_queryZoneRecords fetch fqdn = Inl e \<longrightarrow>
      (\<exists>type \<in> set DNS_QUERY_TYPES. queryDnsRecords fetch fqdn type None = Inl e))"
proof (intro conjI impI)
  show "ex_queryZoneRecords fetch fqdn = Inr rs \<longleftrightarrow>
      (\<exists>vs. map (\<lambda>type. queryDnsRecords fetch fqdn type None) DNS_QUERY_TYPES = map Inr vs \<and>
         rs = concat (map2 (\<lambda>type v. map (dns_zone_record fqdn type) v) DNS_QUERY_TYPES vs))"
    unfolding ex_queryZoneRecords_def try_bind_Inr_iff promise_all_bind by auto
next
  assume "ex_queryZoneRecords fetch fqdn = Inl e"
  then have "promise_all (map (\<lambda>type. try_bind (queryDnsRecords fetch fqdn type None) (\<lambda>rdatas.
      Inr (map (dns_zone_record fqdn type) rdatas))) DNS_QUERY_TYPES) = Inl e"
    by (simp add: ex_queryZoneRecords_def try_bind_def split: sum.splits)
  from promise_all_Inl [OF this] show "\<exists>type \<in> set DNS_QUERY_TYPES. queryDnsRecords fetch fqdn type None = Inl e"
    by (auto simp: try_bind_def split: sum.splits)
qed

theorem ex_queryZoneRecords_spec_witness:
  "ex_queryZoneRecords (\<lambda>_. FetchAbort) ''x.nodns.shop'' \<noteq> Inr []"
proof
  assume "ex_queryZoneRecords (\<lambda>_. FetchAbort) ''x.nodns.shop'' = Inr []"
  then obtain vs where "map (\<lambda>type. queryDnsRecords (\<lambda>_. FetchAbort) ''x.nodns.shop'' type None) DNS_QUERY_TYPES = map Inr vs"
    using ex_queryZoneRecords_spec [of "\<lambda>_. FetchAbort" "''x.nodns.shop''" "[]" LibError] by blast
  then show False by (auto simp: DNS_QUERY_TYPES_def queryDnsRecords_def queryDoh_def)
qed

end
