(* ===== verification/Explorer_Events.thy ===== *)
theory Explorer_Events
  imports Sdk_Zones
begin

text \<open>
  \<open>nodns-explorer/src/lib/event-analysis.ts\<close> and \<open>format.ts\<close>: what the explorer reads from a record or
  zone event beyond the SDK's parsers, and how it abbreviates what it shows.
\<close>

section \<open>Payments\<close>

datatype PaymentStatus = Paid | Free | Unpaid

record PaymentInfo =
  py_status :: PaymentStatus
  py_paid :: bool
  py_amount :: int
  py_mint :: string
  py_isTestnut :: bool

definition ex_parseRecord :: "(string \<Rightarrow> string option) \<Rightarrow> NostrEvent \<Rightarrow> RecordInfo option" where
  "ex_parseRecord enc event = parseRecord enc event DEFAULT_ZONE"

definition ex_parseRecords :: "(string \<Rightarrow> string option) \<Rightarrow> NostrEvent \<Rightarrow> RecordInfo list" where
  "ex_parseRecords enc event = parseRecords enc event DEFAULT_ZONE"

definition parsePayment :: "(string \<Rightarrow> string option) \<Rightarrow> NostrEvent \<Rightarrow> PaymentInfo" where
  "parsePayment enc event =
     (let no_payment = \<lparr>
            py_status =
              (if (case ex_parseRecord enc event of Some r \<Rightarrow> ri_isNpubDerived r | None \<Rightarrow> True) then Free else Unpaid),
            py_paid = False, py_amount = 0, py_mint = [], py_isTestnut = False\<rparr>
      in case List.find (tag_is ''cashu'') (ev_tags event) of
           None \<Rightarrow> no_payment
         | Some tag \<Rightarrow>
             if length tag < 4 then no_payment
             else
               let mint = nullish (nth_opt tag 2) [];
                   amount = parseInt (nullish (nth_opt tag 3) ''0'')
               in \<lparr>py_status = Paid, py_paid = True, py_amount = nullish amount 0, py_mint = mint,
                    py_isTestnut = str_includes mint ''testnut''\<rparr>)"

section \<open>Zone events\<close>

record ZoneEventInfo =
  zi_zone :: string
  zi_status :: "string option"
  zi_testnet :: bool
  zi_pricing :: "ZonePricing option"
  zi_mint :: "string option"
  zi_web :: "string option"
  zi_operatorNpub :: string
  zi_dnskeyHash :: "string option"

text \<open>The pricing loop: the four variables that it assigns are its state.\<close>

fun pricing_entry :: "int \<times> int \<times> int \<times> bool \<Rightarrow> string \<Rightarrow> int \<times> int \<times> int \<times> bool" where
  "pricing_entry (create, update, del, found) entry =
     (case indexOf entry (CHR ''='') of
        None \<Rightarrow> (create, update, del, found)
      | Some eq \<Rightarrow>
          let key = trim (slice_to eq entry)
          in case parseInt (trim (slice_from (Suc eq) entry)) of
               None \<Rightarrow> (create, update, del, found)
             | Some val \<Rightarrow>
                 if key = ''create'' then (val, update, del, True)
                 else if key = ''update'' then (create, val, del, True)
                 else if key = ''delete'' then (create, update, val, True)
                 else (create, update, del, True))"

definition zone_event_pricing :: "tag list \<Rightarrow> ZonePricing option" where
  "zone_event_pricing tags =
     (case List.find (tag_is ''pricing'') tags of
        None \<Rightarrow> None
      | Some pricingTag \<Rightarrow>
          let (create, update, del, found) = foldl pricing_entry (0, 0, 0, False) (drop 1 pricingTag)
          in if found then Some \<lparr>zp_create = create, zp_update = update, zp_delete = del\<rparr> else None)"

definition parseZoneEvent :: "(string \<Rightarrow> string option) \<Rightarrow> NostrEvent \<Rightarrow> ZoneEventInfo option" where
  "parseZoneEvent enc event =
     (let tags = ev_tags event
      in case List.find (tag_with ''zone'') tags of
           None \<Rightarrow> None
         | Some zoneTag \<Rightarrow>
             Some \<lparr>zi_zone = zoneTag ! 1,
               zi_status = tag_value ''status'' tags,
               zi_testnet = list_ex (tag_is ''testnet'') tags,
               zi_pricing = zone_event_pricing tags,
               zi_mint = tag_value ''mint'' tags,
               zi_web = tag_value ''web'' tags,
               zi_operatorNpub = safeNpubEncode enc (ev_pubkey event),
               zi_dnskeyHash = tag_value ''dnskey_hash'' tags\<rparr>)"

section \<open>Formats\<close>

text \<open>\<open>s.slice(a, b)\<close>: a negative index counts from the end, and both are kept within the string.\<close>

definition slice_index :: "nat \<Rightarrow> int \<Rightarrow> nat" where
  "slice_index len i = (if i < 0 then nat (int len + i) else min (nat i) len)"

definition js_slice :: "int \<Rightarrow> int option \<Rightarrow> string \<Rightarrow> string" where
  "js_slice a b s =
     (let i = slice_index (length s) a; j = (case b of None \<Rightarrow> length s | Some b \<Rightarrow> slice_index (length s) b)
      in take (j - i) (drop i s))"

definition timeAgo :: "int \<Rightarrow> int \<Rightarrow> string" where
  "timeAgo nowMs timestamp =
     (let now = nowMs div 1000; diff = now - timestamp
      in if diff < 5 then ''just now''
         else if diff < 60 then show_int diff @ ''s ago''
         else if diff < 3600 then show_int (diff div 60) @ '' min ago''
         else if diff < 86400 then show_int (diff div 3600) @ ''h ago''
         else if diff < 2592000 then show_int (diff div 86400) @ ''d ago''
         else show_int (diff div 2592000) @ ''mo ago'')"

definition truncateNpub :: "int \<Rightarrow> int \<Rightarrow> string \<Rightarrow> string" where
  "truncateNpub head tail npub =
     (if int (length npub) \<le> head + tail + 3 then npub
      else js_slice 0 (Some head) npub @ ''...'' @ js_slice (- tail) None npub)"

definition truncateMid :: "int \<Rightarrow> string \<Rightarrow> string" where
  "truncateMid maxLen str =
     (if int (length str) \<le> maxLen then str
      else let half = (maxLen - 3) div 2
           in js_slice 0 (Some half) str @ ''...'' @ js_slice (- half) None str)"

definition formatRecordData :: "string \<Rightarrow> string \<Rightarrow> string" where
  "formatRecordData type data =
     (if type = ''TXT'' then data else if type = ''MX'' then data else data)"

section \<open>Lemmas\<close>

lemma js_slice_front: "0 \<le> n \<Longrightarrow> js_slice 0 (Some n) s = take (nat n) s"
  by (cases "nat n \<le> length s") (simp_all add: js_slice_def slice_index_def)

lemma js_slice_back: "0 < n \<Longrightarrow> js_slice (- n) None s = drop (length s - nat n) s"
  by (simp add: js_slice_def slice_index_def nat_diff_distrib')

lemma js_slice_zero: "js_slice 0 None s = s"
  by (simp add: js_slice_def slice_index_def)

text \<open>The state of the explorer's pricing loop is that of the SDK's.\<close>

definition pricing_tuple :: "pricing_state \<Rightarrow> int \<times> int \<times> int \<times> bool" where
  "pricing_tuple st = (ps_create st, ps_update st, ps_del st, ps_found st)"

lemma pricing_entry_step: "pricing_entry (pricing_tuple st) entry = pricing_tuple (pricing_step st entry)"
  by (simp add: pricing_tuple_def pricing_step_def Let_def split: option.split)

lemma pricing_entries_steps:
  "foldl pricing_entry (pricing_tuple st) es = pricing_tuple (foldl pricing_step st es)"
  by (induction es arbitrary: st) (simp_all add: pricing_entry_step)

lemma zone_event_pricing_eq: "zone_event_pricing tags = parsePricingTag tags"
proof (cases "List.find (tag_is ''pricing'') tags")
  case (Some t)
  have "foldl pricing_entry (0, 0, 0, False) (drop 1 t) =
      pricing_tuple (foldl pricing_step \<lparr>ps_create = 0, ps_update = 0, ps_del = 0, ps_found = False\<rparr> (drop 1 t))"
    by (simp add: pricing_entries_steps [symmetric]) (simp add: pricing_tuple_def)
  then show ?thesis
    using Some by (simp add: zone_event_pricing_def parsePricingTag_def pricing_tuple_def Let_def)
qed (simp add: zone_event_pricing_def parsePricingTag_def)

section \<open>Properties\<close>

text \<open>
  The explorer's reading of a zone event agrees with the SDK's zone discovery: one gives a zone
  exactly when the other does, with the same name up to case, prices, mint, web address and key hash.
\<close>

theorem parseZoneEvent_eventToPartialZone:
  "map_option (\<lambda>i. (toLowerCase (zi_zone i), zi_testnet i, zi_pricing i, zi_mint i, zi_web i, zi_dnskeyHash i))
     (parseZoneEvent enc event) =
   map_option (\<lambda>z. (dz_zone z, dz_testnet z, dz_pricing z, dz_mint z, dz_web z, dz_dnskeyHash z))
     (eventToPartialZone event)"
  by (cases "List.find (tag_with ''zone'') (ev_tags event)")
    (simp_all add: parseZoneEvent_def eventToPartialZone_def zone_event_pricing_eq tag_value_def Let_def
      split: prod.split)

text \<open>
  The payment tag that the SDK builds is read by the explorer as paid, with the mint and the amount
  it was built from, when it is the first of its kind.
\<close>

theorem parsePayment_buildCashuTag:
  assumes "ev_tags event = pre @ buildCashuTag token mint amount # post" "\<forall>t \<in> set pre. \<not> tag_is ''cashu'' t"
  shows "parsePayment enc event = \<lparr>py_status = Paid, py_paid = True, py_amount = amount, py_mint = mint,
    py_isTestnut = str_includes mint ''testnut''\<rparr>"
proof -
  have "List.find (tag_is ''cashu'') (ev_tags event) = Some (buildCashuTag token mint amount)"
    using assms(2) unfolding assms(1)
    by (induction pre) (auto simp: buildCashuTag_def tag_is_def)
  then show ?thesis by (simp add: parsePayment_def buildCashuTag_def Let_def eval_nat_numeral)
qed

theorem parsePayment_buildCashuTag_witness:
  "parsePayment (\<lambda>_. None) (example_event [[''record'', ''A'', ''x'', ''1.2.3.4''], buildCashuTag ''tok'' ''https://testnut'' 21]) =
   \<lparr>py_status = Paid, py_paid = True, py_amount = 21, py_mint = ''https://testnut'', py_isTestnut = True\<rparr>"
  using parsePayment_buildCashuTag [of "example_event [[''record'', ''A'', ''x'', ''1.2.3.4''],
      buildCashuTag ''tok'' ''https://testnut'' 21]" "[[''record'', ''A'', ''x'', ''1.2.3.4'']]"]
  by (simp add: example_event_def tag_is_def)

text \<open>
  An abbreviated text is no longer than asked and keeps both ends; but an abbreviation to 3 or 4
  characters repeats the whole text after the dots, since \<open>slice(-0)\<close> is the whole text.
\<close>

theorem truncateMid_bound:
  assumes "5 \<le> maxLen"
  shows "int (length (truncateMid maxLen str)) \<le> maxLen \<and>
    (int (length str) > maxLen \<longrightarrow>
       (\<exists>n. truncateMid maxLen str = take n str @ ''...'' @ drop (length str - n) str)) \<and>
    (int (length str) > 4 \<longrightarrow> truncateMid 4 str = ''...'' @ str \<and> truncateMid 3 str = ''...'' @ str)"
proof -
  let ?h = "(maxLen - 3) div 2"
  have h: "0 < ?h" using assms by simp
  have long: "truncateMid maxLen str = take (nat ?h) str @ ''...'' @ drop (length str - nat ?h) str"
    if "int (length str) > maxLen"
    using that h by (simp add: truncateMid_def Let_def js_slice_front js_slice_back del: append_Cons)
  have "int (length (truncateMid maxLen str)) \<le> maxLen" if "int (length str) > maxLen"
  proof -
    have "length (truncateMid maxLen str) \<le> 2 * nat ?h + 3" by (simp add: long [OF that])
    moreover have "2 * ?h + 3 \<le> maxLen" by simp
    ultimately show ?thesis using h by linarith
  qed
  then show ?thesis
    using long by (auto simp: truncateMid_def js_slice_front js_slice_zero)
qed

theorem truncateMid_bound_witness:
  "truncateMid 7 ''abcdefghij'' = ''ab...ij'' \<and> int (length (truncateMid 7 ''abcdefghij'')) \<le> 7 \<and>
   truncateMid 4 ''abcdefghij'' = ''...abcdefghij''"
  using truncateMid_bound [of 7 "''abcdefghij''"] by (simp add: truncateMid_def js_slice_def slice_index_def)

end
