(* ===== verification/Explorer_Monitor.thy ===== *)
theory Explorer_Monitor
  imports Explorer_ZoneFile Explorer_Events
begin

text \<open>
  \<open>nodns-explorer/src/components/zone-monitor.tsx\<close>: the explorer's comparison of a zone as the relays,
  the operator's API and DNS show it. The view itself is left out; the states it goes through on a
  refresh are modelled.
\<close>

section \<open>Keys\<close>

definition mon_normalizeRdata :: "string \<Rightarrow> string" where
  "mon_normalizeRdata rdata = trim (replaceAll_char quote_char [] (toLowerCase rdata))"

definition nameTypeKey :: "string \<Rightarrow> string \<Rightarrow> string" where
  "nameTypeKey name type = toLowerCase name @ ''|'' @ toUpperCase type"

definition recordKey :: "ZoneRecord \<Rightarrow> string" where
  "recordKey r = toLowerCase (zr_name r) @ ''|'' @ toUpperCase (zr_type r) @ ''|'' @ mon_normalizeRdata (zr_rdata r)"

section \<open>The three sources\<close>

definition relay_zone_record :: "NostrEvent \<Rightarrow> RecordInfo \<Rightarrow> ZoneRecord" where
  "relay_zone_record event rec = \<lparr>zr_name = ri_fqdn rec, zr_type = ri_type rec, zr_ttl = ri_ttl rec,
     zr_rdata = ri_rdata rec, zr_npub = ev_pubkey event, zr_event_id = ev_id event,
     zr_created_at = ev_created_at event\<rparr>"

definition below_zone :: "string \<Rightarrow> string \<Rightarrow> bool" where
  "below_zone zone fqdn \<longleftrightarrow> endsWith (toLowerCase fqdn) (toLowerCase (''.'' @ zone))"

definition relay_step :: "(string, ZoneRecord) jsmap \<Rightarrow> ZoneRecord \<Rightarrow> (string, ZoneRecord) jsmap" where
  "relay_step latest r =
     (let key = nameTypeKey (zr_name r) (zr_type r)
      in case map_get latest key of
           None \<Rightarrow> map_set key r latest
         | Some existing \<Rightarrow>
             if zr_created_at r > zr_created_at existing then map_set key r latest else latest)"

text \<open>The records that the two loops pass to the map.\<close>

definition relay_candidates :: "(string \<Rightarrow> string option) \<Rightarrow> NostrEvent list \<Rightarrow> string \<Rightarrow> ZoneRecord list" where
  "relay_candidates enc events zone =
     concat (map (\<lambda>event.
       if ev_kind event \<noteq> RECORD_KIND then []
       else map (relay_zone_record event) (filter (\<lambda>rec. below_zone zone (ri_fqdn rec)) (ex_parseRecords enc event)))
       events)"

definition parseRelayRecords :: "(string \<Rightarrow> string option) \<Rightarrow> NostrEvent list \<Rightarrow> string \<Rightarrow> ZoneRecord list" where
  "parseRelayRecords enc events zone =
     filter (\<lambda>r. length (zr_rdata r) > 0) (map_values (foldl relay_step [] (relay_candidates enc events zone)))"

text \<open>The body of the answer: \<^const>\<open>None\<close> when it is no JSON, \<open>Some None\<close> when it is no object with a
  member \<open>records\<close>.\<close>

definition mon_fetchApiRecords ::
  "(string \<Rightarrow> DnsRecord list option fetch_outcome) \<Rightarrow> string \<Rightarrow> js_error + ZoneRecord list" where
  "mon_fetchApiRecords fetch zone =
     (case fetch ''https://nodns.shop/api/records'' of
        Reply status body \<Rightarrow>
          if \<not> response_ok status then Inl (JsError (''HTTP '' @ show_int status))
          else try_bind (lib_call body) (\<lambda>response.
            case response of
              None \<Rightarrow> Inl (JsError ''invalid response'')
            | Some records \<Rightarrow>
                Inr (map (\<lambda>r. \<lparr>zr_name = rec_fqdn r, zr_type = rec_type r, zr_ttl = rec_ttl r,
                    zr_rdata = rec_rdata r, zr_npub = rec_npub r, zr_event_id = [],
                    zr_created_at = rec_created_at r\<rparr>)
                  (filter (\<lambda>r. below_zone zone (rec_fqdn r)) records)))
      | _ \<Rightarrow> Inl LibError)"

definition mon_fetchDnsRecords ::
  "doh \<Rightarrow> string \<Rightarrow> ZoneRecord list \<Rightarrow> ZoneRecord list \<Rightarrow> js_error + ZoneRecord list" where
  "mon_fetchDnsRecords fetch zone relayRecords apiRecords =
     (let fqdns = js_uniq (toLowerCase zone # map (\<lambda>r. toLowerCase (zr_name r)) (relayRecords @ apiRecords));
          fqdnList = take 30 fqdns
      in try_bind (promise_all (map (ex_queryZoneRecords fetch) fqdnList)) (\<lambda>results. Inr (concat results)))"

section \<open>Comparison\<close>

datatype DiscrepancyType = ONLY_IN_RELAY | ONLY_IN_API | DNS_MISSING | DNS_STALE

record Discrepancy =
  dc_type :: DiscrepancyType
  dc_record :: ZoneRecord

record Conflict =
  cf_name :: string
  cf_type :: string
  cf_relay :: "string list"
  cf_api :: "string list"
  cf_dns :: "string list"

record mon_stats =
  st_match :: nat
  st_onlyRelay :: nat
  st_onlyApi :: nat
  st_dnsMissing :: nat
  st_dnsStale :: nat
  st_conflicts :: nat

record ComparisonResult =
  cr_discrepancies :: "Discrepancy list"
  cr_conflicts :: "Conflict list"
  cr_stats :: mon_stats

definition discrepancy_type :: "bool \<Rightarrow> bool \<Rightarrow> bool \<Rightarrow> DiscrepancyType option" where
  "discrepancy_type inRelay inApi inDns =
     (if inRelay \<and> inApi \<and> inDns then None
      else if \<not> inRelay \<and> \<not> inApi \<and> \<not> inDns then None
      else if inRelay \<and> \<not> inApi then Some ONLY_IN_RELAY
      else if \<not> inRelay \<and> inApi then Some ONLY_IN_API
      else if inApi \<and> \<not> inDns then Some DNS_MISSING
      else if \<not> inApi \<and> inDns then Some DNS_STALE
      else None)"

type_synonym record_map = "(string, ZoneRecord) jsmap"

definition key_discrepancy :: "record_map \<Rightarrow> record_map \<Rightarrow> record_map \<Rightarrow> string \<Rightarrow> Discrepancy option" where
  "key_discrepancy relayMap apiMap dnsMap key =
     map_option (\<lambda>t. \<lparr>dc_type = t, dc_record =
         nullish (map_get relayMap key) (nullish (map_get apiMap key) (the (map_get dnsMap key)))\<rparr>)
       (discrepancy_type (map_has relayMap key) (map_has apiMap key) (map_has dnsMap key))"

datatype mon_source = Relay | Api | Dns

record group =
  gr_relay :: "string list"
  gr_api :: "string list"
  gr_dns :: "string list"

definition set_add :: "'a \<Rightarrow> 'a list \<Rightarrow> 'a list" where
  "set_add x s = (if x \<in> set s then s else s @ [x])"

definition group_add :: "mon_source \<Rightarrow> string \<Rightarrow> group \<Rightarrow> group" where
  "group_add source v g =
     (case source of Relay \<Rightarrow> g\<lparr>gr_relay := set_add v (gr_relay g)\<rparr> | Api \<Rightarrow> g\<lparr>gr_api := set_add v (gr_api g)\<rparr>
      | Dns \<Rightarrow> g\<lparr>gr_dns := set_add v (gr_dns g)\<rparr>)"

fun addToGroup :: "(string, group) jsmap \<Rightarrow> mon_source \<times> ZoneRecord \<Rightarrow> (string, group) jsmap" where
  "addToGroup m (source, r) =
     (let k = nameTypeKey (zr_name r) (zr_type r);
          m' = (if \<not> map_has m k then map_set k \<lparr>gr_relay = [], gr_api = [], gr_dns = []\<rparr> m else m)
      in map_set k (group_add source (mon_normalizeRdata (zr_rdata r)) (the (map_get m' k))) m')"

definition group_mismatch :: "group \<Rightarrow> bool" where
  "group_mismatch g \<longleftrightarrow>
     (gr_relay g \<noteq> [] \<and> gr_api g \<noteq> [] \<and> \<not> list_all (\<lambda>r. r \<in> set (gr_api g)) (gr_relay g)) \<or>
     (gr_api g \<noteq> [] \<and> gr_dns g \<noteq> [] \<and> \<not> list_all (\<lambda>r. r \<in> set (gr_dns g)) (gr_api g)) \<or>
     (gr_relay g \<noteq> [] \<and> gr_dns g \<noteq> [] \<and> \<not> list_all (\<lambda>r. r \<in> set (gr_dns g)) (gr_relay g))"

fun group_conflict :: "string \<times> group \<Rightarrow> Conflict option" where
  "group_conflict (k, g) =
     (let sourcesPresent = (if gr_relay g \<noteq> [] then 1 else 0) + (if gr_api g \<noteq> [] then 1 else 0) +
            (if gr_dns g \<noteq> [] then 1 else 0 :: nat);
          allRdatas = js_uniq (gr_relay g @ gr_api g @ gr_dns g)
      in if sourcesPresent < 2 then None
         else if length allRdatas \<le> 1 then None
         else if group_mismatch g then
           Some \<lparr>cf_name = split_on (CHR ''|'') k ! 0, cf_type = split_on (CHR ''|'') k ! 1,
             cf_relay = gr_relay g, cf_api = gr_api g, cf_dns = gr_dns g\<rparr>
         else None)"

definition mon_groups :: "ZoneRecord list \<Rightarrow> ZoneRecord list \<Rightarrow> ZoneRecord list \<Rightarrow> (string, group) jsmap" where
  "mon_groups relay api dns =
     foldl addToGroup [] (map (Pair Relay) relay @ map (Pair Api) api @ map (Pair Dns) dns)"

definition mon_compareRecords :: "ZoneRecord list \<Rightarrow> ZoneRecord list \<Rightarrow> ZoneRecord list \<Rightarrow> ComparisonResult" where
  "mon_compareRecords relay api dns =
     (let relayMap = last_per_key recordKey relay;
          apiMap = last_per_key recordKey api;
          dnsMap = last_per_key recordKey dns;
          allKeys = js_uniq (map_keys relayMap @ map_keys apiMap @ map_keys dnsMap);
          discrepancies = collect (key_discrepancy relayMap apiMap dnsMap) allKeys;
          match = length (filter (\<lambda>k. map_has relayMap k \<and> map_has apiMap k \<and> map_has dnsMap k) allKeys);
          conflicts = collect group_conflict (mon_groups relay api dns);
          number = (\<lambda>t. length (filter (\<lambda>d. dc_type d = t) discrepancies))
      in \<lparr>cr_discrepancies = discrepancies, cr_conflicts = conflicts,
           cr_stats = \<lparr>st_match = match, st_onlyRelay = number ONLY_IN_RELAY, st_onlyApi = number ONLY_IN_API,
             st_dnsMissing = number DNS_MISSING, st_dnsStale = number DNS_STALE,
             st_conflicts = length conflicts\<rparr>\<rparr>)"

section \<open>Refreshing\<close>

datatype FetchState = FIdle | FLoading | FOk | FError

record SourceState =
  ss_records :: "ZoneRecord list"
  ss_state :: FetchState
  ss_error :: "string option"

definition settled :: "(js_error \<Rightarrow> string) \<Rightarrow> js_error + ZoneRecord list \<Rightarrow> SourceState" where
  "settled show_error r =
     (case r of Inr records \<Rightarrow> \<lparr>ss_records = records, ss_state = FOk, ss_error = None\<rparr>
      | Inl e \<Rightarrow> \<lparr>ss_records = [], ss_state = FError, ss_error = Some (show_error e)\<rparr>)"

text \<open>The states of the API and the DNS source that a refresh goes through. The relay records are those
  at the time when the API has answered.\<close>

definition refresh ::
  "(js_error \<Rightarrow> string) \<Rightarrow> (string \<Rightarrow> DnsRecord list option fetch_outcome) \<Rightarrow> doh \<Rightarrow> string \<Rightarrow> ZoneRecord list \<Rightarrow>
     (SourceState \<times> SourceState) list" where
  "refresh show_error fetch fetchDns selectedZone relayRecords =
     (let loading = \<lparr>ss_records = [], ss_state = FLoading, ss_error = None\<rparr>;
          apiResult = settled show_error (mon_fetchApiRecords fetch selectedZone);
          dnsResult = settled show_error (mon_fetchDnsRecords fetchDns selectedZone relayRecords (ss_records apiResult))
      in [(loading, loading), (apiResult, loading), (apiResult, dnsResult)])"

definition zoneOptions :: "DiscoveredZone list \<Rightarrow> string list" where
  "zoneOptions zones = js_uniq (DEFAULT_ZONE # map dz_zone zones)"

text \<open>The zone file offered: of the API's records when there are any, else of the relays'.\<close>

definition mon_zoneFile ::
  "(string \<Rightarrow> string \<Rightarrow> int) \<Rightarrow> string \<Rightarrow> SourceState \<Rightarrow> ZoneRecord list \<Rightarrow> string \<Rightarrow> string" where
  "mon_zoneFile lc stamp apiState relayRecords selectedZone =
     ex_generateZoneFile lc stamp (if length (ss_records apiState) > 0 then ss_records apiState else relayRecords) selectedZone"

section \<open>Lemmas\<close>

lemma relay_step_newer: "relay_step = put_newer map_get map_set (\<lambda>r. nameTypeKey (zr_name r) (zr_type r)) zr_created_at"
  by (auto simp: fun_eq_iff relay_step_def put_newer_def Let_def split: option.splits)

lemma parseRelayRecords_newest:
  "parseRelayRecords enc events zone = filter (\<lambda>r. length (zr_rdata r) > 0)
     (newest_per_key (\<lambda>r. nameTypeKey (zr_name r) (zr_type r)) zr_created_at (relay_candidates enc events zone))"
  by (simp add: parseRelayRecords_def relay_step_newer newest_per_key_def)

lemma ex_parseRecords_fqdn: "rec \<in> set (ex_parseRecords enc event) \<Longrightarrow> endsWith (ri_fqdn rec) (''.'' @ DEFAULT_ZONE)"
  by (auto simp: ex_parseRecords_def parseRecords_def set_collect record_info_of_tag_def Let_def computeFqdn_zone [simplified]
      split: if_splits)

lemma endsWith_comparable: "endsWith s p \<Longrightarrow> endsWith s q \<Longrightarrow> endsWith p q \<or> endsWith q p"
  by (auto simp: endsWith_iff append_eq_append_conv2)

lemma relay_candidates_below: "r \<in> set (relay_candidates enc events zone) \<Longrightarrow> below_zone zone (zr_name r)"
  by (auto simp: relay_candidates_def relay_zone_record_def split: if_splits)

text \<open>The keys of the three sources.\<close>

abbreviation record_keys :: "ZoneRecord list \<Rightarrow> string set" where
  "record_keys rs \<equiv> recordKey ` set rs"

lemma map_has_last [simp]: "map_has (last_per_key recordKey rs) k \<longleftrightarrow> k \<in> record_keys rs"
  by (simp add: map_has_iff map_keys_def)

lemma key_discrepancy_Some:
  "key_discrepancy (last_per_key recordKey relay) (last_per_key recordKey api) (last_per_key recordKey dns) k = Some d \<Longrightarrow>
     recordKey (dc_record d) = k \<and> dc_record d \<in> set relay \<union> set api \<union> set dns \<and>
     discrepancy_type (k \<in> record_keys relay) (k \<in> record_keys api) (k \<in> record_keys dns) = Some (dc_type d)"
proof -
  assume d: "key_discrepancy (last_per_key recordKey relay) (last_per_key recordKey api) (last_per_key recordKey dns) k = Some d"
  have g: "map_get (last_per_key recordKey rs) k = Some r \<Longrightarrow> recordKey r = k \<and> r \<in> set rs" for rs r
    by (simp add: get_last_per_key)
  have n: "map_get (last_per_key recordKey rs) k = None \<longleftrightarrow> k \<notin> record_keys rs" for rs
    using map_has_last [of rs k] by (auto simp: map_has_def simp del: map_has_last)
  show ?thesis
    using d n [of relay] n [of api] n [of dns]
    by (cases "map_get (last_per_key recordKey relay) k"; cases "map_get (last_per_key recordKey api) k";
        cases "map_get (last_per_key recordKey dns) k")
      (auto simp: key_discrepancy_def discrepancy_type_def dest!: g split: if_splits)
qed

lemma key_discrepancy_None:
  "key_discrepancy (last_per_key recordKey relay) (last_per_key recordKey api) (last_per_key recordKey dns) k = None \<longleftrightarrow>
     discrepancy_type (k \<in> record_keys relay) (k \<in> record_keys api) (k \<in> record_keys dns) = None"
  by (simp add: key_discrepancy_def)

lemma discrepancy_type_None:
  "discrepancy_type r a d = None \<longleftrightarrow> (r \<longleftrightarrow> a) \<and> (a \<longleftrightarrow> d)"
  by (auto simp: discrepancy_type_def)

definition all_keys :: "ZoneRecord list \<Rightarrow> ZoneRecord list \<Rightarrow> ZoneRecord list \<Rightarrow> string list" where
  "all_keys relay api dns = js_uniq (map_keys (last_per_key recordKey relay) @ map_keys (last_per_key recordKey api) @
     map_keys (last_per_key recordKey dns))"

lemma all_keys: "distinct (all_keys relay api dns)"
  "set (all_keys relay api dns) = record_keys relay \<union> record_keys api \<union> record_keys dns"
  by (auto simp: all_keys_def map_keys_def)

lemma cr_discrepancies_eq:
  "cr_discrepancies (mon_compareRecords relay api dns) =
     collect (key_discrepancy (last_per_key recordKey relay) (last_per_key recordKey api) (last_per_key recordKey dns))
       (all_keys relay api dns)"
  by (simp add: mon_compareRecords_def all_keys_def Let_def)

lemma collect_Nil_iff: "collect f xs = [] \<longleftrightarrow> (\<forall>x \<in> set xs. f x = None)"
  by (induction xs) (auto split: option.splits)

lemma length_collect: "length (collect f xs) = length (filter (\<lambda>x. f x \<noteq> None) xs)"
  by (induction xs) (auto split: option.splits)

lemma sum_of_types:
  "length (filter (\<lambda>d. dc_type d = ONLY_IN_RELAY) ds) + length (filter (\<lambda>d. dc_type d = ONLY_IN_API) ds) +
   length (filter (\<lambda>d. dc_type d = DNS_MISSING) ds) + length (filter (\<lambda>d. dc_type d = DNS_STALE) ds) = length ds"
proof (induction ds)
  case (Cons d ds)
  then show ?case by (cases "dc_type d") simp_all
qed simp

text \<open>The groups: under each name and type, the values of each source.\<close>

definition source_vals :: "mon_source \<Rightarrow> string \<Rightarrow> (mon_source \<times> ZoneRecord) list \<Rightarrow> string list" where
  "source_vals s k xs = js_uniq (map (\<lambda>x. mon_normalizeRdata (zr_rdata (snd x)))
     (filter (\<lambda>x. fst x = s \<and> nameTypeKey (zr_name (snd x)) (zr_type (snd x)) = k) xs))"

lemma get_groups:
  "distinct (map fst (foldl addToGroup [] xs)) \<and>
   map_get (foldl addToGroup [] xs) k =
     (if \<exists>x \<in> set xs. nameTypeKey (zr_name (snd x)) (zr_type (snd x)) = k
      then Some \<lparr>gr_relay = source_vals Relay k xs, gr_api = source_vals Api k xs, gr_dns = source_vals Dns k xs\<rparr>
      else None)"
proof (induction xs arbitrary: k rule: rev_induct)
  case Nil
  then show ?case by (simp add: map_get_def)
next
  case (snoc x xs)
  obtain s r where x: "x = (s, r)" by force
  let ?k = "nameTypeKey (zr_name r) (zr_type r)"
  let ?m = "foldl addToGroup [] xs"
  let ?m' = "if \<not> map_has ?m ?k then map_set ?k \<lparr>gr_relay = [], gr_api = [], gr_dns = []\<rparr> ?m else ?m"
  have d: "distinct (map fst ?m)" using snoc by blast
  have none: "source_vals t ?k xs = []" if "\<not> (\<exists>x \<in> set xs. nameTypeKey (zr_name (snd x)) (zr_type (snd x)) = ?k)" for t
  proof -
    have "filter (\<lambda>x. fst x = t \<and> nameTypeKey (zr_name (snd x)) (zr_type (snd x)) = ?k) xs = []"
      using that by (auto simp: filter_empty_conv)
    then show ?thesis by (simp add: source_vals_def)
  qed
  have g: "the (map_get ?m' ?k) =
      \<lparr>gr_relay = source_vals Relay ?k xs, gr_api = source_vals Api ?k xs, gr_dns = source_vals Dns ?k xs\<rparr>"
    using snoc.IH [of ?k] none by (auto simp: map_has_def jsmap.get_put)
  have other: "source_vals t k (xs @ [x]) = source_vals t k xs" if "k \<noteq> ?k \<or> t \<noteq> s" for t k
    using that by (auto simp: source_vals_def x)
  have same: "source_vals s ?k (xs @ [x]) = set_add (mon_normalizeRdata (zr_rdata r)) (source_vals s ?k xs)"
    by (simp add: source_vals_def x js_uniq_snoc set_add_def)
  have step: "foldl addToGroup [] (xs @ [x]) =
      map_set ?k (group_add s (mon_normalizeRdata (zr_rdata r)) (the (map_get ?m' ?k))) ?m'"
    by (simp add: x Let_def)
  have d': "distinct (map fst (foldl addToGroup [] (xs @ [x])))"
    unfolding step using d by (simp add: jsmap.inv_put)
  have here: "map_get (foldl addToGroup [] (xs @ [x])) ?k =
      Some \<lparr>gr_relay = source_vals Relay ?k (xs @ [x]), gr_api = source_vals Api ?k (xs @ [x]),
        gr_dns = source_vals Dns ?k (xs @ [x])\<rparr>"
    unfolding step g using same other by (cases s) (simp_all add: jsmap.get_put group_add_def)
  have there: "map_get (foldl addToGroup [] (xs @ [x])) k = map_get ?m k" if "k \<noteq> ?k"
    unfolding step using that by (simp add: jsmap.get_put)
  show ?case
  proof (cases "k = ?k")
    case True
    then show ?thesis using d' here by (simp del: foldl_append) (simp add: x)
  next
    case False
    then have "(\<exists>x \<in> set (xs @ [x]). nameTypeKey (zr_name (snd x)) (zr_type (snd x)) = k) \<longleftrightarrow>
        (\<exists>x \<in> set xs. nameTypeKey (zr_name (snd x)) (zr_type (snd x)) = k)" by (auto simp: x)
    with False show ?thesis using d' there other [of k] snoc.IH [of k] by (simp del: foldl_append)
  qed
qed

lemma set_source_vals:
  "set (source_vals Relay k (map (Pair Relay) relay @ map (Pair Api) api @ map (Pair Dns) dns)) =
     {mon_normalizeRdata (zr_rdata r) |r. r \<in> set relay \<and> nameTypeKey (zr_name r) (zr_type r) = k}"
  "set (source_vals Api k (map (Pair Relay) relay @ map (Pair Api) api @ map (Pair Dns) dns)) =
     {mon_normalizeRdata (zr_rdata r) |r. r \<in> set api \<and> nameTypeKey (zr_name r) (zr_type r) = k}"
  "set (source_vals Dns k (map (Pair Relay) relay @ map (Pair Api) api @ map (Pair Dns) dns)) =
     {mon_normalizeRdata (zr_rdata r) |r. r \<in> set dns \<and> nameTypeKey (zr_name r) (zr_type r) = k}"
  by (auto simp: source_vals_def, (force simp: image_iff)+)

text \<open>A record whose name and type do not hold the separator of the keys.\<close>

definition plain_key :: "ZoneRecord \<Rightarrow> bool" where
  "plain_key r \<longleftrightarrow> CHR ''|'' \<notin> set (toLowerCase (zr_name r)) \<and> CHR ''|'' \<notin> set (toUpperCase (zr_type r))"

lemma recordKey_inj:
  assumes "recordKey a = recordKey b" "plain_key a" "plain_key b"
  shows "nameTypeKey (zr_name a) (zr_type a) = nameTypeKey (zr_name b) (zr_type b) \<and>
    mon_normalizeRdata (zr_rdata a) = mon_normalizeRdata (zr_rdata b)"
  using assms by (auto simp: recordKey_def plain_key_def nameTypeKey_def append_sep_eq)

lemma same_keys_same_values:
  assumes "record_keys xs \<subseteq> record_keys ys" "list_all plain_key xs" "list_all plain_key ys"
  shows "{mon_normalizeRdata (zr_rdata r) |r. r \<in> set xs \<and> nameTypeKey (zr_name r) (zr_type r) = k} \<subseteq>
    {mon_normalizeRdata (zr_rdata r) |r. r \<in> set ys \<and> nameTypeKey (zr_name r) (zr_type r) = k}"
proof
  fix v
  assume "v \<in> {mon_normalizeRdata (zr_rdata r) |r. r \<in> set xs \<and> nameTypeKey (zr_name r) (zr_type r) = k}"
  then obtain r where r: "r \<in> set xs" "nameTypeKey (zr_name r) (zr_type r) = k" "v = mon_normalizeRdata (zr_rdata r)"
    by blast
  with assms(1) obtain r' where r': "r' \<in> set ys" "recordKey r = recordKey r'" by auto
  with r assms(2,3) have "nameTypeKey (zr_name r') (zr_type r') = k \<and> v = mon_normalizeRdata (zr_rdata r')"
    using recordKey_inj [of r r'] by (simp add: list_all_iff)
  with r'(1) show "v \<in> {mon_normalizeRdata (zr_rdata r) |r. r \<in> set ys \<and> nameTypeKey (zr_name r) (zr_type r) = k}"
    by blast
qed

section \<open>Properties\<close>

text \<open>
  The relay records shown are, for each name and type of the zone, the first newest of the events,
  unless its data is empty.
\<close>

theorem parseRelayRecords_spec:
  "r \<in> set (parseRelayRecords enc events zone) \<longleftrightarrow>
     zr_rdata r \<noteq> [] \<and>
     first_max zr_created_at (filter (\<lambda>x. nameTypeKey (zr_name x) (zr_type x) = nameTypeKey (zr_name r) (zr_type r))
       (relay_candidates enc events zone)) = Some r"
  by (auto simp: parseRelayRecords_newest mem_newest)

text \<open>
  The names are completed with the default zone whatever zone is selected: for a zone that neither
  contains it nor lies in it, no relay record is ever shown.
\<close>

theorem parseRelayRecords_other_zone:
  assumes "\<not> endsWith (''.'' @ DEFAULT_ZONE) (toLowerCase (''.'' @ zone))"
    and "\<not> endsWith (toLowerCase (''.'' @ zone)) (''.'' @ DEFAULT_ZONE)"
  shows "parseRelayRecords enc events zone = []"
proof -
  have "\<not> below_zone zone (ri_fqdn rec)" if "rec \<in> set (ex_parseRecords enc event)" for rec event
  proof -
    note below = ex_parseRecords_fqdn [OF that]
    obtain t where "ri_fqdn rec = t @ ''.'' @ DEFAULT_ZONE"
      using below by (auto simp: endsWith_iff)
    moreover have "toLowerCase (''.'' @ DEFAULT_ZONE) = ''.'' @ DEFAULT_ZONE"
      unfolding DEFAULT_ZONE_def by code_simp
    ultimately have "endsWith (toLowerCase (ri_fqdn rec)) (''.'' @ DEFAULT_ZONE)"
      by (metis endsWith_append toLowerCase_append)
    then show ?thesis using assms endsWith_comparable unfolding below_zone_def by blast
  qed
  then have "relay_candidates enc events zone = []"
    by (auto simp: relay_candidates_def filter_empty_conv)
  then show ?thesis by (simp add: parseRelayRecords_def map_values_def)
qed

theorem parseRelayRecords_other_zone_witness:
  "parseRelayRecords (\<lambda>_. None) [example_event [[''record'', ''A'', ''x'', ''1.2.3.4'']]] ''example.org'' = [] \<and>
   parseRelayRecords (\<lambda>_. None) [example_event [[''record'', ''A'', ''x'', ''1.2.3.4'']]] ''nodns.shop'' \<noteq> []"
proof -
  have "parseRelayRecords (\<lambda>_. None) [example_event [[''record'', ''A'', ''x'', ''1.2.3.4'']]] ''nodns.shop'' \<noteq> []"
    by code_simp
  moreover have "\<not> endsWith (''.'' @ DEFAULT_ZONE) (toLowerCase (''.'' @ ''example.org''))"
    "\<not> endsWith (toLowerCase (''.'' @ ''example.org'')) (''.'' @ DEFAULT_ZONE)"
    by code_simp+
  ultimately show ?thesis using parseRelayRecords_other_zone by blast
qed

text \<open>
  C15. Each record key that some source has is either a match or counted as one discrepancy, of exactly
  one of four kinds, and no discrepancy is shown exactly when the three sources have the same keys.
\<close>

theorem mon_compareRecords_spec:
  "(cr_discrepancies (mon_compareRecords relay api dns) = [] \<longleftrightarrow>
      record_keys relay = record_keys api \<and> record_keys api = record_keys dns) \<and>
   (\<forall>d \<in> set (cr_discrepancies (mon_compareRecords relay api dns)).
      discrepancy_type (recordKey (dc_record d) \<in> record_keys relay) (recordKey (dc_record d) \<in> record_keys api)
        (recordKey (dc_record d) \<in> record_keys dns) = Some (dc_type d)) \<and>
   (let s = cr_stats (mon_compareRecords relay api dns)
    in st_match s + st_onlyRelay s + st_onlyApi s + st_dnsMissing s + st_dnsStale s =
      card (record_keys relay \<union> record_keys api \<union> record_keys dns))"
proof (intro conjI)
  let ?f = "key_discrepancy (last_per_key recordKey relay) (last_per_key recordKey api) (last_per_key recordKey dns)"
  have "cr_discrepancies (mon_compareRecords relay api dns) = [] \<longleftrightarrow>
      (\<forall>k \<in> set (all_keys relay api dns). ?f k = None)"
    unfolding cr_discrepancies_eq collect_Nil_iff ..
  also have "\<dots> \<longleftrightarrow> record_keys relay = record_keys api \<and> record_keys api = record_keys dns"
    unfolding key_discrepancy_None discrepancy_type_None all_keys by blast
  finally show "cr_discrepancies (mon_compareRecords relay api dns) = [] \<longleftrightarrow>
      record_keys relay = record_keys api \<and> record_keys api = record_keys dns" .
  show "\<forall>d \<in> set (cr_discrepancies (mon_compareRecords relay api dns)).
      discrepancy_type (recordKey (dc_record d) \<in> record_keys relay) (recordKey (dc_record d) \<in> record_keys api)
        (recordKey (dc_record d) \<in> record_keys dns) = Some (dc_type d)"
    unfolding cr_discrepancies_eq set_collect using key_discrepancy_Some by fastforce
  let ?p = "\<lambda>k. k \<in> record_keys relay \<and> k \<in> record_keys api \<and> k \<in> record_keys dns"
  have "length (filter ?p (all_keys relay api dns)) + length (collect ?f (all_keys relay api dns)) =
      length (filter ?p (all_keys relay api dns)) + length (filter (\<lambda>k. \<not> ?p k) (all_keys relay api dns))"
  proof -
    have "filter (\<lambda>k. ?f k \<noteq> None) (all_keys relay api dns) = filter (\<lambda>k. \<not> ?p k) (all_keys relay api dns)"
      unfolding key_discrepancy_None discrepancy_type_None by (rule filter_cong [OF refl]) (auto simp: all_keys)
    then show ?thesis by (simp add: length_collect)
  qed
  also have "\<dots> = card (record_keys relay \<union> record_keys api \<union> record_keys dns)"
    unfolding sum_length_filter_compl all_keys(2) [symmetric] using all_keys(1) by (simp add: distinct_card)
  finally show "let s = cr_stats (mon_compareRecords relay api dns)
    in st_match s + st_onlyRelay s + st_onlyApi s + st_dnsMissing s + st_dnsStale s =
      card (record_keys relay \<union> record_keys api \<union> record_keys dns)"
    using sum_of_types [of "collect ?f (all_keys relay api dns)"]
    by (simp add: mon_compareRecords_def all_keys_def [symmetric] Let_def)
qed

theorem mon_compareRecords_spec_witness:
  "map dc_type (cr_discrepancies (mon_compareRecords [dns_zone_record ''a'' ''A'' ''x''] [] [])) = [ONLY_IN_RELAY]"
proof -
  let ?c = "cr_discrepancies (mon_compareRecords [dns_zone_record ''a'' ''A'' ''x''] [] [])"
  have k: "map (recordKey \<circ> dc_record) ?c = [recordKey (dns_zone_record ''a'' ''A'' ''x'')]" by code_simp
  then obtain d where d: "?c = [d]" "recordKey (dc_record d) = recordKey (dns_zone_record ''a'' ''A'' ''x'')" by auto
  with mon_compareRecords_spec [of "[dns_zone_record ''a'' ''A'' ''x'']" "[]" "[]"]
  have "discrepancy_type True False False = Some (dc_type d)" by simp
  with d(1) show ?thesis by (simp add: discrepancy_type_def)
qed

text \<open>
  Where no discrepancy is shown there is no conflict either.
\<close>

theorem no_discrepancy_no_conflict:
  assumes "cr_discrepancies (mon_compareRecords relay api dns) = []"
    and "list_all plain_key relay" "list_all plain_key api" "list_all plain_key dns"
  shows "cr_conflicts (mon_compareRecords relay api dns) = []"
proof -
  let ?xs = "map (Pair Relay) relay @ map (Pair Api) api @ map (Pair Dns) dns"
  have keys: "record_keys relay = record_keys api" "record_keys api = record_keys dns"
    using assms(1) unfolding cr_discrepancies_eq collect_Nil_iff key_discrepancy_None discrepancy_type_None all_keys by blast+
  have "\<not> group_mismatch g" if "(k, g) \<in> set (mon_groups relay api dns)" for k g
  proof -
    note gs = get_groups [of ?xs k, folded mon_groups_def]
    have "map_get (mon_groups relay api dns) k = Some g"
      unfolding map_get_def by (rule map_of_is_SomeI [OF conjunct1 [OF gs] that])
    with conjunct2 [OF gs] have
      "g = \<lparr>gr_relay = source_vals Relay k ?xs, gr_api = source_vals Api k ?xs, gr_dns = source_vals Dns k ?xs\<rparr>"
      by (metis option.distinct(1) option.inject)
    then have "set (gr_relay g) \<subseteq> set (gr_api g)" "set (gr_api g) \<subseteq> set (gr_dns g)"
      using same_keys_same_values [of relay api k] same_keys_same_values [of api dns k] keys assms(2-)
      by (simp_all only: set_source_vals group.simps order.refl)
    then show ?thesis by (auto simp: group_mismatch_def list_all_iff)
  qed
  then have "\<forall>x \<in> set (mon_groups relay api dns). group_conflict x = None" by (auto simp: Let_def)
  then show ?thesis by (simp add: mon_compareRecords_def Let_def collect_Nil_iff)
qed

theorem no_discrepancy_no_conflict_witness:
  "cr_conflicts (mon_compareRecords [dns_zone_record ''a'' ''A'' ''x''] [dns_zone_record ''A'' ''a'' ''X'']
     [dns_zone_record ''a'' ''A'' ''x'']) = []"
proof (rule no_discrepancy_no_conflict)
  show "cr_discrepancies (mon_compareRecords [dns_zone_record ''a'' ''A'' ''x''] [dns_zone_record ''A'' ''a'' ''X'']
     [dns_zone_record ''a'' ''A'' ''x'']) = []" by code_simp
qed code_simp+

text \<open>
  The names looked up in DNS are at most thirty, the zone itself the first of them; with more names
  than that, a record can be reported as missing from DNS without having been asked for.
\<close>

theorem mon_fetchDnsRecords_bound:
  assumes "mon_fetchDnsRecords fetch zone relay api = Inr rs" "r \<in> set rs"
  shows "zr_name r \<in> set (take 30 (js_uniq (toLowerCase zone # map (\<lambda>r. toLowerCase (zr_name r)) (relay @ api))))"
proof -
  let ?l = "take 30 (js_uniq (toLowerCase zone # map (\<lambda>r. toLowerCase (zr_name r)) (relay @ api)))"
  obtain results where res: "map (ex_queryZoneRecords fetch) ?l = map Inr results" "rs = concat results"
    using assms(1) by (auto simp: mon_fetchDnsRecords_def Let_def try_bind_Inr_iff promise_all_Inr_iff)
  then obtain v where v: "v \<in> set results" "r \<in> set v" using assms(2) by auto
  then have "Inr v \<in> set (map (ex_queryZoneRecords fetch) ?l)" unfolding res(1) by simp
  then obtain fqdn where f: "fqdn \<in> set ?l" "ex_queryZoneRecords fetch fqdn = Inr v" by (auto simp del: take_map)
  have "zr_name r = fqdn"
    using f(2) v(2) by (auto simp: ex_queryZoneRecords_def try_bind_Inr_iff promise_all_bind dns_zone_record_def set_zip)
  with f(1) show ?thesis by simp
qed

theorem mon_fetchDnsRecords_bound_witness:
  "\<exists>rs r. mon_fetchDnsRecords (\<lambda>_. Reply 200 (Some \<lparr>dr_Status = 0, dr_Answer = Some [\<lparr>da_name = ''x'', da_type = 1, da_TTL = 5,
       da_data = ''1.2.3.4''\<rparr>]\<rparr>)) ''z'' [] [] = Inr rs \<and> r \<in> set rs \<and> zr_name r \<in> {''z''}"
proof -
  let ?f = "\<lambda>_ :: string. Reply 200 (Some \<lparr>dr_Status = 0, dr_Answer = Some [\<lparr>da_name = ''x'', da_type = 1, da_TTL = 5,
       da_data = ''1.2.3.4''\<rparr>]\<rparr>)"
  have r: "mon_fetchDnsRecords ?f ''z'' [] [] = Inr [dns_zone_record ''z'' ''A'' ''1.2.3.4'']" by code_simp
  from mon_fetchDnsRecords_bound [OF r, of "dns_zone_record ''z'' ''A'' ''1.2.3.4''"] r
  have "zr_name (dns_zone_record ''z'' ''A'' ''1.2.3.4'') \<in>
      set (take 30 (js_uniq (toLowerCase ''z'' # map (\<lambda>r. toLowerCase (zr_name r)) ([] @ []))))" by simp
  also have "set (take 30 (js_uniq (toLowerCase ''z'' # map (\<lambda>r. toLowerCase (zr_name r)) ([] @ [])))) = {''z''}"
    by code_simp
  finally show ?thesis using r by (intro exI conjI) auto
qed

end
