(* ===== verification/Explorer_Feed.thy ===== *)
theory Explorer_Feed
  imports Explorer_Monitor
begin

text \<open>
  \<open>nodns-explorer/src/App.tsx\<close> and \<open>components/event-feed.tsx\<close>: the events the explorer keeps from its
  subscription, newest arrival first, and the filters of the feed. The subscription is the list of the
  events in the order of their arrival.
\<close>

section \<open>The events kept\<close>

record feed =
  fd_seen :: "string list"
  fd_events :: "NostrEvent list"

definition empty_feed :: feed where
  "empty_feed = \<lparr>fd_seen = [], fd_events = []\<rparr>"

definition receive_event :: "feed \<Rightarrow> NostrEvent \<Rightarrow> feed" where
  "receive_event st nostrEvent =
     (if ev_id nostrEvent \<in> set (fd_seen st) then st
      else if ev_kind nostrEvent \<noteq> RECORD_KIND \<and> ev_kind nostrEvent \<noteq> ZONE_HANDLER_KIND then st
      else st\<lparr>fd_seen := fd_seen st @ [ev_id nostrEvent], fd_events := take 500 (nostrEvent # fd_events st)\<rparr>)"

section \<open>Filters\<close>

datatype KindFilter = AllKinds | OnlyRecords | OnlyZones

datatype PaymentFilter = AnyPayment | OnlyPayment PaymentStatus

datatype ValidityFilter = AnyValidity | OnlyValid | OnlyInvalid

record FilterState =
  ft_npub :: string
  ft_recordType :: string
  ft_kind :: KindFilter
  ft_payment :: PaymentFilter
  ft_validity :: ValidityFilter

definition default_filters :: FilterState where
  "default_filters = \<lparr>ft_npub = [], ft_recordType = ''all'', ft_kind = AllKinds, ft_payment = AnyPayment,
     ft_validity = AnyValidity\<rparr>"

definition event_shown :: "(string \<Rightarrow> string option) \<Rightarrow> FilterState \<Rightarrow> NostrEvent \<Rightarrow> bool" where
  "event_shown enc filters event =
     (let q = toLowerCase (trim (ft_npub filters))
      in if trim (ft_npub filters) \<noteq> [] \<and> \<not> str_includes (toLowerCase (ev_pubkey event)) q \<and>
           \<not> str_includes (toLowerCase (ev_id event)) q then False
         else if ft_kind filters = OnlyRecords \<and> ev_kind event \<noteq> RECORD_KIND then False
         else if ft_kind filters = OnlyZones \<and> ev_kind event \<noteq> ZONE_HANDLER_KIND then False
         else if ft_recordType filters \<noteq> ''all'' \<and>
           (ev_kind event \<noteq> RECORD_KIND \<or>
            \<not> list_ex (\<lambda>t. tag_is ''record'' t \<and> map_option toUpperCase (nth_opt t 1) = Some (ft_recordType filters))
                (ev_tags event)) then False
         else if (case ft_payment filters of AnyPayment \<Rightarrow> False
             | OnlyPayment s \<Rightarrow> ev_kind event \<noteq> RECORD_KIND \<or> py_status (parsePayment enc event) \<noteq> s) then False
         else (case ft_validity filters of
             AnyValidity \<Rightarrow> True
           | OnlyValid \<Rightarrow> ev_kind event = RECORD_KIND \<and> vi_valid (checkValidity event)
           | OnlyInvalid \<Rightarrow> ev_kind event = RECORD_KIND \<and> \<not> vi_valid (checkValidity event)))"

definition filteredEvents :: "(string \<Rightarrow> string option) \<Rightarrow> FilterState \<Rightarrow> NostrEvent list \<Rightarrow> NostrEvent list" where
  "filteredEvents enc filters events = filter (event_shown enc filters) events"

section \<open>Lemmas\<close>

definition feed_admitted :: "NostrEvent \<Rightarrow> bool" where
  "feed_admitted ev \<longleftrightarrow> ev_kind ev = RECORD_KIND \<or> ev_kind ev = ZONE_HANDLER_KIND"

text \<open>The first feed_admitted event of each id, in the order of arrival.\<close>

definition first_arrivals :: "NostrEvent list \<Rightarrow> NostrEvent list" where
  "first_arrivals evs =
     foldl (\<lambda>acc ev. if feed_admitted ev \<and> ev_id ev \<notin> set (map ev_id acc) then acc @ [ev] else acc) [] evs"

lemma first_arrivals_snoc:
  "first_arrivals (evs @ [ev]) =
     (if feed_admitted ev \<and> ev_id ev \<notin> set (map ev_id (first_arrivals evs)) then first_arrivals evs @ [ev] else first_arrivals evs)"
  by (simp add: first_arrivals_def)

lemma receive_events:
  "foldl receive_event empty_feed evs =
     \<lparr>fd_seen = map ev_id (first_arrivals evs), fd_events = take 500 (rev (first_arrivals evs))\<rparr>"
proof (induction evs rule: rev_induct)
  case Nil
  then show ?case by (simp add: first_arrivals_def empty_feed_def)
next
  case (snoc ev evs)
  have "take 500 (ev # take 500 xs) = take 500 (ev # xs)" for xs by (simp add: take_Cons')
  then show ?case using snoc by (auto simp: first_arrivals_snoc receive_event_def feed_admitted_def)
qed

lemma distinct_first_arrivals: "distinct (map ev_id (first_arrivals evs))"
  by (induction evs rule: rev_induct) (auto simp: first_arrivals_snoc, simp add: first_arrivals_def)

lemma set_first_arrivals: "set (first_arrivals evs) \<subseteq> {ev \<in> set evs. feed_admitted ev}"
  by (induction evs rule: rev_induct) (auto simp: first_arrivals_snoc, simp add: first_arrivals_def)

section \<open>Properties\<close>

text \<open>
  C13. Whatever arrives, the feed holds at most 500 events, no id twice, only record and zone events: the
  latest 500 of the first arrivals, newest first. What is no longer held is never shown again.
\<close>

theorem feed_invariant:
  "let st = foldl receive_event empty_feed evs
   in length (fd_events st) \<le> 500 \<and> distinct (map ev_id (fd_events st)) \<and>
     set (fd_events st) \<subseteq> {ev \<in> set evs. ev_kind ev = RECORD_KIND \<or> ev_kind ev = ZONE_HANDLER_KIND} \<and>
     fd_events st = take 500 (rev (first_arrivals evs)) \<and>
     (\<forall>ev. ev_id ev \<in> set (fd_seen st) \<longrightarrow> receive_event st ev = st)"
proof -
  have "distinct (map ev_id (take 500 (rev (first_arrivals evs))))"
    using distinct_first_arrivals [of evs] by (simp add: take_map [symmetric] rev_map [symmetric])
  moreover have "set (take 500 (rev (first_arrivals evs))) \<subseteq> {ev \<in> set evs. feed_admitted ev}"
    using set_first_arrivals [of evs] set_take_subset [of 500 "rev (first_arrivals evs)"] by auto
  ultimately show ?thesis by (auto simp: receive_events Let_def feed_admitted_def receive_event_def)
qed

theorem feed_invariant_witness:
  "length (fd_events (foldl receive_event empty_feed [example_event []])) \<le> 500"
  using feed_invariant [of "[example_event []]"] unfolding Let_def by blast

text \<open>
  With all filters open every event is shown, and the filter by payment, like the one by validity,
  divides the record events.
\<close>

theorem filteredEvents_partition:
  "filteredEvents enc default_filters events = events \<and>
   (ev_kind ev = RECORD_KIND \<longrightarrow> (\<exists>!s. event_shown enc (default_filters\<lparr>ft_payment := OnlyPayment s\<rparr>) ev)) \<and>
   (ev_kind ev = RECORD_KIND \<longrightarrow>
      event_shown enc (default_filters\<lparr>ft_validity := OnlyValid\<rparr>) ev =
        (\<not> event_shown enc (default_filters\<lparr>ft_validity := OnlyInvalid\<rparr>) ev))"
proof -
  have t: "trim [] = []" by (simp add: trim_id)
  have "event_shown enc default_filters ev" for ev by (simp add: event_shown_def default_filters_def t Let_def)
  moreover have "event_shown enc (default_filters\<lparr>ft_payment := OnlyPayment s\<rparr>) ev \<longleftrightarrow>
      ev_kind ev = RECORD_KIND \<and> py_status (parsePayment enc ev) = s" for s
    by (simp add: event_shown_def default_filters_def t Let_def)
  moreover have "event_shown enc (default_filters\<lparr>ft_validity := OnlyValid\<rparr>) ev \<longleftrightarrow>
      ev_kind ev = RECORD_KIND \<and> vi_valid (checkValidity ev)"
    "event_shown enc (default_filters\<lparr>ft_validity := OnlyInvalid\<rparr>) ev \<longleftrightarrow>
      ev_kind ev = RECORD_KIND \<and> \<not> vi_valid (checkValidity ev)"
    by (simp_all add: event_shown_def default_filters_def t Let_def)
  ultimately show ?thesis by (auto simp: filteredEvents_def)
qed

theorem filteredEvents_partition_witness:
  "\<exists>!s. event_shown (\<lambda>_. None) (default_filters\<lparr>ft_payment := OnlyPayment s\<rparr>) (example_event [])"
  using filteredEvents_partition [of "\<lambda>_. None" "[]" "example_event []"] by (simp add: example_event_def)

end
