(* ===== verification/Front_Identity.thy ===== *)
theory Front_Identity
  imports Reg_Identity
begin

text \<open>
  \<open>nodns-frontend/src/lib/identity.ts\<close> and \<open>contexts/IdentityContext.tsx\<close>: the one key of the front end,
  kept in local storage as its \<open>nsec\<close> text. A secret key that a function draws is its parameter \<open>drawn\<close>.
  Storing happens before the \<open>npub\<close> is encoded, so an exception of that call leaves the new key stored.
\<close>

section \<open>The stored key\<close>

record Identity =
  fi_sk :: bytes
  fi_pk :: string
  fi_npub :: string
  fi_nsec :: string

type_synonym key_store = "string option"

text \<open>The end of all three functions: the key is stored under its text, then its \<open>npub\<close> is made.\<close>

definition store_identity :: "nostr_lib \<Rightarrow> bytes \<Rightarrow> key_store \<Rightarrow> (js_error + Identity) \<times> key_store" where
  "store_identity L sk store =
     (case try_bind (lib_call (nl_getPublicKey L sk)) (\<lambda>pk.
           try_bind (lib_call (nl_nsecEncode L sk)) (\<lambda>nsec. Inr (pk, nsec))) of
        Inl e \<Rightarrow> (Inl e, store)
      | Inr (pk, nsec) \<Rightarrow>
          (try_bind (lib_call (nl_npubEncode L pk)) (\<lambda>npub.
             Inr \<lparr>fi_sk = sk, fi_pk = pk, fi_npub = npub, fi_nsec = nsec\<rparr>), Some nsec))"

definition resetIdentity :: "nostr_lib \<Rightarrow> bytes \<Rightarrow> key_store \<Rightarrow> (js_error + Identity) \<times> key_store" where
  "resetIdentity L drawn store = store_identity L drawn store"

definition getOrCreateIdentity :: "nostr_lib \<Rightarrow> bytes \<Rightarrow> key_store \<Rightarrow> (js_error + Identity) \<times> key_store" where
  "getOrCreateIdentity L drawn store =
     (if truthy store then
        (case nl_decode L (the store) of
           None \<Rightarrow> (Inl LibError, store)
         | Some (DNsec sk) \<Rightarrow>
             (try_bind (lib_call (nl_getPublicKey L sk)) (\<lambda>pk.
              try_bind (lib_call (nl_npubEncode L pk)) (\<lambda>npub.
                Inr \<lparr>fi_sk = sk, fi_pk = pk, fi_npub = npub, fi_nsec = the store\<rparr>)), store)
         | Some _ \<Rightarrow> store_identity L drawn store)
      else store_identity L drawn store)"

definition importIdentity :: "nostr_lib \<Rightarrow> string \<Rightarrow> key_store \<Rightarrow> (js_error + Identity) \<times> key_store" where
  "importIdentity L nsec store =
     (let trimmed = trim nsec
      in if \<not> startsWith trimmed ''nsec1'' then (Inl (JsError ''Invalid key: must start with nsec1''), store)
         else (case nl_decode L trimmed of
             None \<Rightarrow> (Inl LibError, store)
           | Some (DNsec sk) \<Rightarrow> store_identity L sk store
           | Some _ \<Rightarrow> (Inl (JsError ''Invalid key: expected nsec format''), store)))"

definition front_nsecToSeed :: "nostr_lib \<Rightarrow> string \<Rightarrow> js_error + bytes" where
  "front_nsecToSeed L nsec =
     try_bind (lib_call (nl_decode L nsec)) (\<lambda>decoded.
       case decoded of
         DNsec sk \<Rightarrow> try_bind (typed_set 0 sk (replicate 64 0)) (typed_set 32 sk)
       | _ \<Rightarrow> Inl (JsError ''Expected nsec''))"

definition hexPk :: "nostr_lib \<Rightarrow> string \<Rightarrow> js_error + string" where
  "hexPk L npub =
     try_bind (lib_call (nl_decode L npub)) (\<lambda>decoded.
       case decoded of
         DNpub hex \<Rightarrow> try_bind (lib_call (nl_hexToBytes L hex)) (\<lambda>bs. Inr (nl_bytesToHex L bs))
       | _ \<Rightarrow> Inl (JsError ''Expected npub''))"

section \<open>The context\<close>

record front_identity =
  fc_store :: key_store
  fc_npub :: string
  fc_nsec :: string
  fc_pk :: string
  fc_initialized :: bool

definition front_identity_start :: "key_store \<Rightarrow> front_identity" where
  "front_identity_start store = \<lparr>fc_store = store, fc_npub = [], fc_nsec = [], fc_pk = [], fc_initialized = False\<rparr>"

definition toState :: "Identity \<Rightarrow> front_identity \<Rightarrow> front_identity" where
  "toState i ctx = ctx\<lparr>fc_npub := fi_npub i, fc_nsec := fi_nsec i, fc_pk := fi_pk i, fc_initialized := True\<rparr>"

definition use_identity ::
  "(js_error + Identity) \<times> key_store \<Rightarrow> front_identity \<Rightarrow> js_error option \<times> front_identity" where
  "use_identity r ctx =
     (case r of
        (Inl e, store) \<Rightarrow> (Some e, ctx\<lparr>fc_store := store\<rparr>)
      | (Inr i, store) \<Rightarrow> (None, toState i (ctx\<lparr>fc_store := store\<rparr>)))"

text \<open>The frame callback after mounting; an exception in it is caught by nobody.\<close>

definition front_mount :: "nostr_lib \<Rightarrow> bytes \<Rightarrow> front_identity \<Rightarrow> js_error option \<times> front_identity" where
  "front_mount L drawn ctx = use_identity (getOrCreateIdentity L drawn (fc_store ctx)) ctx"

definition importKey :: "nostr_lib \<Rightarrow> string \<Rightarrow> front_identity \<Rightarrow> js_error option \<times> front_identity" where
  "importKey L nsec ctx = use_identity (importIdentity L nsec (fc_store ctx)) ctx"

definition resetKey :: "nostr_lib \<Rightarrow> bytes \<Rightarrow> front_identity \<Rightarrow> js_error option \<times> front_identity" where
  "resetKey L drawn ctx = use_identity (resetIdentity L drawn (fc_store ctx)) ctx"

inductive front_identity_run :: "nostr_lib \<Rightarrow> front_identity \<Rightarrow> bool" for L where
  fir_start: "front_identity_run L (front_identity_start store)"
| fir_mount: "front_identity_run L ctx \<Longrightarrow> front_identity_run L (snd (front_mount L drawn ctx))"
| fir_import: "front_identity_run L ctx \<Longrightarrow> front_identity_run L (snd (importKey L nsec ctx))"
| fir_reset: "front_identity_run L ctx \<Longrightarrow> front_identity_run L (snd (resetKey L drawn ctx))"

section \<open>Lemmas\<close>

text \<open>An identity whose parts belong together.\<close>

definition identity_of :: "nostr_lib \<Rightarrow> Identity \<Rightarrow> bool" where
  "identity_of L i \<longleftrightarrow> nl_decode L (fi_nsec i) = Some (DNsec (fi_sk i)) \<and> nl_getPublicKey L (fi_sk i) = Some (fi_pk i) \<and>
     nl_npubEncode L (fi_pk i) = Some (fi_npub i)"

lemma store_identity_of:
  assumes "codec_ok L" "store_identity L sk store = (Inr i, store')"
  shows "identity_of L i \<and> fi_sk i = sk \<and> store' = Some (fi_nsec i)"
  using assms
  by (auto simp: store_identity_def identity_of_def codec_ok_def try_bind_Inr_iff lib_call_Inr_iff split: sum.splits)

lemma getOrCreateIdentity_of:
  assumes "codec_ok L" "getOrCreateIdentity L drawn store = (Inr i, store')"
  shows "identity_of L i \<and> store' = Some (fi_nsec i)"
proof (cases "truthy store")
  case True
  then obtain s where s: "store = Some s" by (cases store) auto
  show ?thesis
  proof (cases "nl_decode L s")
    case (Some d)
    with True s assms store_identity_of [OF assms(1)] show ?thesis
      by (cases d) (auto simp: getOrCreateIdentity_def identity_of_def try_bind_Inr_iff lib_call_Inr_iff)
  qed (use True s assms in \<open>simp add: getOrCreateIdentity_def\<close>)
qed (use assms store_identity_of [OF assms(1)] in \<open>simp add: getOrCreateIdentity_def\<close>)

lemma importIdentity_of:
  assumes "codec_ok L" "importIdentity L nsec store = (Inr i, store')"
  shows "identity_of L i \<and> store' = Some (fi_nsec i) \<and> nl_decode L (trim nsec) = Some (DNsec (fi_sk i))"
proof (cases "nl_decode L (trim nsec)")
  case (Some d)
  with assms store_identity_of [OF assms(1), of _ store i store'] show ?thesis
    by (cases d) (auto simp: importIdentity_def Let_def split: if_splits)
qed (use assms in \<open>simp add: importIdentity_def Let_def split: if_splits\<close>)

text \<open>The context and the store agree on one key.\<close>

definition front_sound :: "nostr_lib \<Rightarrow> front_identity \<Rightarrow> bool" where
  "front_sound L ctx \<longleftrightarrow>
     (fc_initialized ctx \<longrightarrow> (\<exists>i. identity_of L i \<and> fi_nsec i = fc_nsec ctx \<and> fi_pk i = fc_pk ctx \<and> fi_npub i = fc_npub ctx))"

lemma use_identity_sound:
  assumes "front_sound L ctx" "\<And>i store. r = (Inr i, store) \<Longrightarrow> identity_of L i"
  shows "front_sound L (snd (use_identity r ctx))"
proof (cases r)
  case (Pair q store)
  show ?thesis
  proof (cases q)
    case (Inl e)
    with Pair assms(1) show ?thesis by (simp add: use_identity_def front_sound_def)
  next
    case (Inr i)
    with Pair assms(2) show ?thesis by (auto simp: use_identity_def toState_def front_sound_def)
  qed
qed

section \<open>Properties\<close>

text \<open>
  Once the front end has a key, its \<open>npub\<close>, \<open>nsec\<close> and public key are those of one secret key,
  whatever is imported or reset.
\<close>

theorem front_identity_sound:
  assumes "codec_ok L" "front_identity_run L ctx"
  shows "front_sound L ctx"
  using assms(2)
proof induction
  case (fir_start store)
  then show ?case by (simp add: front_sound_def front_identity_start_def)
next
  case (fir_mount ctx drawn)
  then show ?case
    unfolding front_mount_def using getOrCreateIdentity_of [OF assms(1)] by (blast intro: use_identity_sound)
next
  case (fir_import ctx nsec)
  then show ?case
    unfolding importKey_def using importIdentity_of [OF assms(1)] by (blast intro: use_identity_sound)
next
  case (fir_reset ctx drawn)
  then show ?case
    unfolding resetKey_def resetIdentity_def using store_identity_of [OF assms(1)] by (blast intro: use_identity_sound)
qed

theorem front_identity_sound_witness:
  "front_sound codec_lib (snd (importKey codec_lib ''nsec107'' (snd (front_mount codec_lib [9] (front_identity_start None)))))"
  by (intro front_identity_sound codec_lib_ok front_identity_run.intros)

text \<open>
  An imported key is the key of every later visit: loading it from the store gives the same identity.
\<close>

theorem import_then_load:
  assumes "codec_ok L" "importIdentity L nsec store = (Inr i, store')" "fi_nsec i \<noteq> []"
  shows "getOrCreateIdentity L drawn store' = (Inr i, store') \<and> nl_decode L (trim nsec) = Some (DNsec (fi_sk i))"
  using importIdentity_of [OF assms(1,2)] assms(3)
  by (simp add: identity_of_def getOrCreateIdentity_def truthy_def)

theorem import_then_load_witness:
  "\<exists>i store. importIdentity codec_lib '' nsec107 '' None = (Inr i, store) \<and> fi_sk i = [7] \<and>
     getOrCreateIdentity codec_lib [9] store = (Inr i, store)"
proof -
  obtain i store where i: "importIdentity codec_lib '' nsec107 '' None = (Inr i, store)" "fi_nsec i \<noteq> []" "fi_sk i = [7]"
  proof -
    have "(case importIdentity codec_lib '' nsec107 '' None of (Inr i, _) \<Rightarrow> fi_nsec i \<noteq> [] \<and> fi_sk i = [7] | _ \<Rightarrow> False)"
      by code_simp
    then show ?thesis using that by (auto split: prod.splits sum.splits)
  qed
  from import_then_load [OF codec_lib_ok i(1,2)] i show ?thesis by blast
qed

text \<open>
  A stored text that cannot be decoded stops the front end for good: mounting throws, the text stays,
  and no identity is ever set; only importing or resetting a key ends it.
\<close>

theorem front_mount_corrupt:
  assumes "truthy store" "nl_decode L (the store) = None"
  shows "front_mount L drawn (front_identity_start store) = (Some LibError, front_identity_start store)"
  using assms by (simp add: front_mount_def getOrCreateIdentity_def use_identity_def front_identity_start_def)

theorem front_mount_corrupt_witness:
  "front_mount codec_lib [9] (front_identity_start (Some ''x'')) = (Some LibError, front_identity_start (Some ''x''))"
  by (rule front_mount_corrupt) (simp_all add: codec_lib_def startsWith_def)

end
