(* ===== verification/Front_Api.thy ===== *)
theory Front_Api
  imports Sdk_ApiClient Sdk_Verify Sdk_Validation Reg_Api
begin

text \<open>
  \<open>nodns-frontend/src/lib/api.ts\<close>, \<open>pricing.ts\<close>, \<open>sources.ts\<close>, \<open>dns.ts\<close> and \<open>constants.ts\<close>: the front
  end's requests to the service, its names and prices, and the SDK's sources with what the views add
  to them. The base address is the parameter \<open>base\<close>; the body of a request is the JSON value
  sent.
\<close>

section \<open>Requests\<close>

definition front_sanitizeErrorMessage :: "string \<Rightarrow> string" where
  "front_sanitizeErrorMessage msg =
     (if prefix_match (Seq (Str ''HTTP '') (Rep 3 (Cls is_digit))) msg then msg
      else if msg = ''Request failed'' then msg
      else if msg = ''Request timed out. Please try again.'' then msg
      else if msg = ''Unable to connect. Please check your network.'' then msg
      else ''An unexpected error occurred. Please try again.'')"

text \<open>The message of a failed answer: the server's own when it is short and plain, else its status.\<close>

definition user_message :: "int \<Rightarrow> json option \<Rightarrow> string" where
  "user_message status body =
     (case body of
        None \<Rightarrow> ''HTTP '' @ show_int status
      | Some b \<Rightarrow>
          let raw = nullish (json_string (json_get b ''error'')) []
          in if raw \<noteq> [] \<and> length raw < 200 \<and> \<not> str_includes raw ''<'' \<and> \<not> str_includes raw ''stack'' then raw
             else ''HTTP '' @ show_int status)"

definition front_safeFetch :: "network \<Rightarrow> http_request \<Rightarrow> js_error + json option" where
  "front_safeFetch net req =
     (case net req of
        FetchAbort \<Rightarrow> Inl (JsError ''Request timed out. Please try again.'')
      | FetchFail \<Rightarrow> Inl (JsError ''Unable to connect. Please check your network.'')
      | Reply status body \<Rightarrow>
          if \<not> response_ok status then Inl (JsError (front_sanitizeErrorMessage (user_message status body)))
          else Inr body)"

definition npub_header :: "string option \<Rightarrow> (string, string) jsmap \<Rightarrow> (string, string) jsmap" where
  "npub_header npub headers = (if truthy npub then map_set ''X-Nostr-Npub'' (the npub) headers else headers)"

definition order_body :: "string \<Rightarrow> string option \<Rightarrow> string option \<Rightarrow> string option \<Rightarrow> json" where
  "order_body domain csrDer environment ca =
     (let field = (\<lambda>k v. if truthy v then [(k, JStr (the v))] else [])
      in JObj ([(''domain'', JStr domain)] @ field ''csr_der'' csrDer @ field ''environment'' environment @ field ''ca'' ca))"

definition requestCertificate ::
  "network \<Rightarrow> string \<Rightarrow> string \<Rightarrow> string option \<Rightarrow> string option \<Rightarrow> string option \<Rightarrow> string option \<Rightarrow> js_error + json" where
  "requestCertificate net base domain csrDer environment ca npub =
     try_bind (front_safeFetch net \<lparr>hr_url = base @ ''/api/acme/order'', hr_method = ''POST'',
         hr_headers = npub_header npub [(''Content-Type'', ''application/json'')],
         hr_body = Some (order_body domain csrDer environment ca)\<rparr>) lib_call"

definition getCertificateOrder :: "network \<Rightarrow> string \<Rightarrow> string \<Rightarrow> string option \<Rightarrow> js_error + json" where
  "getCertificateOrder net base orderId npub =
     try_bind (front_safeFetch net \<lparr>hr_url = base @ ''/api/acme/order/'' @ orderId, hr_method = ''GET'',
         hr_headers = npub_header npub [], hr_body = None\<rparr>) lib_call"

definition checkRegistration :: "network \<Rightarrow> string \<Rightarrow> string \<Rightarrow> js_error + json" where
  "checkRegistration net base name =
     try_bind (front_safeFetch net \<lparr>hr_url = base @ ''/api/check?name='' @ encodeURIComponent name,
         hr_method = ''GET'', hr_headers = [], hr_body = None\<rparr>) lib_call"

section \<open>Names and prices\<close>

definition getPriceForName :: "int \<Rightarrow> string \<Rightarrow> int" where
  "getPriceForName basePrice name =
     (let len = length name
      in if len \<le> 3 then basePrice * 100 else if len \<le> 6 then basePrice * 10 else basePrice * 2)"

text \<open>\<open>replace(/\.nodns\.shop\.?$/i, '')\<close>: a match ends the text, so it is one of these two endings.\<close>

definition strip_zone :: "string \<Rightarrow> string" where
  "strip_zone s =
     (let lower = toLowerCase s
      in if endsWith lower ''.nodns.shop'' then slice_drop_last 11 s
         else if endsWith lower ''.nodns.shop.'' then slice_drop_last 12 s
         else s)"

definition sanitizeName :: "string \<Rightarrow> string" where
  "sanitizeName input = filter (\<lambda>c. is_lower c \<or> is_digit c \<or> c = CHR ''-'') (strip_zone (toLowerCase (trim input)))"

definition toFqdn :: "string \<Rightarrow> string" where
  "toFqdn name = name @ ''.'' @ DEFAULT_ZONE"

section \<open>DNS and status names\<close>

definition FRONT_DNS_TYPES :: "int \<Rightarrow> string option" where
  "FRONT_DNS_TYPES n = map_of [(1, ''A''), (28, ''AAAA''), (5, ''CNAME''), (16, ''TXT''), (15, ''MX''), (2, ''NS''), (6, ''SOA'')] n"

definition DNS_STATUS_CODES :: "int \<Rightarrow> string option" where
  "DNS_STATUS_CODES n = map_of [(0, ''No Error''), (1, ''Form Error''), (2, ''Server Failure''), (3, ''NXDOMAIN''),
     (4, ''Not Implemented''), (5, ''Refused'')] n"

definition front_dnsTypeNumberToString :: "int \<Rightarrow> string" where
  "front_dnsTypeNumberToString num = nullish (FRONT_DNS_TYPES num) (show_int num)"

section \<open>Sources\<close>

text \<open>A source's result with the label and the authority that the views show; the icon is left out.\<close>

record 'a UiSource = "'a SourceResult" +
  us_label :: string
  us_authority :: bool

definition with_meta :: "string \<Rightarrow> bool \<Rightarrow> 'a SourceResult \<Rightarrow> 'a UiSource" where
  "with_meta label authority r = SourceResult.extend r \<lparr>us_label = label, us_authority = authority\<rparr>"

definition front_fetchApiRecords :: "api \<Rightarrow> string \<Rightarrow> fetch_params \<Rightarrow> DnsRecord UiSource" where
  "front_fetchApiRecords fetch base params = with_meta ''Operator API'' False (fetchApiRecords fetch params base)"

definition front_fetchNostrRecords ::
  "nostr_lib \<Rightarrow> relay_query \<Rightarrow> fetch_params \<Rightarrow> string option \<Rightarrow> NostrDnsRecord UiSource" where
  "front_fetchNostrRecords L query params zone =
     with_meta ''Nostr Relays'' True (fetchNostrRecords L query params (nullish zone DEFAULT_ZONE) DEFAULT_READ_RELAYS)"

definition front_fetchDnsRecords :: "doh \<Rightarrow> string \<Rightarrow> string list option \<Rightarrow> DnsAnswer UiSource" where
  "front_fetchDnsRecords fetch fqdn types =
     with_meta ''DNS Resolver'' False
       (fetchDnsRecords fetch fqdn (nullish types [''A'', ''AAAA'', ''TXT'', ''CNAME'', ''MX'']) None)"

record UiTripartite =
  ut_api :: "DnsRecord UiSource"
  ut_nostr :: "NostrDnsRecord UiSource"
  ut_dns :: "DnsAnswer UiSource"

definition front_fetchTripartiteRecords ::
  "nostr_lib \<Rightarrow> relay_query \<Rightarrow> api \<Rightarrow> doh \<Rightarrow> string \<Rightarrow> fetch_params \<Rightarrow> string option \<Rightarrow> UiTripartite" where
  "front_fetchTripartiteRecords L query api doh base params zone =
     (let result = fetchTripartiteRecords L query api doh params (nullish zone DEFAULT_ZONE) DEFAULT_READ_RELAYS base None
      in \<lparr>ut_api = with_meta ''Operator API'' False (tp_api result),
          ut_nostr = with_meta ''Nostr Relays'' True (tp_nostr result),
          ut_dns = with_meta ''DNS Resolver'' False (tp_dns result)\<rparr>)"

definition DEFAULT_PRICING :: json where
  "DEFAULT_PRICING = JObj [(''zone'', JStr DEFAULT_ZONE), (''enabled'', JBool True), (''create_price'', JNum 2),
     (''update_price'', JNum 0), (''delete_price'', JNum 0), (''npub_names_free'', JBool True),
     (''mint_url'', JStr ''https://testnut.cashu.space''), (''mint_filter'', JStr ''testnut'')]"

definition front_fetchPricing :: "reg_net \<Rightarrow> string \<Rightarrow> string \<Rightarrow> json" where
  "front_fetchPricing net base zone =
     (case net (base @ ''/api/zones/'' @ encodeURIComponent zone @ ''/pricing'') of
        Reply status (Some body) \<Rightarrow> if response_ok status then body else DEFAULT_PRICING
      | _ \<Rightarrow> DEFAULT_PRICING)"

section \<open>Lemmas\<close>

text \<open>The SDK's result inside the one shown.\<close>

lemma with_meta_truncate [simp]: "SourceResult.truncate (with_meta l a r) = r"
  by (simp add: with_meta_def SourceResult.defs)

lemma name_char_lower: "is_lower c \<or> is_digit c \<or> c = CHR ''-'' \<Longrightarrow> lower_char c = c"
  by (auto simp: lower_char_def is_lower_def is_upper_def is_digit_def code_of_def)

lemma name_char_not: "is_lower c \<or> is_digit c \<or> c = CHR ''-'' \<Longrightarrow> \<not> is_space c \<and> c \<noteq> CHR ''.''"
  by (auto simp: is_space_def is_lower_def is_digit_def code_of_def)

lemma sanitizeName_id:
  assumes "list_all (\<lambda>c. is_lower c \<or> is_digit c \<or> c = CHR ''-'') s" shows "sanitizeName s = s"
proof -
  have "list_all (\<lambda>c. \<not> is_space c) s" using assms name_char_not by (auto simp: list_all_iff)
  then have t: "trim s = s" by (rule trim_no_space)
  have l: "toLowerCase s = s"
    using assms name_char_lower by (auto simp: toLowerCase_def list_all_iff intro: map_idI)
  have "CHR ''.'' \<notin> set s" using assms name_char_not by (auto simp: list_all_iff)
  then have "\<not> endsWith s ''.nodns.shop''" "\<not> endsWith s ''.nodns.shop.''" by (auto simp: endsWith_iff)
  then have "strip_zone s = s" by (simp add: strip_zone_def l)
  with t l assms show ?thesis by (simp add: sanitizeName_def list_all_iff)
qed

lemma sanitizeName_chars: "list_all (\<lambda>c. is_lower c \<or> is_digit c \<or> c = CHR ''-'') (sanitizeName s)"
  by (auto simp: sanitizeName_def list_all_iff)

section \<open>Properties\<close>

text \<open>
  Cleaning a name leaves lower case letters, digits and hyphens and nothing to clean; a name that the
  SDK accepts is left as it is, and so is the label of such a name below the default zone.
\<close>

theorem sanitizeName_spec:
  "sanitizeName (sanitizeName s) = sanitizeName s \<and>
   (validateRecordName s = None \<and> s \<noteq> ''@'' \<longrightarrow>
      sanitizeName s = s \<and> (s \<noteq> [] \<longrightarrow> sanitizeName (toFqdn s) = s \<and> sanitizeName (toFqdn s @ ''.'') = s))"
proof (intro conjI impI)
  show "sanitizeName (sanitizeName s) = sanitizeName s" by (rule sanitizeName_id [OF sanitizeName_chars])
next
  assume v: "validateRecordName s = None \<and> s \<noteq> ''@''"
  then have c: "list_all (\<lambda>c. is_lower c \<or> is_digit c \<or> c = CHR ''-'') s"
    by (auto simp: validateRecordName_iff ldh_label_def is_alnum_lower_def list_all_iff hyphen_def)
  show "sanitizeName s = s" by (rule sanitizeName_id [OF c])
  have low: "toLowerCase s = s"
    using c name_char_lower by (auto simp: toLowerCase_def list_all_iff intro: map_idI)
  have z: "toLowerCase ''.nodns.shop'' = ''.nodns.shop''" "toLowerCase ''.nodns.shop.'' = ''.nodns.shop.''" by code_simp+
  have nd: "CHR ''.'' \<notin> set s" "list_all (\<lambda>c. \<not> is_space c) s" using c name_char_not by (auto simp: list_all_iff)
  have keep: "filter (\<lambda>c. is_lower c \<or> is_digit c \<or> c = CHR ''-'') s = s" using c by (simp add: list_all_iff)
  have sp: "list_all (\<lambda>c. \<not> is_space c) ''.nodns.shop.''" by code_simp
  assume "s \<noteq> []"
  have f1: "toLowerCase (trim (s @ ''.nodns.shop'')) = s @ ''.nodns.shop''"
    using nd(2) sp by (subst trim_no_space) (simp_all add: toLowerCase_append low z)
  have f2: "toLowerCase (trim (s @ ''.nodns.shop.'')) = s @ ''.nodns.shop.''"
    using nd(2) sp by (subst trim_no_space) (simp_all add: toLowerCase_append low z)
  have e: "\<not> endsWith (s @ ''.nodns.shop.'') ''.nodns.shop''"
  proof
    assume "endsWith (s @ ''.nodns.shop.'') ''.nodns.shop''"
    then obtain t where "s @ ''.nodns.shop.'' = t @ ''.nodns.shop''" by (auto simp: endsWith_iff)
    then have "last (s @ ''.nodns.shop.'') = last (t @ ''.nodns.shop'')" by (rule arg_cong)
    then show False by simp
  qed
  have "sanitizeName (toFqdn s) = filter (\<lambda>c. is_lower c \<or> is_digit c \<or> c = CHR ''-'') (strip_zone (s @ ''.nodns.shop''))"
    unfolding sanitizeName_def toFqdn_def DEFAULT_ZONE_def using f1 by simp
  also have "strip_zone (s @ ''.nodns.shop'') = s"
    by (simp add: strip_zone_def toLowerCase_append low z slice_drop_last_def)
  finally show "sanitizeName (toFqdn s) = s" using keep by simp
  have "sanitizeName (toFqdn s @ ''.'') = filter (\<lambda>c. is_lower c \<or> is_digit c \<or> c = CHR ''-'') (strip_zone (s @ ''.nodns.shop.''))"
    unfolding sanitizeName_def toFqdn_def DEFAULT_ZONE_def using f2 by simp
  also have "strip_zone (s @ ''.nodns.shop.'') = s"
    using e by (simp add: strip_zone_def toLowerCase_append low z slice_drop_last_def)
  finally show "sanitizeName (toFqdn s @ ''.'') = s" using keep by simp
qed

theorem sanitizeName_spec_witness:
  "sanitizeName '' My Name.NODNS.shop. '' = ''myname'' \<and> sanitizeName (toFqdn ''my-name'') = ''my-name''"
proof -
  have "validateRecordName ''my-name'' = None" "sanitizeName '' My Name.NODNS.shop. '' = ''myname''" by code_simp+
  with sanitizeName_spec [of "''my-name''"] show ?thesis by simp
qed

text \<open>
  Of what the server says about a failed request nothing but a status line is ever shown: any other
  message is replaced, the short plain ones included that the code means to let through.
\<close>

theorem front_safeFetch_message:
  assumes "net req = Reply status body" "\<not> response_ok status"
    and "\<not> http_line (user_message status body)"
    and "user_message status body \<notin> {''Request failed'', ''Request timed out. Please try again.'',
      ''Unable to connect. Please check your network.''}"
  shows "front_safeFetch net req = Inl (JsError ''An unexpected error occurred. Please try again.'')"
  using assms unfolding front_safeFetch_def front_sanitizeErrorMessage_def http_line_prefix by simp

theorem front_safeFetch_message_witness:
  "checkRegistration (\<lambda>_. Reply 400 (Some (JObj [(''error'', JStr ''name too long'')]))) [] ''x'' =
     Inl (JsError ''An unexpected error occurred. Please try again.'')"
proof -
  have u: "user_message 400 (Some (JObj [(''error'', JStr ''name too long'')])) = ''name too long''" by code_simp
  have p: "\<not> http_line ''name too long''" by (auto simp: http_line_def)
  have "front_safeFetch (\<lambda>_. Reply 400 (Some (JObj [(''error'', JStr ''name too long'')]))) req =
      Inl (JsError ''An unexpected error occurred. Please try again.'')" for req
    by (rule front_safeFetch_message [OF refl]) (simp_all add: response_ok_def u p)
  then show ?thesis by (simp add: checkRegistration_def)
qed

text \<open>
  The two price tables never agree on a name that is not free: the registrar's and the front end's
  with its default base price.
\<close>

theorem price_tables_differ: "calculatePrice (int (length name)) False \<noteq> getPriceForName 2 name"
  by (auto simp: calculatePrice_def getPriceForName_def Let_def)

text \<open>
  What the views show of the three sources is the SDK's result, source by source.
\<close>

theorem front_fetchTripartiteRecords_sdk:
  "let u = front_fetchTripartiteRecords L query api doh base params zone;
       t = fetchTripartiteRecords L query api doh params (nullish zone DEFAULT_ZONE) DEFAULT_READ_RELAYS base None
   in \<lparr>tp_api = SourceResult.truncate (ut_api u), tp_nostr = SourceResult.truncate (ut_nostr u),
        tp_dns = SourceResult.truncate (ut_dns u)\<rparr> = t"
  by (simp add: front_fetchTripartiteRecords_def Let_def)

end
