(* ===== verification/Front_Publish.thy ===== *)
theory Front_Publish
  imports Reg_Publish Cli_ZoneFile
begin

text \<open>
  \<open>nodns-frontend/src/lib/nostr.ts\<close> and \<open>pow-worker.ts\<close>: publishing and deleting records from the front
  end. Mining runs in a worker; what the worker posts is \<open>worker_message\<close>. \<open>publish url event\<close> is the reason
  a relay refuses with, \<^const>\<open>None\<close> when it accepts.
\<close>

section \<open>The worker\<close>

datatype worker_message = WorkerDone event_template string string | WorkerError string

text \<open>The worker's handler; \<open>why\<close> is the text of the exception that mining throws.\<close>

definition pow_worker :: "signer \<Rightarrow> string \<Rightarrow> event_template \<Rightarrow> int \<Rightarrow> string \<Rightarrow> worker_message" where
  "pow_worker S why template difficulty pubkey =
     (case sg_minePow S template pubkey difficulty of
        Some (mined, i) \<Rightarrow> WorkerDone mined pubkey i
      | None \<Rightarrow> WorkerError why)"

definition minePowAsync :: "signer \<Rightarrow> string \<Rightarrow> event_template \<Rightarrow> int \<Rightarrow> string \<Rightarrow> js_error + event_template" where
  "minePowAsync S why template difficulty pubkey =
     (case pow_worker S why template difficulty pubkey of
        WorkerDone mined _ _ \<Rightarrow> Inr mined
      | WorkerError e \<Rightarrow> Inl (JsError e))"

section \<open>Key pairs\<close>

definition generateEphemeralKeyPair :: "nostr_lib \<Rightarrow> bytes \<Rightarrow> js_error + Keypair" where
  "generateEphemeralKeyPair L sk =
     try_bind (lib_call (nl_getPublicKey L sk)) (\<lambda>pk.
     try_bind (lib_call (nl_npubEncode L pk)) (\<lambda>npub.
     try_bind (lib_call (nl_nsecEncode L sk)) (\<lambda>nsec.
       Inr \<lparr>kp_secretKey = sk, kp_pubkey = pk, kp_nsec = nsec, kp_npub = npub\<rparr>)))"

definition keyPairFromNsec :: "nostr_lib \<Rightarrow> string \<Rightarrow> js_error + Keypair" where
  "keyPairFromNsec L nsec =
     try_bind (lib_call (nl_decode L nsec)) (\<lambda>decoded.
       case decoded of
         DNsec sk \<Rightarrow>
           try_bind (lib_call (nl_getPublicKey L sk)) (\<lambda>pk.
           try_bind (lib_call (nl_npubEncode L pk)) (\<lambda>npub.
             Inr \<lparr>kp_secretKey = sk, kp_pubkey = pk, kp_nsec = nsec, kp_npub = npub\<rparr>))
       | _ \<Rightarrow> Inl (JsError ''Invalid nsec key''))"

section \<open>Publishing\<close>

record record_input =
  in_type :: string
  in_name :: string
  in_value :: string
  in_ttl :: int

datatype MiningPhase = Mining | Publishing

definition publish_template :: "int \<Rightarrow> tag list \<Rightarrow> event_template" where
  "publish_template nowMs tags = \<lparr>et_kind = 11111, et_content = [], et_tags = tags, et_created_at = nowMs div 1000\<rparr>"

text \<open>\<open>Promise.any\<close>: fulfilled by the first relay that accepts, rejected when all refuse.\<close>

definition publish_any :: "(string \<Rightarrow> NostrEvent \<Rightarrow> string option) \<Rightarrow> NostrEvent \<Rightarrow> js_error + NostrEvent" where
  "publish_any publish event =
     (if list_ex (\<lambda>url. publish url event = None) PUBLISH_RELAYS then Inr event else Inl LibError)"

text \<open>The common end of both functions: the result, the calls of the progress callback and the messages
  sent.\<close>

definition mine_sign_publish ::
  "signer \<Rightarrow> string \<Rightarrow> (string \<Rightarrow> NostrEvent \<Rightarrow> string option) \<Rightarrow> event_template \<Rightarrow> bytes \<Rightarrow> int \<Rightarrow>
     (js_error + NostrEvent) \<times> MiningPhase list \<times> (string \<times> NostrEvent) list" where
  "mine_sign_publish S why publish template secretKey powDifficulty =
     (let mined =
            (if powDifficulty > 0
             then try_bind (lib_call (sg_getPublicKey S secretKey)) (minePowAsync S why template powDifficulty)
             else Inr template);
          phases = (if powDifficulty > 0 then [Mining] else []) @
            (if powDifficulty > 0 \<and> \<not> isl mined then [Publishing] else [])
      in case try_bind mined (\<lambda>t. lib_call (sg_finalize S t secretKey)) of
           Inl e \<Rightarrow> (Inl e, phases, [])
         | Inr event \<Rightarrow> (publish_any publish event, phases, map (\<lambda>url. (url, event)) PUBLISH_RELAYS))"

definition publish_tags :: "record_input list \<Rightarrow> string option \<Rightarrow> string option \<Rightarrow> int option \<Rightarrow> tag list" where
  "publish_tags records cashuToken mintUrl satAmount =
     map (\<lambda>r. buildRecordTag (in_type r) (or_else (Some (in_name r)) ''@'') (in_value r) (in_ttl r)) records @
     (if truthy cashuToken \<and> truthy mintUrl
      then [buildCashuTag (the cashuToken) (the mintUrl) (nullish satAmount 0)] else [])"

definition publishDnsEvent ::
  "signer \<Rightarrow> string \<Rightarrow> (string \<Rightarrow> NostrEvent \<Rightarrow> string option) \<Rightarrow> int \<Rightarrow> record_input list \<Rightarrow> bytes \<Rightarrow>
     string option \<Rightarrow> string option \<Rightarrow> int option \<Rightarrow> int \<Rightarrow>
     (js_error + NostrEvent) \<times> MiningPhase list \<times> (string \<times> NostrEvent) list" where
  "publishDnsEvent S why publish nowMs records secretKey cashuToken mintUrl satAmount powDifficulty =
     mine_sign_publish S why publish (publish_template nowMs (publish_tags records cashuToken mintUrl satAmount))
       secretKey powDifficulty"

definition delete_tags :: "(string \<times> string) list \<Rightarrow> tag list" where
  "delete_tags deletes = map (\<lambda>(type, name). [''delete'', type, or_else (Some name) ''@'']) deletes"

definition publishDeleteEvent ::
  "signer \<Rightarrow> string \<Rightarrow> (string \<Rightarrow> NostrEvent \<Rightarrow> string option) \<Rightarrow> int \<Rightarrow> (string \<times> string) list \<Rightarrow> bytes \<Rightarrow> int \<Rightarrow>
     (js_error + NostrEvent) \<times> MiningPhase list \<times> (string \<times> NostrEvent) list" where
  "publishDeleteEvent S why publish nowMs deletes secretKey powDifficulty =
     mine_sign_publish S why publish (publish_template nowMs (delete_tags deletes)) secretKey powDifficulty"

section \<open>Queries\<close>

definition front_queryRecordsByPubkey ::
  "nostr_lib \<Rightarrow> relay_query \<Rightarrow> string \<Rightarrow> string \<Rightarrow> int option \<Rightarrow> NostrDnsRecord list" where
  "front_queryRecordsByPubkey L query pubkeyHex zone optLimit =
     queryRecordsByPubkey L query pubkeyHex zone DEFAULT_READ_RELAYS optLimit"

definition front_queryRecordsByDomain ::
  "nostr_lib \<Rightarrow> relay_query \<Rightarrow> string \<Rightarrow> string \<Rightarrow> int option \<Rightarrow> NostrDnsRecord list" where
  "front_queryRecordsByDomain L query fqdn zone optLimit =
     queryRecordsByDomain L query fqdn zone DEFAULT_READ_RELAYS optLimit"

definition front_queryAllRecentRecords ::
  "nostr_lib \<Rightarrow> relay_query \<Rightarrow> string \<Rightarrow> int option \<Rightarrow> NostrDnsRecord list" where
  "front_queryAllRecentRecords L query zone optLimit = queryAllRecentRecords L query zone DEFAULT_READ_RELAYS optLimit"

section \<open>Lemmas\<close>

lemma minePowAsync_Inr: "minePowAsync S why template d pk = Inr t \<longleftrightarrow> (\<exists>i. sg_minePow S template pk d = Some (t, i))"
  by (auto simp: minePowAsync_def pow_worker_def split: option.split)

lemma mine_sign_publish_Inr:
  assumes "mine_sign_publish S why publish template sk pow = (r, phases, sent)" "sent \<noteq> []"
  shows "\<exists>t event. mine_step S (lib_call (sg_getPublicKey S sk)) template pow = Inr t \<and> sg_finalize S t sk = Some event \<and>
    r = publish_any publish event \<and> sent = map (\<lambda>url. (url, event)) PUBLISH_RELAYS"
proof -
  let ?mined = "if pow > 0 then try_bind (lib_call (sg_getPublicKey S sk)) (minePowAsync S why template pow) else Inr template"
  from assms obtain t event where t: "?mined = Inr t" "sg_finalize S t sk = Some event"
    and r: "r = publish_any publish event" "sent = map (\<lambda>url. (url, event)) PUBLISH_RELAYS"
    by (auto simp: mine_sign_publish_def Let_def try_bind_def lib_call_def split: sum.splits option.splits if_splits)
  have "mine_step S (lib_call (sg_getPublicKey S sk)) template pow = Inr t"
    using t(1) by (auto simp: mine_step_def try_bind_Inr_iff minePowAsync_Inr lib_call_Inr_iff split: if_splits)
  with t r show ?thesis by blast
qed

lemma mine_step_tags:
  assumes "adds_nonce S" "mine_step S pubkey template pow = Inr t" "tag \<in> set (et_tags t)"
  shows "tag \<in> set (et_tags template) \<or> tag_is ''nonce'' tag"
proof (cases "pow > 0")
  case True
  with assms(2) obtain pk where "map_sum id fst (lib_call (sg_minePow S template pk pow)) = Inr t"
    by (auto simp: mine_step_def try_bind_Inr_iff)
  then obtain i where "sg_minePow S template pk pow = Some (t, i)" by (cases "sg_minePow S template pk pow") auto
  with assms(1,3) show ?thesis unfolding adds_nonce_def by blast
qed (use assms in \<open>simp add: mine_step_def\<close>)

lemma mine_step_keeps:
  assumes "keeps_tags S" "mine_step S pubkey template pow = Inr t"
  shows "set (et_tags template) \<subseteq> set (et_tags t)"
proof (cases "pow > 0")
  case True
  with assms(2) obtain pk where "map_sum id fst (lib_call (sg_minePow S template pk pow)) = Inr t"
    by (auto simp: mine_step_def try_bind_Inr_iff)
  then obtain i where "sg_minePow S template pk pow = Some (t, i)"
    by (cases "sg_minePow S template pk pow") (auto simp: lib_call_def)
  with assms(1) show ?thesis unfolding keeps_tags_def by blast
qed (use assms(2) in \<open>auto simp: mine_step_def\<close>)

text \<open>The tags of an event that is sent.\<close>

lemma published_tags:
  assumes "signer_ok S h" "publishDnsEvent S why publish now records sk token mint amount pow = (r, phases, sent)"
    and "(url, event) \<in> set sent"
  shows "adds_nonce S \<Longrightarrow> tag \<in> set (ev_tags event) \<Longrightarrow> tag \<in> set (publish_tags records token mint amount) \<or> tag_is ''nonce'' tag"
    and "keeps_tags S \<Longrightarrow> set (publish_tags records token mint amount) \<subseteq> set (ev_tags event)"
proof -
  let ?t = "publish_template now (publish_tags records token mint amount)"
  have m: "mine_sign_publish S why publish ?t sk pow = (r, phases, sent)" using assms(2) by (simp add: publishDnsEvent_def)
  have "sent \<noteq> []" using assms(3) by auto
  with mine_sign_publish_Inr [OF m] assms(3) obtain t
    where t: "mine_step S (lib_call (sg_getPublicKey S sk)) ?t pow = Inr t" "sg_finalize S t sk = Some event" by auto
  note tags = signed_tags [OF assms(1) t(2)]
  show "tag \<in> set (publish_tags records token mint amount) \<or> tag_is ''nonce'' tag" if "adds_nonce S" "tag \<in> set (ev_tags event)"
    using mine_step_tags [OF that(1) t(1), of tag] that(2) by (simp add: tags publish_template_def)
  show "set (publish_tags records token mint amount) \<subseteq> set (ev_tags event)" if "keeps_tags S"
    using mine_step_keeps [OF that t(1)] by (simp add: tags publish_template_def)
qed

lemma collect_none: "(\<And>x. x \<in> set xs \<Longrightarrow> f x = None) \<Longrightarrow> collect f xs = []"
  by (induction xs) auto

lemma no_record_tag_ignored:
  assumes "\<forall>tag \<in> set (ev_tags event). \<not> tag_is ''record'' tag"
  shows "parseRecordsFromEvent enc event zone = []"
    and "collect (\<lambda>tag. case parseRecordTag enc tag (ev_pubkey event) (ev_id event) (ev_created_at event) of
      None \<Rightarrow> None | Some r \<Rightarrow> if \<not> endsWith (zr_name r @ s) s then None else Some r) (ev_tags event) = []"
  using assms unfolding parseRecordsFromEvent_def
  by (auto intro!: collect_none simp: tag_is_def nostr_record_of_tag_def parseRecordTag_def)

section \<open>Properties\<close>

text \<open>
  What the front end sends is one record event of the given key, with the proof of work asked for;
  every relay gets it, and the call succeeds exactly when one of them accepts.
\<close>

theorem publishDnsEvent_outcome:
  assumes "signer_ok S event_hash"
    and "publishDnsEvent S why publish now records sk token mint amount pow = (r, phases, sent)" "sent \<noteq> []"
  shows "\<exists>event. ev_kind event = RECORD_KIND \<and> sg_getPublicKey S sk = Some (ev_pubkey event) \<and>
    (pow > 0 \<longrightarrow> pow \<le> int (countLeadingZeroBits (ev_id event))) \<and> sent = map (\<lambda>url. (url, event)) PUBLISH_RELAYS \<and>
    r = (if \<exists>url \<in> set PUBLISH_RELAYS. publish url event = None then Inr event else Inl LibError)"
proof -
  obtain t event where t: "mine_step S (lib_call (sg_getPublicKey S sk))
      (publish_template now (publish_tags records token mint amount)) pow = Inr t" "sg_finalize S t sk = Some event"
    and r: "r = publish_any publish event" "sent = map (\<lambda>url. (url, event)) PUBLISH_RELAYS"
    using mine_sign_publish_Inr [OF assms(2) [unfolded publishDnsEvent_def] assms(3)] by blast
  have "sg_getPublicKey S sk = Some pk" if "lib_call (sg_getPublicKey S sk) = Inr pk" for pk
    using that by (simp add: lib_call_Inr_iff)
  from mined_and_signed [OF assms(1) t this] r show ?thesis
    by (intro exI [of _ event]) (simp add: publish_template_def RECORD_KIND_def publish_any_def list_ex_iff)
qed

theorem publishDnsEvent_outcome_witness:
  "\<exists>event sent. publishDnsEvent example_signer [] (\<lambda>url _. if url = ''wss://nos.lol'' then None else Some ''no'') 5000
     [\<lparr>in_type = ''A'', in_name = [], in_value = ''1.2.3.4'', in_ttl = 300\<rparr>] [7] None None None 8 =
     (Inr event, [Mining, Publishing], sent) \<and> 8 \<le> int (countLeadingZeroBits (ev_id event))"
proof -
  let ?p = "\<lambda>url (_ :: NostrEvent). if url = ''wss://nos.lol'' then None else Some ''no''"
  let ?r = "publishDnsEvent example_signer [] ?p 5000
     [\<lparr>in_type = ''A'', in_name = [], in_value = ''1.2.3.4'', in_ttl = 300\<rparr>] [7] None None None 8"
  have "(case ?r of (Inr _, phases, sent) \<Rightarrow> phases = [Mining, Publishing] \<and> sent \<noteq> [] | _ \<Rightarrow> False)" by code_simp
  then obtain event sent where e: "?r = (Inr event, [Mining, Publishing], sent)" "sent \<noteq> []"
    by (auto split: prod.splits sum.splits)
  from publishDnsEvent_outcome [OF example_signer_ok e] e show ?thesis by (auto split: if_splits)
qed

text \<open>
  C17. The deletion the front end publishes changes nothing for the SDK and the command line tool: the
  SDK's parser reads no record from it, and the zone the tool computes is the same with it and without.
\<close>

theorem publishDeleteEvent_ignored:
  assumes "signer_ok S event_hash" "adds_nonce S"
    and "publishDeleteEvent S why publish now deletes sk pow = (r, phases, sent)" "(url, event) \<in> set sent"
  shows "parseRecordsFromEvent enc event zone = [] \<and>
    parseEventsToRecords lc enc (pre @ event # post) zone = parseEventsToRecords lc enc (pre @ post) zone"
proof -
  have "sent \<noteq> []" using assms(4) by auto
  then obtain t where t: "mine_step S (lib_call (sg_getPublicKey S sk)) (publish_template now (delete_tags deletes)) pow = Inr t"
    "sg_finalize S t sk = Some event"
    using mine_sign_publish_Inr [OF assms(3) [unfolded publishDeleteEvent_def]] assms(4) by auto
  have no: "\<forall>tag \<in> set (ev_tags event). \<not> tag_is ''record'' tag"
    using mine_step_tags [OF assms(2) t(1)] unfolding signed_tags [OF assms(1) t(2)]
    by (fastforce simp: publish_template_def delete_tags_def tag_is_def)
  have "event_records enc (pre @ event # post) zone = event_records enc (pre @ post) zone"
    unfolding event_records_def Let_def
    by (rule oldest_first.concat_js_sort_drop) (rule no_record_tag_ignored(2) [OF no])
  then show ?thesis using no_record_tag_ignored(1) [OF no] by (simp add: parseEventsToRecords_def)
qed

theorem publishDeleteEvent_ignored_witness:
  "\<exists>event. fst (publishDeleteEvent example_signer [] (\<lambda>_ _. None) 5000 [(''A'', ''x'')] [7] 8) = Inr event \<and>
     parseEventsToRecords cmp_order (\<lambda>_. None) [example_event [buildRecordTag ''A'' ''x'' ''1.2.3.4'' 60], event] ''nodns.shop'' =
     parseEventsToRecords cmp_order (\<lambda>_. None) [example_event [buildRecordTag ''A'' ''x'' ''1.2.3.4'' 60]] ''nodns.shop''"
proof -
  let ?r = "publishDeleteEvent example_signer [] (\<lambda>_ _. None) 5000 [(''A'', ''x'')] [7] 8"
  have "(case ?r of (Inr event, phases, sent) \<Rightarrow> (''wss://nos.lol'', event) \<in> set sent | _ \<Rightarrow> False)" by code_simp
  then obtain event phases sent where e: "?r = (Inr event, phases, sent)" "(''wss://nos.lol'', event) \<in> set sent"
    by (auto split: prod.splits sum.splits)
  have "adds_nonce example_signer" by (auto simp: adds_nonce_def example_signer_def split: if_splits)
  from publishDeleteEvent_ignored [OF example_signer_ok this e, of "\<lambda>_. None" "''nodns.shop''" cmp_order
      "[example_event [buildRecordTag ''A'' ''x'' ''1.2.3.4'' 60]]" "[]"] e show ?thesis by auto
qed

end
