(* ===== verification/Front_Wallet.thy ===== *)
theory Front_Wallet
  imports Reg_Wallet Front_Identity
begin

text \<open>
  \<open>nodns-frontend/src/lib/wallet.ts\<close> and \<open>contexts/WalletContext.tsx\<close>: the wallet of the front end and the
  progress of a top-up, which the answers of the mint and the events of the manager drive. A top-up is
  two steps, the request and the arrival of its answer, between which events may come. \<open>show_error\<close> is
  the text of an error.
\<close>

section \<open>State\<close>

datatype WalletStatus = WIdle | WLoading | WReady | WError

datatype TopUpState = TIdle | TRequesting | TWaiting | TMinting | TDone | TError

record 'w front_wallet =
  fw_store :: key_store
  fw_manager :: "'w option"
  fw_status :: WalletStatus
  fw_error :: "string option"
  fw_balance :: int
  fw_mintOnline :: bool
  fw_topUpState :: TopUpState
  fw_topUpError :: "string option"

definition front_wallet_start :: "key_store \<Rightarrow> 'w front_wallet" where
  "front_wallet_start store = \<lparr>fw_store = store, fw_manager = None, fw_status = WIdle, fw_error = None,
     fw_balance = 0, fw_mintOnline = True, fw_topUpState = TIdle, fw_topUpError = None\<rparr>"

definition front_createWalletManager :: "'w wallet_lib \<Rightarrow> js_error + 'w \<Rightarrow> js_error + 'w \<times> bool" where
  "front_createWalletManager W opened =
     (case opened of
        Inl e \<Rightarrow> Inl e
      | Inr repos \<Rightarrow>
          let (mintOnline, mgr) = wl_addMint W MINT_URL repos
          in if \<not> mintOnline then Inr (mgr, False)
             else (case wl_watch W mgr of
                 (False, mgr1) \<Rightarrow> Inr (mgr1, True)
               | (True, mgr1) \<Rightarrow> Inr (snd (wl_process W mgr1), True)))"

definition front_refreshBalance :: "'w wallet_lib \<Rightarrow> 'w front_wallet \<Rightarrow> 'w front_wallet" where
  "front_refreshBalance W ctx =
     (case fw_manager ctx of
        None \<Rightarrow> ctx
      | Some mgr \<Rightarrow> (case wl_balances W mgr of None \<Rightarrow> ctx | Some b \<Rightarrow> ctx\<lparr>fw_balance := mint_balance b\<rparr>))"

section \<open>Starting\<close>

text \<open>The three parts of \<open>init\<close>, between which it waits: the identity, up to the wait for the manager; the
  manager and its listeners, up to the wait for the balances; and the end. \<open>balances\<close> is what the manager
  answers, and \<open>mintOk\<close>, whether the mint was reached, is the variable \<open>init\<close> keeps meanwhile.\<close>

definition front_wallet_fail :: "(js_error \<Rightarrow> string) \<Rightarrow> js_error \<Rightarrow> 'w front_wallet \<Rightarrow> 'w front_wallet" where
  "front_wallet_fail show_error e ctx =
     ctx\<lparr>fw_error := Some (show_error e), fw_mintOnline := False, fw_status := WError\<rparr>"

definition front_wallet_begin ::
  "nostr_lib \<Rightarrow> bytes \<Rightarrow> (js_error \<Rightarrow> string) \<Rightarrow> 'w front_wallet \<Rightarrow> (js_error + unit) \<times> 'w front_wallet" where
  "front_wallet_begin L drawn show_error ctx =
     (let (identity, store) = getOrCreateIdentity L drawn (fw_store ctx);
          ctx1 = ctx\<lparr>fw_status := WLoading, fw_store := store\<rparr>
      in case identity of
           Inl e \<Rightarrow> (Inl e, front_wallet_fail show_error e ctx1)
         | Inr _ \<Rightarrow> (Inr (), ctx1))"

definition front_wallet_opened ::
  "'w wallet_lib \<Rightarrow> (js_error \<Rightarrow> string) \<Rightarrow> js_error + 'w \<Rightarrow> bool \<Rightarrow> 'w front_wallet \<Rightarrow> bool option \<times> 'w front_wallet" where
  "front_wallet_opened W show_error opened disposed ctx =
     (case front_createWalletManager W opened of
        Inl e \<Rightarrow> (None, if disposed then ctx else front_wallet_fail show_error e ctx)
      | Inr (mgr, mintOk) \<Rightarrow> if disposed then (None, ctx) else (Some mintOk, ctx\<lparr>fw_manager := Some mgr\<rparr>))"

definition front_wallet_ready ::
  "(string \<Rightarrow> int option) option \<Rightarrow> bool \<Rightarrow> 'w front_wallet \<Rightarrow> 'w front_wallet" where
  "front_wallet_ready balances mintOk ctx =
     (let bal = (case balances of None \<Rightarrow> 0 | Some b \<Rightarrow> mint_balance b)
      in ctx\<lparr>fw_error := None, fw_mintOnline := mintOk, fw_balance := bal, fw_status := WReady\<rparr>)"

definition front_wallet_unmount :: "'w front_wallet \<Rightarrow> 'w front_wallet" where
  "front_wallet_unmount ctx = ctx\<lparr>fw_manager := None\<rparr>"

section \<open>Topping up\<close>

definition topUp_request :: "'w front_wallet \<Rightarrow> js_error option \<times> 'w front_wallet" where
  "topUp_request ctx =
     (case fw_manager ctx of
        None \<Rightarrow> (Some (JsError ''Wallet not initialized''), ctx)
      | Some _ \<Rightarrow> (None, ctx\<lparr>fw_topUpState := TRequesting, fw_topUpError := None\<rparr>))"

definition topUp_answer ::
  "(js_error \<Rightarrow> string) \<Rightarrow> (string \<times> string) option \<Rightarrow> 'w front_wallet \<Rightarrow> (js_error + string \<times> string) \<times> 'w front_wallet" where
  "topUp_answer show_error pending ctx =
     (case pending of
        Some (request, opId) \<Rightarrow> (Inr (request, opId), ctx\<lparr>fw_topUpState := TWaiting\<rparr>)
      | None \<Rightarrow> (Inl LibError, ctx\<lparr>fw_topUpState := TError, fw_topUpError := Some (show_error LibError)\<rparr>))"

text \<open>The whole call, with nothing happening in between.\<close>

definition front_topUp ::
  "'w wallet_lib \<Rightarrow> (js_error \<Rightarrow> string) \<Rightarrow> int \<Rightarrow> 'w front_wallet \<Rightarrow> (js_error + string \<times> string) \<times> 'w front_wallet" where
  "front_topUp W show_error amount ctx =
     (case topUp_request ctx of
        (Some e, ctx1) \<Rightarrow> (Inl e, ctx1)
      | (None, ctx1) \<Rightarrow>
          let (pending, mgr) = wl_mint_prepare W MINT_URL amount (the (fw_manager ctx1))
          in topUp_answer show_error pending (ctx1\<lparr>fw_manager := Some mgr\<rparr>))"

text \<open>The events of the manager; \<open>mgr\<close> is the state it has by then. The operation of a change of quote
  may have a state and an error text.\<close>

record mint_operation =
  mo_state :: "string option"
  mo_error :: "string option"

definition on_proofs :: "'w wallet_lib \<Rightarrow> 'w \<Rightarrow> 'w front_wallet \<Rightarrow> 'w front_wallet" where
  "on_proofs W mgr ctx = front_refreshBalance W (ctx\<lparr>fw_manager := Some mgr\<rparr>)"

definition on_finalized :: "'w wallet_lib \<Rightarrow> 'w \<Rightarrow> 'w front_wallet \<Rightarrow> 'w front_wallet" where
  "on_finalized W mgr ctx = front_refreshBalance W (ctx\<lparr>fw_manager := Some mgr, fw_topUpState := TDone\<rparr>)"

definition on_quote_changed :: "mint_operation \<Rightarrow> 'w front_wallet \<Rightarrow> 'w front_wallet" where
  "on_quote_changed op ctx =
     (if mo_state op = Some ''failed'' then
        ctx\<lparr>fw_topUpState := TError, fw_topUpError := Some (nullish (mo_error op) ''Mint operation failed'')\<rparr>
      else if mo_state op = Some ''executing'' then ctx\<lparr>fw_topUpState := TMinting\<rparr>
      else ctx)"

section \<open>Runs of a mounted wallet\<close>

text \<open>What \<open>init\<close> waits for: the manager, the balances, or nothing any more. The listeners and \<open>topUp\<close> work
  as soon as there is a manager.\<close>

datatype init_wait = AwaitManager | AwaitBalances bool | InitOver

inductive front_wallet_run ::
  "nostr_lib \<Rightarrow> 'w wallet_lib \<Rightarrow> (js_error \<Rightarrow> string) \<Rightarrow> init_wait \<Rightarrow> 'w front_wallet \<Rightarrow> bool"
  for L W show_error where
  fwr_begin: "front_wallet_begin L drawn show_error (front_wallet_start store) = (Inr (), ctx) \<Longrightarrow>
    front_wallet_run L W show_error AwaitManager ctx"
| fwr_no_identity: "front_wallet_begin L drawn show_error (front_wallet_start store) = (Inl e, ctx) \<Longrightarrow>
    front_wallet_run L W show_error InitOver ctx"
| fwr_opened: "front_wallet_run L W show_error AwaitManager ctx \<Longrightarrow>
    front_wallet_opened W show_error opened False ctx = (Some mintOk, ctx') \<Longrightarrow>
    front_wallet_run L W show_error (AwaitBalances mintOk) ctx'"
| fwr_not_opened: "front_wallet_run L W show_error AwaitManager ctx \<Longrightarrow>
    front_wallet_opened W show_error opened False ctx = (None, ctx') \<Longrightarrow>
    front_wallet_run L W show_error InitOver ctx'"
| fwr_ready: "front_wallet_run L W show_error (AwaitBalances mintOk) ctx \<Longrightarrow>
    front_wallet_run L W show_error InitOver (front_wallet_ready balances mintOk ctx)"
| fwr_request: "front_wallet_run L W show_error i ctx \<Longrightarrow> front_wallet_run L W show_error i (snd (topUp_request ctx))"
| fwr_answer: "front_wallet_run L W show_error i ctx \<Longrightarrow> fw_manager ctx = Some m \<Longrightarrow>
    wl_mint_prepare W MINT_URL amount m = (pending, m') \<Longrightarrow>
    front_wallet_run L W show_error i (snd (topUp_answer show_error pending (ctx\<lparr>fw_manager := Some m'\<rparr>)))"
| fwr_proofs: "front_wallet_run L W show_error i ctx \<Longrightarrow> fw_manager ctx \<noteq> None \<Longrightarrow>
    front_wallet_run L W show_error i (on_proofs W mgr ctx)"
| fwr_finalized: "front_wallet_run L W show_error i ctx \<Longrightarrow> fw_manager ctx \<noteq> None \<Longrightarrow>
    front_wallet_run L W show_error i (on_finalized W mgr ctx)"
| fwr_quote: "front_wallet_run L W show_error i ctx \<Longrightarrow> fw_manager ctx \<noteq> None \<Longrightarrow>
    front_wallet_run L W show_error i (on_quote_changed op ctx)"

section \<open>Lemmas\<close>

text \<open>What holds while \<open>init\<close> waits for the manager, for the balances, and afterwards.\<close>

fun front_wallet_ok :: "init_wait \<Rightarrow> 'w front_wallet \<Rightarrow> bool" where
  "front_wallet_ok AwaitManager ctx \<longleftrightarrow> fw_status ctx = WLoading \<and> fw_manager ctx = None \<and> fw_error ctx = None"
| "front_wallet_ok (AwaitBalances mintOk) ctx \<longleftrightarrow> fw_status ctx = WLoading \<and> fw_manager ctx \<noteq> None \<and> fw_error ctx = None"
| "front_wallet_ok InitOver ctx \<longleftrightarrow>
     fw_status ctx = WReady \<and> fw_manager ctx \<noteq> None \<and> fw_error ctx = None \<or>
     fw_status ctx = WError \<and> fw_manager ctx = None \<and> fw_error ctx \<noteq> None \<and> \<not> fw_mintOnline ctx"

definition top_up_ok :: "'w front_wallet \<Rightarrow> bool" where
  "top_up_ok ctx \<longleftrightarrow> (fw_manager ctx = None \<longrightarrow> fw_topUpState ctx = TIdle) \<and>
     (fw_topUpState ctx = TError \<longrightarrow> fw_topUpError ctx \<noteq> None)"

text \<open>An operation that leaves the status, the error and the presence of a manager alone keeps the first.\<close>

lemma front_wallet_ok_cong:
  assumes "fw_status ctx' = fw_status ctx" "fw_error ctx' = fw_error ctx" "fw_mintOnline ctx' = fw_mintOnline ctx"
    and "fw_manager ctx' = None \<longleftrightarrow> fw_manager ctx = None"
  shows "front_wallet_ok i ctx' = front_wallet_ok i ctx"
  using assms by (cases i) simp_all

lemma front_createWalletManager_eq: "front_createWalletManager W opened = createWalletManager W opened"
  by (cases opened) (auto simp: front_createWalletManager_def createWalletManager_def split: prod.split bool.split)

lemma front_refreshBalance_same [simp]:
  "fw_status (front_refreshBalance W ctx) = fw_status ctx" "fw_error (front_refreshBalance W ctx) = fw_error ctx"
  "fw_mintOnline (front_refreshBalance W ctx) = fw_mintOnline ctx" "fw_manager (front_refreshBalance W ctx) = fw_manager ctx"
  "fw_topUpState (front_refreshBalance W ctx) = fw_topUpState ctx" "fw_topUpError (front_refreshBalance W ctx) = fw_topUpError ctx"
  by (simp_all add: front_refreshBalance_def split: option.split)

lemma front_wallet_run_kept:
  assumes "front_wallet_run L W show_error i ctx"
  shows "front_wallet_ok i ctx \<and> top_up_ok ctx"
  using assms
proof induction
  case (fwr_request i ctx)
  then have "front_wallet_ok i (snd (topUp_request ctx))"
    by (subst front_wallet_ok_cong [of _ ctx]) (auto simp: topUp_request_def split: option.split)
  with fwr_request show ?case by (auto simp: topUp_request_def top_up_ok_def split: option.split)
next
  case (fwr_answer i ctx m amount pending m')
  then have "front_wallet_ok i (snd (topUp_answer show_error pending (ctx\<lparr>fw_manager := Some m'\<rparr>)))"
    by (subst front_wallet_ok_cong [of _ ctx]) (auto simp: topUp_answer_def split: option.split)
  then show ?case by (auto simp: topUp_answer_def top_up_ok_def split: option.split)
next
  case (fwr_proofs i ctx mgr)
  then have "front_wallet_ok i (on_proofs W mgr ctx)"
    by (subst front_wallet_ok_cong [of _ ctx]) (auto simp: on_proofs_def)
  with fwr_proofs show ?case by (auto simp: on_proofs_def top_up_ok_def)
next
  case (fwr_finalized i ctx mgr)
  then have "front_wallet_ok i (on_finalized W mgr ctx)"
    by (subst front_wallet_ok_cong [of _ ctx]) (auto simp: on_finalized_def)
  with fwr_finalized show ?case by (auto simp: on_finalized_def top_up_ok_def)
next
  case (fwr_quote i ctx op)
  then have "front_wallet_ok i (on_quote_changed op ctx)"
    by (subst front_wallet_ok_cong [of _ ctx]) (auto simp: on_quote_changed_def)
  with fwr_quote show ?case by (auto simp: on_quote_changed_def top_up_ok_def)
qed (auto simp: front_wallet_begin_def front_wallet_opened_def front_wallet_ready_def front_wallet_fail_def
    front_wallet_start_def top_up_ok_def Let_def split: prod.splits sum.splits if_splits)

section \<open>Properties\<close>

text \<open>
  C34. The wallet of a mounted page is loading, ready or in error. Ready, it has a manager; in error, it has
  none and the mint counts as offline; loading, it may have one already or not. It shows an error text
  exactly in error. Without a manager no top-up has begun, and a top-up in error always has a text.
\<close>

theorem front_wallet_invariant:
  assumes "front_wallet_run L W show_error i ctx"
  shows "fw_status ctx \<in> {WLoading, WReady, WError} \<and>
    (if fw_status ctx = WReady then fw_manager ctx \<noteq> None else True) \<and>
    (if fw_status ctx = WError then fw_manager ctx = None \<and> \<not> fw_mintOnline ctx else True) \<and>
    (fw_status ctx = WLoading \<longleftrightarrow> i \<noteq> InitOver) \<and> (fw_status ctx = WError \<longleftrightarrow> fw_error ctx \<noteq> None) \<and>
    (if fw_manager ctx = None then fw_topUpState ctx = TIdle else True) \<and>
    (if fw_topUpState ctx = TError then fw_topUpError ctx \<noteq> None else True)"
  using front_wallet_run_kept [OF assms] by (cases i) (auto simp: top_up_ok_def)

text \<open>A wallet that is started with a new identity and whose manager opens: while it waits for the balances it is
  loading with a manager, and a top-up can be asked for.\<close>

lemma sample_begun:
  "\<exists>ctx. front_wallet_begin codec_lib [7] (\<lambda>_. ''error'') (front_wallet_start None) = (Inr (), ctx) \<and> fw_manager ctx = None"
  by (simp add: front_wallet_begin_def front_wallet_start_def getOrCreateIdentity_def store_identity_def codec_lib_def Let_def)

lemma sample_opened:
  "\<exists>ctx' mintOk. front_wallet_opened counting_wallet (\<lambda>_. ''error'') (Inr 3) False ctx = (Some mintOk, ctx') \<and>
     fw_manager ctx' \<noteq> None \<and> fw_status ctx' = fw_status ctx"
  by (auto simp: front_wallet_opened_def front_createWalletManager_def counting_wallet_def)

lemma sample_wallet_loading:
  "\<exists>i ctx. front_wallet_run codec_lib counting_wallet (\<lambda>_. ''error'') i ctx \<and> fw_manager ctx \<noteq> None \<and> i \<noteq> InitOver"
  using sample_begun sample_opened fwr_begin fwr_opened by (metis init_wait.distinct(5))

theorem front_wallet_invariant_witness:
  "\<exists>ctx :: int front_wallet. fw_manager ctx \<noteq> None \<and> fw_status (snd (topUp_request ctx)) = WLoading \<and>
     fw_error (snd (topUp_request ctx)) = None"
proof -
  from sample_wallet_loading obtain i ctx
    where r: "front_wallet_run codec_lib counting_wallet (\<lambda>_. ''error'') i ctx" and m: "fw_manager ctx \<noteq> None" "i \<noteq> InitOver" by blast
  from front_wallet_invariant [OF fwr_request [OF r]] m show ?thesis by (metis WalletStatus.distinct(9))
qed

text \<open>
  The progress shown is not that of the top-up asked for: an operation left from an earlier visit that
  the mint finalizes shows a top-up as done though none was requested, and one that follows a failure
  keeps the failure's text.
\<close>

theorem top_up_progress_foreign:
  assumes "front_wallet_run L W show_error i ctx" "fw_manager ctx \<noteq> None"
  shows "front_wallet_run L W show_error i (on_finalized W mgr ctx) \<and> fw_topUpState (on_finalized W mgr ctx) = TDone \<and>
    front_wallet_run L W show_error i (on_finalized W mgr (on_quote_changed \<lparr>mo_state = Some ''failed'', mo_error = None\<rparr> ctx)) \<and>
    fw_topUpState (on_finalized W mgr (on_quote_changed \<lparr>mo_state = Some ''failed'', mo_error = None\<rparr> ctx)) = TDone \<and>
    fw_topUpError (on_finalized W mgr (on_quote_changed \<lparr>mo_state = Some ''failed'', mo_error = None\<rparr> ctx)) =
      Some ''Mint operation failed''"
proof -
  have r: "front_wallet_run L W show_error i (on_quote_changed \<lparr>mo_state = Some ''failed'', mo_error = None\<rparr> ctx)"
    using assms by (rule fwr_quote)
  have m: "fw_manager (on_quote_changed \<lparr>mo_state = Some ''failed'', mo_error = None\<rparr> ctx) \<noteq> None"
    using assms(2) by (simp add: on_quote_changed_def)
  show ?thesis
    using fwr_finalized [OF assms, of mgr] fwr_finalized [OF r m, of mgr]
    by (simp add: on_finalized_def on_quote_changed_def)
qed

theorem top_up_progress_foreign_witness:
  "\<exists>ctx. fw_topUpState (on_finalized counting_wallet 8 ctx) = TDone \<and> fw_manager ctx \<noteq> None"
proof -
  from sample_wallet_loading obtain i ctx
    where r: "front_wallet_run codec_lib counting_wallet (\<lambda>_. ''error'') i ctx" and m: "fw_manager ctx \<noteq> None" by blast
  from top_up_progress_foreign [OF r m, of 8] m show ?thesis by blast
qed

text \<open>
  Without a manager a top-up fails at once and nothing changes; with one, the call ends waiting with
  the invoice the mint gave, or in error with a text.
\<close>

theorem front_topUp_outcome:
  "(fw_manager ctx = None \<longrightarrow> front_topUp W show_error amount ctx = (Inl (JsError ''Wallet not initialized''), ctx)) \<and>
   (\<forall>mgr. fw_manager ctx = Some mgr \<longrightarrow>
      (case fst (wl_mint_prepare W MINT_URL amount mgr) of
         Some invoice \<Rightarrow> fst (front_topUp W show_error amount ctx) = Inr invoice \<and>
           fw_topUpState (snd (front_topUp W show_error amount ctx)) = TWaiting \<and>
           fw_topUpError (snd (front_topUp W show_error amount ctx)) = None
       | None \<Rightarrow> fst (front_topUp W show_error amount ctx) = Inl LibError \<and>
           fw_topUpState (snd (front_topUp W show_error amount ctx)) = TError \<and>
           fw_topUpError (snd (front_topUp W show_error amount ctx)) \<noteq> None))"
  by (auto simp: front_topUp_def topUp_request_def topUp_answer_def split_beta split: option.split)

theorem front_topUp_outcome_witness:
  "front_topUp counting_wallet (\<lambda>_. []) 21 (front_wallet_start None) =
     (Inl (JsError ''Wallet not initialized''), front_wallet_start None)"
  using front_topUp_outcome [of "front_wallet_start None" counting_wallet "\<lambda>_. []" 21] by (simp add: front_wallet_start_def)

end
