(* ===== verification/Front_Tls.thy ===== *)
theory Front_Tls
  imports Sdk_Nostr
begin

text \<open>
  \<open>nodns-frontend/src/lib/tls-derivation.ts\<close> and \<open>csr-generator.ts\<close>: the TLS key derived from a secret
  key and a subdomain, and the texts made of it. HMAC, the curve and the browser's key store are
  parameters. A text's characters have codes below 256, so each is one or two bytes of UTF-8.
\<close>

section \<open>Bytes and texts\<close>

text \<open>\<open>new TextEncoder().encode(s)\<close>.\<close>

definition utf8_char :: "char \<Rightarrow> bytes" where
  "utf8_char c =
     (if code_of c < 128 then [of_nat (code_of c)]
      else [of_nat (192 + code_of c div 64), of_nat (128 + code_of c mod 64)])"

definition utf8 :: "string \<Rightarrow> bytes" where
  "utf8 s = concat (map utf8_char s)"

text \<open>\<open>btoa\<close>: four characters for three bytes, the last group filled up with \<open>=\<close>.\<close>

definition b64_alphabet :: string where
  "b64_alphabet = ''ABCDEFGHIJKLMNOPQRSTUVWXYZabcdefghijklmnopqrstuvwxyz0123456789+/''"

definition b64_char :: "nat \<Rightarrow> char" where
  "b64_char n = b64_alphabet ! (n mod 64)"

fun bytesToBase64 :: "bytes \<Rightarrow> string" where
  "bytesToBase64 [] = []"
| "bytesToBase64 [a] = (let n = unat a * 16 in [b64_char (n div 64), b64_char n, CHR ''='', CHR ''=''])"
| "bytesToBase64 [a, b] =
     (let n = (unat a * 256 + unat b) * 4
      in [b64_char (n div 4096), b64_char (n div 64), b64_char n, CHR ''=''])"
| "bytesToBase64 (a # b # c # bs) =
     (let n = unat a * 65536 + unat b * 256 + unat c
      in [b64_char (n div 262144), b64_char (n div 4096), b64_char (n div 64), b64_char n] @ bytesToBase64 bs)"

text \<open>\<open>s.match(/.{1,64}/g) || []\<close> on a text without line breaks.\<close>

fun chunks64 :: "string \<Rightarrow> string list" where
  "chunks64 [] = []"
| "chunks64 (c # s) = take 64 (c # s) # chunks64 (drop 63 s)"

definition nl :: char where "nl = CHR 0x0A"

definition arrayBufferToPem :: "bytes \<Rightarrow> string \<Rightarrow> string" where
  "arrayBufferToPem buffer label =
     (let lines = chunks64 (bytesToBase64 buffer)
      in ''-----BEGIN '' @ label @ ''-----'' @ [nl] @ join [nl] lines @ [nl] @ ''-----END '' @ label @ ''-----'')"

section \<open>Keys\<close>

definition tls_data :: "bytes \<Rightarrow> string \<Rightarrow> bytes" where
  "tls_data nsecBytes subdomain = nsecBytes @ [0] @ utf8 subdomain"

definition deriveTlsKeyBytes :: "(bytes \<Rightarrow> bytes \<Rightarrow> bytes) \<Rightarrow> bytes \<Rightarrow> string \<Rightarrow> js_error + bytes" where
  "deriveTlsKeyBytes hmac512 nsecBytes subdomain =
     (if length nsecBytes \<noteq> 32 then Inl (JsError ''nsec must be exactly 32 bytes'')
      else Inr (take 32 (hmac512 (utf8 ''nodns-tls-v1'') (tls_data nsecBytes subdomain))))"

record jwk =
  jw_kty :: string
  jw_crv :: string
  jw_d :: "string option"
  jw_x :: string
  jw_y :: string

text \<open>The curve and the browser's key store: the public point of a key, the import of a JWK for a use,
  the export of a private key.\<close>

record 'k crypto_lib =
  cy_getPublicKey :: "bytes \<Rightarrow> bytes option"
  cy_importKey :: "jwk \<Rightarrow> string \<Rightarrow> 'k option"
  cy_exportPkcs8 :: "'k \<Rightarrow> bytes option"

record 'k tls_key =
  tk_privateKey :: 'k
  tk_publicKey :: 'k
  tk_privateKeyPem :: string

definition tls_jwk :: "bytes option \<Rightarrow> bytes \<Rightarrow> jwk" where
  "tls_jwk keyBytes pubPoint =
     \<lparr>jw_kty = ''EC'', jw_crv = ''P-256'', jw_d = map_option bytesToBase64 keyBytes,
      jw_x = bytesToBase64 (take 32 (drop 1 pubPoint)), jw_y = bytesToBase64 (take 32 (drop 33 pubPoint))\<rparr>"

definition generateTlsKeyPair ::
  "(bytes \<Rightarrow> bytes \<Rightarrow> bytes) \<Rightarrow> 'k crypto_lib \<Rightarrow> bytes \<Rightarrow> string \<Rightarrow> js_error + 'k tls_key" where
  "generateTlsKeyPair hmac512 K nsecBytes subdomain =
     try_bind (deriveTlsKeyBytes hmac512 nsecBytes subdomain) (\<lambda>keyBytes.
     try_bind (lib_call (cy_getPublicKey K keyBytes)) (\<lambda>pubPoint.
     try_bind (lib_call (cy_importKey K (tls_jwk (Some keyBytes) pubPoint) ''sign'')) (\<lambda>privateKey.
     try_bind (lib_call (cy_importKey K (tls_jwk None pubPoint) ''verify'')) (\<lambda>publicKey.
     try_bind (lib_call (cy_exportPkcs8 K privateKey)) (\<lambda>der.
       Inr \<lparr>tk_privateKey = privateKey, tk_publicKey = publicKey,
         tk_privateKeyPem = arrayBufferToPem der ''PRIVATE KEY''\<rparr>)))))"

record CsrResult =
  cs_csrDerBase64 :: string
  cs_csrPem :: string

text \<open>\<open>create\<close> makes the request of a name and an alternative name: its PEM text and its DER bytes.\<close>

definition generateCsr ::
  "('k tls_key \<Rightarrow> string \<Rightarrow> string \<Rightarrow> (string \<times> bytes) option) \<Rightarrow> 'k tls_key \<Rightarrow> string \<Rightarrow> js_error + CsrResult" where
  "generateCsr create keyPair domain =
     try_bind (lib_call (create keyPair (''CN='' @ domain) domain)) (\<lambda>(pem, rawData).
       Inr \<lparr>cs_csrDerBase64 = bytesToBase64 rawData, cs_csrPem = pem\<rparr>)"

section \<open>Lemmas\<close>

text \<open>A reader of base 64 texts.\<close>

definition b64_val :: "char \<Rightarrow> nat option" where
  "b64_val c = map_of (zip b64_alphabet [0 ..< 64]) c"

fun base64_read :: "string \<Rightarrow> bytes option" where
  "base64_read [] = Some []"
| "base64_read (p # q # r # s # t) =
     (case (b64_val p, b64_val q) of
        (Some i, Some j) \<Rightarrow>
          if r = CHR ''='' then Some [of_nat ((i * 64 + j) div 16)]
          else (case b64_val r of
              None \<Rightarrow> None
            | Some k \<Rightarrow>
                if s = CHR ''='' then
                  (let n = ((i * 64 + j) * 64 + k) div 4 in Some [of_nat (n div 256), of_nat (n mod 256)])
                else (case b64_val s of
                    None \<Rightarrow> None
                  | Some l \<Rightarrow>
                      let n = ((i * 64 + j) * 64 + k) * 64 + l
                      in map_option (\<lambda>bs. of_nat (n div 65536) # of_nat (n div 256 mod 256) # of_nat (n mod 256) # bs)
                        (base64_read t)))
      | _ \<Rightarrow> None)"
| "base64_read _ = None"

lemma b64_val_char [simp]: "b64_val (b64_char n) = Some (n mod 64)"
proof -
  have "list_all (\<lambda>n. b64_val (b64_alphabet ! n) = Some n) [0 ..< 64]" by code_simp
  then show ?thesis by (simp add: b64_char_def list_all_iff)
qed

lemma b64_char_not_pad [simp]: "b64_char n \<noteq> CHR ''=''"
proof -
  have "list_all (\<lambda>n. b64_alphabet ! n \<noteq> CHR ''='') [0 ..< 64]" by code_simp
  then show ?thesis by (simp add: b64_char_def list_all_iff)
qed

lemma byte_bound: "unat (a :: 8 word) < 256"
  using unsigned_less [of a, where ?'a = nat] by simp

lemma split64:
  fixes a b c :: nat
  assumes "b < 256" "c < 256"
  shows "(a * 65536 + b * 256 + c) div 65536 = a \<and> (a * 65536 + b * 256 + c) div 256 mod 256 = b \<and>
    (a * 65536 + b * 256 + c) mod 256 = c"
proof -
  have "(a * 65536 + b * 256 + c) div 65536 = a" using assms by (simp add: div_eq_0_iff)
  moreover have "a * 65536 + b * 256 + c = c + (a * 256 + b) * 256" by simp
  moreover have "(c + k * 256) div 256 = k" "(c + k * 256) mod 256 = c" for k using assms by simp_all
  ultimately show ?thesis using assms by (metis mod_mult_self3 add.commute mod_less)
qed

lemma digits64:
  fixes n :: nat
  shows "n < 4096 \<Longrightarrow> n div 64 mod 64 * 64 + n mod 64 = n"
    and "n < 262144 \<Longrightarrow> (n div 4096 mod 64 * 64 + n div 64 mod 64) * 64 + n mod 64 = n"
    and "n < 16777216 \<Longrightarrow> ((n div 262144 mod 64 * 64 + n div 4096 mod 64) * 64 + n div 64 mod 64) * 64 + n mod 64 = n"
proof -
  have d: "n div 262144 = n div 4096 div 64" "n div 4096 = n div 64 div 64" by (simp_all add: div_mult2_eq [symmetric])
  have m: "m div 64 * 64 + m mod 64 = m" for m :: nat by simp
  show "n < 4096 \<Longrightarrow> n div 64 mod 64 * 64 + n mod 64 = n" by simp
  show "(n div 4096 mod 64 * 64 + n div 64 mod 64) * 64 + n mod 64 = n" if "n < 262144"
  proof -
    have "n div 4096 mod 64 = n div 64 div 64" using that d by simp
    then show ?thesis using m [of "n div 64"] m [of n] by simp
  qed
  show "((n div 262144 mod 64 * 64 + n div 4096 mod 64) * 64 + n div 64 mod 64) * 64 + n mod 64 = n" if "n < 16777216"
  proof -
    have "n div 262144 mod 64 = n div 4096 div 64" using that d(1) by simp
    then show ?thesis using m [of "n div 4096"] m [of "n div 64"] m [of n] d(2) by simp
  qed
qed

lemma base64_read_groups:
  "base64_read [b64_char i, b64_char j, CHR ''='', CHR ''=''] = Some [of_nat ((i mod 64 * 64 + j mod 64) div 16)]"
  "base64_read [b64_char i, b64_char j, b64_char k, CHR ''=''] =
     (let n = ((i mod 64 * 64 + j mod 64) * 64 + k mod 64) div 4 in Some [of_nat (n div 256), of_nat (n mod 256)])"
  "base64_read (b64_char i # b64_char j # b64_char k # b64_char l # t) =
     (let n = ((i mod 64 * 64 + j mod 64) * 64 + k mod 64) * 64 + l mod 64
      in map_option (\<lambda>bs. of_nat (n div 65536) # of_nat (n div 256 mod 256) # of_nat (n mod 256) # bs) (base64_read t))"
  by simp_all

lemma base64_read_bytesToBase64: "base64_read (bytesToBase64 bs) = Some bs"
proof (induction bs rule: bytesToBase64.induct)
  case (2 a)
  have "unat a * 16 < 4096" using byte_bound [of a] by simp
  note d = digits64(1) [OF this]
  have "unat a * 16 div 16 = unat a" by simp
  then show ?case unfolding bytesToBase64.simps Let_def base64_read_groups(1) d by simp
next
  case (3 a b)
  have "(unat a * 256 + unat b) * 4 < 262144" using byte_bound [of a] byte_bound [of b] by simp
  note d = digits64(2) [OF this]
  have "(unat a * 256 + unat b) * 4 div 4 = unat a * 256 + unat b" by simp
  then show ?case
    unfolding bytesToBase64.simps Let_def base64_read_groups(2) d using byte_bound [of b] by simp
next
  case (4 a b c bs)
  have "unat a * 65536 + unat b * 256 + unat c < 16777216"
    using byte_bound [of a] byte_bound [of b] byte_bound [of c] by simp
  note d = digits64(3) [OF this]
  note s = split64 [of "unat b" "unat c" "unat a", OF byte_bound byte_bound]
  have "base64_read (bytesToBase64 (a # b # c # bs)) =
      map_option (\<lambda>bs. of_nat (unat a) # of_nat (unat b) # of_nat (unat c) # bs) (base64_read (bytesToBase64 bs))"
    unfolding bytesToBase64.simps Let_def append.simps base64_read_groups(3) d
    unfolding conjunct1 [OF s] conjunct1 [OF conjunct2 [OF s]] conjunct2 [OF conjunct2 [OF s]] ..
  with 4 show ?case by simp
qed simp

lemma length_bytesToBase64: "length (bytesToBase64 bs) = 4 * ((length bs + 2) div 3)"
proof (induction bs rule: bytesToBase64.induct)
  case (4 a b c bs)
  have "(length (a # b # c # bs) + 2) div 3 = Suc ((length bs + 2) div 3)" by simp
  with 4 show ?case by (simp only: bytesToBase64.simps Let_def) simp
qed (simp_all add: Let_def)

lemma last_bytesToBase64: "length bs mod 3 \<noteq> 0 \<Longrightarrow> last (bytesToBase64 bs) = CHR ''=''"
proof (induction bs rule: bytesToBase64.induct)
  case (4 a b c bs)
  have "length (a # b # c # bs) mod 3 = length bs mod 3" by simp
  with 4 have l: "length bs mod 3 \<noteq> 0" by argo
  then have "bs \<noteq> []" by auto
  then have "bytesToBase64 bs \<noteq> []" using length_bytesToBase64 [of bs] by (cases bs) auto
  with 4 l show ?case by (simp add: Let_def)
qed (simp_all add: Let_def)

lemma concat_chunks64: "concat (chunks64 s) = s"
  by (induction s rule: chunks64.induct) (simp_all add: append_take_drop_id take_Cons')

lemma chunks64_length: "l \<in> set (chunks64 s) \<Longrightarrow> l \<noteq> [] \<and> length l \<le> 64"
  by (induction s rule: chunks64.induct) auto

text \<open>The bytes of a text determine it.\<close>

lemma utf8_char_first:
  "utf8_char c @ s = utf8_char d @ t \<Longrightarrow> c = d \<and> s = t"
proof -
  assume e: "utf8_char c @ s = utf8_char d @ t"
  have b: "code_of c < 256" for c by (simp add: code_of_def)
  have w: "unat (of_nat n :: 8 word) = n" if "n < 256" for n using that by (simp add: unat_of_nat)
  have hi: "192 + code_of c div 64 < 256" for c using b [of c] by simp
  have eq: "of_nat m = (of_nat n :: 8 word) \<longleftrightarrow> m = n" if "m < 256" "n < 256" for m n
    using w [OF that(1)] w [OF that(2)] by metis
  show ?thesis
  proof (cases "code_of c < 128"; cases "code_of d < 128")
    assume "code_of c < 128" "code_of d < 128"
    with e show ?thesis using eq [of "code_of c" "code_of d"] b by (simp add: utf8_char_def code_of_eq_iff)
  next
    assume c: "code_of c < 128" "\<not> code_of d < 128"
    with e have "code_of c = 192 + code_of d div 64" using eq [of "code_of c" "192 + code_of d div 64"] b [of c] hi [of d]
      by (simp add: utf8_char_def del: of_nat_add)
    with c show ?thesis by simp
  next
    assume c: "\<not> code_of c < 128" "code_of d < 128"
    with e have "192 + code_of c div 64 = code_of d" using eq [of "192 + code_of c div 64" "code_of d"] b [of d] hi [of c]
      by (simp add: utf8_char_def del: of_nat_add)
    with c show ?thesis by simp
  next
    assume c: "\<not> code_of c < 128" "\<not> code_of d < 128"
    with e have "code_of c div 64 = code_of d div 64" "code_of c mod 64 = code_of d mod 64" "s = t"
      using eq [of "192 + code_of c div 64" "192 + code_of d div 64"] hi [of c] hi [of d]
        eq [of "128 + code_of c mod 64" "128 + code_of d mod 64"]
      by (simp_all add: utf8_char_def del: of_nat_add)
    then have "code_of c = code_of d" by (metis div_mult_mod_eq)
    with \<open>s = t\<close> show ?thesis by (simp add: code_of_eq_iff)
  qed
qed

lemma utf8_inj: "utf8 s = utf8 t \<Longrightarrow> s = t"
proof (induction s arbitrary: t)
  case Nil
  then show ?case by (cases t) (auto simp: utf8_def utf8_char_def split: if_splits)
next
  case (Cons c s)
  then obtain d t' where t: "t = d # t'" by (cases t) (auto simp: utf8_def utf8_char_def split: if_splits)
  with Cons.prems have "utf8_char c @ utf8 s = utf8_char d @ utf8 t'" by (simp add: utf8_def)
  from utf8_char_first [OF this] Cons.IH [of t'] t show ?case by simp
qed

section \<open>Properties\<close>

text \<open>
  The text that the front end makes of bytes can be read back, its PEM lines hold at most 64
  characters and joined they are the text.
\<close>

theorem bytesToBase64_round_trip:
  "base64_read (bytesToBase64 bs) = Some bs \<and> concat (chunks64 (bytesToBase64 bs)) = bytesToBase64 bs \<and>
   list_all (\<lambda>l. l \<noteq> [] \<and> length l \<le> 64) (chunks64 (bytesToBase64 bs))"
  using base64_read_bytesToBase64 concat_chunks64 chunks64_length by (auto simp: list_all_iff)

text \<open>
  The members of the key handed to the browser are plain base 64 and not the base 64 for addresses that
  a JWK prescribes: of a 32 byte key the text always has 44 characters and ends in a padding character.
\<close>

theorem tls_jwk_padded:
  assumes "length keyBytes = 32"
  shows "\<exists>d. jw_d (tls_jwk (Some keyBytes) pubPoint) = Some d \<and> length d = 44 \<and> last d = CHR ''=''"
  using assms length_bytesToBase64 [of keyBytes] last_bytesToBase64 [of keyBytes] by (simp add: tls_jwk_def)

theorem tls_jwk_padded_witness:
  "\<exists>d. jw_d (tls_jwk (Some (replicate 32 7)) (replicate 65 4)) = Some d \<and> length d = 44 \<and> last d = CHR ''=''"
  by (rule tls_jwk_padded) simp

text \<open>
  Different secret keys or subdomains never give the same input to the derivation; a key of another
  length than 32 bytes is refused, and the derived key has at most 32 bytes.
\<close>

theorem tls_data_injective:
  assumes "length sk = 32" "length sk' = 32"
  shows "(tls_data sk sub = tls_data sk' sub' \<longleftrightarrow> sk = sk' \<and> sub = sub') \<and>
    (\<exists>k. deriveTlsKeyBytes h sk sub = Inr k \<and> length k \<le> 32) \<and>
    (length other \<noteq> 32 \<longrightarrow> (\<exists>e. deriveTlsKeyBytes h other sub = Inl e))"
  using assms utf8_inj by (auto simp: tls_data_def deriveTlsKeyBytes_def)

theorem tls_data_injective_witness:
  "tls_data (replicate 32 7) ''a'' \<noteq> tls_data (replicate 32 7) ''b''"
  using tls_data_injective [of "replicate 32 7" "replicate 32 7" "''a''" "''b''"] by simp

end
