(* ===== verification/Front_Bytes.thy ===== *)
theory Front_Bytes
  imports Front_Tls
begin

text \<open>
  Texts made of bytes and back, as \<open>cert-display.tsx\<close> and \<open>dual-lookup-demo.tsx\<close> of \<open>nodns-frontend/src/components\<close>
  use them: \<open>atob\<close>, base 64 for addresses, PEM texts and \<open>TextDecoder\<close>.
\<close>

section \<open>Base 64\<close>

text \<open>\<open>atob\<close>: white space is dropped, so is padding when the length is a multiple of four; the rest must be of the
  alphabet and not leave a single character. A text it refuses is \<^const>\<open>None\<close>.\<close>

fun b64_groups :: "string \<Rightarrow> bytes option" where
  "b64_groups [] = Some []"
| "b64_groups [p] = None"
| "b64_groups [p, q] =
     (case (b64_val p, b64_val q) of
        (Some i, Some j) \<Rightarrow> Some [of_nat ((i * 64 + j) div 16)]
      | _ \<Rightarrow> None)"
| "b64_groups [p, q, r] =
     (case (b64_val p, b64_val q, b64_val r) of
        (Some i, Some j, Some k) \<Rightarrow>
          (let n = ((i * 64 + j) * 64 + k) div 4 in Some [of_nat (n div 256), of_nat (n mod 256)])
      | _ \<Rightarrow> None)"
| "b64_groups (p # q # r # s # t) =
     (case (b64_val p, b64_val q, b64_val r, b64_val s) of
        (Some i, Some j, Some k, Some l) \<Rightarrow>
          (let n = ((i * 64 + j) * 64 + k) * 64 + l
           in map_option (\<lambda>bs. of_nat (n div 65536) # of_nat (n div 256 mod 256) # of_nat (n mod 256) # bs)
             (b64_groups t))
      | _ \<Rightarrow> None)"

definition b64_space :: "char \<Rightarrow> bool" where
  "b64_space c \<longleftrightarrow> c \<in> {CHR 0x09, CHR 0x0A, CHR 0x0C, CHR 0x0D, CHR '' ''}"

definition drop_padding :: "string \<Rightarrow> string" where
  "drop_padding s =
     (if endsWith s ''=='' then take (length s - 2) s
      else if endsWith s ''='' then take (length s - 1) s
      else s)"

definition atob :: "string \<Rightarrow> bytes option" where
  "atob s =
     (let t = filter (\<lambda>c. \<not> b64_space c) s
      in b64_groups (if length t mod 4 = 0 then drop_padding t else t))"

text \<open>\<open>replace(/\+/g, "-").replace(/\//g, "_").replace(/=+$/, "")\<close>.\<close>

definition url_char :: "char \<Rightarrow> char" where
  "url_char c = (if c = CHR ''+'' then CHR ''-'' else if c = CHR ''/'' then CHR ''_'' else c)"

definition to_base64url :: "string \<Rightarrow> string" where
  "to_base64url s = rev (dropWhile (\<lambda>c. c = CHR ''='') (rev (map url_char s)))"

section \<open>Text of bytes\<close>

text \<open>\<open>new TextDecoder().decode(bs)\<close>, for texts of characters with codes below 256. What decodes to any other
  character, and a byte that belongs to none, is written as a question mark for each byte; a byte order
  mark is dropped.\<close>

fun utf8_chars :: "bytes \<Rightarrow> string" where
  "utf8_chars [] = []"
| "utf8_chars (a # bs) =
     (if unat a < 128 then char_of (unat a) # utf8_chars bs
      else (case bs of
          b # cs \<Rightarrow>
            if (unat a = 194 \<or> unat a = 195) \<and> 128 \<le> unat b \<and> unat b < 192
            then char_of ((unat a - 192) * 64 + (unat b - 128)) # utf8_chars cs
            else CHR ''?'' # utf8_chars bs
        | [] \<Rightarrow> ''?''))"

definition utf8_text :: "bytes \<Rightarrow> string" where
  "utf8_text bs = utf8_chars (if take 3 bs = [0xEF, 0xBB, 0xBF] then drop 3 bs else bs)"

section \<open>PEM\<close>

text \<open>\<open>replace(/-----BEGIN [^-]+-----/g, "")\<close>, with \<open>word\<close> for \<open>BEGIN\<close> or \<open>END\<close>: the characters up to the next hyphen are
  the label, of which there must be one, and five hyphens must follow.\<close>

definition pem_marker :: "string \<Rightarrow> string \<Rightarrow> string option" where
  "pem_marker word s =
     (if startsWith s (''-----'' @ word @ '' '') then
        let rest = drop (6 + length word) s; label = takeWhile (\<lambda>c. c \<noteq> CHR ''-'') rest;
            after = dropWhile (\<lambda>c. c \<noteq> CHR ''-'') rest
        in if label \<noteq> [] \<and> startsWith after ''-----'' then Some (drop 5 after) else None
      else None)"

lemma pem_marker_shorter: "pem_marker word s = Some t \<Longrightarrow> length t < length s"
proof -
  assume a: "pem_marker word s = Some t"
  let ?rest = "drop (6 + length word) s"
  from a have t: "t = drop 5 (dropWhile (\<lambda>c. c \<noteq> CHR ''-'') ?rest)" and s: "startsWith s (''-----'' @ word @ '' '')"
    by (auto simp: pem_marker_def Let_def split: if_splits)
  have "length (dropWhile (\<lambda>c. c \<noteq> CHR ''-'') ?rest) \<le> length ?rest" by (rule length_dropWhile_le)
  moreover have "s \<noteq> []" using s by (auto simp: startsWith_def)
  ultimately show ?thesis by (cases s) (auto simp: t)
qed

function remove_markers :: "string \<Rightarrow> string \<Rightarrow> string" where
  "remove_markers word [] = []"
| "remove_markers word (c # s) =
     (case pem_marker word (c # s) of
        Some t \<Rightarrow> remove_markers word t
      | None \<Rightarrow> c # remove_markers word s)"
  by pat_completeness auto

termination
  by (relation "measure (\<lambda>(word, s). length s)") (auto dest: pem_marker_shorter)

definition pemToDer :: "string \<Rightarrow> bytes option" where
  "pemToDer pem = atob (filter (\<lambda>c. \<not> is_space c) (remove_markers ''END'' (remove_markers ''BEGIN'' pem)))"

section \<open>Lemmas\<close>

definition strip_pads :: "string \<Rightarrow> string" where
  "strip_pads s = rev (dropWhile (\<lambda>c. c = CHR ''='') (rev s))"

lemma strip_pads_append: "strip_pads (s @ t) = (if strip_pads t = [] then strip_pads s else s @ strip_pads t)"
  by (auto simp: strip_pads_def dropWhile_append)

lemma strip_pads_self: "s = [] \<or> last s \<noteq> CHR ''='' \<Longrightarrow> strip_pads s = s"
  by (cases s rule: rev_cases) (simp_all add: strip_pads_def)

lemma strip_pads_base64_Cons3:
  "strip_pads (bytesToBase64 (a # b # c # bs)) =
     take 4 (bytesToBase64 (a # b # c # bs)) @ strip_pads (bytesToBase64 bs)"
proof -
  obtain p q r s where b: "bytesToBase64 (a # b # c # bs) = [p, q, r, b64_char s] @ bytesToBase64 bs"
    by (simp add: Let_def)
  have "strip_pads [p, q, r, b64_char s] = [p, q, r, b64_char s]" by (rule strip_pads_self) simp
  then have "strip_pads ([p, q, r, b64_char s] @ bytesToBase64 bs) = [p, q, r, b64_char s] @ strip_pads (bytesToBase64 bs)"
    unfolding strip_pads_append by auto
  then show ?thesis unfolding b by simp
qed

lemma b64_groups_stripped: "b64_groups (strip_pads (bytesToBase64 bs)) = Some bs"
proof (induction bs rule: bytesToBase64.induct)
  case 1
  then show ?case by (simp add: strip_pads_def)
next
  case (2 a)
  have "unat a * 16 < 4096" using byte_bound [of a] by simp
  note d = digits64(1) [OF this]
  have "strip_pads (bytesToBase64 [a]) = [b64_char (unat a * 16 div 64), b64_char (unat a * 16)]"
    by (simp add: strip_pads_def Let_def)
  then show ?case by (simp only: b64_groups.simps b64_val_char option.case prod.case d) simp
next
  case (3 a b)
  let ?n = "(unat a * 256 + unat b) * 4"
  have "?n < 262144" using byte_bound [of a] byte_bound [of b] by simp
  note d = digits64(2) [OF this]
  have "strip_pads (bytesToBase64 [a, b]) = [b64_char (?n div 4096), b64_char (?n div 64), b64_char ?n]"
    by (simp add: strip_pads_def Let_def)
  then show ?case using byte_bound [of b] by (simp only: b64_groups.simps b64_val_char option.case prod.case Let_def d) simp
next
  case (4 a b c bs)
  let ?n = "unat a * 65536 + unat b * 256 + unat c"
  have "?n < 16777216" using byte_bound [of a] byte_bound [of b] byte_bound [of c] by simp
  note d = digits64(3) [OF this]
  note s = split64 [of "unat b" "unat c" "unat a", OF byte_bound byte_bound]
  have "strip_pads (bytesToBase64 (a # b # c # bs)) =
      b64_char (?n div 262144) # b64_char (?n div 4096) # b64_char (?n div 64) # b64_char ?n # strip_pads (bytesToBase64 bs)"
    unfolding strip_pads_base64_Cons3 by (simp add: Let_def)
  then show ?case using 4 s by (simp only: b64_groups.simps b64_val_char option.case prod.case Let_def d) simp
qed

lemma base64_pads:
  obtains ys where "ys = [] \<or> last ys \<noteq> CHR ''=''" "bytesToBase64 bs \<in> {ys, ys @ ''='', ys @ ''==''}"
proof -
  have "\<exists>ys. (ys = [] \<or> last ys \<noteq> CHR ''='') \<and> bytesToBase64 bs \<in> {ys, ys @ ''='', ys @ ''==''}"
  proof (induction bs rule: bytesToBase64.induct)
    case 1
    then show ?case by auto
  next
    case (2 a)
    then show ?case
      by (intro exI [of _ "[b64_char (unat a * 16 div 64), b64_char (unat a * 16)]"]) (simp add: Let_def)
  next
    case (3 a b)
    let ?n = "(unat a * 256 + unat b) * 4"
    show ?case by (intro exI [of _ "[b64_char (?n div 4096), b64_char (?n div 64), b64_char ?n]"]) (simp add: Let_def)
  next
    case (4 a b c bs)
    then obtain ys where y: "ys = [] \<or> last ys \<noteq> CHR ''=''" "bytesToBase64 bs \<in> {ys, ys @ ''='', ys @ ''==''}" by blast
    obtain p q r s where b: "bytesToBase64 (a # b # c # bs) = [p, q, r, b64_char s] @ bytesToBase64 bs"
      by (simp add: Let_def)
    show ?case unfolding b using y by (intro exI [of _ "[p, q, r, b64_char s] @ ys"]) auto
  qed
  with that show thesis by blast
qed

lemma drop_padding_strip: "drop_padding (bytesToBase64 bs) = strip_pads (bytesToBase64 bs)"
proof -
  obtain ys where y: "ys = [] \<or> last ys \<noteq> CHR ''=''" "bytesToBase64 bs \<in> {ys, ys @ ''='', ys @ ''==''}"
    by (rule base64_pads)
  have e: "strip_pads ys = ys" "\<not> endsWith ys ''==''" "\<not> endsWith ys ''=''" "\<not> endsWith (ys @ ''='') ''==''"
    using y(1) by (cases ys rule: rev_cases; simp add: strip_pads_def endsWith_def; fail)+
  have p: "strip_pads ''='' = []" "strip_pads ''=='' = []" by (simp_all add: strip_pads_def)
  have s: "strip_pads (ys @ ''='') = ys" "strip_pads (ys @ ''=='') = ys"
    unfolding strip_pads_append using p e(1) by simp_all
  show ?thesis using y(2) e s by (auto simp: drop_padding_def endsWith_def)
qed

lemma set_bytesToBase64: "c \<in> set (bytesToBase64 bs) \<Longrightarrow> c = CHR ''='' \<or> c \<in> set b64_alphabet"
proof -
  have "b64_char n \<in> set b64_alphabet" for n
    unfolding b64_char_def by (rule nth_mem) (simp add: b64_alphabet_def)
  then show "c \<in> set (bytesToBase64 bs) \<Longrightarrow> c = CHR ''='' \<or> c \<in> set b64_alphabet"
    by (induction bs rule: bytesToBase64.induct) (auto simp: Let_def)
qed

lemma base64_no_space: "c \<in> set (bytesToBase64 bs) \<Longrightarrow> \<not> b64_space c \<and> \<not> is_space c \<and> c \<noteq> CHR ''-''"
proof -
  have "list_all (\<lambda>c. \<not> b64_space c \<and> \<not> is_space c \<and> c \<noteq> CHR ''-'') (CHR ''='' # b64_alphabet)"
    by code_simp
  then show "c \<in> set (bytesToBase64 bs) \<Longrightarrow> \<not> b64_space c \<and> \<not> is_space c \<and> c \<noteq> CHR ''-''"
    using set_bytesToBase64 by (fastforce simp: list_all_iff)
qed

lemma atob_bytesToBase64: "atob (bytesToBase64 bs) = Some bs"
proof -
  have "filter (\<lambda>c. \<not> b64_space c) (bytesToBase64 bs) = bytesToBase64 bs"
    using base64_no_space by (simp add: filter_id_conv)
  moreover have "length (bytesToBase64 bs) mod 4 = 0" by (simp add: length_bytesToBase64)
  ultimately show ?thesis by (simp add: atob_def drop_padding_strip b64_groups_stripped)
qed

text \<open>Base 64 for addresses and its reader.\<close>

definition url_back :: "char \<Rightarrow> char" where
  "url_back c = (if c = CHR ''-'' then CHR ''+'' else if c = CHR ''_'' then CHR ''/'' else c)"

lemma to_base64url_eq: "to_base64url s = map url_char (strip_pads s)"
proof -
  have "url_char c = CHR ''='' \<longleftrightarrow> c = CHR ''=''" for c by (auto simp: url_char_def)
  then have "dropWhile (\<lambda>c. c = CHR ''='') (map url_char xs) = map url_char (dropWhile (\<lambda>c. c = CHR ''='') xs)" for xs
    by (induction xs) auto
  then show ?thesis by (simp add: to_base64url_def strip_pads_def rev_map)
qed

lemma set_strip_pads: "set (strip_pads s) \<subseteq> set s"
  by (auto simp: strip_pads_def dest: set_dropWhileD)

lemma atob_base64url: "atob (map url_back (to_base64url (bytesToBase64 bs))) = Some bs"
proof -
  let ?s = "strip_pads (bytesToBase64 bs)"
  have "list_all (\<lambda>c. url_back (url_char c) = c) (CHR ''='' # b64_alphabet)" by code_simp
  then have b: "url_back (url_char c) = c" if "c \<in> set ?s" for c
    using that set_bytesToBase64 [of c bs] set_strip_pads [of "bytesToBase64 bs"] by (auto simp: list_all_iff)
  have m: "map url_back (to_base64url (bytesToBase64 bs)) = ?s"
    unfolding to_base64url_eq map_map by (rule map_idI) (simp add: b)
  have f: "filter (\<lambda>c. \<not> b64_space c) ?s = ?s"
    using base64_no_space set_strip_pads [of "bytesToBase64 bs"] by (auto simp: filter_id_conv)
  have l: "?s = [] \<or> last ?s \<noteq> CHR ''=''"
    using hd_dropWhile [of "\<lambda>c. c = CHR ''=''" "rev (bytesToBase64 bs)"] by (auto simp: strip_pads_def last_rev)
  then have "drop_padding ?s = ?s" by (cases ?s rule: rev_cases) (auto simp: drop_padding_def endsWith_def)
  then show ?thesis unfolding m by (simp add: atob_def f b64_groups_stripped Let_def)
qed

text \<open>PEM texts: what holds no hyphen is kept, and of the two markers each is found by its own word.\<close>

lemma pem_marker_none: "\<not> startsWith s (''-----'' @ word @ '' '') \<Longrightarrow> pem_marker word s = None"
  by (simp add: pem_marker_def)

lemma remove_markers_keep: "CHR ''-'' \<notin> set s \<Longrightarrow> remove_markers word (s @ t) = s @ remove_markers word t"
proof (induction s)
  case (Cons c s)
  then have "pem_marker word (c # s @ t) = None" by (intro pem_marker_none) auto
  with Cons show ?case by simp
qed simp

lemma pem_marker_found:
  assumes "label \<noteq> []" "CHR ''-'' \<notin> set label"
  shows "pem_marker word (''-----'' @ word @ '' '' @ label @ ''-----'' @ t) = Some t"
proof -
  let ?s = "''-----'' @ word @ '' '' @ label @ ''-----'' @ t"
  have a: "?s = (''-----'' @ word @ '' '') @ label @ ''-----'' @ t" by (simp only: append_assoc)
  have d: "drop n (p @ u) = u" if "n = length p" for n and p u :: string using that by simp
  have "drop (6 + length word) ?s = label @ ''-----'' @ t" unfolding a by (rule d) simp
  moreover have "takeWhile (\<lambda>c. c \<noteq> CHR ''-'') (label @ ''-----'' @ t) = label"
    "dropWhile (\<lambda>c. c \<noteq> CHR ''-'') (label @ ''-----'' @ t) = ''-----'' @ t"
    using assms(2) by (induction label) auto
  moreover have "startsWith ?s (''-----'' @ word @ '' '')" by (metis append_assoc startsWith_append)
  ultimately show ?thesis using assms(1) by (simp only: pem_marker_def Let_def) simp
qed

lemma remove_markers_found:
  assumes "label \<noteq> []" "CHR ''-'' \<notin> set label"
  shows "remove_markers word (''-----'' @ word @ '' '' @ label @ ''-----'' @ t) = remove_markers word t"
  using pem_marker_found [OF assms, of word t] by simp

lemma remove_other_marker:
  assumes "CHR ''-'' \<notin> set label"
  shows "remove_markers ''BEGIN'' (''-----'' @ ''END'' @ '' '' @ label @ ''-----'') = ''-----'' @ ''END'' @ '' '' @ label @ ''-----''"
proof -
  have n: "pem_marker ''BEGIN'' (replicate k (CHR ''-'') @ ''END '' @ t) = None" if "k \<le> 5" for k t
  proof -
    from that have "k \<in> {0, 1, 2, 3, 4, 5}" by auto
    then show ?thesis by (intro pem_marker_none) (auto simp: numeral_eq_Suc)
  qed
  have d: "pem_marker ''BEGIN'' (replicate k (CHR ''-'')) = None" if "k \<le> 5" for k
  proof -
    from that have "k \<in> {0, 1, 2, 3, 4, 5}" by auto
    then show ?thesis by (intro pem_marker_none) (auto simp: numeral_eq_Suc)
  qed
  have e: "remove_markers ''BEGIN'' (replicate k (CHR ''-'')) = replicate k (CHR ''-'')" if "k \<le> 5" for k
    using that by (induction k) (simp_all add: d [of "Suc _", simplified])
  have l: "remove_markers ''BEGIN'' ((''END '' @ label) @ ''-----'') = (''END '' @ label) @ ''-----''"
    using e [of 5] assms by (subst remove_markers_keep) (simp_all add: numeral_eq_Suc)
  have "remove_markers ''BEGIN'' (replicate k (CHR ''-'') @ ''END '' @ label @ ''-----'') =
      replicate k (CHR ''-'') @ ''END '' @ label @ ''-----''" if "k \<le> 5" for k
    using that l by (induction k) (simp_all add: n [of "Suc _", simplified])
  from this [of 5] show ?thesis by (simp add: numeral_eq_Suc)
qed

lemma filter_join: "filter P (join [c] ls) = (if P c then join [c] (map (filter P) ls) else concat (map (filter P) ls))"
  by (induction ls rule: induct_list012) (auto simp: join_Cons)

lemma pemToDer_arrayBufferToPem:
  assumes "label \<noteq> []" "CHR ''-'' \<notin> set label"
  shows "pemToDer (arrayBufferToPem bs label) = Some bs"
proof -
  let ?body = "[nl] @ join [nl] (chunks64 (bytesToBase64 bs)) @ [nl]"
  let ?close = "''-----'' @ ''END'' @ '' '' @ label @ ''-----''"
  have sp: "is_space nl" by code_simp
  have c: "set (join [nl] ls) \<subseteq> insert nl (set (concat ls))" for ls
    by (induction ls rule: induct_list012) (auto simp: join_Cons)
  have "CHR ''-'' \<notin> set (bytesToBase64 bs)" using base64_no_space by blast
  then have h: "CHR ''-'' \<notin> set ?body"
    using c [of "chunks64 (bytesToBase64 bs)"] unfolding concat_chunks64 by (auto simp: nl_def)
  have p: "arrayBufferToPem bs label = ''-----'' @ ''BEGIN'' @ '' '' @ label @ ''-----'' @ ?body @ ?close"
    by (simp add: arrayBufferToPem_def Let_def)
  have "remove_markers ''BEGIN'' (arrayBufferToPem bs label) = ?body @ ?close"
    unfolding p remove_markers_found [OF assms] remove_markers_keep [OF h] remove_other_marker [OF assms(2)] ..
  moreover have "remove_markers ''END'' (?body @ ?close) = ?body"
    using remove_markers_found [OF assms, of "''END''" "[]"] unfolding remove_markers_keep [OF h] by simp
  moreover have "filter (\<lambda>c. \<not> is_space c) ?body = bytesToBase64 bs"
  proof -
    have "filter (\<lambda>c. \<not> is_space c) l = l" if "l \<in> set (chunks64 (bytesToBase64 bs))" for l
    proof -
      have "set l \<subseteq> set (bytesToBase64 bs)"
        using that concat_chunks64 [of "bytesToBase64 bs"] by (metis UN_upper set_concat)
      then show ?thesis using base64_no_space by (auto simp: filter_id_conv)
    qed
    then have "map (filter (\<lambda>c. \<not> is_space c)) (chunks64 (bytesToBase64 bs)) = chunks64 (bytesToBase64 bs)"
      by (simp add: map_idI)
    then show ?thesis using sp by (simp add: filter_join concat_chunks64)
  qed
  ultimately show ?thesis by (simp add: pemToDer_def atob_bytesToBase64)
qed

text \<open>Texts: what was written is read, unless it begins like a byte order mark.\<close>

lemma utf8_chars_char: "utf8_chars (utf8_char c @ bs) = c # utf8_chars bs"
proof (cases "code_of c < 128")
  case True
  then have "unat (of_nat (code_of c) :: 8 word) = code_of c" by (simp add: unat_of_nat)
  with True show ?thesis by (simp add: utf8_char_def code_of_def)
next
  case False
  have b: "code_of c < 256" by (simp add: code_of_def)
  then have "code_of c div 64 < 4" by simp
  moreover have "128 div 64 \<le> code_of c div 64" using False by (intro div_le_mono) simp
  ultimately have d: "code_of c div 64 = 2 \<or> code_of c div 64 = 3" by (simp, linarith)
  have w: "unat (of_nat n :: 8 word) = n" if "n < 256" for n using that by (simp add: unat_of_nat)
  have m: "code_of c mod 64 < 64" by simp
  have w1: "unat (of_nat (192 + code_of c div 64) :: 8 word) = 192 + code_of c div 64" by (rule w) (use d in auto)
  have w2: "unat (of_nat (128 + code_of c mod 64) :: 8 word) = 128 + code_of c mod 64" by (rule w) (use m in linarith)
  have c: "char_of (code_of c div 64 * 64 + code_of c mod 64) = c" by (simp add: code_of_def)
  have u: "utf8_char c = [of_nat (192 + code_of c div 64), of_nat (128 + code_of c mod 64)]"
    using False by (simp only: utf8_char_def if_False)
  have "192 + code_of c div 64 = 194 \<or> 192 + code_of c div 64 = 195" using d by auto
  then show ?thesis
    unfolding u append.simps utf8_chars.simps w1 w2 list.case using m c by simp
qed

lemma utf8_chars_utf8: "utf8_chars (utf8 s) = s"
  by (induction s) (simp_all add: utf8_def utf8_chars_char)

lemma utf8_no_mark: "take 3 (utf8 s) \<noteq> [0xEF, 0xBB, 0xBF]"
proof (cases s)
  case (Cons c t)
  have "unat (hd (utf8_char c)) < 196"
  proof (cases "code_of c < 128")
    case True
    then show ?thesis by (simp add: utf8_char_def unat_of_nat)
  next
    case False
    have "code_of c < 256" by (simp add: code_of_def)
    then have "192 + code_of c div 64 < 196" by simp
    then show ?thesis using False by (simp add: utf8_char_def unat_of_nat del: of_nat_add)
  qed
  moreover have "utf8_char c \<noteq> []" by (simp add: utf8_char_def)
  ultimately have "unat (hd (utf8 s)) < 196" using Cons by (simp add: utf8_def)
  then have "hd (utf8 s) \<noteq> 0xEF" by auto
  then show ?thesis by (cases "utf8 s") auto
qed (simp add: utf8_def)

lemma utf8_text_utf8: "utf8_text (utf8 s) = s"
  using utf8_no_mark by (simp add: utf8_text_def utf8_chars_utf8)

section \<open>Properties\<close>

text \<open>
  The certificate view reads back the bytes of every PEM text the front end writes, whatever their label.
\<close>

theorem pemToDer_round_trip:
  assumes "label \<noteq> []" "CHR ''-'' \<notin> set label"
  shows "pemToDer (arrayBufferToPem bs label) = Some bs"
  using pemToDer_arrayBufferToPem [OF assms] .

theorem pemToDer_round_trip_witness:
  "pemToDer (arrayBufferToPem [48, 3, 2, 1, 5] ''PRIVATE KEY'') = Some [48, 3, 2, 1, 5]"
  by (rule pemToDer_round_trip) simp_all

end
