(* ===== verification/Front_DnsWire.thy ===== *)
theory Front_DnsWire
  imports Front_Bytes
begin

unbundle bit_operations_syntax

text \<open>
  \<open>nodns-frontend/src/components/dual-lookup-demo.tsx\<close>: a DNS question packed into bytes, the answer unpacked from
  bytes, and the look-up that asks two resolvers. Reading outside of a buffer throws, as \<open>DataView\<close> does;
  \<open>Uint8Array\<close> keeps the low eight bits of a number.
\<close>

section \<open>The question\<close>

definition qname_bytes :: "string list \<Rightarrow> bytes" where
  "qname_bytes labels = concat (map (\<lambda>l. of_nat (length (utf8 l)) # utf8 l) labels) @ [0]"

definition query_packet :: "string \<Rightarrow> nat \<Rightarrow> bytes" where
  "query_packet domain type =
     [0x12, 0x34, 0x01, 0x00, 0x00, 0x01, 0x00, 0x00, 0x00, 0x00, 0x00, 0x00] @
     qname_bytes (split_on (CHR ''.'') domain) @ [0x00, of_nat type, 0x00, 0x01]"

definition buildDnsQuery :: "string \<Rightarrow> nat \<Rightarrow> string" where
  "buildDnsQuery domain type = to_base64url (bytesToBase64 (query_packet domain type))"

section \<open>The answer\<close>

definition out_of_bounds :: js_error where
  "out_of_bounds = JsError ''Offset is outside the bounds of the DataView''"

definition getUint8 :: "bytes \<Rightarrow> nat \<Rightarrow> js_error + nat" where
  "getUint8 buf off = (if off < length buf then Inr (unat (buf ! off)) else Inl out_of_bounds)"

definition getUint16 :: "bytes \<Rightarrow> nat \<Rightarrow> js_error + nat" where
  "getUint16 buf off =
     (if off + 1 < length buf then Inr (unat (buf ! off) * 256 + unat (buf ! (off + 1))) else Inl out_of_bounds)"

text \<open>\<open>while (view.getUint8(offset) !== 0) offset += view.getUint8(offset) + 1\<close>.\<close>

function skip_labels :: "bytes \<Rightarrow> nat \<Rightarrow> js_error + nat" where
  "skip_labels buf off =
     (if off < length buf
      then (if buf ! off = 0 then Inr off else skip_labels buf (off + unat (buf ! off) + 1))
      else Inl out_of_bounds)"
  by pat_completeness auto

termination
  by (relation "measure (\<lambda>(buf, off). length buf - off)") auto

declare skip_labels.simps [simp del]

definition skip_name :: "bytes \<Rightarrow> nat \<Rightarrow> js_error + nat" where
  "skip_name buf off =
     try_bind (getUint8 buf off) (\<lambda>b.
       if (word_of_nat b :: 8 word) AND 0xC0 = 0xC0 then Inr (off + 2)
       else map_sum id Suc (skip_labels buf off))"

record wire_record =
  wr_type :: nat
  wr_data :: string

definition ip_text :: "nat \<Rightarrow> nat \<Rightarrow> nat \<Rightarrow> nat \<Rightarrow> string" where
  "ip_text a b c d = show_int (int a) @ ''.'' @ show_int (int b) @ ''.'' @ show_int (int c) @ ''.'' @ show_int (int d)"

definition a_records :: "bytes \<Rightarrow> nat \<Rightarrow> nat \<Rightarrow> nat \<Rightarrow> js_error + wire_record list" where
  "a_records buf off rtype rdlength =
     (if rtype = 1 \<and> rdlength = 4 then
        try_bind (getUint8 buf off) (\<lambda>a. try_bind (getUint8 buf (off + 1)) (\<lambda>b.
        try_bind (getUint8 buf (off + 2)) (\<lambda>c. try_bind (getUint8 buf (off + 3)) (\<lambda>d.
          Inr [\<lparr>wr_type = 1, wr_data = ip_text a b c d\<rparr>]))))
      else Inr [])"

definition txt_records :: "bytes \<Rightarrow> nat \<Rightarrow> nat \<Rightarrow> js_error + wire_record list" where
  "txt_records buf off rtype =
     (if rtype = 16 then
        try_bind (getUint8 buf off) (\<lambda>txtLen.
          if off + 1 + txtLen \<le> length buf
          then Inr [\<lparr>wr_type = 16, wr_data = ''\"'' @ utf8_text (take txtLen (drop (off + 1) buf)) @ ''\"''\<rparr>]
          else Inl (JsError (''Invalid typed array length: '' @ show_int (int txtLen))))
      else Inr [])"

fun parse_answers :: "bytes \<Rightarrow> nat \<Rightarrow> nat \<Rightarrow> js_error + wire_record list" where
  "parse_answers buf 0 off = Inr []"
| "parse_answers buf (Suc n) off =
     try_bind (skip_name buf off) (\<lambda>off1.
     try_bind (getUint16 buf off1) (\<lambda>rtype.
     try_bind (getUint16 buf (off1 + 8)) (\<lambda>rdlength.
     try_bind (a_records buf (off1 + 10) rtype rdlength) (\<lambda>as.
     try_bind (txt_records buf (off1 + 10) rtype) (\<lambda>txts.
     try_bind (parse_answers buf n (off1 + 10 + rdlength)) (\<lambda>rest.
       Inr (as @ txts @ rest)))))))"

definition parseDnsResponse :: "bytes \<Rightarrow> js_error + nat \<times> wire_record list" where
  "parseDnsResponse buf =
     try_bind (getUint16 buf 2) (\<lambda>flags.
     try_bind (getUint16 buf 6) (\<lambda>ancount.
     try_bind (skip_labels buf 12) (\<lambda>off.
     try_bind (parse_answers buf ancount (off + 5)) (\<lambda>records.
       Inr (flags AND 0xF, records)))))"

section \<open>The look-up\<close>

datatype DemoMode = TxtMode | WebMode

datatype LookupSource = StandardDns | NodnsDns

datatype LookupStatus = LookupLoading | LookupSuccess | LookupError string

record LookupResult =
  lu_source :: LookupSource
  lu_value :: string
  lu_status :: LookupStatus

definition CLOUDFLARE_IP :: string where "CLOUDFLARE_IP = ''188.114.96.3''"
definition NODNS_IP :: string where "NODNS_IP = ''46.224.104.12''"
definition CLOUDFLARE_TXT :: string where "CLOUDFLARE_TXT = ''\"Liar!\"''"
definition NODNS_TXT :: string where "NODNS_TXT = ''\"No you!\"''"

definition query_type :: "DemoMode \<Rightarrow> nat" where
  "query_type mode = (case mode of TxtMode \<Rightarrow> 16 | WebMode \<Rightarrow> 1)"

definition fallbackStandard :: "DemoMode \<Rightarrow> string" where
  "fallbackStandard mode = (case mode of TxtMode \<Rightarrow> CLOUDFLARE_TXT | WebMode \<Rightarrow> CLOUDFLARE_IP)"

definition fallbackNodns :: "DemoMode \<Rightarrow> string" where
  "fallbackNodns mode = (case mode of TxtMode \<Rightarrow> NODNS_TXT | WebMode \<Rightarrow> NODNS_IP)"

text \<open>The standard resolver's JSON answer: for each answer its type and its data as text, if it has any.\<close>

definition standard_result ::
  "(js_error \<Rightarrow> string) \<Rightarrow> DemoMode \<Rightarrow> js_error + (nat \<times> string option) list \<Rightarrow> LookupResult" where
  "standard_result show_error mode reply =
     (case reply of
        Inr answers \<Rightarrow>
          let answer = (case List.find (\<lambda>a. fst a = query_type mode) answers of
                Some a \<Rightarrow> Some a | None \<Rightarrow> nth_opt answers 0)
          in \<lparr>lu_source = StandardDns,
              lu_value = nullish (case answer of Some a \<Rightarrow> snd a | None \<Rightarrow> None) (fallbackStandard mode),
              lu_status = LookupSuccess\<rparr>
      | Inl e \<Rightarrow> \<lparr>lu_source = StandardDns, lu_value = fallbackStandard mode, lu_status = LookupError (show_error e)\<rparr>)"

definition nodns_result ::
  "(js_error \<Rightarrow> string) \<Rightarrow> DemoMode \<Rightarrow> js_error + bytes \<Rightarrow> LookupResult" where
  "nodns_result show_error mode reply =
     (case try_bind reply parseDnsResponse of
        Inr (rcode, records) \<Rightarrow>
          \<lparr>lu_source = NodnsDns,
           lu_value = (case List.find (\<lambda>r. wr_type r = query_type mode) records of
               Some r \<Rightarrow> wr_data r | None \<Rightarrow> fallbackNodns mode),
           lu_status = LookupSuccess\<rparr>
      | Inl e \<Rightarrow> \<lparr>lu_source = NodnsDns, lu_value = fallbackNodns mode, lu_status = LookupError (show_error e)\<rparr>)"

definition nodns_url :: "string \<Rightarrow> DemoMode \<Rightarrow> string" where
  "nodns_url domain mode = ''https://dns.nodns.shop/dns-query?dns='' @ buildDnsQuery domain (query_type mode)"

text \<open>\<open>runLookup\<close>: the results in the end; \<open>standard\<close> and \<open>nodns\<close> are the two replies.\<close>

definition runLookup ::
  "(js_error \<Rightarrow> string) \<Rightarrow> (string \<Rightarrow> js_error + (nat \<times> string option) list) \<Rightarrow> (string \<Rightarrow> js_error + bytes) \<Rightarrow>
     string \<Rightarrow> DemoMode \<Rightarrow> LookupResult list" where
  "runLookup show_error standard nodns domain mode =
     [standard_result show_error mode (standard (''https://dns.google/resolve?name='' @ domain @ ''&type='' @
        (case mode of TxtMode \<Rightarrow> ''TXT'' | WebMode \<Rightarrow> ''A''))),
      nodns_result show_error mode (nodns (nodns_url domain mode))]"

section \<open>Lemmas\<close>

text \<open>Reading after a prefix is reading without it.\<close>

lemma getUint8_append: "getUint8 (pre @ bs) (length pre + k) = getUint8 bs k"
  by (simp add: getUint8_def nth_append)

lemma getUint16_append: "getUint16 (pre @ bs) (length pre + k) = getUint16 bs k"
  by (simp add: getUint16_def nth_append)

lemma skip_labels_append:
  "skip_labels (pre @ bs) (length pre + k) = map_sum id (\<lambda>n. length pre + n) (skip_labels bs k)"
proof (induction bs k rule: skip_labels.induct)
  case (1 bs k)
  show ?case
  proof (cases "k < length bs \<and> bs ! k \<noteq> 0")
    case True
    have "skip_labels (pre @ bs) (length pre + k) = skip_labels (pre @ bs) (length pre + (k + unat (bs ! k) + 1))"
      using True by (subst skip_labels.simps) (simp add: nth_append ac_simps)
    also have "\<dots> = map_sum id (\<lambda>n. length pre + n) (skip_labels bs k)"
      using 1 True by (subst (2) skip_labels.simps) (simp add: id_def)
    finally show ?thesis .
  next
    case False
    then show ?thesis by (subst (1 2) skip_labels.simps) (auto simp: nth_append)
  qed
qed

lemma skip_name_append:
  "skip_name (pre @ bs) (length pre + k) = map_sum id (\<lambda>n. length pre + n) (skip_name bs k)"
  by (cases "getUint8 bs k"; cases "skip_labels bs k") (simp_all add: skip_name_def getUint8_append skip_labels_append)

lemma a_records_append: "a_records (pre @ bs) (length pre + k) t l = a_records bs k t l"
  using getUint8_append [of pre bs k] getUint8_append [of pre bs "k + 1"] getUint8_append [of pre bs "k + 2"]
    getUint8_append [of pre bs "k + 3"] by (simp add: a_records_def add.assoc)

lemma txt_records_append: "txt_records (pre @ bs) (length pre + k) t = txt_records bs k t"
proof -
  have "drop (length pre + k + 1) (pre @ bs) = drop (k + 1) bs" by simp
  then show ?thesis by (simp only: txt_records_def getUint8_append length_append add.assoc nat_add_left_cancel_le)
qed

lemma parse_answers_append: "parse_answers (pre @ bs) n (length pre + k) = parse_answers bs n k"
proof (induction n arbitrary: k)
  case (Suc n)
  have a: "length pre + i + j = length pre + (i + j)" for i j by simp
  show ?case
    by (cases "skip_name bs k")
      (simp_all add: skip_name_append getUint16_append a_records_append txt_records_append a Suc)
qed simp

text \<open>A message as a server writes it. The name that owns an answer is a pointer, or labels that a zero byte
  ends. An answer has its own class, time to live and data.\<close>

datatype owner_name = NamePointer "8 word" "8 word" | NameLabels "bytes list"

record wire_answer =
  aw_owner :: owner_name
  aw_type :: nat
  aw_class :: nat
  aw_ttl :: bytes
  aw_data :: bytes

definition u16 :: "nat \<Rightarrow> bytes" where
  "u16 n = [of_nat (n div 256), of_nat (n mod 256)]"

definition label_bytes :: "bytes list \<Rightarrow> bytes" where
  "label_bytes ls = concat (map (\<lambda>l. of_nat (length l) # l) ls) @ [0]"

definition owner_bytes :: "owner_name \<Rightarrow> bytes" where
  "owner_bytes w = (case w of NamePointer a b \<Rightarrow> [a, b] | NameLabels ls \<Rightarrow> label_bytes ls)"

definition answer_bytes :: "wire_answer \<Rightarrow> bytes" where
  "answer_bytes a = owner_bytes (aw_owner a) @ u16 (aw_type a) @ u16 (aw_class a) @ aw_ttl a @
     u16 (length (aw_data a)) @ aw_data a"

text \<open>The header with the identifier, the flags and the counts, of which \<open>counts\<close> holds those of the other sections;
  the question; the answers; and \<open>rest\<close>, the other sections.\<close>

definition response_bytes ::
  "nat \<Rightarrow> nat \<Rightarrow> bytes \<Rightarrow> string list \<Rightarrow> nat \<Rightarrow> nat \<Rightarrow> wire_answer list \<Rightarrow> bytes \<Rightarrow> bytes" where
  "response_bytes ident flags counts labels qtype qclass answers rest =
     u16 ident @ u16 flags @ u16 1 @ u16 (length answers) @ counts @
     qname_bytes labels @ u16 qtype @ u16 qclass @ concat (map answer_bytes answers) @ rest"

text \<open>What a reader of the answers should see: addresses of four bytes and the first text of a TXT record.\<close>

definition record_seen :: "wire_answer \<Rightarrow> wire_record list" where
  "record_seen a =
     (let d = aw_data a in
      if aw_type a = 1 \<and> length d = 4
      then [\<lparr>wr_type = 1, wr_data = join ''.'' (map (\<lambda>b. show_int (int (unat b))) d)\<rparr>]
      else if aw_type a = 16
      then [\<lparr>wr_type = 16, wr_data = ''\"'' @ utf8_text (take (unat (hd d)) (tl d)) @ ''\"''\<rparr>]
      else [])"

text \<open>Labels have at most 63 bytes; a pointer's first two bits are set; a TXT record holds its first text.\<close>

definition owner_ok :: "owner_name \<Rightarrow> bool" where
  "owner_ok w = (case w of
     NamePointer a b \<Rightarrow> a AND 0xC0 = 0xC0
   | NameLabels ls \<Rightarrow> list_all (\<lambda>l. l \<noteq> [] \<and> length l < 64) ls)"

definition answer_ok :: "wire_answer \<Rightarrow> bool" where
  "answer_ok a \<longleftrightarrow> owner_ok (aw_owner a) \<and> aw_type a < 65536 \<and> length (aw_ttl a) = 4 \<and> length (aw_data a) < 65536 \<and>
     (aw_type a = 16 \<longrightarrow> aw_data a \<noteq> [] \<and> unat (hd (aw_data a)) < length (aw_data a))"

lemma u16_read: "n < 65536 \<Longrightarrow> unat (u16 n ! 0) * 256 + unat (u16 n ! 1) = n"
proof -
  assume n: "n < 65536"
  have w: "unat (of_nat k :: 8 word) = k" if "k < 256" for k using that by (simp add: unat_of_nat)
  have "n div 256 < 256" "n mod 256 < 256" using n by auto
  then show ?thesis using w by (simp add: u16_def)
qed

lemma getUint16_u16: "n < 65536 \<Longrightarrow> getUint16 (u16 n @ bs) 0 = Inr n"
  using u16_read [of n] by (simp add: getUint16_def nth_append u16_def)

lemma length_u16 [simp]: "length (u16 n) = 2"
  by (simp add: u16_def)

text \<open>The labels of a name: each is as long as the byte before it says, and none is empty.\<close>

definition labels_ok :: "string list \<Rightarrow> bool" where
  "labels_ok labels \<longleftrightarrow> list_all (\<lambda>l. l \<noteq> [] \<and> length (utf8 l) < 256) labels"

lemma length_qname: "length (qname_bytes labels) = Suc (sum_list (map (\<lambda>l. Suc (length (utf8 l))) labels))"
  by (simp add: qname_bytes_def length_concat comp_def)

lemma skip_label_bytes:
  "list_all (\<lambda>l. l \<noteq> [] \<and> length l < 256) ls \<Longrightarrow>
     skip_labels (label_bytes ls @ bs) 0 = Inr (length (label_bytes ls) - 1)"
proof (induction ls)
  case Nil
  then show ?case by (subst skip_labels.simps) (simp add: label_bytes_def)
next
  case (Cons l ls)
  have l: "l \<noteq> []" "length l < 256" using Cons.prems by simp_all
  then have w: "unat (of_nat (length l) :: 8 word) = length l" by (simp add: unat_of_nat)
  with l(1) have n: "(of_nat (length l) :: 8 word) \<noteq> 0" by auto
  let ?pre = "of_nat (length l) # l"
  have q: "label_bytes (l # ls) @ bs = ?pre @ (label_bytes ls @ bs)" by (simp add: label_bytes_def)
  have "skip_labels (?pre @ (label_bytes ls @ bs)) 0 = skip_labels (?pre @ (label_bytes ls @ bs)) (length ?pre + 0)"
    using n w by (subst skip_labels.simps) simp
  also have "\<dots> = Inr (length ?pre + (length (label_bytes ls) - 1))"
    unfolding skip_labels_append using Cons by simp
  finally show ?case unfolding q by (simp add: label_bytes_def)
qed

lemma qname_labels: "qname_bytes labels = label_bytes (map utf8 labels)"
  by (simp add: qname_bytes_def label_bytes_def comp_def)

lemma utf8_nonempty: "utf8 l = [] \<longleftrightarrow> l = []"
  by (cases l) (simp_all add: utf8_def utf8_char_def)

lemma skip_qname:
  "labels_ok labels \<Longrightarrow> skip_labels (qname_bytes labels @ bs) 0 = Inr (length (qname_bytes labels) - 1)"
  unfolding qname_labels by (rule skip_label_bytes) (simp add: labels_ok_def list_all_iff utf8_nonempty)

text \<open>The first byte of labels is no pointer's.\<close>

lemma small_no_pointer: "n < 64 \<Longrightarrow> (of_nat n :: 8 word) AND 0xC0 \<noteq> 0xC0"
proof -
  have "list_all (\<lambda>n. (of_nat n :: 8 word) AND 0xC0 \<noteq> 0xC0) [0 ..< 64]" by code_simp
  then show "n < 64 \<Longrightarrow> ?thesis" by (auto simp: list_all_iff)
qed

lemma skip_owner:
  assumes "owner_ok w"
  shows "skip_name (owner_bytes w @ bs) 0 = Inr (length (owner_bytes w))"
proof (cases w)
  case (NamePointer a b)
  then show ?thesis using assms by (simp add: skip_name_def getUint8_def owner_bytes_def owner_ok_def)
next
  case (NameLabels ls)
  let ?buf = "label_bytes ls @ bs"
  have ls: "list_all (\<lambda>l. l \<noteq> [] \<and> length l < 64) ls" using assms NameLabels by (simp add: owner_ok_def)
  have "(word_of_nat (unat (?buf ! 0)) :: 8 word) AND 0xC0 \<noteq> 0xC0"
  proof (cases ls)
    case (Cons l ls')
    then show ?thesis using ls small_no_pointer [of "length l"] by (simp add: label_bytes_def)
  qed (simp add: label_bytes_def)
  moreover have "getUint8 ?buf 0 = Inr (unat (?buf ! 0))" by (simp add: getUint8_def label_bytes_def)
  moreover have "skip_labels ?buf 0 = Inr (length (label_bytes ls) - 1)"
    using ls by (intro skip_label_bytes) (auto simp: list_all_iff)
  moreover have "0 < length (label_bytes ls)" by (simp add: label_bytes_def)
  ultimately show ?thesis using NameLabels by (simp add: skip_name_def owner_bytes_def)
qed

lemma parse_one:
  assumes "answer_ok a"
  shows "parse_answers (answer_bytes a @ rest) (Suc n) 0 = map_sum id (\<lambda>rs. record_seen a @ rs) (parse_answers rest n 0)"
proof -
  define w t c ttl d where "w = owner_bytes (aw_owner a)" and "t = aw_type a" and "c = u16 (aw_class a)"
    and "ttl = aw_ttl a" and "d = aw_data a"
  note defs = w_def t_def c_def ttl_def d_def
  have ok: "owner_ok (aw_owner a)" "t < 65536" "length d < 65536" "length ttl = 4" "length c = 2"
    using assms by (simp_all add: answer_ok_def defs)
  let ?k = "length w" and ?buf = "answer_bytes a @ rest" and ?p = "w @ u16 t @ c @ ttl @ u16 (length d)"
  have buf: "?buf = w @ u16 t @ c @ ttl @ u16 (length d) @ d @ rest" by (simp add: answer_bytes_def defs)
  have sn: "skip_name ?buf 0 = Inr ?k"
    using skip_owner [OF ok(1), of "u16 t @ c @ ttl @ u16 (length d) @ d @ rest"] unfolding buf by (simp add: w_def)
  have t: "getUint16 ?buf ?k = Inr t"
    using getUint16_append [of w "u16 t @ c @ ttl @ u16 (length d) @ d @ rest" 0] getUint16_u16 [OF ok(2)] by (simp add: buf)
  have dl: "getUint16 ?buf (?k + 8) = Inr (length d)"
    using getUint16_append [of "w @ u16 t @ c @ ttl" "u16 (length d) @ d @ rest" 0] getUint16_u16 [OF ok(3)] ok(4,5)
    by (simp add: buf)
  have split: "?buf = ?p @ d @ rest" by (simp add: buf)
  have l: "length ?p = ?k + 10" using ok(4,5) by simp
  have "a_records ?buf (?k + 10) t (length d) = a_records (d @ rest) 0 t (length d)"
    using a_records_append [of ?p "d @ rest" 0 t "length d"] unfolding l split by (simp only: add_0_right)
  also have "\<dots> = Inr (if t = 1 \<and> length d = 4 then record_seen a else [])"
  proof (cases "t = 1 \<and> length d = 4")
    case True
    then obtain x y z v where "d = [x, y, z, v]" by (auto simp: numeral_eq_Suc length_Suc_conv)
    with True show ?thesis
      using d_def t_def by (simp add: a_records_def getUint8_def record_seen_def ip_text_def)
  qed (auto simp: a_records_def)
  finally have addr: "a_records ?buf (?k + 10) t (length d) = Inr (if t = 1 \<and> length d = 4 then record_seen a else [])" .
  have e: "txt_records ?buf (?k + 10) t = txt_records (d @ rest) 0 t"
    using txt_records_append [of ?p "d @ rest" 0 t] unfolding l split by (simp only: add_0_right)
  have tx: "txt_records ?buf (?k + 10) t = Inr (if t = 16 then record_seen a else [])"
  proof (cases "t = 16")
    case True
    then obtain b ds where "d = b # ds" "unat b \<le> length ds"
      using assms by (cases d) (auto simp: answer_ok_def defs)
    with True show ?thesis
      unfolding e using d_def t_def by (simp add: txt_records_def getUint8_def record_seen_def)
  next
    case False
    then show ?thesis by (simp add: txt_records_def)
  qed
  have "length (answer_bytes a) = ?k + 10 + length d" using ok(4,5) by (simp add: answer_bytes_def defs)
  then have rest: "parse_answers ?buf n (?k + 10 + length d) = parse_answers rest n 0"
    using parse_answers_append [of "answer_bytes a" rest n 0] by simp
  have o: "(if t = 1 \<and> length d = 4 then record_seen a else []) @ (if t = 16 then record_seen a else []) @ rs =
      record_seen a @ rs" for rs
    by (auto simp: record_seen_def t_def d_def Let_def)
  show ?thesis
    using o by (cases "parse_answers rest n 0") (simp_all add: sn t dl addr tx rest)
qed

lemma parse_all:
  "list_all answer_ok answers \<Longrightarrow>
     parse_answers (concat (map answer_bytes answers) @ rest) (length answers) 0 = Inr (concat (map record_seen answers))"
  by (induction answers) (simp_all add: parse_one del: parse_answers.simps(2))

text \<open>A whole message.\<close>

lemma response_read:
  assumes "flags < 65536" "length answers < 65536" "length counts = 4" "labels_ok labels" "list_all answer_ok answers"
  shows "parseDnsResponse (response_bytes ident flags counts labels qtype qclass answers rest) =
    Inr (flags AND 0xF, concat (map record_seen answers))"
proof -
  let ?body = "qname_bytes labels @ u16 qtype @ u16 qclass @ concat (map answer_bytes answers) @ rest"
  let ?buf = "response_bytes ident flags counts labels qtype qclass answers rest"
  let ?head = "u16 ident @ u16 flags @ u16 1 @ u16 (length answers) @ counts"
  have b: "?buf = ?head @ ?body" by (simp add: response_bytes_def)
  have f: "getUint16 ?buf 2 = Inr flags"
    using getUint16_append [of "u16 ident" "u16 flags @ u16 1 @ u16 (length answers) @ counts @ ?body" 0]
      getUint16_u16 [OF assms(1)] by (simp add: response_bytes_def)
  have c: "getUint16 ?buf 6 = Inr (length answers)"
    using getUint16_append [of "u16 ident @ u16 flags @ u16 1" "u16 (length answers) @ counts @ ?body" 0]
      getUint16_u16 [OF assms(2)] by (simp add: response_bytes_def)
  have h: "length ?head = 12" using assms(3) by simp
  have s: "skip_labels ?buf 12 = Inr (12 + (length (qname_bytes labels) - 1))"
    using skip_labels_append [of ?head ?body 0] skip_qname [OF assms(4)] unfolding b h by simp
  let ?pre = "?head @ qname_bytes labels @ u16 qtype @ u16 qclass"
  have p: "length ?pre = 12 + (length (qname_bytes labels) - 1) + 5" using assms(3) by (simp add: length_qname)
  have "?buf = ?pre @ concat (map answer_bytes answers) @ rest" by (simp add: response_bytes_def)
  then have a: "parse_answers ?buf (length answers) (12 + (length (qname_bytes labels) - 1) + 5) =
      Inr (concat (map record_seen answers))"
    using parse_answers_append [of ?pre "concat (map answer_bytes answers) @ rest" "length answers" 0]
      parse_all [OF assms(5)] unfolding p by simp
  show ?thesis using a by (simp add: parseDnsResponse_def f c s)
qed

text \<open>A reader of the question.\<close>

function read_qname :: "bytes \<Rightarrow> (bytes list \<times> bytes) option" where
  "read_qname [] = None"
| "read_qname (n # bs) =
     (if n = 0 then Some ([], bs)
      else map_option (\<lambda>(ls, rest). (take (unat n) bs # ls, rest)) (read_qname (drop (unat n) bs)))"
  by pat_completeness auto

termination
  by (relation "measure length") auto

lemma read_qname_bytes: "labels_ok labels \<Longrightarrow> read_qname (qname_bytes labels @ bs) = Some (map utf8 labels, bs)"
proof (induction labels)
  case Nil
  then show ?case by (simp add: qname_bytes_def)
next
  case (Cons l labels)
  have l: "l \<noteq> []" "length (utf8 l) < 256" using Cons.prems by (simp_all add: labels_ok_def)
  then have w: "unat (of_nat (length (utf8 l)) :: 8 word) = length (utf8 l)" by (simp add: unat_of_nat)
  have "utf8 l \<noteq> []" using l(1) by (cases l) (simp_all add: utf8_def utf8_char_def)
  then have n: "(of_nat (length (utf8 l)) :: 8 word) \<noteq> 0" using w by auto
  have q: "qname_bytes (l # labels) @ bs = of_nat (length (utf8 l)) # utf8 l @ (qname_bytes labels @ bs)"
    by (simp add: qname_bytes_def)
  show ?case unfolding q using Cons n w by (simp add: labels_ok_def)
qed

section \<open>Properties\<close>

text \<open>
  The question in the request's address can be read back: it is the packet, whose name has the labels of
  the domain and is followed by the type and the class.
\<close>

theorem buildDnsQuery_round_trip:
  assumes "labels_ok (split_on (CHR ''.'') domain)"
  shows "atob (map url_back (buildDnsQuery domain type)) = Some (query_packet domain type) \<and>
    read_qname (drop 12 (query_packet domain type)) =
      Some (map utf8 (split_on (CHR ''.'') domain), [0, of_nat type, 0, 1])"
proof
  show "atob (map url_back (buildDnsQuery domain type)) = Some (query_packet domain type)"
    unfolding buildDnsQuery_def by (rule atob_base64url)
qed (use read_qname_bytes [OF assms] in \<open>simp add: query_packet_def\<close>)

theorem buildDnsQuery_round_trip_witness:
  "read_qname (drop 12 (query_packet ''ab.xyz'' 16)) = Some ([[97, 98], [120, 121, 122]], [0, 16, 0, 1])"
proof -
  have s: "split_on (CHR ''.'') ''ab.xyz'' = [''ab'', ''xyz'']" by code_simp
  have u: "map utf8 [''ab'', ''xyz''] = [[97, 98], [120, 121, 122]]" by code_simp
  have "labels_ok [''ab'', ''xyz'']" by code_simp
  with buildDnsQuery_round_trip [of "''ab.xyz''" 16] show ?thesis unfolding s u by simp
qed

text \<open>
  C40. A response with one question and any number of answers is read without error, whatever follows the answers.
  Each answer has its own owner, either a pointer or uncompressed labels, its own type, class, time to live and data.
  Returned are the result code and, in the order of the answers, the addresses of four bytes and the first
  text of each TXT record; every other answer is passed over. (Owners of labels that end in a
  pointer are not covered: \<open>skip_name_mixed\<close>.)
\<close>

theorem parseDnsResponse_reads:
  assumes "flags < 65536" "length answers < 65536" "length counts = 4" "labels_ok labels" "list_all answer_ok answers"
  shows "parseDnsResponse (response_bytes ident flags counts labels qtype qclass answers rest) =
    Inr (flags AND 0xF, concat (map record_seen answers))"
  using assms by (rule response_read)

definition sample_answers :: "wire_answer list" where
  "sample_answers =
     [\<lparr>aw_owner = NameLabels [[97], [98, 99]], aw_type = 16, aw_class = 1, aw_ttl = [0, 0, 1, 44], aw_data = [3, 97, 98, 99]\<rparr>,
      \<lparr>aw_owner = NamePointer 0xC0 0x0C, aw_type = 5, aw_class = 1, aw_ttl = [0, 0, 0, 60], aw_data = [0xC0, 0x0C]\<rparr>,
      \<lparr>aw_owner = NamePointer 0xC1 0x20, aw_type = 1, aw_class = 1, aw_ttl = [0, 0, 0, 60], aw_data = [10, 0, 0, 1]\<rparr>]"

theorem parseDnsResponse_reads_witness:
  "parseDnsResponse (response_bytes 0x1234 0x8180 [0, 0, 0, 0] [''a'', ''nostr''] 16 1 sample_answers []) =
     Inr (0, [\<lparr>wr_type = 16, wr_data = ''\"abc\"''\<rparr>, \<lparr>wr_type = 1, wr_data = ''10.0.0.1''\<rparr>])"
proof -
  have "concat (map record_seen sample_answers) =
      [\<lparr>wr_type = 16, wr_data = ''\"abc\"''\<rparr>, \<lparr>wr_type = 1, wr_data = ''10.0.0.1''\<rparr>]" by code_simp
  moreover have "(0x8180 :: nat) AND 0xF = 0" by simp
  moreover have "labels_ok [''a'', ''nostr'']" by code_simp
  moreover have "list_all answer_ok sample_answers" by (simp add: sample_answers_def answer_ok_def owner_ok_def)
  moreover have "length sample_answers = 3" by (simp add: sample_answers_def)
  ultimately show ?thesis by (subst parseDnsResponse_reads) simp_all
qed

text \<open>
  Labels that end in a pointer, a form servers use for names that share an ending with an earlier one, are not
  recognised: the reader takes the pointer's first byte for a length and goes on 193 bytes behind it.
\<close>

theorem skip_name_mixed:
  assumes "195 < length buf" "take 4 buf = [1, c, 0xC0, p]"
  shows "skip_name buf 0 = map_sum id Suc (skip_labels buf 195)"
proof -
  have b: "buf ! 0 = 1" "buf ! 2 = 0xC0"
    using arg_cong [OF assms(2), of "\<lambda>xs. xs ! 0"] arg_cong [OF assms(2), of "\<lambda>xs. xs ! 2"] by simp_all
  have ne: "buf \<noteq> []" using assms(1) by auto
  have "skip_labels buf 0 = skip_labels buf 2" using ne b(1) by (subst skip_labels.simps) (simp add: numeral_2_eq_2)
  also have "\<dots> = skip_labels buf 195" using assms(1) b(2) by (subst skip_labels.simps) simp
  finally show ?thesis using ne b(1) by (simp add: skip_name_def getUint8_def)
qed

text \<open>
  An answer that has no record of the asked type, also one with an error code, is shown as a success with
  the value written into the page.
\<close>

theorem nodns_result_made_up:
  assumes "parseDnsResponse buf = Inr (rcode, records)" "list_all (\<lambda>r. wr_type r \<noteq> query_type mode) records"
  shows "nodns_result show_error mode (Inr buf) =
    \<lparr>lu_source = NodnsDns, lu_value = fallbackNodns mode, lu_status = LookupSuccess\<rparr>"
proof -
  have "List.find (\<lambda>r. wr_type r = query_type mode) records = None"
    using assms(2) by (simp add: find_None_iff list_all_iff)
  with assms(1) show ?thesis by (simp add: nodns_result_def)
qed

theorem nodns_result_made_up_witness:
  "nodns_result (\<lambda>_. []) TxtMode (Inr (response_bytes 1 0x8183 [0, 0, 0, 0] [''a''] 16 1 [] [])) =
     \<lparr>lu_source = NodnsDns, lu_value = NODNS_TXT, lu_status = LookupSuccess\<rparr>"
proof -
  have "labels_ok [''a'']" by code_simp
  then have "parseDnsResponse (response_bytes 1 0x8183 [0, 0, 0, 0] [''a''] 16 1 [] []) = Inr (0x8183 AND 0xF, [])"
    using response_read [of "0x8183" "[]" "[0, 0, 0, 0]" "[''a'']"] by simp
  from nodns_result_made_up [OF this] show ?thesis by (simp add: fallbackNodns_def)
qed

end
