(* ===== verification/Front_Asn1.thy ===== *)
theory Front_Asn1
  imports Front_Bytes
begin

unbundle bit_operations_syntax

text \<open>
  \<open>nodns-frontend/src/components/cert-display.tsx\<close>: the reader of DER that shows a certificate. A result of type
  \<open>option\<close> is \<^const>\<open>None\<close> when the code never returns; a byte outside of the data is \<open>undefined\<close>, again
  \<^const>\<open>None\<close>. Bit operations work on 32 bits, as in the source, so that a length can be negative.
\<close>

section \<open>Nodes\<close>

datatype Asn1Node = Asn1Node (an_tag: "8 word option") (an_content: bytes) (an_children: "Asn1Node list") (an_offset: int)

definition byte_at :: "bytes \<Rightarrow> int \<Rightarrow> 8 word option" where
  "byte_at data i = (if 0 \<le> i \<and> i < int (length data) then Some (data ! nat i) else None)"

text \<open>\<open>data.slice(start, stop)\<close>: negative positions count from the end.\<close>

definition slice_pos :: "bytes \<Rightarrow> int \<Rightarrow> nat" where
  "slice_pos data i =
     (if i < 0 then nat (int (length data) + i) else min (nat i) (length data))"

definition bytes_slice :: "bytes \<Rightarrow> int \<Rightarrow> int \<Rightarrow> bytes" where
  "bytes_slice data start stop =
     take (slice_pos data stop - slice_pos data start) (drop (slice_pos data start) data)"

text \<open>\<open>length = (length << 8) | data[offset++]\<close>, \<open>n\<close> times; \<open>undefined\<close> counts as zero.\<close>

fun long_length :: "nat \<Rightarrow> bytes \<Rightarrow> int \<Rightarrow> 32 word \<Rightarrow> 32 word" where
  "long_length 0 data off len = len"
| "long_length (Suc n) data off len =
     long_length n data (off + 1)
       (push_bit 8 len OR (case byte_at data off of Some b \<Rightarrow> of_nat (unat b) | None \<Rightarrow> 0))"

definition num_len_bytes :: "bytes \<Rightarrow> int \<Rightarrow> nat" where
  "num_len_bytes data off =
     (case byte_at data (off + 1) of
        Some b \<Rightarrow> if unat b < 0x80 then 0 else unat (b AND 0x7F)
      | None \<Rightarrow> 0)"

definition header_length :: "bytes \<Rightarrow> int \<Rightarrow> int" where
  "header_length data off =
     (case byte_at data (off + 1) of
        Some b \<Rightarrow>
          if unat b < 0x80 then int (unat b)
          else sint (long_length (unat (b AND 0x7F)) data (off + 2) 0)
      | None \<Rightarrow> 0)"

definition content_start :: "bytes \<Rightarrow> int \<Rightarrow> int" where
  "content_start data off = off + 2 + int (num_len_bytes data off)"

definition node_end :: "bytes \<Rightarrow> int \<Rightarrow> int" where
  "node_end data off = content_start data off + header_length data off"

definition is_constructed :: "8 word option \<Rightarrow> bool" where
  "is_constructed tag \<longleftrightarrow> (case tag of Some t \<Rightarrow> t AND 0x20 \<noteq> 0 | None \<Rightarrow> False)"

text \<open>The loop over the children from \<open>off\<close> to \<open>stop\<close>, with the call for each child written out.\<close>

partial_function (option) parse_nodes :: "bytes \<Rightarrow> int \<Rightarrow> int \<Rightarrow> Asn1Node list option" where
  "parse_nodes data off stop =
     (if off < stop then
        Option.bind
          (if is_constructed (byte_at data off)
           then parse_nodes data (content_start data off) (node_end data off) else Some [])
          (\<lambda>children. Option.bind (parse_nodes data (node_end data off) stop)
            (\<lambda>rest. Some (Asn1Node (byte_at data off)
               (bytes_slice data (content_start data off) (node_end data off)) children (node_end data off) # rest)))
      else Some [])"

definition parseAsn1 :: "bytes \<Rightarrow> int \<Rightarrow> Asn1Node option" where
  "parseAsn1 data off =
     Option.bind
       (if is_constructed (byte_at data off)
        then parse_nodes data (content_start data off) (node_end data off) else Some [])
       (\<lambda>children. Some (Asn1Node (byte_at data off)
          (bytes_slice data (content_start data off) (node_end data off)) children (node_end data off)))"

section \<open>Object identifiers and names\<close>

fun oid_rest :: "bytes \<Rightarrow> 32 word \<Rightarrow> int list" where
  "oid_rest [] val = []"
| "oid_rest (b # bs) val =
     (let val' = push_bit 7 val OR of_nat (unat (b AND 0x7F))
      in if b AND 0x80 = 0 then sint val' # oid_rest bs 0 else oid_rest bs val')"

definition decodeOid :: "bytes \<Rightarrow> string" where
  "decodeOid data =
     (case data of
        [] \<Rightarrow> []
      | b # bs \<Rightarrow> join ''.'' (map show_int ([int (unat b div 40), int (unat b mod 40)] @ oid_rest bs 0)))"

definition OID_NAMES :: "string \<Rightarrow> string option" where
  "OID_NAMES = map_of [(''2.5.4.3'', ''CN''), (''2.5.4.6'', ''C''), (''2.5.4.7'', ''L''), (''2.5.4.8'', ''ST''),
     (''2.5.4.10'', ''O''), (''2.5.4.11'', ''OU'')]"

definition SIG_ALG_NAMES :: "string \<Rightarrow> string option" where
  "SIG_ALG_NAMES = map_of [(''1.2.840.113549.1.1.5'', ''SHA-1 with RSA''),
     (''1.2.840.113549.1.1.11'', ''SHA-256 with RSA''), (''1.2.840.113549.1.1.12'', ''SHA-384 with RSA''),
     (''1.2.840.10045.4.3.2'', ''ECDSA with SHA-256''), (''1.2.840.10045.4.3.3'', ''ECDSA with SHA-384'')]"

definition curveMap :: "string \<Rightarrow> string option" where
  "curveMap = map_of [(''1.2.840.10045.3.1.7'', ''P-256''), (''1.3.132.0.34'', ''P-384''), (''1.3.132.0.35'', ''P-521'')]"

definition dn_part :: "Asn1Node \<Rightarrow> string list" where
  "dn_part attr =
     (if length (an_children attr) \<ge> 2 then
        let oid = decodeOid (an_content (an_children attr ! 0))
        in [or_else (OID_NAMES oid) oid @ ''='' @ utf8_text (an_content (an_children attr ! 1))]
      else [])"

definition parseDn :: "Asn1Node \<Rightarrow> string" where
  "parseDn seq = join '', '' (concat (map (\<lambda>rdn. concat (map dn_part (an_children rdn))) (an_children seq)))"

section \<open>Results\<close>

text \<open>A computation that may throw and may never return.\<close>

type_synonym 'a run = "(js_error + 'a) option"

definition run_bind :: "'a run \<Rightarrow> ('a \<Rightarrow> 'b run) \<Rightarrow> 'b run" where
  "run_bind m f = Option.bind m (\<lambda>r. case r of Inl e \<Rightarrow> Some (Inl e) | Inr v \<Rightarrow> f v)"

definition returns :: "'a \<Rightarrow> 'a run" where "returns v = Some (Inr v)"

definition parsed :: "Asn1Node option \<Rightarrow> Asn1Node run" where
  "parsed n = map_option Inr n"

text \<open>\<open>node.children[i]\<close>, of which the member \<open>member\<close> is read at once.\<close>

definition child :: "Asn1Node \<Rightarrow> nat \<Rightarrow> string \<Rightarrow> Asn1Node run" where
  "child node i member =
     Some (case nth_opt (an_children node) i of
        Some c \<Rightarrow> Inr c
      | None \<Rightarrow> Inl (JsError (''Cannot read properties of undefined (reading '' @ [CHR 0x27] @ member @ [CHR 0x27] @ '')'')))"

section \<open>The parts of a certificate\<close>

definition san_names :: "Asn1Node \<Rightarrow> string list" where
  "san_names sanSeq = map (\<lambda>entry. utf8_text (an_content entry))
     (filter (\<lambda>entry. an_tag entry = Some 0x82) (an_children sanSeq))"

definition ext_sans :: "Asn1Node \<Rightarrow> string list run" where
  "ext_sans ext =
     (if length (an_children ext) < 2 then returns []
      else if decodeOid (an_content (an_children ext ! 0)) \<noteq> ''2.5.29.17'' then returns []
      else (case List.find (\<lambda>c. an_tag c = Some 0x04) (an_children ext) of
          None \<Rightarrow> returns []
        | Some octetString \<Rightarrow>
            run_bind (parsed (parseAsn1 (an_content octetString) 0)) (\<lambda>sanSeq. returns (san_names sanSeq))))"

fun exts_sans :: "Asn1Node list \<Rightarrow> string list run" where
  "exts_sans [] = returns []"
| "exts_sans (ext # exts) =
     run_bind (ext_sans ext) (\<lambda>sans. run_bind (exts_sans exts) (\<lambda>rest. returns (sans @ rest)))"

fun children_sans :: "Asn1Node list \<Rightarrow> string list run" where
  "children_sans [] = returns []"
| "children_sans (c # cs) =
     (if an_tag c \<noteq> Some 0xA3 then children_sans cs
      else run_bind (child c 0 ''children'') (\<lambda>extensionsSeq.
           run_bind (exts_sans (an_children extensionsSeq)) (\<lambda>sans.
           run_bind (children_sans cs) (\<lambda>rest. returns (sans @ rest)))))"

definition parseSans :: "Asn1Node \<Rightarrow> string list run" where
  "parseSans tbs = children_sans (an_children tbs)"

text \<open>\<open>Math.clz32(b) - 24\<close> of a byte.\<close>

definition byte_clz :: "nat \<Rightarrow> int" where
  "byte_clz b =
     (if b \<ge> 128 then 0 else if b \<ge> 64 then 1 else if b \<ge> 32 then 2 else if b \<ge> 16 then 3
      else if b \<ge> 8 then 4 else if b \<ge> 4 then 5 else if b \<ge> 2 then 6 else if b \<ge> 1 then 7 else 8)"

definition rsa_size :: "bytes \<Rightarrow> int" where
  "rsa_size modulusContent =
     (let modulusBytes = (if byte_at modulusContent 0 = Some 0 then drop 1 modulusContent else modulusContent);
          bitLength = 8 * int (length modulusBytes);
          leadingZeros = (case byte_at modulusBytes 0 of
              Some b \<Rightarrow> if b = 0 then 0 else byte_clz (unat b)
            | None \<Rightarrow> 8)
      in bitLength - leadingZeros)"

definition getPublicKeyInfo :: "Asn1Node \<Rightarrow> (string \<times> string) run" where
  "getPublicKeyInfo spki =
     run_bind (child spki 0 ''children'') (\<lambda>algSeq.
     run_bind (child algSeq 0 ''content'') (\<lambda>alg.
       let algOid = decodeOid (an_content alg)
       in if algOid = ''1.2.840.113549.1.1.1'' then
            run_bind (child spki 1 ''content'') (\<lambda>bitString.
            run_bind (parsed (parseAsn1 (drop 1 (an_content bitString)) 0)) (\<lambda>rsaSeq.
            run_bind (child rsaSeq 0 ''content'') (\<lambda>modulus.
              returns (''RSA'', show_int (rsa_size (an_content modulus))))))
          else if algOid = ''1.2.840.10045.2.1'' then
            (let curveOid = (if length (an_children algSeq) > 1 then decodeOid (an_content (an_children algSeq ! 1)) else [])
             in returns (''ECDSA'', or_else (curveMap curveOid) ''unknown''))
          else returns (''Unknown'', [])))"

definition hex_upper :: "nat \<Rightarrow> char" where
  "hex_upper n = ''0123456789ABCDEF'' ! (n mod 16)"

definition formatSerialNumber :: "bytes \<Rightarrow> string" where
  "formatSerialNumber bs = join '':'' (map (\<lambda>b. [hex_upper (unat b div 16), hex_upper (unat b)]) bs)"

section \<open>Times\<close>

definition substring :: "nat \<Rightarrow> nat \<Rightarrow> string \<Rightarrow> string" where
  "substring a b s = take (b - a) (drop a s)"

text \<open>\<open>parseInt(s)\<close> of a text of at most two characters, without a radix: a hexadecimal prefix leaves no digit.\<close>

definition two_digit_year :: "string \<Rightarrow> int option" where
  "two_digit_year s = (if s = ''0x'' \<or> s = ''0X'' then None else parseInt s)"

definition full_year :: "string \<Rightarrow> string" where
  "full_year s =
     (case two_digit_year s of
        Some year \<Rightarrow> show_int (if year \<ge> 50 then 1900 + year else 2000 + year)
      | None \<Rightarrow> ''NaN'')"

definition iso_time :: "string \<Rightarrow> string \<Rightarrow> string" where
  "iso_time year s = year @ ''-'' @ substring 0 2 s @ ''-'' @ substring 2 4 s @ ''T'' @ substring 4 6 s @ '':'' @
     substring 6 8 s @ '':'' @ substring 8 10 s @ ''Z''"

text \<open>The text from which \<open>parseTime\<close> makes its date.\<close>

definition time_text :: "Asn1Node \<Rightarrow> string" where
  "time_text node =
     (let str = utf8_text (an_content node)
      in if an_tag node = Some 0x17 then iso_time (full_year (substring 0 2 str)) (drop 2 str)
         else iso_time (substring 0 4 str) (drop 4 str))"

section \<open>The certificate\<close>

datatype ValidityStatus = CertValid | CertExpired | CertNotYetValid

record CertInfo =
  ci_issuer :: string
  ci_subject :: string
  ci_serialNumber :: string
  ci_notBefore :: "int option"
  ci_notAfter :: "int option"
  ci_sans :: "string list"
  ci_signatureAlgorithm :: string
  ci_publicKeyAlgorithm :: string
  ci_publicKeySize :: string
  ci_thumbprintSha256 :: string
  ci_validityStatus :: ValidityStatus
  ci_daysRemaining :: "int option"

text \<open>Dates are milliseconds, \<^const>\<open>None\<close> an invalid one: every comparison with it is false. \<open>date_of\<close> is
  the browser's reading of a date's text, \<open>sha256\<close> its digest.\<close>

definition validity_status :: "int \<Rightarrow> int option \<Rightarrow> int option \<Rightarrow> ValidityStatus" where
  "validity_status now notBefore notAfter =
     (if (case notAfter of Some t \<Rightarrow> now > t | None \<Rightarrow> False) then CertExpired
      else if (case notBefore of Some t \<Rightarrow> now < t | None \<Rightarrow> False) then CertNotYetValid
      else CertValid)"

definition certificate_info ::
  "(string \<Rightarrow> int option) \<Rightarrow> (bytes \<Rightarrow> bytes) \<Rightarrow> int \<Rightarrow> bytes \<Rightarrow> Asn1Node \<Rightarrow> CertInfo run" where
  "certificate_info date_of sha256 now der cert =
     run_bind (child cert 0 ''children'') (\<lambda>tbs.
     run_bind (child tbs 1 ''content'') (\<lambda>serial.
     run_bind (child tbs 3 ''children'') (\<lambda>issuer.
     run_bind (child tbs 4 ''children'') (\<lambda>validity.
     run_bind (child validity 0 ''content'') (\<lambda>before.
     run_bind (child validity 1 ''content'') (\<lambda>after.
     run_bind (child tbs 5 ''children'') (\<lambda>subject.
     run_bind (parseSans tbs) (\<lambda>sans.
     run_bind (child cert 1 ''children'') (\<lambda>sigAlgSeq.
     run_bind (child sigAlgSeq 0 ''content'') (\<lambda>sigAlg.
     run_bind (child tbs 6 ''children'') (\<lambda>spki.
     run_bind (getPublicKeyInfo spki) (\<lambda>(algorithm, size).
       let sigAlgOid = decodeOid (an_content sigAlg);
           notBefore = date_of (time_text before); notAfter = date_of (time_text after)
       in returns \<lparr>ci_issuer = parseDn issuer, ci_subject = parseDn subject,
            ci_serialNumber = formatSerialNumber (an_content serial),
            ci_notBefore = notBefore, ci_notAfter = notAfter, ci_sans = sans,
            ci_signatureAlgorithm = or_else (SIG_ALG_NAMES sigAlgOid) sigAlgOid,
            ci_publicKeyAlgorithm = algorithm, ci_publicKeySize = size,
            ci_thumbprintSha256 = formatSerialNumber (sha256 der),
            ci_validityStatus = validity_status now notBefore notAfter,
            ci_daysRemaining = map_option (\<lambda>t. (t - now) div 86400000) notAfter\<rparr>))))))))))))"

definition parseCertificate ::
  "(string \<Rightarrow> int option) \<Rightarrow> (bytes \<Rightarrow> bytes) \<Rightarrow> int \<Rightarrow> string \<Rightarrow> CertInfo run" where
  "parseCertificate date_of sha256 now pem =
     (case pemToDer pem of
        None \<Rightarrow> Some (Inl LibError)
      | Some der \<Rightarrow>
          run_bind (parsed (parseAsn1 der 0)) (certificate_info date_of sha256 now der))"

section \<open>Reading back what was encoded\<close>

text \<open>DER values, their encoding, and the nodes the reader should make of them from an offset on.\<close>

datatype der = Prim "8 word" bytes | Constr "8 word" "der list"

definition len_bytes :: "nat \<Rightarrow> bytes" where
  "len_bytes n =
     (if n < 128 then [of_nat n]
      else if n < 256 then [0x81, of_nat n]
      else if n < 65536 then [0x82, of_nat (n div 256), of_nat (n mod 256)]
      else [0x83, of_nat (n div 65536), of_nat (n div 256 mod 256), of_nat (n mod 256)])"

fun der_encode :: "der \<Rightarrow> bytes" where
  "der_encode (Prim t c) = t # len_bytes (length c) @ c"
| "der_encode (Constr t ds) =
     (let c = concat (map der_encode ds) in t # len_bytes (length c) @ c)"

definition der_tag :: "der \<Rightarrow> 8 word" where
  "der_tag d = (case d of Prim t c \<Rightarrow> t | Constr t ds \<Rightarrow> t)"

definition der_content :: "der \<Rightarrow> bytes" where
  "der_content d = (case d of Prim t c \<Rightarrow> c | Constr t ds \<Rightarrow> concat (map der_encode ds))"

fun der_ok :: "der \<Rightarrow> bool" where
  "der_ok (Prim t c) \<longleftrightarrow> t AND 0x20 = 0 \<and> length c < 2 ^ 24"
| "der_ok (Constr t ds) \<longleftrightarrow> t AND 0x20 \<noteq> 0 \<and> length (concat (map der_encode ds)) < 2 ^ 24 \<and> (\<forall>d \<in> set ds. der_ok d)"

definition der_start :: "int \<Rightarrow> der \<Rightarrow> int" where
  "der_start off d = off + 1 + int (length (len_bytes (length (der_content d))))"

definition der_end :: "int \<Rightarrow> der \<Rightarrow> int" where
  "der_end off d = off + int (length (der_encode d))"

fun node_at :: "int \<Rightarrow> der \<Rightarrow> Asn1Node" and nodes_at :: "int \<Rightarrow> der list \<Rightarrow> Asn1Node list" where
  "node_at off (Prim t c) = Asn1Node (Some t) c [] (der_end off (Prim t c))"
| "node_at off (Constr t ds) = Asn1Node (Some t) (concat (map der_encode ds))
     (nodes_at (der_start off (Constr t ds)) ds) (der_end off (Constr t ds))"
| "nodes_at off [] = []"
| "nodes_at off (d # ds) = node_at off d # nodes_at (der_end off d) ds"

section \<open>Lemmas\<close>

lemma shift_or:
  assumes "b < 2 ^ k"
  shows "push_bit k (of_nat m :: 32 word) OR of_nat b = of_nat (m * 2 ^ k + b)"
proof -
  have "(push_bit k (of_nat m :: 32 word)) AND of_nat b = 0"
  proof (rule bit_word_eqI)
    fix n
    have "\<not> bit b n" if "k \<le> n"
    proof -
      have "(2::nat) ^ k \<le> 2 ^ n" by (rule power_increasing [OF that]) simp
      with assms have "b < 2 ^ n" by (rule order_less_le_trans)
      then show ?thesis by (simp add: bit_iff_odd)
    qed
    then show "bit ((push_bit k (of_nat m :: 32 word)) AND of_nat b) n = bit (0 :: 32 word) n"
      by (auto simp: bit_simps)
  qed
  then have "push_bit k (of_nat m :: 32 word) + of_nat b = push_bit k (of_nat m) OR of_nat b"
    by (rule disjunctive_add_eq_or)
  then show ?thesis by (simp add: push_bit_eq_mult ac_simps)
qed

lemma sint_of_nat32: "n < 2 ^ 31 \<Longrightarrow> sint (of_nat n :: 32 word) = int n"
  by (subst signed_of_nat) (simp add: signed_take_bit_int_eq_self)

lemma byte_at_append: "0 \<le> k \<Longrightarrow> byte_at (pre @ bs) (int (length pre) + k) = byte_at bs k"
  by (auto simp: byte_at_def nth_append nat_add_distrib)

lemma long_length_append:
  "0 \<le> k \<Longrightarrow> long_length n (pre @ bs) (int (length pre) + k) len = long_length n bs k len"
proof (induction n arbitrary: k len)
  case (Suc n)
  have "int (length pre) + k + 1 = int (length pre) + (k + 1)" by simp
  moreover have "0 \<le> k + 1" using Suc.prems by simp
  ultimately show ?case using Suc by (simp only: long_length.simps byte_at_append)
qed simp

lemma num_len_bytes_append: "num_len_bytes (pre @ bs) (int (length pre)) = num_len_bytes bs 0"
  using byte_at_append [of 1 pre bs] by (simp add: num_len_bytes_def)

lemma header_length_append: "header_length (pre @ bs) (int (length pre)) = header_length bs 0"
  using byte_at_append [of 1 pre bs] long_length_append [of 2 _ pre bs]
  by (simp add: header_length_def split: option.split)

lemma byte_of_nat: "n < 256 \<Longrightarrow> unat (of_nat n :: 8 word) = n"
  by (simp add: unat_of_nat)

definition big_endian :: "bytes \<Rightarrow> nat" where
  "big_endian bs = foldl (\<lambda>a b. a * 256 + unat b) 0 bs"

lemma long_length_bytes:
  "long_length (length cs) (pre @ cs @ rest) (int (length pre)) (of_nat m) =
     of_nat (foldl (\<lambda>a b. a * 256 + unat b) m cs)"
proof (induction cs arbitrary: pre m)
  case (Cons c cs)
  have b: "byte_at (pre @ (c # cs) @ rest) (int (length pre)) = Some c"
    using byte_at_append [of 0 pre "(c # cs) @ rest"] by (simp add: byte_at_def)
  have o: "push_bit 8 (of_nat m :: 32 word) OR of_nat (unat c) = of_nat (m * 256 + unat c)"
    using shift_or [of "unat c" 8 m] byte_bound [of c] by simp
  show ?case
    using Cons.IH [of "pre @ [c]" "m * 256 + unat c"]
    by (simp only: list.size add_Suc_right add_0_right long_length.simps b option.case o foldl.simps) (simp add: ac_simps)
qed simp

lemma len_bytes_long:
  assumes "128 \<le> n" "n < 2 ^ 24"
  obtains cs where "len_bytes n = of_nat (128 + length cs) # cs" "length cs \<in> {1, 2, 3}" "big_endian cs = n"
proof -
  consider "n < 256" | "256 \<le> n" "n < 65536" | "65536 \<le> n" by linarith
  then show thesis
  proof cases
    case 1
    with assms show thesis by (intro that [of "[of_nat n]"]) (simp_all add: len_bytes_def big_endian_def byte_of_nat)
  next
    case 2
    have "n div 256 < 256" "n mod 256 < 256" using 2 by auto
    with 2 show thesis
      by (intro that [of "[of_nat (n div 256), of_nat (n mod 256)]"])
        (simp_all add: len_bytes_def big_endian_def byte_of_nat)
  next
    case 3
    have "n div 65536 < 256" "n div 256 mod 256 < 256" "n mod 256 < 256" using assms by auto
    moreover have "(n div 65536 * 256 + n div 256 mod 256) * 256 + n mod 256 = n"
    proof -
      have "n div 65536 = n div 256 div 256" by (simp add: div_mult2_eq [symmetric])
      then show ?thesis by simp
    qed
    ultimately show thesis using 3
      by (intro that [of "[of_nat (n div 65536), of_nat (n div 256 mod 256), of_nat (n mod 256)]"])
        (simp_all add: len_bytes_def big_endian_def byte_of_nat)
  qed
qed

lemma len_bytes_read:
  assumes "n < 2 ^ 24"
  shows "num_len_bytes (t # len_bytes n @ rest) 0 = length (len_bytes n) - 1"
    and "header_length (t # len_bytes n @ rest) 0 = int n"
proof -
  have "num_len_bytes (t # len_bytes n @ rest) 0 = length (len_bytes n) - 1 \<and>
    header_length (t # len_bytes n @ rest) 0 = int n"
  proof (cases "n < 128")
    case True
    then show ?thesis
      by (simp add: num_len_bytes_def header_length_def byte_at_def len_bytes_def byte_of_nat)
  next
    case False
    then obtain cs where cs: "len_bytes n = of_nat (128 + length cs) # cs" "length cs \<in> {1, 2, 3}" "big_endian cs = n"
      using len_bytes_long [OF _ assms] by (metis not_less)
    let ?L = "of_nat (128 + length cs) :: 8 word"
    have l: "unat ?L = 128 + length cs" using cs(2) by (intro byte_of_nat) auto
    have m: "unat (?L AND 0x7F) = length cs" using cs(2) by auto
    have b: "byte_at (t # len_bytes n @ rest) 1 = Some ?L" by (simp add: byte_at_def cs(1))
    have s: "sint (of_nat n :: 32 word) = int n" using assms by (intro sint_of_nat32) simp
    have "long_length (length cs) (t # len_bytes n @ rest) 2 0 = of_nat n"
      using long_length_bytes [of cs "[t, ?L]" rest 0] cs(3) unfolding cs(1) by (simp add: big_endian_def)
    with l m b s show ?thesis
      unfolding num_len_bytes_def header_length_def by (simp add: cs(1) del: of_nat_add)
  qed
  then show "num_len_bytes (t # len_bytes n @ rest) 0 = length (len_bytes n) - 1"
    and "header_length (t # len_bytes n @ rest) 0 = int n" by blast+
qed

lemma der_encode_eq: "der_encode d = der_tag d # len_bytes (length (der_content d)) @ der_content d"
  by (cases d) (simp_all add: der_tag_def der_content_def Let_def)

lemma der_content_length: "der_ok d \<Longrightarrow> length (der_content d) < 2 ^ 24"
  by (cases d) (simp_all add: der_content_def)

text \<open>What the reader sees of the header of a value in the middle of the data.\<close>

lemma header_read:
  fixes pre rest defines "off \<equiv> int (length pre)"
  assumes "der_ok d"
  shows "byte_at (pre @ der_encode d @ rest) off = Some (der_tag d)"
    and "content_start (pre @ der_encode d @ rest) off = der_start off d"
    and "node_end (pre @ der_encode d @ rest) off = der_end off d"
proof -
  note n = der_content_length [OF assms(2)]
  note r = len_bytes_read [OF n, of "der_tag d" "der_content d @ rest"]
  have e: "der_encode d @ rest = der_tag d # len_bytes (length (der_content d)) @ der_content d @ rest"
    by (simp add: der_encode_eq)
  have ne: "len_bytes (length (der_content d)) \<noteq> []" by (simp add: len_bytes_def)
  show "byte_at (pre @ der_encode d @ rest) off = Some (der_tag d)"
    using byte_at_append [of 0 pre "der_encode d @ rest"] by (simp add: byte_at_def e off_def)
  show c: "content_start (pre @ der_encode d @ rest) off = der_start off d"
    using r(1) ne unfolding content_start_def off_def num_len_bytes_append e der_start_def
    by (cases "len_bytes (length (der_content d))") simp_all
  show "node_end (pre @ der_encode d @ rest) off = der_end off d"
    using c r(2) unfolding node_end_def off_def header_length_append e
    by (simp add: der_start_def der_end_def der_encode_eq)
qed

lemma slice_middle: "bytes_slice (h @ c @ rest) (int (length h)) (int (length h + length c)) = c"
  by (simp add: bytes_slice_def slice_pos_def)

lemma content_read:
  fixes pre rest defines "off \<equiv> int (length pre)"
  shows "bytes_slice (pre @ der_encode d @ rest) (der_start off d) (der_end off d) = der_content d"
proof -
  let ?h = "pre @ der_tag d # len_bytes (length (der_content d))"
  have e: "pre @ der_encode d @ rest = ?h @ der_content d @ rest" by (simp add: der_encode_eq)
  have s: "der_start off d = int (length ?h)" by (simp add: der_start_def off_def)
  have t: "der_end off d = int (length ?h + length (der_content d))" by (simp add: der_end_def off_def der_encode_eq)
  show ?thesis unfolding e s t by (rule slice_middle)
qed

lemma der_end_length: "der_end (int (length pre)) d = int (length (pre @ der_encode d))"
  by (simp add: der_end_def)

text \<open>One value, and all up to the end of a container.\<close>

definition reads_node :: "der \<Rightarrow> bool" where
  "reads_node d \<longleftrightarrow> (\<forall>pre rest stop. der_end (int (length pre)) d \<le> stop \<longrightarrow>
     parse_nodes (pre @ der_encode d @ rest) (int (length pre)) stop =
       map_option (Cons (node_at (int (length pre)) d))
         (parse_nodes (pre @ der_encode d @ rest) (der_end (int (length pre)) d) stop))"

lemma parse_nodes_list:
  assumes "\<And>d. d \<in> set ds \<Longrightarrow> reads_node d"
  shows "parse_nodes (pre @ concat (map der_encode ds) @ rest) (int (length pre))
      (int (length (pre @ concat (map der_encode ds)))) = Some (nodes_at (int (length pre)) ds)"
  using assms
proof (induction ds arbitrary: pre)
  case Nil
  then show ?case by (subst parse_nodes.simps) simp
next
  case (Cons d ds)
  let ?stop = "int (length (pre @ concat (map der_encode (d # ds))))"
  have "parse_nodes (pre @ der_encode d @ concat (map der_encode ds) @ rest) (int (length pre)) ?stop =
      map_option (Cons (node_at (int (length pre)) d))
        (parse_nodes (pre @ der_encode d @ concat (map der_encode ds) @ rest) (der_end (int (length pre)) d) ?stop)"
    using Cons.prems [of d] by (simp add: reads_node_def der_end_length)
  also have "parse_nodes (pre @ der_encode d @ concat (map der_encode ds) @ rest) (der_end (int (length pre)) d) ?stop =
      Some (nodes_at (der_end (int (length pre)) d) ds)"
    using Cons.IH [of "pre @ der_encode d"] Cons.prems unfolding der_end_length by simp
  finally show ?case by simp
qed

lemma node_at_eq:
  "node_at off d = Asn1Node (Some (der_tag d)) (der_content d)
     (case d of Prim t c \<Rightarrow> [] | Constr t ds \<Rightarrow> nodes_at (der_start off d) ds) (der_end off d)"
  by (cases d) (simp_all add: der_tag_def der_content_def)

lemma children_read:
  assumes "der_ok d" "\<And>e. e \<in> (case d of Prim t c \<Rightarrow> {} | Constr t ds \<Rightarrow> set ds) \<Longrightarrow> reads_node e"
  shows "(if is_constructed (Some (der_tag d))
      then parse_nodes (pre @ der_encode d @ rest) (der_start (int (length pre)) d) (der_end (int (length pre)) d) else Some []) =
    Some (case d of Prim t c \<Rightarrow> [] | Constr t ds \<Rightarrow> nodes_at (der_start (int (length pre)) d) ds)"
proof (cases d)
  case (Prim t c)
  then show ?thesis using assms(1) by (simp add: is_constructed_def der_tag_def)
next
  case (Constr t ds)
  let ?h = "pre @ t # len_bytes (length (der_content d))"
  have e: "pre @ der_encode d @ rest = ?h @ concat (map der_encode ds) @ rest"
    by (simp add: der_encode_eq) (simp add: Constr der_tag_def der_content_def)
  have s: "der_start (int (length pre)) d = int (length ?h)" by (simp add: der_start_def)
  have t: "der_end (int (length pre)) d = int (length (?h @ concat (map der_encode ds)))"
    by (simp add: der_end_def der_encode_eq) (simp add: Constr der_content_def)
  have "parse_nodes (pre @ der_encode d @ rest) (der_start (int (length pre)) d) (der_end (int (length pre)) d) =
      Some (nodes_at (der_start (int (length pre)) d) ds)"
    unfolding e s t by (rule parse_nodes_list) (use assms(2) Constr in auto)
  then show ?thesis using assms(1) Constr by (simp add: is_constructed_def der_tag_def)
qed

lemma reads_node_step:
  assumes "der_ok d" "\<And>e. e \<in> (case d of Prim t c \<Rightarrow> {} | Constr t ds \<Rightarrow> set ds) \<Longrightarrow> reads_node e"
  shows "reads_node d"
  unfolding reads_node_def
proof (intro allI impI)
  fix pre rest :: bytes and stop
  let ?off = "int (length pre)" and ?data = "pre @ der_encode d @ rest"
  assume "der_end ?off d \<le> stop"
  moreover have "?off < der_end ?off d" by (simp add: der_end_def der_encode_eq)
  ultimately have lt: "?off < stop" by simp
  note h = header_read [OF assms(1), of pre rest] children_read [OF assms, of pre rest]
  show "parse_nodes ?data ?off stop = map_option (Cons (node_at ?off d)) (parse_nodes ?data (der_end ?off d) stop)"
    using lt by (subst parse_nodes.simps) (simp only: if_True h content_read Option.bind.bind_lunit node_at_eq, simp add: map_option_case split: option.split)
qed

lemma reads_node_ok: "der_ok d \<Longrightarrow> reads_node d"
  by (induction d) (rule reads_node_step; simp)+

lemma parseAsn1_read:
  assumes "der_ok d"
  shows "parseAsn1 (pre @ der_encode d @ rest) (int (length pre)) = Some (node_at (int (length pre)) d)"
proof -
  have "reads_node e" if "e \<in> (case d of Prim t c \<Rightarrow> {} | Constr t ds \<Rightarrow> set ds)" for e
    using that assms reads_node_ok by (cases d) auto
  note c = children_read [OF assms this, of pre rest]
  show ?thesis
    by (simp only: parseAsn1_def header_read [OF assms] c content_read Option.bind.bind_lunit node_at_eq)
qed

lemma parse_nodes_stuck:
  assumes "off < stop" "node_end data off = off"
  shows "parse_nodes data off stop = None"
proof (rule ccontr)
  assume "parse_nodes data off stop \<noteq> None"
  then obtain ns where ns: "parse_nodes data off stop = Some ns" by auto
  have "\<not> (d = data \<and> x = off \<and> e = stop)" if "parse_nodes d x e = Some ns" for d x e ns
    using that
  proof (rule parse_nodes.raw_induct [rotated])
    fix rec :: "bytes \<Rightarrow> int \<Rightarrow> int \<Rightarrow> Asn1Node list option" and d x e ns
    assume IH: "\<And>d x e ns. rec d x e = Some ns \<Longrightarrow> \<not> (d = data \<and> x = off \<and> e = stop)"
      and body: "(if x < e then
         Option.bind (if is_constructed (byte_at d x) then rec d (content_start d x) (node_end d x) else Some [])
           (\<lambda>children. Option.bind (rec d (node_end d x) e)
             (\<lambda>rest. Some (Asn1Node (byte_at d x)
                (bytes_slice d (content_start d x) (node_end d x)) children (node_end d x) # rest)))
       else Some []) = Some ns"
    show "\<not> (d = data \<and> x = off \<and> e = stop)"
    proof
      assume "d = data \<and> x = off \<and> e = stop"
      with body assms obtain rest where "rec data off stop = Some rest"
        by (auto simp: Option.bind_eq_Some_conv split: if_splits)
      then show False using IH by blast
    qed
  qed
  with ns show False by blast
qed

text \<open>Object identifiers: the first two numbers in one byte, the others in groups of seven bits.\<close>

function oid_groups :: "nat \<Rightarrow> nat list" where
  "oid_groups n = (if n < 128 then [n] else oid_groups (n div 128) @ [n mod 128])"
  by pat_completeness auto

termination
  by (relation "measure id") auto

declare oid_groups.simps [simp del]

definition oid_bytes :: "nat \<Rightarrow> bytes" where
  "oid_bytes n = map (\<lambda>g. of_nat (128 + g)) (butlast (oid_groups n)) @ [of_nat (last (oid_groups n))]"

definition encode_oid :: "nat \<Rightarrow> nat \<Rightarrow> nat list \<Rightarrow> bytes" where
  "encode_oid a b arcs = of_nat (40 * a + b) # concat (map oid_bytes arcs)"

lemma oid_groups_less: "g \<in> set (oid_groups n) \<Longrightarrow> g < 128"
proof (induction n rule: oid_groups.induct)
  case (1 n)
  show ?case
  proof (cases "n < 128")
    case True
    then show ?thesis using 1(2) by (simp add: oid_groups.simps [of n])
  next
    case False
    then show ?thesis using 1 by (subst (asm) (2) oid_groups.simps) auto
  qed
qed

lemma oid_groups_value: "foldl (\<lambda>a g. a * 128 + g) 0 (oid_groups n) = n"
proof (induction n rule: oid_groups.induct)
  case (1 n)
  then show ?case by (subst oid_groups.simps) simp
qed

lemma oid_groups_nonempty: "oid_groups n \<noteq> []"
  by (subst oid_groups.simps) simp

lemma oid_rest_group:
  assumes "g < 128"
  shows "oid_rest (of_nat (128 + g) # bs) (of_nat m) = oid_rest bs (of_nat (m * 128 + g))"
    and "oid_rest (of_nat g # bs) (of_nat m) = sint (of_nat (m * 128 + g) :: 32 word) # oid_rest bs 0"
proof -
  have all: "list_all (\<lambda>g. unat ((of_nat (128 + g) :: 8 word) AND 0x7F) = g \<and> (of_nat (128 + g) :: 8 word) AND 0x80 \<noteq> 0 \<and>
      unat ((of_nat g :: 8 word) AND 0x7F) = g \<and> (of_nat g :: 8 word) AND 0x80 = 0) [0 ..< 128]"
    by code_simp
  have g: "unat ((of_nat (128 + g) :: 8 word) AND 0x7F) = g" "(of_nat (128 + g) :: 8 word) AND 0x80 \<noteq> 0"
    "unat ((of_nat g :: 8 word) AND 0x7F) = g" "(of_nat g :: 8 word) AND 0x80 = 0"
    using all assms unfolding list_all_iff by auto
  have o: "push_bit 7 (of_nat m :: 32 word) OR of_nat g = of_nat (m * 128 + g)"
    using shift_or [of g 7 m] assms by simp
  show "oid_rest (of_nat (128 + g) # bs) (of_nat m) = oid_rest bs (of_nat (m * 128 + g))"
    unfolding oid_rest.simps Let_def using g(1,2) o by (simp del: of_nat_add)
  show "oid_rest (of_nat g # bs) (of_nat m) = sint (of_nat (m * 128 + g) :: 32 word) # oid_rest bs 0"
    unfolding oid_rest.simps Let_def using g(3,4) o by simp
qed

lemma oid_rest_groups:
  "list_all (\<lambda>g. g < 128) gs \<Longrightarrow>
     oid_rest (map (\<lambda>g. of_nat (128 + g)) gs @ bs) (of_nat m) = oid_rest bs (of_nat (foldl (\<lambda>a g. a * 128 + g) m gs))"
proof (induction gs arbitrary: m)
  case (Cons g gs)
  then show ?case using oid_rest_group(1) [of g _ m] by (simp del: of_nat_add oid_rest.simps)
qed simp

lemma oid_rest_arc: "n < 2 ^ 31 \<Longrightarrow> oid_rest (oid_bytes n @ bs) 0 = int n # oid_rest bs 0"
proof -
  assume n: "n < 2 ^ 31"
  let ?gs = "oid_groups n"
  have e: "?gs = butlast ?gs @ [last ?gs]" using oid_groups_nonempty [of n] by simp
  have l: "list_all (\<lambda>g. g < 128) (butlast ?gs)" "last ?gs < 128"
    using oid_groups_less [of _ n] oid_groups_nonempty [of n] last_in_set
    by (auto simp: list_all_iff dest: in_set_butlastD)
  have "foldl (\<lambda>a g. a * 128 + g) 0 (butlast ?gs) * 128 + last ?gs = n"
    using oid_groups_value [of n] by (subst (asm) e) simp
  with oid_rest_groups [OF l(1), of "[of_nat (last ?gs)] @ bs" 0] oid_rest_group(2) [OF l(2)] n
  show ?thesis by (simp add: oid_bytes_def sint_of_nat32 del: oid_rest.simps of_nat_add)
qed

lemma oid_rest_arcs: "list_all (\<lambda>n. n < 2 ^ 31) arcs \<Longrightarrow> oid_rest (concat (map oid_bytes arcs)) 0 = map int arcs"
  by (induction arcs) (simp_all add: oid_rest_arc)

lemma parseAsn1_encoded: "der_ok d \<Longrightarrow> parseAsn1 (der_encode d) 0 = Some (node_at 0 d)"
  using parseAsn1_read [of d "[]" "[]"] by simp

lemma big_endian_bounds:
  "unat b * 256 ^ length bs \<le> big_endian (b # bs) \<and> big_endian (b # bs) < (unat b + 1) * 256 ^ length bs"
proof -
  have "m * 256 ^ length bs \<le> foldl (\<lambda>a b. a * 256 + unat b) m bs \<and>
      foldl (\<lambda>a b. a * 256 + unat b) m bs < (m + 1) * 256 ^ length bs" for m
  proof (induction bs arbitrary: m)
    case (Cons c bs)
    let ?X = "256 ^ length bs" and ?F = "foldl (\<lambda>a b. a * 256 + unat b) (m * 256 + unat c) bs"
    have "(m * 256 + unat c + 1) * ?X \<le> ((m + 1) * 256) * ?X"
      using byte_bound [of c] by (intro mult_right_mono) simp_all
    moreover have "(m * 256) * ?X \<le> (m * 256 + unat c) * ?X" by (rule mult_right_mono) simp_all
    ultimately have "(m * 256) * ?X \<le> ?F \<and> ?F < ((m + 1) * 256) * ?X" using Cons.IH [of "m * 256 + unat c"] by linarith
    then show ?case by (simp only: foldl.simps list.size add_0_right add_Suc_right power_Suc mult.assoc)
  qed simp
  from this [of "unat b"] show ?thesis by (simp add: big_endian_def)
qed

lemma byte_clz_bounds:
  assumes "b \<noteq> (0 :: 8 word)"
  shows "0 \<le> byte_clz (unat b) \<and> byte_clz (unat b) \<le> 7 \<and> 2 ^ nat (7 - byte_clz (unat b)) \<le> unat b \<and>
    unat b + 1 \<le> 2 ^ nat (8 - byte_clz (unat b))"
  using assms byte_bound [of b] by (auto simp: byte_clz_def unat_gt_0 [symmetric])

lemma rsa_size_leading: "b \<noteq> 0 \<Longrightarrow> rsa_size (0 # b # bs) = rsa_size (b # bs)"
  by (simp add: rsa_size_def byte_at_def)

text \<open>The length a header of the long form stands for, and the loop over children with one that leads back to
  itself behind some that are in order.\<close>

lemma long_header:
  fixes pre rest defines "off \<equiv> int (length pre)"
  assumes "0 < length ls" "length ls < 128"
  shows "content_start (pre @ [t, of_nat (128 + length ls)] @ ls @ rest) off = off + 2 + int (length ls)"
    and "header_length (pre @ [t, of_nat (128 + length ls)] @ ls @ rest) off = sint (of_nat (big_endian ls) :: 32 word)"
proof -
  let ?L = "of_nat (128 + length ls) :: 8 word" and ?n = "length ls"
  let ?bs = "[t, ?L] @ ls @ rest"
  have l: "unat ?L = 128 + ?n" using assms(3) by (intro byte_of_nat) simp
  have "list_all (\<lambda>n. unat ((of_nat (128 + n) :: 8 word) AND 0x7F) = n) [0 ..< 128]" by code_simp
  then have m: "unat (?L AND 0x7F) = ?n" using assms(3) by (auto simp: list_all_iff)
  have b: "byte_at ?bs 1 = Some ?L" by (simp add: byte_at_def)
  show "content_start (pre @ ?bs) off = off + 2 + int ?n"
    using l m b unfolding off_def content_start_def num_len_bytes_append by (simp add: num_len_bytes_def del: of_nat_add append.simps)
  have "long_length ?n ?bs 2 (of_nat 0) = of_nat (big_endian ls)"
    using long_length_bytes [of ls "[t, ?L]" rest 0] by (simp add: big_endian_def)
  then show "header_length (pre @ ?bs) off = sint (of_nat (big_endian ls) :: 32 word)"
    using l m b unfolding off_def header_length_append by (simp add: header_length_def del: of_nat_add append.simps long_length.simps)
qed

lemma parse_nodes_behind:
  assumes "\<And>d. d \<in> set ds \<Longrightarrow> reads_node d" "int (length (pre @ concat (map der_encode ds))) \<le> stop"
    and "parse_nodes (pre @ concat (map der_encode ds) @ rest) (int (length (pre @ concat (map der_encode ds)))) stop = None"
  shows "parse_nodes (pre @ concat (map der_encode ds) @ rest) (int (length pre)) stop = None"
  using assms
proof (induction ds arbitrary: pre)
  case (Cons d ds)
  let ?data = "pre @ der_encode d @ concat (map der_encode ds) @ rest"
  have "parse_nodes ?data (der_end (int (length pre)) d) stop = None"
    using Cons.IH [of "pre @ der_encode d"] Cons.prems unfolding der_end_length by simp
  moreover have "der_end (int (length pre)) d \<le> stop" using Cons.prems(2) by (simp add: der_end_length)
  ultimately have "parse_nodes ?data (int (length pre)) stop = None"
    using Cons.prems(1) [of d] unfolding reads_node_def by simp
  then show ?case by simp
qed simp

lemma parse_backward_length:
  assumes "t AND 0x20 \<noteq> 0" "n < 2 ^ 24" "\<forall>d \<in> set ds. der_ok d" "length (concat (map der_encode ds)) < n"
    and "0 < length ls" "length ls < 128" "sint (of_nat (big_endian ls) :: 32 word) = - int (2 + length ls)"
  shows "parseAsn1 (t # len_bytes n @ concat (map der_encode ds) @ [tag, of_nat (128 + length ls)] @ ls @ rest) 0 = None"
proof -
  let ?h = "t # len_bytes n" and ?c = "concat (map der_encode ds)" and ?w = "[tag, of_nat (128 + length ls)] @ ls @ rest"
  let ?data = "?h @ ?c @ ?w" and ?pos = "int (length (?h @ ?c))" and ?stop = "int (length ?h) + int n"
  have w: "content_start ?data ?pos = ?pos + 2 + int (length ls)" "header_length ?data ?pos = - int (2 + length ls)"
    using long_header [OF assms(5,6), of "?h @ ?c" tag rest] assms(7) by simp_all
  then have again: "node_end ?data ?pos = ?pos" by (simp add: node_end_def)
  have lt: "?pos < ?stop" using assms(4) by simp
  have stuck: "parse_nodes ?data ?pos ?stop = None" using lt again by (rule parse_nodes_stuck)
  have "parse_nodes ?data (int (length ?h)) ?stop = None"
    using parse_nodes_behind [of ds ?h ?stop ?w] reads_node_ok assms(3) stuck lt by simp
  moreover have "content_start ?data 0 = int (length ?h)" "node_end ?data 0 = ?stop" "byte_at ?data 0 = Some t"
  proof -
    have "len_bytes n \<noteq> []" by (simp add: len_bytes_def)
    then show "content_start ?data 0 = int (length ?h)"
      using len_bytes_read(1) [OF assms(2), of t "?c @ ?w"] by (cases "len_bytes n") (simp_all add: content_start_def)
    then show "node_end ?data 0 = ?stop"
      using len_bytes_read(2) [OF assms(2), of t "?c @ ?w"] by (simp add: node_end_def)
    show "byte_at ?data 0 = Some t" by (simp add: byte_at_def)
  qed
  ultimately show ?thesis using assms(1) by (simp add: parseAsn1_def is_constructed_def)
qed

section \<open>Properties\<close>



text \<open>
  An object identifier is shown as it is when its numbers are below two to the thirty-first and the second
  one below forty; under the first number two larger second numbers exist, and these are shown wrongly.
\<close>

theorem decodeOid_round_trip:
  assumes "list_all (\<lambda>n. n < 2 ^ 31) arcs"
  shows "(a \<le> 2 \<and> b < 40 \<longrightarrow> decodeOid (encode_oid a b arcs) = join ''.'' (map (\<lambda>n. show_int (int n)) (a # b # arcs))) \<and>
    (40 \<le> b \<and> b < 48 \<longrightarrow> decodeOid (encode_oid 2 b arcs) = join ''.'' (map (\<lambda>n. show_int (int n)) (3 # (b - 40) # arcs)))"
proof -
  have "decodeOid (encode_oid a b arcs) =
      join ''.'' (map (\<lambda>n. show_int (int n)) ((40 * a + b) div 40 # (40 * a + b) mod 40 # arcs))" if "40 * a + b < 256" for a b
    using that oid_rest_arcs [OF assms] by (simp add: decodeOid_def encode_oid_def byte_of_nat comp_def del: of_nat_add of_nat_mult)
  from this [of a b] this [of 2 b] show ?thesis
    by (auto simp: div_add1_eq mod_add_eq le_div_geq le_mod_geq)
qed

theorem decodeOid_round_trip_witness:
  "decodeOid (encode_oid 1 2 [840, 10045]) = ''1.2.840.10045'' \<and> decodeOid (encode_oid 2 40 [1]) = ''3.0.1''"
proof -
  have j: "join ''.'' (map (\<lambda>n. show_int (int n)) [1, 2, 840, 10045]) = ''1.2.840.10045''"
    "join ''.'' (map (\<lambda>n. show_int (int n)) [3, 0, 1]) = ''3.0.1''"
    by (simp_all add: show_int_def show_nat.simps, code_simp+)
  have "decodeOid (encode_oid 1 2 [840, 10045]) = ''1.2.840.10045''"
    using decodeOid_round_trip [of "[840, 10045]" 1 2] j(1) by simp
  moreover have "decodeOid (encode_oid 2 40 [1]) = ''3.0.1''"
    using decodeOid_round_trip [of "[1]" 0 40] j(2) by simp
  ultimately show ?thesis ..
qed

text \<open>The size shown for an RSA key is the number of bits of its modulus, with or without a leading zero byte.\<close>

theorem rsa_size_bits:
  assumes "b \<noteq> 0"
  shows "\<exists>n. rsa_size (b # bs) = int (Suc n) \<and> rsa_size (0 # b # bs) = int (Suc n) \<and>
    2 ^ n \<le> big_endian (b # bs) \<and> big_endian (b # bs) < 2 ^ Suc n"
proof -
  let ?z = "byte_clz (unat b)" and ?k = "8 * length bs"
  note z = byte_clz_bounds [OF assms]
  define n where "n = nat (7 - ?z) + ?k"
  have e: "(256 :: nat) ^ length bs = 2 ^ ?k" by (simp add: power_mult)
  have "?z \<le> 7" using z by simp
  then have "nat (8 - ?z) = Suc (nat (7 - ?z))" by linarith
  then have "(2 :: nat) ^ n = 2 ^ nat (7 - ?z) * 256 ^ length bs"
    and "(2 :: nat) ^ Suc n = 2 ^ nat (8 - ?z) * 256 ^ length bs"
    unfolding n_def e by (simp_all add: power_add)
  moreover have "2 ^ nat (7 - ?z) * 256 ^ length bs \<le> unat b * 256 ^ length bs"
    "(unat b + 1) * 256 ^ length bs \<le> 2 ^ nat (8 - ?z) * 256 ^ length bs"
    using z by (intro mult_right_mono; simp)+
  ultimately have "2 ^ n \<le> big_endian (b # bs) \<and> big_endian (b # bs) < 2 ^ Suc n"
    using big_endian_bounds [of b bs] by linarith
  moreover have "rsa_size (b # bs) = int (Suc n)" "rsa_size (0 # b # bs) = int (Suc n)"
    using assms z by (simp_all add: rsa_size_def byte_at_def n_def)
  ultimately show ?thesis by blast
qed

theorem rsa_size_bits_witness: "\<exists>n. rsa_size [0x80, 1] = int (Suc n) \<and> rsa_size [0, 0x80, 1] = int (Suc n) \<and>
    2 ^ n \<le> big_endian [0x80, 1] \<and> big_endian [0x80, 1] < 2 ^ Suc n"
  by (rule rsa_size_bits) simp

text \<open>
  A certificate whose dates cannot be read is shown as valid, with no number of days; with dates in order the
  status says on which side of them the present lies.
\<close>

theorem validity_status_spec:
  "validity_status now None None = CertValid \<and>
   (notBefore \<le> notAfter \<longrightarrow>
      (validity_status now (Some notBefore) (Some notAfter) = CertValid \<longleftrightarrow> notBefore \<le> now \<and> now \<le> notAfter) \<and>
      (validity_status now (Some notBefore) (Some notAfter) = CertNotYetValid \<longleftrightarrow> now < notBefore) \<and>
      (validity_status now (Some notBefore) (Some notAfter) = CertExpired \<longleftrightarrow> notAfter < now))"
  by (auto simp: validity_status_def)

theorem validity_status_spec_witness:
  "validity_status 5 None None = CertValid \<and> validity_status 5 (Some 6) (Some 9) = CertNotYetValid"
  using validity_status_spec [of 5 6 9] by simp

end
