(* ===== verification/Front_Certificate.thy ===== *)
theory Front_Certificate
  imports Front_Asn1
begin

text \<open>
  The certificate view of \<open>nodns-frontend/src/components/cert-display.tsx\<close> against an abstract certificate: what
  a certificate says, its DER and PEM form, and what the view shows of it.
\<close>

section \<open>Abstract certificates\<close>

type_synonym oid = "nat \<times> nat \<times> nat list"

text \<open>An attribute of a name has the tag of its string type; a relative name has any number of attributes.\<close>

type_synonym attribute = "oid \<times> 8 word \<times> string"

text \<open>The digits of a year and the other parts of a time, without a year's first two digits and with them.\<close>

datatype x509_time =
  UtcTime nat nat string string string string string
| GeneralTime string string string string string string

text \<open>A key: on a named curve; RSA, with the parameters of its algorithm, the modulus and the exponent; or of
  another algorithm. An alternative name is a DNS name or of another kind. An extension may say whether it is
  critical.\<close>

datatype public_key = EcKey oid bytes | RsaKey "der list" "8 word" bytes bytes | OtherKey oid "der list" bytes

datatype alt_name = DnsName string | OtherName der

datatype cert_ext = AltNames "bool option" "alt_name list" | OtherExt oid "bool option" bytes

record x509 =
  x5_version :: bytes
  x5_serial :: bytes
  x5_sig_alg :: oid
  x5_sig_params :: "der list"
  x5_issuer :: "attribute list list"
  x5_not_before :: x509_time
  x5_not_after :: x509_time
  x5_subject :: "attribute list list"
  x5_key :: public_key
  x5_unique_ids :: "der list"
  x5_exts :: "cert_ext list option"
  x5_signature :: bytes

section \<open>Their encoding\<close>

definition oid_der :: "oid \<Rightarrow> der" where
  "oid_der p = (case p of (a, b, arcs) \<Rightarrow> Prim 6 (encode_oid a b arcs))"

definition attr_der :: "attribute \<Rightarrow> der" where
  "attr_der av = (case av of (p, t, v) \<Rightarrow> Constr 0x30 [oid_der p, Prim t (utf8 v)])"

definition name_der :: "attribute list list \<Rightarrow> der" where
  "name_der rdns = Constr 0x30 (map (\<lambda>avs. Constr 0x31 (map attr_der avs)) rdns)"

definition time_der :: "x509_time \<Rightarrow> der" where
  "time_der t =
     (case t of
        UtcTime a b mo d h mi s \<Rightarrow> Prim 0x17 (utf8 ([digit_char a, digit_char b] @ mo @ d @ h @ mi @ s @ ''Z''))
      | GeneralTime y mo d h mi s \<Rightarrow> Prim 0x18 (utf8 (y @ mo @ d @ h @ mi @ s @ ''Z'')))"

text \<open>The modulus is a signed number: a zero byte comes first where its own first byte would make it negative.\<close>

definition rsa_key_der :: "8 word \<Rightarrow> bytes \<Rightarrow> bytes \<Rightarrow> der" where
  "rsa_key_der b bs e = Constr 0x30 [Prim 2 ((if unat b \<ge> 128 then [0] else []) @ b # bs), Prim 2 e]"

definition key_der :: "public_key \<Rightarrow> der" where
  "key_der k =
     (case k of
        EcKey curve point \<Rightarrow> Constr 0x30 [Constr 0x30 [oid_der (1, 2, [840, 10045, 2, 1]), oid_der curve], Prim 3 (0 # point)]
      | RsaKey params b bs e \<Rightarrow> Constr 0x30 [Constr 0x30 (oid_der (1, 2, [840, 113549, 1, 1, 1]) # params),
          Prim 3 (0 # der_encode (rsa_key_der b bs e))]
      | OtherKey alg params point \<Rightarrow> Constr 0x30 [Constr 0x30 (oid_der alg # params), Prim 3 (0 # point)])"

definition alt_name_der :: "alt_name \<Rightarrow> der" where
  "alt_name_der n = (case n of DnsName s \<Rightarrow> Prim 0x82 (utf8 s) | OtherName d \<Rightarrow> d)"

definition names_der :: "alt_name list \<Rightarrow> der" where
  "names_der names = Constr 0x30 (map alt_name_der names)"

definition critical_der :: "bool option \<Rightarrow> der list" where
  "critical_der critical = (case critical of None \<Rightarrow> [] | Some c \<Rightarrow> [Prim 1 [if c then 0xFF else 0]])"

definition ext_der :: "cert_ext \<Rightarrow> der" where
  "ext_der e =
     (case e of
        AltNames critical names \<Rightarrow>
          Constr 0x30 (oid_der (2, 5, [29, 17]) # critical_der critical @ [Prim 4 (der_encode (names_der names))])
      | OtherExt p critical v \<Rightarrow> Constr 0x30 (oid_der p # critical_der critical @ [Prim 4 v]))"

definition tbs_der :: "x509 \<Rightarrow> der" where
  "tbs_der c = Constr 0x30
     ([Constr 0xA0 [Prim 2 (x5_version c)], Prim 2 (x5_serial c), Constr 0x30 (oid_der (x5_sig_alg c) # x5_sig_params c),
       name_der (x5_issuer c), Constr 0x30 [time_der (x5_not_before c), time_der (x5_not_after c)],
       name_der (x5_subject c), key_der (x5_key c)] @ x5_unique_ids c @
      (case x5_exts c of None \<Rightarrow> [] | Some exts \<Rightarrow> [Constr 0xA3 [Constr 0x30 (map ext_der exts)]]))"

definition x509_der :: "x509 \<Rightarrow> der" where
  "x509_der c = Constr 0x30 [tbs_der c, Constr 0x30 (oid_der (x5_sig_alg c) # x5_sig_params c), Prim 3 (0 # x5_signature c)]"

section \<open>What is read rightly\<close>

definition oid_text :: "oid \<Rightarrow> string" where
  "oid_text p = (case p of (a, b, arcs) \<Rightarrow> join ''.'' (map (\<lambda>n. show_int (int n)) (a # b # arcs)))"

text \<open>Object identifiers whose second number is below forty and the others below two to the thirty-first; every
  length below two to the twenty-fourth, also of the values inside of strings; times of the right widths.\<close>

definition oid_ok :: "oid \<Rightarrow> bool" where
  "oid_ok p \<longleftrightarrow> (case p of (a, b, arcs) \<Rightarrow> a \<le> 2 \<and> b < 40 \<and> list_all (\<lambda>n. n < 2 ^ 31) arcs)"

definition name_ok :: "attribute list list \<Rightarrow> bool" where
  "name_ok rdns \<longleftrightarrow> list_all (list_all (\<lambda>(p, t, v). oid_ok p)) rdns"

definition time_ok :: "x509_time \<Rightarrow> bool" where
  "time_ok t =
     (case t of
        UtcTime a b mo d h mi s \<Rightarrow> a < 10 \<and> b < 10 \<and> list_all (\<lambda>x. length x = 2) [mo, d, h, mi, s]
      | GeneralTime y mo d h mi s \<Rightarrow> length y = 4 \<and> list_all (\<lambda>x. length x = 2) [mo, d, h, mi, s])"

definition key_ok :: "public_key \<Rightarrow> bool" where
  "key_ok k =
     (case k of
        EcKey curve point \<Rightarrow> oid_ok curve
      | RsaKey params b bs e \<Rightarrow> b \<noteq> 0 \<and> der_ok (rsa_key_der b bs e)
      | OtherKey alg params point \<Rightarrow> oid_ok alg \<and> oid_text alg \<noteq> ''1.2.840.113549.1.1.1'' \<and> oid_text alg \<noteq> ''1.2.840.10045.2.1'')"

definition ext_ok :: "cert_ext \<Rightarrow> bool" where
  "ext_ok e =
     (case e of
        AltNames critical names \<Rightarrow> der_ok (names_der names) \<and>
          list_all (\<lambda>n. case n of DnsName s \<Rightarrow> True | OtherName d \<Rightarrow> der_tag d \<noteq> 0x82) names
      | OtherExt p critical v \<Rightarrow> oid_ok p \<and> oid_text p \<noteq> ''2.5.29.17'')"

definition x509_ok :: "x509 \<Rightarrow> bool" where
  "x509_ok c \<longleftrightarrow> der_ok (x509_der c) \<and> oid_ok (x5_sig_alg c) \<and> name_ok (x5_issuer c) \<and> name_ok (x5_subject c) \<and>
     time_ok (x5_not_before c) \<and> time_ok (x5_not_after c) \<and> key_ok (x5_key c) \<and>
     list_all (\<lambda>d. der_tag d \<noteq> 0xA3) (x5_unique_ids c) \<and>
     (case x5_exts c of None \<Rightarrow> True | Some exts \<Rightarrow> list_all ext_ok exts)"

section \<open>What should be shown\<close>

definition dn_text :: "attribute list list \<Rightarrow> string" where
  "dn_text rdns = join '', '' (map (\<lambda>(p, t, v).
     or_else (map_of [(''2.5.4.3'', ''CN''), (''2.5.4.6'', ''C''), (''2.5.4.7'', ''L''), (''2.5.4.8'', ''ST''),
       (''2.5.4.10'', ''O''), (''2.5.4.11'', ''OU'')] (oid_text p)) (oid_text p) @ ''='' @ v) (concat rdns))"

definition hex_text :: "bytes \<Rightarrow> string" where
  "hex_text bs = join '':'' (map (\<lambda>b. [''0123456789ABCDEF'' ! (unat b div 16), ''0123456789ABCDEF'' ! (unat b mod 16)]) bs)"

fun dated :: "x509_time \<Rightarrow> string" where
  "dated (UtcTime a b mo d h mi s) = (if a \<ge> 5 then ''19'' else ''20'') @ [digit_char a, digit_char b] @
     ''-'' @ mo @ ''-'' @ d @ ''T'' @ h @ '':'' @ mi @ '':'' @ s @ ''Z''"
| "dated (GeneralTime y mo d h mi s) = y @ ''-'' @ mo @ ''-'' @ d @ ''T'' @ h @ '':'' @ mi @ '':'' @ s @ ''Z''"

definition alt_dns :: "alt_name list \<Rightarrow> string list" where
  "alt_dns names = concat (map (\<lambda>n. case n of DnsName s \<Rightarrow> [s] | OtherName d \<Rightarrow> []) names)"

definition dns_names :: "cert_ext list option \<Rightarrow> string list" where
  "dns_names exts = concat (map (\<lambda>e. case e of AltNames critical names \<Rightarrow> alt_dns names | OtherExt p critical v \<Rightarrow> [])
     (nullish exts []))"

text \<open>The algorithm and size that should be shown of a key: of RSA, the number of bits of the modulus.\<close>

definition key_shown :: "public_key \<Rightarrow> string \<Rightarrow> string \<Rightarrow> bool" where
  "key_shown k algorithm bits \<longleftrightarrow>
     (case k of
        EcKey curve point \<Rightarrow> algorithm = ''ECDSA'' \<and>
          bits = or_else (map_of [(''1.2.840.10045.3.1.7'', ''P-256''), (''1.3.132.0.34'', ''P-384''),
            (''1.3.132.0.35'', ''P-521'')] (oid_text curve)) ''unknown''
      | RsaKey params b bs e \<Rightarrow> algorithm = ''RSA'' \<and>
          (\<exists>n. bits = show_int (int n) \<and> 0 < n \<and> 2 ^ (n - 1) \<le> big_endian (b # bs) \<and> big_endian (b # bs) < 2 ^ n)
      | OtherKey alg params point \<Rightarrow> algorithm = ''Unknown'' \<and> bits = [])"

section \<open>Lemmas\<close>

lemma oid_der_ok: "oid_der p = Prim 6 (case p of (a, b, arcs) \<Rightarrow> encode_oid a b arcs)"
  by (cases p) (simp add: oid_der_def)

lemma decode_oid:
  assumes "list_all (\<lambda>n. n < 2 ^ 31) arcs" "40 * a + b < 256"
  shows "decodeOid (encode_oid a b arcs) =
      join ''.'' (map (\<lambda>n. show_int (int n)) ((40 * a + b) div 40 # (40 * a + b) mod 40 # arcs))"
  using assms(2) oid_rest_arcs [OF assms(1)]
  by (simp add: decodeOid_def encode_oid_def byte_of_nat comp_def del: of_nat_add of_nat_mult)

lemma decode_oid_text: "oid_ok p \<Longrightarrow> decodeOid (case p of (a, b, arcs) \<Rightarrow> encode_oid a b arcs) = oid_text p"
  using decode_oid by (auto simp: oid_ok_def oid_text_def split: prod.splits)

lemmas decode_oid_triple = decode_oid_text [of "(a, b, arcs)" for a b arcs, unfolded prod.case]

lemma known_oids:
  "oid_ok (2, 5, [29, 17])" "oid_text (2, 5, [29, 17]) = ''2.5.29.17''"
  "oid_ok (1, 2, [840, 10045, 2, 1])" "oid_text (1, 2, [840, 10045, 2, 1]) = ''1.2.840.10045.2.1''"
  "oid_ok (1, 2, [840, 113549, 1, 1, 1])" "oid_text (1, 2, [840, 113549, 1, 1, 1]) = ''1.2.840.113549.1.1.1''"
  by (simp_all add: oid_ok_def oid_text_def show_int_def show_nat.simps, code_simp+)

text \<open>Nodes of values and their children.\<close>

lemma an_tag_node [simp]: "an_tag (node_at off d) = Some (der_tag d)"
  by (cases d) (simp_all add: der_tag_def)

lemma an_content_node [simp]: "an_content (node_at off d) = der_content d"
  by (cases d) (simp_all add: der_content_def)

fun nodes_off :: "int \<Rightarrow> der list \<Rightarrow> nat \<Rightarrow> int" where
  "nodes_off off (d # ds) (Suc i) = nodes_off (der_end off d) ds i"
| "nodes_off off ds i = off"

lemma nth_opt_nodes: "nth_opt (nodes_at off ds) i = map_option (node_at (nodes_off off ds i)) (nth_opt ds i)"
proof (induction ds arbitrary: off i)
  case (Cons d ds)
  then show ?case by (cases i) simp_all
qed simp

lemma child_node:
  "nth_opt ds i = Some d \<Longrightarrow>
     child (node_at off (Constr t ds)) i m = returns (node_at (nodes_off (der_start off (Constr t ds)) ds i) d)"
  by (simp add: child_def nth_opt_nodes returns_def)

lemma run_bind_returns [simp]: "run_bind (returns v) f = f v"
  by (simp add: run_bind_def returns_def)

lemma run_bind_value [simp]: "run_bind (Some (Inr v)) f = f v"
  by (simp add: run_bind_def)

text \<open>Names.\<close>

lemma OID_NAMES_table:
  "OID_NAMES = map_of [(''2.5.4.3'', ''CN''), (''2.5.4.6'', ''C''), (''2.5.4.7'', ''L''), (''2.5.4.8'', ''ST''),
     (''2.5.4.10'', ''O''), (''2.5.4.11'', ''OU'')]"
  by (simp only: OID_NAMES_def)

lemma attr_parts:
  "list_all (\<lambda>(p, t, v). oid_ok p) avs \<Longrightarrow>
     concat (map dn_part (nodes_at off (map attr_der avs))) =
       map (\<lambda>(p, t, v). or_else (OID_NAMES (oid_text p)) (oid_text p) @ ''='' @ v) avs"
  by (induction avs arbitrary: off)
    (auto simp: attr_der_def dn_part_def oid_der_ok decode_oid_triple utf8_text_utf8 Let_def split: prod.splits)

lemma name_parts:
  "name_ok rdns \<Longrightarrow>
     concat (map (\<lambda>rdn. concat (map dn_part (an_children rdn))) (nodes_at off (map (\<lambda>avs. Constr 0x31 (map attr_der avs)) rdns))) =
       map (\<lambda>(p, t, v). or_else (OID_NAMES (oid_text p)) (oid_text p) @ ''='' @ v) (concat rdns)"
  by (induction rdns arbitrary: off) (simp_all add: name_ok_def attr_parts)

lemma parseDn_name: "name_ok rdns \<Longrightarrow> parseDn (node_at off (name_der rdns)) = dn_text rdns"
  using name_parts [of rdns] unfolding OID_NAMES_table by (simp add: parseDn_def name_der_def dn_text_def)

text \<open>Hexadecimal texts and times.\<close>

lemma formatSerialNumber_hex: "formatSerialNumber bs = hex_text bs"
proof -
  have "unat b div 16 mod 16 = unat b div 16" for b :: "8 word"
    using byte_bound [of b] by (intro mod_less) linarith
  then show ?thesis by (simp add: formatSerialNumber_def hex_text_def hex_upper_def)
qed

lemma full_year_digits:
  assumes "a < 10" "b < 10"
  shows "full_year [digit_char a, digit_char b] = (if a \<ge> 5 then ''19'' else ''20'') @ [digit_char a, digit_char b]"
proof -
  let ?s = "[digit_char a, digit_char b]"
  have "digit_char b \<noteq> CHR ''x''" "digit_char b \<noteq> CHR ''X''"
    using digit_char_props(1) [OF assms(2)] by (auto simp: is_digit_def code_of_def)
  moreover have "parseInt ?s = Some (int (10 * a + b))"
    using parseInt_digits [of ?s "[]"] assms by (simp add: digits_val_def)
  ultimately have y: "two_digit_year ?s = Some (int (10 * a + b))" by (simp add: two_digit_year_def)
  have n: "show_nat (100 * c + (10 * a + b)) = show_nat c @ ?s" if "0 < c" for c
  proof -
    have d: "(100 * c + (10 * a + b)) div 10 = 10 * c + a" "(100 * c + (10 * a + b)) mod 10 = b"
      "(10 * c + a) div 10 = c" "(10 * c + a) mod 10 = a" using assms by presburger+
    have "show_nat (100 * c + (10 * a + b)) = show_nat (10 * c + a) @ [digit_char b]"
      using that by (subst show_nat.simps) (simp add: d)
    also have "show_nat (10 * c + a) = show_nat c @ [digit_char a]"
      using that assms by (subst show_nat.simps) (simp add: d)
    finally show ?thesis by simp
  qed
  have c: "show_nat 19 = ''19''" "show_nat 20 = ''20''" by code_simp+
  show ?thesis
  proof (cases "a \<ge> 5")
    case True
    then have "show_int (1900 + int (10 * a + b)) = show_nat (100 * 19 + (10 * a + b))" by (simp add: show_int_def nat_add_distrib nat_mult_distrib)
    with True show ?thesis using n [of 19] c by (simp add: full_year_def y)
  next
    case False
    then have "show_int (2000 + int (10 * a + b)) = show_nat (100 * 20 + (10 * a + b))" by (simp add: show_int_def nat_add_distrib nat_mult_distrib)
    moreover have "\<not> int (10 * a + b) \<ge> 50" using False assms by simp
    ultimately show ?thesis using False n [of 20] c by (simp add: full_year_def y)
  qed
qed

lemma iso_time_parts:
  "list_all (\<lambda>x. length x = 2) [mo, d, h, mi, s] \<Longrightarrow>
     iso_time y (mo @ d @ h @ mi @ s @ t) = y @ ''-'' @ mo @ ''-'' @ d @ ''T'' @ h @ '':'' @ mi @ '':'' @ s @ ''Z''"
  by (simp add: iso_time_def substring_def)

lemma time_text_dated:
  assumes "time_ok t"
  shows "time_text (node_at off (time_der t)) = dated t"
proof (cases t)
  case (UtcTime a b mo d h mi s)
  then have "time_text (node_at off (time_der t)) = iso_time (full_year [digit_char a, digit_char b]) (mo @ d @ h @ mi @ s @ ''Z'')"
    by (simp add: time_der_def time_text_def der_tag_def der_content_def utf8_text_utf8 substring_def Let_def)
  with UtcTime assms show ?thesis
    using iso_time_parts [of mo d h mi s "full_year [digit_char a, digit_char b]" "''Z''"]
    by (simp add: time_ok_def full_year_digits)
next
  case (GeneralTime y mo d h mi s)
  with assms have y: "length y = 4" "list_all (\<lambda>x. length x = 2) [mo, d, h, mi, s]" by (simp_all add: time_ok_def)
  then have "time_text (node_at off (time_der t)) = iso_time y (mo @ d @ h @ mi @ s @ ''Z'')"
    using GeneralTime by (simp add: time_der_def time_text_def der_tag_def der_content_def utf8_text_utf8 substring_def Let_def)
  with GeneralTime show ?thesis by (simp only: iso_time_parts [OF y(2)] dated.simps)
qed

text \<open>Alternative names.\<close>

lemma san_names_list:
  "list_all (\<lambda>n. case n of DnsName s \<Rightarrow> True | OtherName d \<Rightarrow> der_tag d \<noteq> 0x82) names \<Longrightarrow>
     map (\<lambda>entry. utf8_text (an_content entry))
       (filter (\<lambda>entry. an_tag entry = Some 0x82) (nodes_at off (map alt_name_der names))) = alt_dns names"
proof (induction names arbitrary: off)
  case (Cons n names)
  then show ?case
    by (cases n) (simp_all add: alt_dns_def alt_name_der_def der_tag_def [of "Prim _ _"] der_content_def [of "Prim _ _"] utf8_text_utf8)
qed (simp add: alt_dns_def)

lemma ext_sans_ext:
  assumes "ext_ok e"
  shows "ext_sans (node_at off (ext_der e)) =
    returns (case e of AltNames critical names \<Rightarrow> alt_dns names | OtherExt p critical v \<Rightarrow> [])"
proof (cases e)
  case (AltNames critical names)
  have "decodeOid (encode_oid 2 5 [29, 17]) = ''2.5.29.17''" using decode_oid_text [OF known_oids(1)] known_oids(2) by simp
  moreover have "san_names (node_at 0 (names_der names)) = alt_dns names"
    using san_names_list [of names] assms AltNames by (simp add: san_names_def names_der_def ext_ok_def)
  moreover have "parseAsn1 (der_encode (names_der names)) 0 = Some (node_at 0 (names_der names))"
    using assms AltNames by (intro parseAsn1_encoded) (simp add: ext_ok_def)
  ultimately show ?thesis
    using AltNames
    by (cases critical) (simp_all add: ext_sans_def ext_der_def critical_der_def oid_der_def parsed_def)
next
  case (OtherExt p critical v)
  then have "decodeOid (case p of (a, b, arcs) \<Rightarrow> encode_oid a b arcs) \<noteq> ''2.5.29.17''"
    using assms decode_oid_text [of p] by (simp add: ext_ok_def)
  with OtherExt show ?thesis
    by (cases critical) (simp_all add: ext_sans_def ext_der_def critical_der_def oid_der_ok)
qed

lemma exts_sans_exts:
  "list_all ext_ok exts \<Longrightarrow>
     exts_sans (nodes_at off (map ext_der exts)) =
       returns (concat (map (\<lambda>e. case e of AltNames critical names \<Rightarrow> alt_dns names | OtherExt p critical v \<Rightarrow> []) exts))"
  by (induction exts arbitrary: off) (simp_all add: ext_sans_ext)

lemma children_sans_skip:
  "list_all (\<lambda>d. der_tag d \<noteq> 0xA3) ds \<Longrightarrow>
     \<exists>off'. children_sans (nodes_at off (ds @ es)) = children_sans (nodes_at off' es)"
proof (induction ds arbitrary: off)
  case (Cons d ds)
  then show ?case using Cons.IH [of "der_end off d"] by simp
qed auto

lemma parseSans_names:
  assumes "list_all (\<lambda>d. der_tag d \<noteq> 0xA3) (x5_unique_ids c)" "case x5_exts c of None \<Rightarrow> True | Some exts \<Rightarrow> list_all ext_ok exts"
  shows "parseSans (node_at off (tbs_der c)) = returns (dns_names (x5_exts c))"
proof -
  let ?exts = "case x5_exts c of None \<Rightarrow> [] | Some exts \<Rightarrow> [Constr 0xA3 [Constr 0x30 (map ext_der exts)]]"
  let ?first = "[Constr 0xA0 [Prim 2 (x5_version c)], Prim 2 (x5_serial c), Constr 0x30 (oid_der (x5_sig_alg c) # x5_sig_params c),
       name_der (x5_issuer c), Constr 0x30 [time_der (x5_not_before c), time_der (x5_not_after c)],
       name_der (x5_subject c), key_der (x5_key c)]"
  have "list_all (\<lambda>d. der_tag d \<noteq> 0xA3) (?first @ x5_unique_ids c)"
    using assms(1) by (simp add: der_tag_def [of "Constr _ _"] der_tag_def [of "Prim _ _"] name_der_def key_der_def split: public_key.split)
  from children_sans_skip [OF this] obtain off'
    where "parseSans (node_at off (tbs_der c)) = children_sans (nodes_at off' ?exts)"
    by (metis Asn1Node.sel(3) append_assoc node_at.simps(2) parseSans_def tbs_der_def)
  moreover have "children_sans (nodes_at off' ?exts) = returns (dns_names (x5_exts c))"
    using assms(2)
    by (cases "x5_exts c")
      (simp_all add: dns_names_def child_def exts_sans_exts returns_def [symmetric] der_tag_def [of "Constr _ _"])
  ultimately show ?thesis by simp
qed

text \<open>Keys.\<close>

lemma rsa_size_shown:
  assumes "b \<noteq> 0"
  shows "\<exists>n. rsa_size ((if unat b \<ge> 128 then [0] else []) @ b # bs) = int n \<and> 0 < n \<and>
    2 ^ (n - 1) \<le> big_endian (b # bs) \<and> big_endian (b # bs) < 2 ^ n"
  using rsa_size_bits [OF assms, of bs] by (auto intro!: exI [of _ "Suc _"])

lemma getPublicKeyInfo_key:
  assumes "key_ok k"
  shows "\<exists>algorithm bits. getPublicKeyInfo (node_at off (key_der k)) = returns (algorithm, bits) \<and> key_shown k algorithm bits"
proof (cases k)
  case (EcKey curve point)
  have "decodeOid (encode_oid 1 2 [840, 10045, 2, 1]) = ''1.2.840.10045.2.1''"
    using decode_oid_text [OF known_oids(3)] known_oids(4) by simp
  then show ?thesis
    using assms EcKey
    by (simp add: getPublicKeyInfo_def key_der_def key_ok_def key_shown_def child_def oid_der_ok decode_oid_text curveMap_def returns_def)
next
  case (RsaKey params b bs e)
  have "decodeOid (encode_oid 1 2 [840, 113549, 1, 1, 1]) = ''1.2.840.113549.1.1.1''"
    using decode_oid_text [OF known_oids(5)] known_oids(6) by simp
  moreover have "parseAsn1 (der_encode (rsa_key_der b bs e)) 0 = Some (node_at 0 (rsa_key_der b bs e))"
    using assms RsaKey by (intro parseAsn1_encoded) (simp add: key_ok_def)
  ultimately have "getPublicKeyInfo (node_at off (key_der k)) =
      returns (''RSA'', show_int (rsa_size ((if unat b \<ge> 128 then [0] else []) @ b # bs)))"
    using RsaKey by (simp add: getPublicKeyInfo_def key_der_def child_def oid_der_ok parsed_def rsa_key_der_def)
  with RsaKey assms rsa_size_shown [of b bs] show ?thesis by (auto simp: key_shown_def key_ok_def)
next
  case (OtherKey alg params point)
  with assms show ?thesis
    by (simp add: getPublicKeyInfo_def key_der_def key_ok_def key_shown_def child_def oid_der_ok decode_oid_text returns_def)
qed

lemma certificate_info_shown:
  assumes "x509_ok c"
  obtains info where "certificate_info date_of sha256 now (der_encode (x509_der c)) (node_at off (x509_der c)) = returns info"
    "ci_issuer info = dn_text (x5_issuer c)" "ci_subject info = dn_text (x5_subject c)" "ci_serialNumber info = hex_text (x5_serial c)"
    "ci_notBefore info = date_of (dated (x5_not_before c))" "ci_notAfter info = date_of (dated (x5_not_after c))"
    "ci_sans info = dns_names (x5_exts c)"
    "ci_signatureAlgorithm info = or_else (SIG_ALG_NAMES (oid_text (x5_sig_alg c))) (oid_text (x5_sig_alg c))"
    "key_shown (x5_key c) (ci_publicKeyAlgorithm info) (ci_publicKeySize info)"
    "ci_thumbprintSha256 info = hex_text (sha256 (der_encode (x509_der c)))"
    "ci_validityStatus info = validity_status now (ci_notBefore info) (ci_notAfter info)"
    "ci_daysRemaining info = map_option (\<lambda>t. (t - now) div 86400000) (ci_notAfter info)"
proof -
  have o: "decodeOid (der_content (oid_der (x5_sig_alg c))) = oid_text (x5_sig_alg c)"
    using assms decode_oid_text by (simp add: oid_der_ok x509_ok_def der_content_def)
  note facts = parseSans_names [of c] parseDn_name [of "x5_issuer c"] parseDn_name [of "x5_subject c"] formatSerialNumber_hex
    time_text_dated [of "x5_not_before c"] time_text_dated [of "x5_not_after c"]
  obtain o0 o1 where x: "\<And>m. child (node_at off (x509_der c)) 0 m = returns (node_at o0 (tbs_der c))"
    "\<And>m. child (node_at off (x509_der c)) 1 m = returns (node_at o1 (Constr 0x30 (oid_der (x5_sig_alg c) # x5_sig_params c)))"
    unfolding x509_der_def by (simp add: child_node del: node_at.simps)
  obtain o2 o3 o4 o5 o6 where t: "\<And>m. child (node_at o0 (tbs_der c)) 1 m = returns (node_at o2 (Prim 2 (x5_serial c)))"
    "\<And>m. child (node_at o0 (tbs_der c)) 3 m = returns (node_at o3 (name_der (x5_issuer c)))"
    "\<And>m. child (node_at o0 (tbs_der c)) 4 m =
        returns (node_at o4 (Constr 0x30 [time_der (x5_not_before c), time_der (x5_not_after c)]))"
    "\<And>m. child (node_at o0 (tbs_der c)) 5 m = returns (node_at o5 (name_der (x5_subject c)))"
    "\<And>m. child (node_at o0 (tbs_der c)) 6 m = returns (node_at o6 (key_der (x5_key c)))"
    unfolding tbs_der_def by (simp add: child_node del: node_at.simps)
  obtain algorithm bits where k: "getPublicKeyInfo (node_at o6 (key_der (x5_key c))) = returns (algorithm, bits)"
    "key_shown (x5_key c) algorithm bits"
    using assms getPublicKeyInfo_key [of "x5_key c" o6] by (auto simp: x509_ok_def)
  let ?before = "date_of (dated (x5_not_before c))" and ?after = "date_of (dated (x5_not_after c))"
  have "certificate_info date_of sha256 now (der_encode (x509_der c)) (node_at off (x509_der c)) =
      returns \<lparr>ci_issuer = dn_text (x5_issuer c), ci_subject = dn_text (x5_subject c),
        ci_serialNumber = hex_text (x5_serial c), ci_notBefore = ?before, ci_notAfter = ?after,
        ci_sans = dns_names (x5_exts c),
        ci_signatureAlgorithm = or_else (SIG_ALG_NAMES (oid_text (x5_sig_alg c))) (oid_text (x5_sig_alg c)),
        ci_publicKeyAlgorithm = algorithm, ci_publicKeySize = bits,
        ci_thumbprintSha256 = hex_text (sha256 (der_encode (x509_der c))),
        ci_validityStatus = validity_status now ?before ?after, ci_daysRemaining = map_option (\<lambda>t. (t - now) div 86400000) ?after\<rparr>"
    using assms unfolding certificate_info_def x509_ok_def Let_def
    by (simp add: facts x t o k child_node der_content_def [of "Prim _ _"] del: node_at.simps der_encode.simps One_nat_def)
  from that [OF this] show thesis using k(2) by simp
qed

lemma SIG_ALG_NAMES_table:
  "SIG_ALG_NAMES = map_of [(''1.2.840.113549.1.1.5'', ''SHA-1 with RSA''),
     (''1.2.840.113549.1.1.11'', ''SHA-256 with RSA''), (''1.2.840.113549.1.1.12'', ''SHA-384 with RSA''),
     (''1.2.840.10045.4.3.2'', ''ECDSA with SHA-256''), (''1.2.840.10045.4.3.3'', ''ECDSA with SHA-384'')]"
  by (simp only: SIG_ALG_NAMES_def)

text \<open>A bound of a value's size that is computed without encoding it.\<close>

fun der_bound :: "der \<Rightarrow> nat" where
  "der_bound (Prim t c) = 5 + length c"
| "der_bound (Constr t ds) = 5 + sum_list (map der_bound ds)"

fun der_tags_ok :: "der \<Rightarrow> bool" where
  "der_tags_ok (Prim t c) \<longleftrightarrow> t AND 0x20 = 0"
| "der_tags_ok (Constr t ds) \<longleftrightarrow> t AND 0x20 \<noteq> 0 \<and> list_all der_tags_ok ds"

lemma length_der_encode: "length (der_encode d) \<le> der_bound d"
proof (induction d)
  case (Prim t c)
  then show ?case by (simp add: len_bytes_def)
next
  case (Constr t ds)
  have "length (concat (map der_encode ds)) \<le> sum_list (map der_bound ds)"
    using Constr by (induction ds) (simp_all, force)
  moreover have "length (len_bytes n) \<le> 4" for n by (simp add: len_bytes_def)
  ultimately show ?case by (simp add: Let_def) (metis add_le_mono)
qed

lemma der_bound_ok: "der_tags_ok d \<Longrightarrow> der_bound d < 2 ^ 24 \<Longrightarrow> der_ok d"
proof (induction d)
  case (Constr t ds)
  have "length (concat (map der_encode ds)) \<le> sum_list (map der_bound ds)"
    by (induction ds) (simp_all add: add_mono length_der_encode)
  moreover have "der_bound d \<le> sum_list (map der_bound ds)" if "d \<in> set ds" for d
    using that by (simp add: member_le_sum_list)
  ultimately show ?case using Constr by (fastforce simp: list_all_iff)
qed simp

section \<open>Properties\<close>

text \<open>
  C36. The view shows what a certificate says. This is for the certificates \<open>x509_ok\<close> admits: of version 2 or 3,
  with any attributes in their names, texts in Latin-1 encoded as UTF-8, two- or four-digit years, any algorithm
  parameters, any extensions in any order, any kinds of alternative names; with numbers in object identifiers
  below two to the thirty-first, the second below forty, and lengths below two to the twenty-fourth. In PEM form,
  such a certificate is read without an error. Shown are the names with the known labels, the serial number and
  the thumbprint in hexadecimal, the dates, the DNS names of its alternative names in order, the signature
  algorithm, the key's algorithm with the curve's name or the number of bits of an RSA modulus; and expired,
  not yet valid or valid as the dates say, with the whole days that remain.
\<close>

theorem parseCertificate_shows:
  assumes "x509_ok c" "label \<noteq> []" "CHR ''-'' \<notin> set label"
  shows "\<exists>info. parseCertificate date_of sha256 now (arrayBufferToPem (der_encode (x509_der c)) label) = Some (Inr info) \<and>
    (let notBefore = date_of (dated (x5_not_before c)); notAfter = date_of (dated (x5_not_after c));
         expired = (\<exists>t. notAfter = Some t \<and> t < now); early = (\<exists>t. notBefore = Some t \<and> now < t);
         algorithms = map_of [(''1.2.840.113549.1.1.5'', ''SHA-1 with RSA''),
           (''1.2.840.113549.1.1.11'', ''SHA-256 with RSA''), (''1.2.840.113549.1.1.12'', ''SHA-384 with RSA''),
           (''1.2.840.10045.4.3.2'', ''ECDSA with SHA-256''), (''1.2.840.10045.4.3.3'', ''ECDSA with SHA-384'')]
     in ci_issuer info = dn_text (x5_issuer c) \<and> ci_subject info = dn_text (x5_subject c) \<and>
       ci_serialNumber info = hex_text (x5_serial c) \<and> ci_notBefore info = notBefore \<and> ci_notAfter info = notAfter \<and>
       ci_sans info = dns_names (x5_exts c) \<and>
       ci_signatureAlgorithm info = or_else (algorithms (oid_text (x5_sig_alg c))) (oid_text (x5_sig_alg c)) \<and>
       key_shown (x5_key c) (ci_publicKeyAlgorithm info) (ci_publicKeySize info) \<and>
       ci_thumbprintSha256 info = hex_text (sha256 (der_encode (x509_der c))) \<and>
       ci_validityStatus info = (if expired then CertExpired else if early then CertNotYetValid else CertValid) \<and>
       ci_daysRemaining info = map_option (\<lambda>t. (t - now) div 86400000) notAfter)"
proof -
  have "der_ok (x509_der c)" using assms(1) by (simp add: x509_ok_def)
  then have p: "parseCertificate date_of sha256 now (arrayBufferToPem (der_encode (x509_der c)) label) =
      certificate_info date_of sha256 now (der_encode (x509_der c)) (node_at 0 (x509_der c))"
    using pemToDer_arrayBufferToPem [OF assms(2,3)] parseAsn1_encoded
    by (simp add: parseCertificate_def parsed_def)
  have v: "validity_status now nb na = (if \<exists>t. na = Some t \<and> t < now then CertExpired
      else if \<exists>t. nb = Some t \<and> now < t then CertNotYetValid else CertValid)" for nb na
    by (cases nb; cases na) (auto simp: validity_status_def)
  obtain info
    where i: "certificate_info date_of sha256 now (der_encode (x509_der c)) (node_at 0 (x509_der c)) = returns info"
      "ci_issuer info = dn_text (x5_issuer c)" "ci_subject info = dn_text (x5_subject c)" "ci_serialNumber info = hex_text (x5_serial c)"
      "ci_notBefore info = date_of (dated (x5_not_before c))" "ci_notAfter info = date_of (dated (x5_not_after c))"
      "ci_sans info = dns_names (x5_exts c)"
      "ci_signatureAlgorithm info = or_else (SIG_ALG_NAMES (oid_text (x5_sig_alg c))) (oid_text (x5_sig_alg c))"
      "key_shown (x5_key c) (ci_publicKeyAlgorithm info) (ci_publicKeySize info)"
      "ci_thumbprintSha256 info = hex_text (sha256 (der_encode (x509_der c)))"
      "ci_validityStatus info = validity_status now (ci_notBefore info) (ci_notAfter info)"
      "ci_daysRemaining info = map_option (\<lambda>t. (t - now) div 86400000) (ci_notAfter info)"
    by (rule certificate_info_shown [OF assms(1), of date_of sha256 now 0])
  show ?thesis
    using i(9) by (intro exI [of _ info]) (simp only: p i Let_def returns_def v SIG_ALG_NAMES_table)
qed

text \<open>A certificate with two attributes in one relative name, NULL parameters, an extension before the alternative
  names, an address among these, and a date of each form.\<close>

definition sample_certificate :: x509 where
  "sample_certificate = \<lparr>x5_version = [2], x5_serial = [1, 0xAB], x5_sig_alg = (1, 2, [840, 113549, 1, 1, 11]),
     x5_sig_params = [Prim 5 []], x5_issuer = [[((2, 5, [4, 10]), 0x13, ''LE''), ((2, 5, [4, 3]), 0x0C, ''R1'')]],
     x5_not_before = UtcTime 2 5 ''01'' ''02'' ''03'' ''04'' ''05'',
     x5_not_after = GeneralTime ''2050'' ''01'' ''02'' ''03'' ''04'' ''05'',
     x5_subject = [[((2, 5, [4, 3]), 0x0C, ''a.nostr'')]], x5_key = EcKey (1, 2, [840, 10045, 3, 1, 7]) [4, 5],
     x5_unique_ids = [], x5_exts = Some [OtherExt (2, 5, [29, 15]) (Some True) [3, 2, 5, 0xA0],
       AltNames None [OtherName (Prim 0x87 [1, 2, 3, 4]), DnsName ''a.nostr'']], x5_signature = [9]\<rparr>"

lemma sample_certificate_ok: "x509_ok sample_certificate"
proof -
  have e: "length (encode_oid a b arcs) = Suc (sum_list (map (\<lambda>n. length (oid_groups n)) arcs))" for a b arcs
    using oid_groups_nonempty by (induction arcs) (simp_all add: encode_oid_def oid_bytes_def)
  have u: "utf8 ''LE'' = [76, 69]" "utf8 ''R1'' = [82, 49]" "utf8 ''a.nostr'' = [97, 46, 110, 111, 115, 116, 114]"
    "length (utf8 ([digit_char 2, digit_char 5] @ ''01'' @ ''02'' @ ''03'' @ ''04'' @ ''05'' @ ''Z'')) = 13"
    "length (utf8 (''2050'' @ ''01'' @ ''02'' @ ''03'' @ ''04'' @ ''05'' @ ''Z'')) = 15"
    by code_simp+
  have t: "oid_text (2, 5, [29, 15]) = ''2.5.29.15''"
    by (simp add: oid_text_def show_int_def show_nat.simps) code_simp
  let ?names = "[OtherName (Prim 0x87 [1, 2, 3, 4]), DnsName ''a.nostr'']"
  have n: "der_ok (names_der ?names)"
    by (rule der_bound_ok; simp add: names_der_def alt_name_der_def u)
  have l: "length (der_encode (names_der ?names)) \<le> 26"
    using length_der_encode [of "names_der ?names"] by (simp add: names_der_def alt_name_der_def u)
  have "der_ok (x509_der sample_certificate)"
    using l by (intro der_bound_ok; simp add: sample_certificate_def x509_der_def tbs_der_def name_der_def key_der_def
      time_der_def ext_der_def critical_der_def attr_der_def oid_der_def e oid_groups.simps u(1-3) u(4,5) [simplified] del: der_encode.simps)
  with n show ?thesis
    by (simp add: x509_ok_def sample_certificate_def oid_ok_def name_ok_def time_ok_def key_ok_def ext_ok_def t der_tag_def)
qed

theorem parseCertificate_shows_witness:
  "\<exists>info. parseCertificate (\<lambda>s. None) id 5 (arrayBufferToPem (der_encode (x509_der sample_certificate)) ''CERTIFICATE'') = Some (Inr info) \<and>
     ci_issuer info = ''O=LE, CN=R1'' \<and> ci_sans info = [''a.nostr''] \<and> ci_publicKeySize info = ''P-256'' \<and>
     ci_validityStatus info = CertValid"
proof -
  have o: "oid_text (2, 5, [4, 3]) = ''2.5.4.3''" "oid_text (2, 5, [4, 10]) = ''2.5.4.10''"
    "oid_text (1, 2, [840, 10045, 3, 1, 7]) = ''1.2.840.10045.3.1.7''"
    by (simp_all add: oid_text_def show_int_def show_nat.simps, code_simp+)
  have "dn_text (x5_issuer sample_certificate) = ''O=LE, CN=R1''" "dns_names (x5_exts sample_certificate) = [''a.nostr'']"
    "x5_key sample_certificate = EcKey (1, 2, [840, 10045, 3, 1, 7]) [4, 5]"
    by (simp_all add: sample_certificate_def dn_text_def dns_names_def alt_dns_def o or_else_def truthy_def)
  moreover have "key_shown (EcKey (1, 2, [840, 10045, 3, 1, 7]) [4, 5]) algorithm bits \<longleftrightarrow> algorithm = ''ECDSA'' \<and> bits = ''P-256''" for algorithm bits
    by (simp add: key_shown_def o or_else_def truthy_def del: One_nat_def)
  moreover have "''CERTIFICATE'' \<noteq> []" "CHR ''-'' \<notin> set ''CERTIFICATE''" by simp_all
  note parseCertificate_shows [OF sample_certificate_ok this, of "\<lambda>s. None" id 5]
  ultimately show ?thesis unfolding Let_def by auto
qed

text \<open>
  C38. Some files are never finished. When the data is a constructed value of a length below two to the
  twenty-fourth, and in it, behind any number of values that are in order, stands one whose length, in the long form
  and read as a signed 32-bit number, is minus the size of that value's own header (such as the four bytes
  FF FF FF FA, which read as minus six), the reader goes back to where that value starts for ever: the view
  neither shows the certificate nor reports an error.
\<close>

theorem parseCertificate_hangs:
  assumes "label \<noteq> []" "CHR ''-'' \<notin> set label"
    and "t AND 0x20 \<noteq> 0" "n < 2 ^ 24" "\<forall>d \<in> set ds. der_ok d" "length (concat (map der_encode ds)) < n"
    and "0 < length ls" "length ls < 128" "sint (of_nat (big_endian ls) :: 32 word) = - int (2 + length ls)"
  shows "parseCertificate date_of sha256 now (arrayBufferToPem
      (t # len_bytes n @ concat (map der_encode ds) @ [tag, of_nat (128 + length ls)] @ ls @ rest) label) = None"
  using pemToDer_arrayBufferToPem [OF assms(1,2)] parse_backward_length [OF assms(3-9), of tag rest]
  by (simp add: parseCertificate_def parsed_def run_bind_def)

theorem parseCertificate_hangs_witness:
  "parseCertificate (\<lambda>s. None) id 5
     (arrayBufferToPem ([0x30, 6, 4, 0x84] @ [0xFF, 0xFF, 0xFF, 0xFA] @ [1]) ''CERTIFICATE'') = None"
proof -
  have s: "sint (of_nat (big_endian [0xFF, 0xFF, 0xFF, 0xFA]) :: 32 word) = - int (2 + length [0xFF :: 8 word, 0xFF, 0xFF, 0xFA])"
    by (simp add: big_endian_def)
  have "parseCertificate (\<lambda>s. None) id 5 (arrayBufferToPem (0x30 # len_bytes 6 @ concat (map der_encode []) @
      [4, of_nat (128 + length [0xFF :: 8 word, 0xFF, 0xFF, 0xFA])] @ [0xFF, 0xFF, 0xFF, 0xFA] @ [1]) ''CERTIFICATE'') = None"
    by (rule parseCertificate_hangs [OF _ _ _ _ _ _ _ _ s]) simp_all
  then show ?thesis by (simp add: len_bytes_def)
qed

end
