(* ===== verification/Front_Merge.thy ===== *)
theory Front_Merge
  imports Front_Api
begin

text \<open>
  The lists in which \<open>nodns-frontend/src\<close> shows records of several sources as one: \<open>app/domain/page.tsx\<close> and
  \<open>app/profile/page.tsx\<close> (three sources of a name), \<open>app/dashboard/page.tsx\<close> (the names of a key) and
  \<open>components/record-browser.tsx\<close> (everything). Each is a \<open>Map\<close> filled source by source: the first record of an
  identifier makes a row, a later one adds its source and its date.
\<close>

section \<open>Rows of a name\<close>

record DnsRecordRow =
  row_id :: string
  row_type :: string
  row_name :: string
  row_value :: string
  row_ttl :: int
  row_created_at :: int
  row_sources :: "string list"

definition makeRecordId :: "string \<Rightarrow> string \<Rightarrow> string \<Rightarrow> string" where
  "makeRecordId type name v = type @ '':'' @ name @ '':'' @ v"

definition add_source :: "string \<Rightarrow> string list \<Rightarrow> string list" where
  "add_source s sources = (if s \<in> set sources then sources else sources @ [s])"

definition record_row :: "string \<Rightarrow> string \<Rightarrow> string \<Rightarrow> string \<Rightarrow> int \<Rightarrow> int \<Rightarrow> DnsRecordRow" where
  "record_row source type name v ttl created =
     \<lparr>row_id = makeRecordId type name v, row_type = type, row_name = name, row_value = v, row_ttl = ttl,
      row_created_at = created, row_sources = [source]\<rparr>"

definition api_row :: "DnsRecord \<Rightarrow> DnsRecordRow" where
  "api_row r = record_row ''api'' (rec_type r) (or_else (Some (rec_name r)) ''@'') (rec_rdata r) (rec_ttl r) (rec_created_at r)"

definition nostr_row :: "NostrDnsRecord \<Rightarrow> DnsRecordRow" where
  "nostr_row r = record_row ''nostr'' (nr_type r) (nr_name r) (nr_value r) (nr_ttl r) (nr_created_at r)"

definition dns_row :: "DnsAnswer \<Rightarrow> DnsRecordRow" where
  "dns_row r = record_row ''dns'' (dns_type r) (or_else (Some (split_on (CHR ''.'') (dns_name r) ! 0)) ''@'')
     (dns_data r) (dns_ttl r) 0"

text \<open>What happens to the row that is there already: a DNS answer has no date.\<close>

definition add_dated :: "DnsRecordRow \<Rightarrow> DnsRecordRow \<Rightarrow> DnsRecordRow" where
  "add_dated existing r = existing\<lparr>row_sources := add_source (row_sources r ! 0) (row_sources existing),
     row_created_at := max (row_created_at existing) (row_created_at r)\<rparr>"

definition add_undated :: "DnsRecordRow \<Rightarrow> DnsRecordRow \<Rightarrow> DnsRecordRow" where
  "add_undated existing r = existing\<lparr>row_sources := add_source (row_sources r ! 0) (row_sources existing)\<rparr>"

definition merged_rows :: "DnsRecord list \<Rightarrow> NostrDnsRecord list \<Rightarrow> DnsAnswer list \<Rightarrow> (string, DnsRecordRow) jsmap" where
  "merged_rows api nostr dns =
     (let m1 = foldl (upsert row_id add_dated) [] (map api_row api);
          m2 = foldl (upsert row_id add_dated) m1 (map nostr_row nostr)
      in foldl (upsert row_id add_undated) m2 (map dns_row dns))"

definition newest_rows :: "(string, DnsRecordRow) jsmap \<Rightarrow> DnsRecordRow list" where
  "newest_rows m = js_sort (\<lambda>a b. row_created_at b - row_created_at a) (map_values m)"

text \<open>The domain page and the profile page.\<close>

definition domain_rows :: "UiTripartite \<Rightarrow> DnsRecordRow list" where
  "domain_rows t = newest_rows (merged_rows (sr_records (ut_api t)) (sr_records (ut_nostr t)) (sr_records (ut_dns t)))"

definition profile_rows :: "UiTripartite option \<Rightarrow> DnsRecordRow list" where
  "profile_rows tripartite =
     (case tripartite of
        None \<Rightarrow> []
      | Some t \<Rightarrow> newest_rows (merged_rows (sr_records (ut_api t)) (sr_records (ut_nostr t)) (sr_records (ut_dns t))))"

definition page_last_seen :: "DnsRecordRow list \<Rightarrow> int" where
  "page_last_seen records = foldl (\<lambda>m r. max m (row_created_at r)) 0 records"

section \<open>The names of a key\<close>

record FrontDomain =
  nd_name :: string
  nd_fqdn :: string
  nd_recordCount :: nat
  nd_lastSeen :: int
  nd_sources :: "string list"

text \<open>\<open>replace(`.${DEFAULT_ZONE}`, "")\<close>: the first occurrence is removed.\<close>

fun remove_first :: "string \<Rightarrow> string \<Rightarrow> string" where
  "remove_first p [] = []"
| "remove_first p (c # s) = (if startsWith (c # s) p then drop (length p) (c # s) else c # remove_first p s)"

definition zone_label :: "string \<Rightarrow> string" where
  "zone_label fqdn = remove_first (''.'' @ DEFAULT_ZONE) fqdn"

definition domain_entry :: "string \<Rightarrow> string \<Rightarrow> string \<Rightarrow> int \<Rightarrow> FrontDomain" where
  "domain_entry source fqdn name created =
     (let f = or_else (Some fqdn) (name @ ''.'' @ DEFAULT_ZONE)
      in \<lparr>nd_name = zone_label f, nd_fqdn = f, nd_recordCount = 1, nd_lastSeen = created, nd_sources = [source]\<rparr>)"

definition add_entry :: "FrontDomain \<Rightarrow> FrontDomain \<Rightarrow> FrontDomain" where
  "add_entry existing d = existing\<lparr>nd_recordCount := nd_recordCount existing + 1,
     nd_lastSeen := max (nd_lastSeen existing) (nd_lastSeen d),
     nd_sources := add_source (nd_sources d ! 0) (nd_sources existing)\<rparr>"

definition dashboard_domains :: "UiTripartite \<Rightarrow> FrontDomain list" where
  "dashboard_domains t =
     (let m1 = foldl (upsert nd_fqdn add_entry) []
            (map (\<lambda>r. domain_entry ''api'' (rec_fqdn r) (rec_name r) (rec_created_at r)) (sr_records (ut_api t)));
          m2 = foldl (upsert nd_fqdn add_entry) m1
            (map (\<lambda>r. domain_entry ''nostr'' (nr_fqdn r) (nr_name r) (nr_created_at r)) (sr_records (ut_nostr t)))
      in js_sort (\<lambda>a b. nd_lastSeen b - nd_lastSeen a) (map_values m2))"

datatype badge = BadgeExpired | BadgeGrace | BadgeActive

definition getStatusBadge :: "int \<Rightarrow> int \<Rightarrow> badge" where
  "getStatusBadge now lastSeen =
     (let age = now - lastSeen; oneYear = 365 * 86400
      in if age > oneYear then BadgeExpired else if 10 * age > oneYear * 9 then BadgeGrace else BadgeActive)"

section \<open>All records\<close>

record MergedRecord = DnsRecordRow +
  mr_fqdn :: string
  mr_npub :: string

definition merged_of_api :: "DnsRecord \<Rightarrow> MergedRecord" where
  "merged_of_api r = DnsRecordRow.extend
     (record_row ''api'' (rec_type r) (or_else (Some (rec_name r)) ''@'') (rec_rdata r) (rec_ttl r) (rec_created_at r))
     \<lparr>mr_fqdn = rec_fqdn r, mr_npub = rec_npub r\<rparr>"

definition merged_of_nostr :: "NostrDnsRecord \<Rightarrow> MergedRecord" where
  "merged_of_nostr r = DnsRecordRow.extend
     (record_row ''nostr'' (nr_type r) (or_else (Some (nr_name r)) ''@'') (nr_value r) (nr_ttl r) (nr_created_at r))
     \<lparr>mr_fqdn = nr_fqdn r, mr_npub = nr_pubkey r\<rparr>"

definition add_merged :: "MergedRecord \<Rightarrow> MergedRecord \<Rightarrow> MergedRecord" where
  "add_merged existing r = existing\<lparr>row_sources := add_source (row_sources r ! 0) (row_sources existing),
     row_created_at := max (row_created_at existing) (row_created_at r)\<rparr>"

definition merge_all :: "DnsRecord list \<Rightarrow> NostrDnsRecord list \<Rightarrow> MergedRecord list" where
  "merge_all apiResp nostrRecs =
     js_sort (\<lambda>a b. row_created_at b - row_created_at a)
       (map_values (foldl (upsert row_id add_merged)
          (foldl (upsert row_id add_merged) [] (map merged_of_api apiResp)) (map merged_of_nostr nostrRecs)))"

text \<open>The answer of the API for the browser: nothing when it is no success, an error when it fails.\<close>

record browser_state =
  rb_merged :: "MergedRecord list"
  rb_total :: nat
  rb_domains :: nat
  rb_types :: nat
  rb_groups :: "string list"
  rb_loading :: bool

definition browser_fetchRecords ::
  "js_error + DnsRecord list option \<Rightarrow> NostrDnsRecord list \<Rightarrow> browser_state \<Rightarrow> browser_state" where
  "browser_fetchRecords api nostrRecs st =
     (case api of
        Inl _ \<Rightarrow> st\<lparr>rb_merged := [], rb_loading := False\<rparr>
      | Inr recs \<Rightarrow>
          let merged = merge_all (nullish recs []) nostrRecs;
              npubs = js_uniq (map mr_npub merged); types = js_uniq (map row_type merged)
          in st\<lparr>rb_merged := merged, rb_total := length merged, rb_domains := length npubs, rb_types := length types,
               rb_groups := (if rb_groups st \<noteq> [] then rb_groups st else take 1 npubs), rb_loading := False\<rparr>)"

text \<open>The three toggles: a set with one member more or less.\<close>

definition toggle :: "string \<Rightarrow> string list \<Rightarrow> string list" where
  "toggle x prev = (if x \<in> set prev then filter (\<lambda>y. y \<noteq> x) prev else prev @ [x])"

definition receive_browser_event :: "(NostrEvent \<times> string) list \<Rightarrow> NostrEvent \<Rightarrow> string \<Rightarrow> (NostrEvent \<times> string) list" where
  "receive_browser_event prev event relay =
     (if list_ex (\<lambda>e. ev_id (fst e) = ev_id event) prev then prev else take 50 ((event, relay) # prev))"

datatype sort_order = SortRecent | SortAZ

definition record_shown :: "string \<Rightarrow> string \<Rightarrow> MergedRecord \<Rightarrow> bool" where
  "record_shown typeFilter recordFilter r =
     (let q = toLowerCase (trim recordFilter)
      in if typeFilter \<noteq> ''All'' \<and> row_type r \<noteq> typeFilter then False
         else if q = [] then True
         else str_includes (toLowerCase (mr_fqdn r)) q \<or> str_includes (toLowerCase (row_type r)) q \<or>
           str_includes (toLowerCase (row_value r)) q \<or> str_includes (toLowerCase (mr_npub r)) q)"

definition browser_filtered ::
  "(string \<Rightarrow> string \<Rightarrow> int) \<Rightarrow> string \<Rightarrow> string \<Rightarrow> sort_order \<Rightarrow> MergedRecord list \<Rightarrow> MergedRecord list" where
  "browser_filtered lc typeFilter recordFilter sortBy records =
     js_sort (\<lambda>a b. case sortBy of SortAZ \<Rightarrow> lc (mr_fqdn a) (mr_fqdn b) | SortRecent \<Rightarrow> row_created_at b - row_created_at a)
       (filter (record_shown typeFilter recordFilter) records)"

text \<open>The groups are kept in an object; its keys, owners or names with a dot, are in the order of their first
  record.\<close>

definition group_key :: "MergedRecord \<Rightarrow> string" where
  "group_key r = or_else (Some (mr_npub r)) (mr_fqdn r)"

definition push_group :: "(string, MergedRecord list) jsmap \<Rightarrow> MergedRecord \<Rightarrow> (string, MergedRecord list) jsmap" where
  "push_group groups r =
     (let key = group_key r; g1 = (if map_get groups key = None then map_set key [] groups else groups)
      in map_set key (nullish (map_get g1 key) [] @ [r]) g1)"

definition grouped :: "MergedRecord list \<Rightarrow> (string, MergedRecord list) jsmap" where
  "grouped filteredRecords = foldl push_group [] filteredRecords"

definition allExpanded :: "(string, MergedRecord list) jsmap \<Rightarrow> string list \<Rightarrow> bool" where
  "allExpanded groups expandedGroups \<longleftrightarrow>
     map_keys groups \<noteq> [] \<and> list_all (\<lambda>k. k \<in> set expandedGroups) (map_keys groups)"

definition toggleAllGroups :: "(string, MergedRecord list) jsmap \<Rightarrow> string list \<Rightarrow> string list" where
  "toggleAllGroups groups expandedGroups = (if allExpanded groups expandedGroups then [] else map_keys groups)"

text \<open>The look-up of the browser's second tab and of \<open>components/try-it.tsx\<close>, which differ in the space between
  the columns.\<close>

definition answer_line :: "string \<Rightarrow> DohAnswer \<Rightarrow> string" where
  "answer_line sep a = join sep [da_name a, nullish (FRONT_DNS_TYPES (da_type a)) (show_int (da_type a)),
     show_int (da_TTL a) @ ''s'', da_data a]"

definition lookup_text :: "string \<Rightarrow> (js_error \<Rightarrow> string) \<Rightarrow> doh \<Rightarrow> string \<Rightarrow> string \<Rightarrow> string" where
  "lookup_text sep show_error fetch dohFqdn dohType =
     (if trim dohFqdn = [] then ''Enter a domain name.''
      else case queryDoh fetch dohFqdn dohType None of
          Inl e \<Rightarrow> ''Query failed: '' @ show_error e
        | Inr resp \<Rightarrow>
            if nullish (dr_Answer resp) [] \<noteq> []
            then join [CHR 0x0A] (map (answer_line sep) (nullish (dr_Answer resp) []))
            else if dr_Status resp = 0 then ''Query succeeded but no records found.''
            else ''DNS error: '' @ nullish (DNS_STATUS_CODES (dr_Status resp)) (''Status '' @ show_int (dr_Status resp)))"

definition handleDnsQuery :: "(js_error \<Rightarrow> string) \<Rightarrow> doh \<Rightarrow> string \<Rightarrow> string \<Rightarrow> string" where
  "handleDnsQuery = lookup_text '' ''"

definition handleLookup :: "(js_error \<Rightarrow> string) \<Rightarrow> doh \<Rightarrow> string \<Rightarrow> string \<Rightarrow> string" where
  "handleLookup = lookup_text ''  ''"

section \<open>Lemmas\<close>

lemma absorbed_induct [consumes 1, case_names single snoc]:
  assumes "xs \<noteq> []" "\<And>x. P [x] x" "\<And>x xs. xs \<noteq> [] \<Longrightarrow> P xs (absorbed f xs) \<Longrightarrow> P (xs @ [x]) (f (absorbed f xs) x)"
  shows "P xs (absorbed f xs)"
  using assms(1)
proof (induction xs rule: rev_induct)
  case (snoc x xs)
  then show ?case using assms(2) [of x] assms(3) [of xs x] by (cases "xs = []") (simp_all add: absorbed_snoc)
qed simp

lemma upsert_cong: "(\<And>y. f y x = g y x) \<Longrightarrow> upsert key f m x = upsert key g m x"
  by (simp add: upsert_def split: option.split)

lemma foldl_upsert_cong:
  "(\<And>x y. x \<in> set xs \<Longrightarrow> f y x = g y x) \<Longrightarrow> foldl (upsert key f) m xs = foldl (upsert key g) m xs"
  by (induction xs arbitrary: m) (simp_all add: upsert_cong [of f _ g])

text \<open>The rows of one name as one list, in the order in which they are taken in.\<close>

definition source_rows :: "DnsRecord list \<Rightarrow> NostrDnsRecord list \<Rightarrow> DnsAnswer list \<Rightarrow> DnsRecordRow list" where
  "source_rows api nostr dns = map api_row api @ map nostr_row nostr @ map dns_row dns"

definition from_source :: "'a DnsRecordRow_scheme \<Rightarrow> string" where
  "from_source r = row_sources r ! 0"

definition add_row :: "DnsRecordRow \<Rightarrow> DnsRecordRow \<Rightarrow> DnsRecordRow" where
  "add_row existing r = (if from_source r = ''dns'' then add_undated existing r else add_dated existing r)"

lemma row_parts [simp]:
  "row_sources (api_row r) = [''api'']" "row_sources (nostr_row n) = [''nostr'']" "row_sources (dns_row d) = [''dns'']"
  "row_created_at (dns_row d) = 0" "from_source (api_row r) = ''api''" "from_source (nostr_row n) = ''nostr''"
  "from_source (dns_row d) = ''dns''"
  by (simp_all add: api_row_def nostr_row_def dns_row_def record_row_def from_source_def)

lemma merged_rows_eq: "merged_rows api nostr dns = foldl (upsert row_id add_row) [] (source_rows api nostr dns)"
proof -
  have "foldl (upsert row_id add_dated) m (map api_row api) = foldl (upsert row_id add_row) m (map api_row api)"
    "foldl (upsert row_id add_dated) m (map nostr_row nostr) = foldl (upsert row_id add_row) m (map nostr_row nostr)"
    "foldl (upsert row_id add_undated) m (map dns_row dns) = foldl (upsert row_id add_row) m (map dns_row dns)" for m
    by (rule foldl_upsert_cong, auto simp: add_row_def)+
  then show ?thesis by (simp add: merged_rows_def source_rows_def Let_def)
qed

lemma absorbed_rows:
  assumes "xs \<noteq> []" "list_all (\<lambda>r. row_sources r = [from_source r]) xs"
  shows "row_id (absorbed add_row xs) = row_id (hd xs) \<and> row_ttl (absorbed add_row xs) = row_ttl (hd xs) \<and>
    row_type (absorbed add_row xs) = row_type (hd xs) \<and> row_value (absorbed add_row xs) = row_value (hd xs) \<and>
    row_sources (absorbed add_row xs) = js_uniq (map from_source xs) \<and>
    row_created_at (absorbed add_row xs) =
      Max (set (map row_created_at (hd xs # filter (\<lambda>r. from_source r \<noteq> ''dns'') (tl xs))))"
  using assms
proof (induction rule: absorbed_induct [where f = add_row])
  case (single x)
  then show ?case by (simp add: js_uniq_def)
next
  case (snoc x xs)
  let ?a = "absorbed add_row xs" and ?D = "\<lambda>xs. set (map row_created_at (hd xs # filter (\<lambda>r. from_source r \<noteq> ''dns'') (tl xs)))"
  from snoc have x: "row_sources x ! 0 = from_source x" by simp
  have u: "js_uniq (map from_source (xs @ [x])) = add_source (from_source x) (js_uniq (map from_source xs))"
    by (simp add: js_uniq_snoc add_source_def)
  have h: "hd (xs @ [x]) = hd xs" "tl (xs @ [x]) = tl xs @ [x]" using snoc(1) by simp_all
  show ?case
  proof (cases "from_source x = ''dns''")
    case True
    then have "?D (xs @ [x]) = ?D xs" unfolding h by simp
    with True snoc u x h show ?thesis by (simp add: add_row_def add_undated_def del: list.map map_append)
  next
    case False
    then have "?D (xs @ [x]) = insert (row_created_at x) (?D xs)" unfolding h by auto
    moreover have "finite (?D xs)" "?D xs \<noteq> {}" by simp_all
    ultimately have "Max (?D (xs @ [x])) = max (Max (?D xs)) (row_created_at x)" by (metis Max_insert max.commute)
    with False snoc u x h show ?thesis by (simp add: add_row_def add_dated_def del: list.map map_append)
  qed
qed

lemma source_rows_single: "list_all (\<lambda>r. row_sources r = [from_source r]) (source_rows api nostr dns)"
  by (auto simp: source_rows_def list_all_iff)

lemma dated_rows:
  fixes api nostr dns
  defines "rows k \<equiv> filter (\<lambda>x. row_id x = k) (source_rows api nostr dns)"
    and "dated k \<equiv> filter (\<lambda>x. row_id x = k) (map api_row api @ map nostr_row nostr)"
  assumes "rows k \<noteq> []"
  shows "Max (set (map row_created_at (hd (rows k) # filter (\<lambda>r. from_source r \<noteq> ''dns'') (tl (rows k))))) =
    (if dated k = [] then 0 else Max (row_created_at ` set (dated k)))"
proof -
  let ?dns = "filter (\<lambda>x. row_id x = k) (map dns_row dns)"
  have r: "rows k = dated k @ ?dns" by (simp add: rows_def dated_def source_rows_def)
  have all: "\<forall>x \<in> set ?dns. from_source x = ''dns'' \<and> row_created_at x = 0" by auto
  moreover have "set (tl ?dns) \<subseteq> set ?dns" by (cases ?dns) auto
  ultimately have d: "filter (\<lambda>r. from_source r \<noteq> ''dns'') ?dns = []" "filter (\<lambda>r. from_source r \<noteq> ''dns'') (tl ?dns) = []"
    "row_created_at ` set ?dns \<subseteq> {0}"
    by (auto simp: filter_empty_conv)
  show ?thesis
  proof (cases "dated k")
    case Nil
    with assms(3) r obtain x xs where x: "?dns = x # xs" by (cases ?dns) auto
    with d(2,3) Nil r show ?thesis by simp
  next
    case (Cons x xs)
    have "list_all (\<lambda>r. from_source r \<noteq> ''dns'') (dated k)" by (auto simp: dated_def list_all_iff)
    with Cons have "filter (\<lambda>r. from_source r \<noteq> ''dns'') xs = xs" by (simp add: list_all_iff)
    with Cons d(1) r show ?thesis by simp
  qed
qed

text \<open>Every row is made of what has its identifier.\<close>

definition offered :: "UiTripartite \<Rightarrow> DnsRecordRow list" where
  "offered t = source_rows (sr_records (ut_api t)) (sr_records (ut_nostr t)) (sr_records (ut_dns t))"

definition row_for :: "UiTripartite \<Rightarrow> string \<Rightarrow> DnsRecordRow" where
  "row_for t k = absorbed add_row (filter (\<lambda>x. row_id x = k) (offered t))"

lemma domain_rows_eq:
  "domain_rows t = js_sort (\<lambda>a b. row_created_at b - row_created_at a) (map (row_for t) (js_uniq (map row_id (offered t))))"
  by (simp add: domain_rows_def newest_rows_def merged_rows_eq values_upsert row_for_def [abs_def] offered_def)

lemma row_for_facts:
  assumes "k \<in> row_id ` set (offered t)"
  defines "xs \<equiv> filter (\<lambda>x. row_id x = k) (offered t)"
  shows "xs \<noteq> []" "row_id (row_for t k) = k" "row_sources (row_for t k) = js_uniq (map from_source xs)"
    "row_created_at (row_for t k) = Max (set (map row_created_at (hd xs # filter (\<lambda>r. from_source r \<noteq> ''dns'') (tl xs))))"
proof -
  show ne: "xs \<noteq> []" using assms by (auto simp: filter_empty_conv)
  have "list_all (\<lambda>r. row_sources r = [from_source r]) xs"
    using source_rows_single by (auto simp: xs_def offered_def list_all_iff)
  note a = absorbed_rows [OF ne this]
  have "row_id (hd xs) = k" using hd_in_set [OF ne] by (simp add: xs_def)
  with a show "row_id (row_for t k) = k" "row_sources (row_for t k) = js_uniq (map from_source xs)"
    "row_created_at (row_for t k) = Max (set (map row_created_at (hd xs # filter (\<lambda>r. from_source r \<noteq> ''dns'') (tl xs))))"
    by (simp_all add: row_for_def xs_def)
qed

lemma mem_domain_rows: "r \<in> set (domain_rows t) \<longleftrightarrow> (\<exists>k \<in> row_id ` set (offered t). r = row_for t k)"
  by (auto simp: domain_rows_eq)

lemma domain_rows_ids: "map row_id (map (row_for t) (js_uniq (map row_id (offered t)))) = js_uniq (map row_id (offered t))"
  unfolding map_map by (rule map_idI) (simp add: row_for_facts(2))

lemma row_from_source:
  assumes "r \<in> set (domain_rows t)"
  shows "s \<in> set (row_sources r) \<longleftrightarrow> (\<exists>x \<in> set (offered t). row_id x = row_id r \<and> from_source x = s)"
  using assms row_for_facts by (auto simp: mem_domain_rows)

text \<open>The dashboard's entries in the same way.\<close>

definition entry_for :: "FrontDomain list \<Rightarrow> string \<Rightarrow> FrontDomain" where
  "entry_for xs k = absorbed add_entry (filter (\<lambda>x. nd_fqdn x = k) xs)"

lemma dashboard_domains_eq:
  "dashboard_domains t =
     (let xs = map (\<lambda>r. domain_entry ''api'' (rec_fqdn r) (rec_name r) (rec_created_at r)) (sr_records (ut_api t)) @
        map (\<lambda>r. domain_entry ''nostr'' (nr_fqdn r) (nr_name r) (nr_created_at r)) (sr_records (ut_nostr t))
      in js_sort (\<lambda>a b. nd_lastSeen b - nd_lastSeen a) (map (entry_for xs) (js_uniq (map nd_fqdn xs))))"
  unfolding dashboard_domains_def Let_def foldl_append [symmetric] values_upsert entry_for_def by simp

lemma absorbed_entries:
  assumes "xs \<noteq> []" "list_all (\<lambda>d. nd_recordCount d = 1) xs"
  shows "nd_fqdn (absorbed add_entry xs) = nd_fqdn (hd xs) \<and> nd_recordCount (absorbed add_entry xs) = length xs \<and>
    nd_lastSeen (absorbed add_entry xs) = Max (nd_lastSeen ` set xs)"
  using assms by (induction rule: absorbed_induct [where f = add_entry]) (simp_all add: add_entry_def max.commute)

lemma entry_for_facts:
  assumes "k \<in> nd_fqdn ` set xs" "list_all (\<lambda>d. nd_recordCount d = 1) xs"
  shows "nd_fqdn (entry_for xs k) = k" "nd_recordCount (entry_for xs k) = length (filter (\<lambda>x. nd_fqdn x = k) xs)"
    "nd_lastSeen (entry_for xs k) = Max (nd_lastSeen ` set (filter (\<lambda>x. nd_fqdn x = k) xs))"
proof -
  let ?f = "filter (\<lambda>x. nd_fqdn x = k) xs"
  have ne: "?f \<noteq> []" using assms(1) by (auto simp: filter_empty_conv)
  have "list_all (\<lambda>d. nd_recordCount d = 1) ?f" using assms(2) by (auto simp: list_all_iff)
  note a = absorbed_entries [OF ne this]
  have "nd_fqdn (hd ?f) = k" using hd_in_set [OF ne] by simp
  with a show "nd_fqdn (entry_for xs k) = k" "nd_recordCount (entry_for xs k) = length ?f"
    "nd_lastSeen (entry_for xs k) = Max (nd_lastSeen ` set ?f)" by (simp_all add: entry_for_def)
qed

text \<open>And those of the record browser.\<close>

lemma absorbed_merged:
  assumes "xs \<noteq> []" "list_all (\<lambda>r. row_sources r = [from_source r]) xs"
  shows "row_id (absorbed add_merged xs) = row_id (hd xs) \<and> mr_npub (absorbed add_merged xs) = mr_npub (hd xs) \<and>
    row_sources (absorbed add_merged xs) = js_uniq (map from_source xs)"
  using assms
proof (induction rule: absorbed_induct [where f = add_merged])
  case (single x)
  then show ?case by (simp add: js_uniq_def)
next
  case (snoc x xs)
  then show ?case by (simp add: add_merged_def add_source_def js_uniq_snoc)
qed

lemma push_group_eq: "push_group groups r = group_push group_key groups r"
proof (cases "map_get groups (group_key r)")
  case None
  then have "map_set k [x] (map_set k [] groups) = map_set k [x] groups" if "k = group_key r" for k and x :: MergedRecord
    using that by (induction groups) (auto simp: map_set_def map_get_def)
  with None show ?thesis by (simp add: push_group_def group_push_def Let_def nullish_def jsmap.get_put)
next
  case (Some rs)
  then show ?thesis by (simp add: push_group_def group_push_def Let_def)
qed

lemma grouped_eq: "grouped rs = foldl (group_push group_key) [] rs"
  by (simp add: grouped_def push_group_eq [abs_def])

section \<open>Properties\<close>

text \<open>
  The rows of a name are what the sources offer, each type, name and value once: a row lists exactly the sources
  that offer it, carries the latest date the API and the relays give it, and the newest row is first.
\<close>

theorem domain_rows_spec:
  fixes t
  defines "A \<equiv> map api_row (sr_records (ut_api t))" and "N \<equiv> map nostr_row (sr_records (ut_nostr t))"
    and "D \<equiv> map dns_row (sr_records (ut_dns t))"
  assumes "r \<in> set (domain_rows t)"
  shows "distinct (map row_id (domain_rows t)) \<and> row_id ` set (domain_rows t) = row_id ` set (A @ N @ D) \<and>
    sorted_wrt (\<lambda>a b. row_created_at b \<le> row_created_at a) (domain_rows t) \<and>
    (''api'' \<in> set (row_sources r) \<longleftrightarrow> row_id r \<in> row_id ` set A) \<and>
    (''nostr'' \<in> set (row_sources r) \<longleftrightarrow> row_id r \<in> row_id ` set N) \<and>
    (''dns'' \<in> set (row_sources r) \<longleftrightarrow> row_id r \<in> row_id ` set D) \<and>
    row_created_at r = (let dated = filter (\<lambda>x. row_id x = row_id r) (A @ N)
      in if dated = [] then 0 else Max (row_created_at ` set dated))"
proof -
  have S: "offered t = A @ N @ D" by (simp add: offered_def source_rows_def A_def N_def D_def)
  obtain k where k: "k \<in> row_id ` set (offered t)" "r = row_for t k" using assms(4) by (auto simp: mem_domain_rows)
  have sel: "(\<exists>x \<in> set (A @ N @ D). P x \<and> from_source x = ''api'') \<longleftrightarrow> (\<exists>x \<in> set A. P x)"
    "(\<exists>x \<in> set (A @ N @ D). P x \<and> from_source x = ''nostr'') \<longleftrightarrow> (\<exists>x \<in> set N. P x)"
    "(\<exists>x \<in> set (A @ N @ D). P x \<and> from_source x = ''dns'') \<longleftrightarrow> (\<exists>x \<in> set D. P x)" for P
    by (auto simp: A_def N_def D_def)
  have im: "(\<exists>x \<in> S. row_id x = k) \<longleftrightarrow> k \<in> row_id ` S" for k and S :: "DnsRecordRow set" by auto
  note src = row_from_source [OF assms(4), unfolded S]
  have "distinct (map row_id (domain_rows t))" "row_id ` set (domain_rows t) = row_id ` set (A @ N @ D)"
    unfolding domain_rows_eq distinct_map_js_sort set_js_sort domain_rows_ids
    using arg_cong [OF domain_rows_ids [of t], of set] by (simp_all add: S image_image image_Un del: map_map)
  moreover have "sorted_wrt (\<lambda>a b. row_created_at b \<le> row_created_at a) (domain_rows t)"
    using comparator.sorted_js_sort [OF comparator_cmp_desc [of row_created_at]] unfolding domain_rows_eq cmp_desc_def by simp
  moreover have "row_created_at r = (let dated = filter (\<lambda>x. row_id x = row_id r) (A @ N)
      in if dated = [] then 0 else Max (row_created_at ` set dated))"
    using row_for_facts [OF k(1)] k(2) dated_rows [OF row_for_facts(1) [OF k(1), unfolded offered_def]]
    by (simp add: A_def N_def Let_def offered_def)
  moreover note src [of "''api''", unfolded sel im] src [of "''nostr''", unfolded sel im] src [of "''dns''", unfolded sel im]
  ultimately show ?thesis by simp
qed

definition sample_tripartite :: UiTripartite where
  "sample_tripartite =
     \<lparr>ut_api = with_meta [] False \<lparr>sr_source = ''api'', sr_status = Ok, sr_records =
        [\<lparr>rec_npub = ''n'', rec_name = [], rec_fqdn = ''a.nodns.shop'', rec_type = ''A'', rec_ttl = 60, rec_rdata = ''1.2.3.4'',
          rec_created_at = 5\<rparr>], sr_error = None\<rparr>,
      ut_nostr = with_meta [] True \<lparr>sr_source = ''nostr'', sr_status = Ok, sr_records =
        [\<lparr>nr_type = ''A'', nr_name = ''@'', nr_value = ''1.2.3.4'', nr_ttl = 60, nr_fqdn = ''a.nodns.shop'', nr_pubkey = ''p'',
          nr_eventId = ''e'', nr_created_at = 9\<rparr>], sr_error = None\<rparr>,
      ut_dns = with_meta [] False \<lparr>sr_source = ''dns'', sr_status = Ok, sr_records =
        [\<lparr>dns_name = ''a.nodns.shop'', dns_type = ''1'', dns_ttl = 60, dns_data = ''1.2.3.4''\<rparr>], sr_error = None\<rparr>\<rparr>"

theorem domain_rows_spec_witness:
  "map (\<lambda>r. (row_id r, row_sources r, row_created_at r)) (domain_rows sample_tripartite) =
     [(''A:@:1.2.3.4'', [''api'', ''nostr''], 9), (''1:a:1.2.3.4'', [''dns''], 0)] \<and>
   distinct (map row_id (domain_rows sample_tripartite))"
proof -
  have m: "map (\<lambda>r. (row_id r, row_sources r, row_created_at r)) (domain_rows sample_tripartite) =
     [(''A:@:1.2.3.4'', [''api'', ''nostr''], 9), (''1:a:1.2.3.4'', [''dns''], 0)]" by code_simp
  then obtain r where "r \<in> set (domain_rows sample_tripartite)" by (cases "domain_rows sample_tripartite") auto
  from domain_rows_spec [OF this] m show ?thesis by simp
qed

text \<open>
  C39. DNS confirms no row of a record whose type is written in letters: provided the types that the API and the relays
  give start with a letter, no row that a DNS answer makes is also the API's or the relays', because the type of an
  answer is a number.
\<close>

theorem dns_rows_alone:
  fixes L query api doh base params zone
  defines "t \<equiv> front_fetchTripartiteRecords L query api doh base params zone"
  assumes "list_all (\<lambda>r. letter_type (rec_type r)) (sr_records (ut_api t))"
    and "list_all (\<lambda>r. letter_type (nr_type r)) (sr_records (ut_nostr t))"
    and "r \<in> set (domain_rows t)" "''dns'' \<in> set (row_sources r)"
  shows "row_sources r = [''dns'']"
proof -
  have first: "\<exists>n. row_id x = show_int n @ '':'' @ row_name x @ '':'' @ row_value x" if "x \<in> set (offered t)" "from_source x = ''dns''" for x
  proof -
    from that obtain a where a: "a \<in> set (sr_records (ut_dns t))" "x = dns_row a" by (auto simp: offered_def source_rows_def)
    obtain n where "dns_type a = show_int n"
      using a(1) unfolding t_def front_fetchTripartiteRecords_def fetchTripartiteRecords_def Let_def
      by (auto simp: with_meta_def SourceResult.defs split: if_splits dest: fetchDns_type)
    with a(2) show ?thesis by (auto simp: dns_row_def record_row_def makeRecordId_def)
  qed
  have let_type: "letter_type (row_id x)" if "x \<in> set (offered t)" "from_source x \<noteq> ''dns''" for x
    using that assms(2,3) by (auto simp: offered_def source_rows_def list_all_iff api_row_def nostr_row_def record_row_def
        makeRecordId_def letter_type_def dns_row_def from_source_def)
  have number: "\<not> letter_type (show_int n @ s)" for n s
    using show_int_hd [of n] show_int_nonempty [of n]
    by (auto simp: letter_type_def is_lower_def is_upper_def is_digit_def code_of_def)
  obtain y where "y \<in> set (offered t)" "row_id y = row_id r" "from_source y = ''dns''"
    using assms(5) row_from_source [OF assms(4)] by blast
  then obtain n s where "row_id r = show_int n @ s" using first [of y] by auto
  then have "\<not> letter_type (row_id r)" using number by simp
  then have "from_source x = ''dns''" if "x \<in> set (offered t)" "row_id x = row_id r" for x
    using that let_type [of x] by auto
  then have "s = ''dns''" if "s \<in> set (row_sources r)" for s
    using that unfolding row_from_source [OF assms(4)] by fastforce
  with assms(5) have "set (row_sources r) = {''dns''}" by blast
  moreover obtain k where "k \<in> row_id ` set (offered t)" "r = row_for t k" using assms(4) by (auto simp: mem_domain_rows)
  then have "distinct (row_sources r)" using row_for_facts(3) by simp
  ultimately show ?thesis by (cases "row_sources r"; cases "tl (row_sources r)") auto
qed

theorem dns_rows_alone_witness:
  "row_sources (hd (filter (\<lambda>r. ''dns'' \<in> set (row_sources r))
     (domain_rows (front_fetchTripartiteRecords example_lib example_query example_api example_doh
        ''https://nodns.shop'' example_params None)))) = [''dns'']"
proof -
  let ?t = "front_fetchTripartiteRecords example_lib example_query example_api example_doh ''https://nodns.shop'' example_params None"
  let ?rs = "filter (\<lambda>r. ''dns'' \<in> set (row_sources r)) (domain_rows ?t)"
  have "?rs \<noteq> []" by code_simp
  then have "hd ?rs \<in> set ?rs" by (rule hd_in_set)
  then have "hd ?rs \<in> set (domain_rows ?t)" "''dns'' \<in> set (row_sources (hd ?rs))"
    by (simp_all only: set_filter mem_Collect_eq)
  moreover have "list_all (\<lambda>r. letter_type (rec_type r)) (sr_records (ut_api ?t))"
    "list_all (\<lambda>r. letter_type (nr_type r)) (sr_records (ut_nostr ?t))" by code_simp+
  ultimately show ?thesis using dns_rows_alone by blast
qed

text \<open>
  The dashboard lists each name once, newest first, but counts a record once for every source that offers it: a
  name's number of records is that of the API plus that of the relays.
\<close>

theorem dashboard_domains_spec:
  fixes t
  defines "A \<equiv> map (\<lambda>r. domain_entry ''api'' (rec_fqdn r) (rec_name r) (rec_created_at r)) (sr_records (ut_api t))"
    and "N \<equiv> map (\<lambda>r. domain_entry ''nostr'' (nr_fqdn r) (nr_name r) (nr_created_at r)) (sr_records (ut_nostr t))"
  assumes "d \<in> set (dashboard_domains t)"
  shows "distinct (map nd_fqdn (dashboard_domains t)) \<and>
    nd_fqdn ` set (dashboard_domains t) = nd_fqdn ` set A \<union> nd_fqdn ` set N \<and>
    nd_recordCount d = count_list (map nd_fqdn A) (nd_fqdn d) + count_list (map nd_fqdn N) (nd_fqdn d) \<and>
    nd_lastSeen d = Max (nd_lastSeen ` {x \<in> set A \<union> set N. nd_fqdn x = nd_fqdn d})"
proof -
  obtain k where k: "k \<in> nd_fqdn ` set (A @ N)" "d = entry_for (A @ N) k"
    using assms(3) by (auto simp: dashboard_domains_eq A_def N_def)
  have one: "list_all (\<lambda>d. nd_recordCount d = 1) (A @ N)"
    unfolding A_def N_def by (auto simp: list_all_iff domain_entry_def Let_def)
  have "nd_fqdn d = k" "nd_recordCount d = length (filter (\<lambda>x. nd_fqdn x = k) (A @ N))"
    "nd_lastSeen d = Max (nd_lastSeen ` {x \<in> set A \<union> set N. nd_fqdn x = k})"
    using entry_for_facts [OF k(1) one, unfolded set_filter set_append] k(2) by simp_all
  moreover have "map nd_fqdn (map (entry_for (A @ N)) (js_uniq (map nd_fqdn (A @ N)))) = js_uniq (map nd_fqdn (A @ N))"
    unfolding map_map using entry_for_facts(1) [OF _ one] by (intro map_idI) (simp only: o_apply set_js_uniq set_map)
  moreover from this have "nd_fqdn ` set (dashboard_domains t) = nd_fqdn ` set A \<union> nd_fqdn ` set N"
    by (metis (no_types, lifting) image_Un set_append A_def N_def dashboard_domains_eq list.set_map set_js_sort set_js_uniq)
  ultimately show ?thesis
    by (simp add: dashboard_domains_eq A_def [symmetric] N_def [symmetric] count_list_eq_length_filter filter_map comp_def
        image_Un eq_commute [of k])
qed

theorem dashboard_domains_spec_witness:
  "map (\<lambda>d. (nd_name d, nd_recordCount d, nd_lastSeen d)) (dashboard_domains sample_tripartite) = [(''a'', 2, 9)] \<and>
   distinct (map nd_fqdn (dashboard_domains sample_tripartite))"
proof -
  have m: "map (\<lambda>d. (nd_name d, nd_recordCount d, nd_lastSeen d)) (dashboard_domains sample_tripartite) = [(''a'', 2, 9)]"
    by code_simp
  then obtain d where "d \<in> set (dashboard_domains sample_tripartite)" by (cases "dashboard_domains sample_tripartite") auto
  from dashboard_domains_spec [OF this] m show ?thesis by simp
qed

text \<open>
  The record browser has one row for each type, name and value, whoever owns the records: the row shows the first
  owner, and the other owners of the same record below their own names are not shown anywhere.
\<close>

theorem merge_all_spec:
  fixes apiResp nostrRecs
  defines "xs \<equiv> map merged_of_api apiResp @ map merged_of_nostr nostrRecs"
  assumes "x \<in> set xs"
  shows "distinct (map row_id (merge_all apiResp nostrRecs)) \<and>
    (\<exists>r. filter (\<lambda>r. row_id r = row_id x) (merge_all apiResp nostrRecs) = [r] \<and>
      mr_npub r = mr_npub (hd (filter (\<lambda>y. row_id y = row_id x) xs)) \<and>
      row_sources r = js_uniq (map from_source (filter (\<lambda>y. row_id y = row_id x) xs)))"
proof -
  let ?f = "\<lambda>k. filter (\<lambda>y. row_id y = k) xs" and ?k = "row_id x"
  let ?vs = "map (\<lambda>k. absorbed add_merged (?f k)) (js_uniq (map row_id xs))"
  have m: "merge_all apiResp nostrRecs = js_sort (\<lambda>a b. row_created_at b - row_created_at a) ?vs"
    by (simp only: merge_all_def foldl_append [symmetric] values_upsert xs_def)
  have ab: "row_id (absorbed add_merged (?f k)) = k \<and> mr_npub (absorbed add_merged (?f k)) = mr_npub (hd (?f k)) \<and>
      row_sources (absorbed add_merged (?f k)) = js_uniq (map from_source (?f k))" if "k \<in> row_id ` set xs" for k
  proof -
    have ne: "?f k \<noteq> []" using that by (auto simp: filter_empty_conv)
    have "list_all (\<lambda>r. row_sources r = [from_source r]) (?f k)"
      by (auto simp: list_all_iff xs_def merged_of_api_def merged_of_nostr_def record_row_def from_source_def DnsRecordRow.defs)
    from absorbed_merged [OF ne this] hd_in_set [OF ne] show ?thesis by simp
  qed
  then have ids: "map row_id ?vs = js_uniq (map row_id xs)"
    unfolding map_map by (intro map_idI) (simp only: o_apply set_js_uniq set_map)
  have k: "?k \<in> row_id ` set xs" using assms(2) by simp
  have d: "distinct (map row_id (merge_all apiResp nostrRecs))"
    unfolding m distinct_map_js_sort ids by (rule distinct_js_uniq)
  moreover have "absorbed add_merged (?f ?k) \<in> set (merge_all apiResp nostrRecs)" using k by (simp add: m)
  ultimately have "filter (\<lambda>r. row_id r = ?k) (merge_all apiResp nostrRecs) = [absorbed add_merged (?f ?k)]"
    using ab [OF k] filter_key_distinct [of row_id] by metis
  with d ab [OF k] show ?thesis by blast
qed

theorem merge_all_spec_witness:
  "map (\<lambda>r. (row_id r, mr_npub r)) (merge_all [] (map (\<lambda>p. \<lparr>nr_type = ''A'', nr_name = ''www'', nr_value = ''1.2.3.4'',
     nr_ttl = 60, nr_fqdn = ''www.'' @ p, nr_pubkey = p, nr_eventId = p, nr_created_at = 9\<rparr>) [''p1'', ''p2''])) =
     [(''A:www:1.2.3.4'', ''p1'')]"
proof -
  let ?r = "\<lambda>p. \<lparr>nr_type = ''A'', nr_name = ''www'', nr_value = ''1.2.3.4'',
     nr_ttl = 60, nr_fqdn = ''www.'' @ p, nr_pubkey = p, nr_eventId = p, nr_created_at = 9\<rparr>"
  let ?m = "merge_all [] (map ?r [''p1'', ''p2''])"
  have "length ?m = 1" "list_all (\<lambda>r. row_id r = ''A:www:1.2.3.4'') ?m" by code_simp+
  moreover have "merged_of_nostr (?r ''p2'') \<in> set (map merged_of_api [] @ map merged_of_nostr (map ?r [''p1'', ''p2'']))" by simp
  note merge_all_spec [OF this]
  moreover have "row_id (merged_of_nostr (?r p)) = ''A:www:1.2.3.4'' \<and> mr_npub (merged_of_nostr (?r p)) = p" for p
    by (simp add: merged_of_nostr_def record_row_def makeRecordId_def or_else_def DnsRecordRow.defs)
  ultimately show ?thesis by (auto simp: length_Suc_conv)
qed

text \<open>The groups of the browser hold every shown record once, under its owner.\<close>

theorem grouped_spec:
  "grouped rs = map (\<lambda>k. (k, filter (\<lambda>r. group_key r = k) rs)) (js_uniq (map group_key rs)) \<and>
   mset (concat (map snd (grouped rs))) = mset rs"
  using mset_groups [of group_key rs] by (simp add: grouped_eq foldl_group_push comp_def)

text \<open>The button for all groups opens all of them or, when all are open, closes them.\<close>

theorem toggleAllGroups_spec:
  assumes "rs \<noteq> []"
  shows "allExpanded (grouped rs) (toggleAllGroups (grouped rs) expandedGroups) \<longleftrightarrow> \<not> allExpanded (grouped rs) expandedGroups"
proof -
  have "set (js_uniq (map group_key rs)) \<noteq> {}" unfolding set_js_uniq using assms by simp
  moreover have "map_keys (grouped rs) = js_uniq (map group_key rs)"
    by (simp add: grouped_eq foldl_group_push map_keys_def comp_def)
  ultimately have "map_keys (grouped rs) \<noteq> []" by (metis set_empty)
  then show ?thesis by (cases "map_keys (grouped rs)") (auto simp: toggleAllGroups_def allExpanded_def list_all_iff)
qed

theorem toggleAllGroups_spec_witness:
  "allExpanded (grouped [merged_of_api \<lparr>rec_npub = ''n'', rec_name = [], rec_fqdn = ''a'', rec_type = ''A'', rec_ttl = 60,
     rec_rdata = ''1.2.3.4'', rec_created_at = 5\<rparr>]) (toggleAllGroups (grouped [merged_of_api \<lparr>rec_npub = ''n'', rec_name = [],
     rec_fqdn = ''a'', rec_type = ''A'', rec_ttl = 60, rec_rdata = ''1.2.3.4'', rec_created_at = 5\<rparr>]) [])"
  by (subst toggleAllGroups_spec) (simp, code_simp)

end
