(* ===== verification/Front_Pipeline.thy ===== *)
theory Front_Pipeline
  imports Front_Publish Front_Api
begin

text \<open>
  \<open>nodns-frontend/src/components/dashboard.tsx\<close> and \<open>publish-pipeline.tsx\<close>: the stages shown after a publication. Timers
  and requests that are under way are part of the state; each firing of a timer and each answer is a step. The
  seconds shown are left out.
\<close>

section \<open>State\<close>

datatype PipelineStatus = PIdle | PPublishing | PProcessing | PResolving | PSuccess | PError

text \<open>
  \<open>pl_processing\<close> and \<open>pl_resolving\<close>: the two time-outs that wait, the second with its name. \<open>pl_poller\<close>: the
  interval that polls, an index into \<open>pl_pollers\<close>, where the name and the attempts of each poller's closure are
  kept. \<open>pl_flight\<close>: the poller of each request under way.
\<close>

record pipeline =
  pl_status :: PipelineStatus
  pl_fqdn :: string
  pl_eventId :: "string option"
  pl_resolved :: "string option"
  pl_timer :: bool
  pl_processing :: bool
  pl_resolving :: "string option"
  pl_poller :: "nat option"
  pl_pollers :: "(string \<times> nat) list"
  pl_flight :: "nat list"

definition pipeline_idle :: pipeline where
  "pipeline_idle = \<lparr>pl_status = PIdle, pl_fqdn = [], pl_eventId = None, pl_resolved = None, pl_timer = False,
     pl_processing = False, pl_resolving = None, pl_poller = None, pl_pollers = [], pl_flight = []\<rparr>"

definition attempts :: "pipeline \<Rightarrow> nat \<Rightarrow> nat" where
  "attempts p i = snd (pl_pollers p ! i)"

definition maxAttempts :: nat where "maxAttempts = 10"

section \<open>Steps\<close>

definition stopPipelineTimers :: "pipeline \<Rightarrow> pipeline" where
  "stopPipelineTimers p = p\<lparr>pl_timer := False, pl_poller := None, pl_processing := False, pl_resolving := None\<rparr>"

definition startPipeline :: "string \<Rightarrow> string \<Rightarrow> pipeline \<Rightarrow> pipeline" where
  "startPipeline fqdn eventId p = (stopPipelineTimers p)
     \<lparr>pl_fqdn := fqdn, pl_eventId := Some eventId, pl_resolved := None, pl_status := PPublishing,
      pl_timer := True, pl_processing := True, pl_resolving := Some fqdn\<rparr>"

definition on_processing :: "pipeline \<Rightarrow> pipeline" where
  "on_processing p = p\<lparr>pl_status := PProcessing, pl_processing := False\<rparr>"

definition startPipelineDnsPolling :: "string \<Rightarrow> pipeline \<Rightarrow> pipeline" where
  "startPipelineDnsPolling fqdn p =
     p\<lparr>pl_poller := Some (length (pl_pollers p)), pl_pollers := pl_pollers p @ [(fqdn, 0)]\<rparr>"

definition on_resolving :: "string \<Rightarrow> pipeline \<Rightarrow> pipeline" where
  "on_resolving fqdn p = startPipelineDnsPolling fqdn (p\<lparr>pl_status := PResolving, pl_resolving := None\<rparr>)"

definition poll_tick :: "nat \<Rightarrow> pipeline \<Rightarrow> pipeline" where
  "poll_tick i p = p\<lparr>pl_pollers := (pl_pollers p)[i := map_prod id Suc (pl_pollers p ! i)], pl_flight := pl_flight p @ [i]\<rparr>"

text \<open>What a request brings: the first answer without its outer quotes, if there is one.\<close>

definition poll_data :: "doh \<Rightarrow> string \<Rightarrow> string option" where
  "poll_data fetch fqdn =
     (case queryDoh fetch fqdn ''TXT'' None of
        Inl _ \<Rightarrow> None
      | Inr resp \<Rightarrow>
          (case nullish (dr_Answer resp) [] of
             [] \<Rightarrow> None
           | a # _ \<Rightarrow> Some (strip_suffix_char quote_char (strip_prefix_char quote_char (da_data a)))))"

definition poll_answer :: "nat \<Rightarrow> string option \<Rightarrow> pipeline \<Rightarrow> pipeline" where
  "poll_answer i found p =
     (let p0 = p\<lparr>pl_flight := remove1 i (pl_flight p)\<rparr>;
          p1 = (case found of
             Some recordData \<Rightarrow> stopPipelineTimers (p0\<lparr>pl_resolved := Some recordData, pl_status := PSuccess\<rparr>)
           | None \<Rightarrow> p0)
      in if attempts p1 i \<ge> maxAttempts then stopPipelineTimers (p1\<lparr>pl_status := PError\<rparr>) else p1)"

definition pipeline_clear :: "pipeline \<Rightarrow> pipeline" where
  "pipeline_clear p = stopPipelineTimers (p\<lparr>pl_status := PIdle\<rparr>)"

definition pipeline_failed :: "pipeline \<Rightarrow> pipeline" where
  "pipeline_failed p = p\<lparr>pl_status := PError\<rparr>"

text \<open>Steps that happen by themselves, and those of the user.\<close>

inductive quiet_step :: "pipeline \<Rightarrow> pipeline \<Rightarrow> bool" where
  qs_processing: "pl_processing p \<Longrightarrow> quiet_step p (on_processing p)"
| qs_resolving: "pl_resolving p = Some fqdn \<Longrightarrow> \<not> pl_processing p \<Longrightarrow> quiet_step p (on_resolving fqdn p)"
| qs_tick: "pl_poller p = Some i \<Longrightarrow> quiet_step p (poll_tick i p)"
| qs_answer: "i \<in> set (pl_flight p) \<Longrightarrow> quiet_step p (poll_answer i found p)"

inductive pipeline_run :: "pipeline \<Rightarrow> bool" where
  pr_idle: "pipeline_run pipeline_idle"
| pr_start: "pipeline_run p \<Longrightarrow> pipeline_run (startPipeline fqdn eventId p)"
| pr_quiet: "pipeline_run p \<Longrightarrow> quiet_step p p' \<Longrightarrow> pipeline_run p'"
| pr_clear: "pipeline_run p \<Longrightarrow> pipeline_run (pipeline_clear p)"
| pr_failed: "pipeline_run p \<Longrightarrow> pipeline_run (pipeline_failed p)"

section \<open>What is shown\<close>

datatype stage_state = StagePending | StageActive | StageDone

definition stage_states :: "PipelineStatus \<Rightarrow> (stage_state \<times> stage_state \<times> stage_state) option" where
  "stage_states status =
     (if status = PIdle then None
      else Some
        (if status = PPublishing then StageActive else StageDone,
         if status = PProcessing then StageActive
         else if status = PResolving \<or> status = PSuccess then StageDone else StagePending,
         if status = PResolving then StageActive else if status = PSuccess then StageDone else StagePending))"

definition stage_percent :: "PipelineStatus \<Rightarrow> nat" where
  "stage_percent status =
     (case status of PPublishing \<Rightarrow> 10 | PProcessing \<Rightarrow> 40 | PResolving \<Rightarrow> 75 | PSuccess \<Rightarrow> 100 | _ \<Rightarrow> 0)"

section \<open>Lemmas\<close>

text \<open>Something waits to happen by itself.\<close>

definition pending :: "pipeline \<Rightarrow> bool" where
  "pending p \<longleftrightarrow> pl_processing p \<or> pl_resolving p \<noteq> None \<or> pl_poller p \<noteq> None"

definition pipeline_ok :: "pipeline \<Rightarrow> bool" where
  "pipeline_ok p \<longleftrightarrow>
     (pl_timer p \<longleftrightarrow> pending p) \<and>
     (pl_status p \<in> {PPublishing, PProcessing, PResolving} \<longrightarrow> pending p) \<and>
     (pl_processing p \<longrightarrow> pl_resolving p \<noteq> None) \<and>
     (pl_resolving p \<noteq> None \<longrightarrow> pl_poller p = None) \<and>
     (\<forall>i. pl_poller p = Some i \<longrightarrow> i < length (pl_pollers p)) \<and>
     set (pl_flight p) \<subseteq> {..< length (pl_pollers p)} \<and>
     (\<forall>i < length (pl_pollers p). count_list (pl_flight p) i \<le> attempts p i) \<and>
     (pl_status p = PSuccess \<longrightarrow> pl_resolved p \<noteq> None)"

lemma stop_parts [simp]:
  "pl_status (stopPipelineTimers p) = pl_status p" "pl_fqdn (stopPipelineTimers p) = pl_fqdn p"
  "pl_resolved (stopPipelineTimers p) = pl_resolved p" "pl_timer (stopPipelineTimers p) = False"
  "pl_processing (stopPipelineTimers p) = False" "pl_resolving (stopPipelineTimers p) = None"
  "pl_poller (stopPipelineTimers p) = None" "pl_pollers (stopPipelineTimers p) = pl_pollers p"
  "pl_flight (stopPipelineTimers p) = pl_flight p" "attempts (stopPipelineTimers p) = attempts p"
  by (auto simp: stopPipelineTimers_def attempts_def)

lemma attempts_update [simp]:
  "attempts (p\<lparr>pl_status := s\<rparr>) = attempts p" "attempts (p\<lparr>pl_resolved := r\<rparr>) = attempts p"
  "attempts (p\<lparr>pl_flight := f\<rparr>) = attempts p" "attempts (p\<lparr>pl_processing := b\<rparr>) = attempts p"
  "attempts (p\<lparr>pl_resolving := x\<rparr>) = attempts p" "attempts (p\<lparr>pl_poller := y\<rparr>) = attempts p"
  "attempts (p\<lparr>pl_timer := b\<rparr>) = attempts p" "attempts (p\<lparr>pl_fqdn := z\<rparr>) = attempts p"
  "attempts (p\<lparr>pl_eventId := w\<rparr>) = attempts p"
  by (auto simp: attempts_def)

lemma count_list_remove1: "count_list (remove1 a xs) b \<le> count_list xs b"
  by (induction xs) auto

lemma attempts_tick:
  "i < length (pl_pollers p) \<Longrightarrow> attempts (poll_tick i p) j = attempts p j + (if j = i then 1 else 0)"
  by (simp add: attempts_def poll_tick_def nth_list_update)

lemma tick_parts [simp]:
  "pl_status (poll_tick i p) = pl_status p" "pl_resolved (poll_tick i p) = pl_resolved p" "pl_timer (poll_tick i p) = pl_timer p"
  "pl_processing (poll_tick i p) = pl_processing p" "pl_resolving (poll_tick i p) = pl_resolving p"
  "pl_poller (poll_tick i p) = pl_poller p" "length (pl_pollers (poll_tick i p)) = length (pl_pollers p)"
  "pl_flight (poll_tick i p) = pl_flight p @ [i]" "pending (poll_tick i p) = pending p"
  by (simp_all add: poll_tick_def pending_def)

text \<open>An answer ends the polling when it brings something or the attempts are used up.\<close>

definition ends :: "nat \<Rightarrow> string option \<Rightarrow> pipeline \<Rightarrow> bool" where
  "ends i found p \<longleftrightarrow> found \<noteq> None \<or> maxAttempts \<le> attempts p i"

lemma answer_parts [simp]:
  "pl_status (poll_answer i found p) =
     (if maxAttempts \<le> attempts p i then PError else if found \<noteq> None then PSuccess else pl_status p)"
  "pl_resolved (poll_answer i found p) = (case found of None \<Rightarrow> pl_resolved p | Some d \<Rightarrow> Some d)"
  "pl_timer (poll_answer i found p) \<longleftrightarrow> \<not> ends i found p \<and> pl_timer p"
  "pl_processing (poll_answer i found p) \<longleftrightarrow> \<not> ends i found p \<and> pl_processing p"
  "pl_resolving (poll_answer i found p) = (if ends i found p then None else pl_resolving p)"
  "pl_poller (poll_answer i found p) = (if ends i found p then None else pl_poller p)"
  "pl_pollers (poll_answer i found p) = pl_pollers p"
  "pl_flight (poll_answer i found p) = remove1 i (pl_flight p)"
  "attempts (poll_answer i found p) = attempts p"
  "pl_fqdn (poll_answer i found p) = pl_fqdn p"
  "pending (poll_answer i found p) \<longleftrightarrow> \<not> ends i found p \<and> pending p"
  by (auto simp: poll_answer_def Let_def ends_def pending_def split: option.split)

lemma ok_start: "pipeline_ok p \<Longrightarrow> pipeline_ok (startPipeline fqdn eventId p)"
  by (simp add: pipeline_ok_def startPipeline_def pending_def)

lemma ok_quiet: "quiet_step p p' \<Longrightarrow> pipeline_ok p \<Longrightarrow> pipeline_ok p'"
proof (induction rule: quiet_step.induct)
  case (qs_processing p)
  then show ?case by (auto simp: pipeline_ok_def on_processing_def pending_def)
next
  case (qs_resolving p fqdn)
  then show ?case
    by (auto simp: pipeline_ok_def on_resolving_def startPipelineDnsPolling_def pending_def attempts_def nth_append less_Suc_eq
        count_list_0_iff subset_iff)
next
  case (qs_tick p i)
  then have i: "i < length (pl_pollers p)" by (simp add: pipeline_ok_def)
  with qs_tick show ?case by (auto simp: pipeline_ok_def attempts_tick)
next
  case (qs_answer i p found)
  have "count_list (remove1 i (pl_flight p)) j \<le> attempts p j" if "j < length (pl_pollers p)" for j
    using qs_answer that count_list_remove1 [of i "pl_flight p" j] by (auto simp: pipeline_ok_def intro: order_trans)
  moreover have "set (remove1 i (pl_flight p)) \<subseteq> {..< length (pl_pollers p)}"
    using qs_answer set_remove1_subset by (fastforce simp: pipeline_ok_def)
  ultimately show ?case
    using qs_answer by (cases found) (simp_all add: pipeline_ok_def ends_def)
qed

lemma run_ok: "pipeline_run p \<Longrightarrow> pipeline_ok p"
proof (induction rule: pipeline_run.induct)
  case (pr_quiet p p')
  then show ?case using ok_quiet by blast
qed (auto simp: ok_start, auto simp: pipeline_ok_def pipeline_idle_def pending_def pipeline_clear_def pipeline_failed_def)

text \<open>What a quiet step does to the timers.\<close>

lemma quiet_processing: "quiet_step p p' \<Longrightarrow> \<not> pl_processing p \<Longrightarrow> \<not> pl_processing p'"
  by (induction rule: quiet_step.induct)
    (auto simp: on_resolving_def startPipelineDnsPolling_def)

lemma quiet_resolving: "quiet_step p p' \<Longrightarrow> pl_resolving p = None \<Longrightarrow> pl_resolving p' = None"
  by (induction rule: quiet_step.induct) (auto simp: on_processing_def)

lemma quiet_poller:
  "quiet_step p p' \<Longrightarrow> pl_resolving p = None \<Longrightarrow> pl_poller p' = pl_poller p \<or> pl_poller p' = None"
  by (induction rule: quiet_step.induct) (auto simp: on_processing_def)

lemma quiet_attempts:
  "quiet_step p p' \<Longrightarrow> pipeline_ok p \<Longrightarrow> i < length (pl_pollers p) \<Longrightarrow>
     attempts p i \<le> attempts p' i \<and> i < length (pl_pollers p')"
proof (induction rule: quiet_step.induct)
  case (qs_tick p j)
  then show ?case by (auto simp: pipeline_ok_def attempts_tick)
next
  case (qs_resolving p fqdn)
  then show ?case by (simp add: on_resolving_def startPipelineDnsPolling_def attempts_def nth_append)
qed (simp_all add: on_processing_def)

lemma answer_stops: "maxAttempts \<le> attempts p i \<Longrightarrow> pl_poller (poll_answer i found p) = None"
  by (simp add: ends_def)

lemma quiet_not_idle: "quiet_step p p' \<Longrightarrow> pl_status p \<noteq> PIdle \<Longrightarrow> pl_status p' \<noteq> PIdle"
  by (induction rule: quiet_step.induct) (auto simp: on_processing_def on_resolving_def startPipelineDnsPolling_def)

section \<open>Runs without end\<close>

text \<open>
  A run in which nothing but timers and answers happens, or nothing at all. It is fair when a time-out that waits
  fires, an interval that is not cleared goes on, and of an interval that is not cleared some request is answered.
\<close>

definition quiet_run :: "(nat \<Rightarrow> pipeline) \<Rightarrow> bool" where
  "quiet_run \<sigma> \<longleftrightarrow> (\<forall>n. quiet_step (\<sigma> n) (\<sigma> (Suc n)) \<or> \<sigma> (Suc n) = \<sigma> n)"

definition fair_run :: "(nat \<Rightarrow> pipeline) \<Rightarrow> bool" where
  "fair_run \<sigma> \<longleftrightarrow>
     (\<forall>n. \<exists>m \<ge> n. \<not> pl_processing (\<sigma> m)) \<and> (\<forall>n. \<exists>m \<ge> n. pl_resolving (\<sigma> m) = None) \<and>
     (\<forall>n i. pl_poller (\<sigma> n) = Some i \<longrightarrow>
        (\<exists>m \<ge> n. pl_poller (\<sigma> m) \<noteq> Some i \<or> attempts (\<sigma> n) i < attempts (\<sigma> m) i) \<and>
        (\<exists>m \<ge> n. pl_poller (\<sigma> m) \<noteq> Some i \<or> (\<exists>found. \<sigma> (Suc m) = poll_answer i found (\<sigma> m))))"

lemma quiet_run_step: "quiet_run \<sigma> \<Longrightarrow> quiet_step (\<sigma> n) (\<sigma> (Suc n)) \<or> \<sigma> (Suc n) = \<sigma> n"
  by (simp add: quiet_run_def)

lemma quiet_run_keeps:
  assumes "quiet_run \<sigma>" "P (\<sigma> n)" "\<And>p p'. quiet_step p p' \<Longrightarrow> P p \<Longrightarrow> P p'" "n \<le> m"
  shows "P (\<sigma> m)"
  using assms(4)
proof (induction rule: dec_induct)
  case (step k)
  then show ?case using quiet_run_step [OF assms(1), of k] assms(3) by metis
qed (rule assms(2))

text \<open>When the stages wait no more, an interval that goes on for ever would make more and more attempts.\<close>

lemma poller_ends:
  assumes run: "quiet_run \<sigma>" and fair: "fair_run \<sigma>" and p: "pipeline_ok (\<sigma> n)" "pl_resolving (\<sigma> n) = None"
  shows "\<exists>m \<ge> n. pl_poller (\<sigma> m) = None"
proof (rule ccontr)
  assume "\<not> ?thesis"
  then have alive: "pl_poller (\<sigma> m) \<noteq> None" if "n \<le> m" for m using that by auto
  then obtain i where i: "pl_poller (\<sigma> n) = Some i" by blast
  have keep: "pipeline_ok (\<sigma> m) \<and> pl_resolving (\<sigma> m) = None" if "n \<le> m" for m
    using quiet_run_keeps [OF run, of "\<lambda>p. pipeline_ok p \<and> pl_resolving p = None" n m] p that ok_quiet quiet_resolving by blast
  have same: "pl_poller (\<sigma> m) = Some i" if "n \<le> m" for m
    using that
  proof (induction rule: dec_induct)
    case (step m)
    then show ?case
      using quiet_run_step [OF run, of m] quiet_poller [of "\<sigma> m" "\<sigma> (Suc m)"] keep [of m] alive [of "Suc m"] by auto
  qed (rule i)
  have mono: "attempts (\<sigma> m) i \<le> attempts (\<sigma> k) i" if "n \<le> m" "m \<le> k" for m k
    using that(2)
  proof (induction rule: dec_induct)
    case (step k)
    with that have "n \<le> k" by simp
    then have "pipeline_ok (\<sigma> k)" "i < length (pl_pollers (\<sigma> k))" using keep [of k] same [of k] by (auto simp: pipeline_ok_def)
    with step show ?case using quiet_run_step [OF run, of k] quiet_attempts [of "\<sigma> k" "\<sigma> (Suc k)" i] by auto
  qed simp
  have "\<exists>m \<ge> n. k \<le> attempts (\<sigma> m) i" for k
  proof (induction k)
    case (Suc k)
    then obtain m where m: "n \<le> m" "k \<le> attempts (\<sigma> m) i" by blast
    then obtain l where "m \<le> l" "pl_poller (\<sigma> l) \<noteq> Some i \<or> attempts (\<sigma> m) i < attempts (\<sigma> l) i"
      using fair same [of m] unfolding fair_run_def by blast
    with m same [of l] show ?case by (intro exI [of _ l]) auto
  qed auto
  then obtain m where m: "n \<le> m" "maxAttempts \<le> attempts (\<sigma> m) i" by blast
  then obtain l found where "m \<le> l" "pl_poller (\<sigma> l) \<noteq> Some i \<or> \<sigma> (Suc l) = poll_answer i found (\<sigma> l)"
    using fair same [of m] unfolding fair_run_def by blast
  with m same [of l] mono [of m l] alive [of "Suc l"] answer_stops [of "\<sigma> l" i found] show False by auto
qed

lemma settles:
  assumes run: "quiet_run \<sigma>" and fair: "fair_run \<sigma>" and p: "pipeline_ok (\<sigma> 0)"
  shows "\<exists>m. \<not> pending (\<sigma> m)"
proof -
  obtain a where a: "\<not> pl_processing (\<sigma> a)" using fair unfolding fair_run_def by blast
  obtain b where b: "a \<le> b" "pl_resolving (\<sigma> b) = None" using fair unfolding fair_run_def by blast
  have ok: "pipeline_ok (\<sigma> b)" using quiet_run_keeps [OF run, of pipeline_ok 0 b] p ok_quiet by blast
  obtain m where m: "b \<le> m" "pl_poller (\<sigma> m) = None" using poller_ends [OF run fair ok b(2)] by blast
  have "\<not> pl_processing (\<sigma> m)"
    using quiet_run_keeps [OF run, of "\<lambda>p. \<not> pl_processing p" a m] a b(1) m(1) quiet_processing by fastforce
  moreover have "pl_resolving (\<sigma> m) = None"
    using quiet_run_keeps [OF run, of "\<lambda>p. pl_resolving p = None" b m] b(2) m(1) quiet_resolving by blast
  ultimately show ?thesis using m(2) unfolding pending_def by blast
qed

section \<open>Polling in order\<close>

text \<open>Each request answered before the next one, with the answers in a list.\<close>

fun poll_rounds :: "string option list \<Rightarrow> pipeline \<Rightarrow> pipeline" where
  "poll_rounds [] p = p"
| "poll_rounds (found # answers) p =
     (case pl_poller p of
        None \<Rightarrow> p
      | Some i \<Rightarrow> poll_rounds answers (poll_answer i found (poll_tick i p)))"

lemma poll_rounds_stopped: "pl_poller p = None \<Longrightarrow> poll_rounds answers p = p"
  by (cases answers) auto

lemma poll_rounds_status:
  assumes "pl_poller p = Some i" "i < length (pl_pollers p)" "attempts p i + length answers = maxAttempts" "answers \<noteq> []"
  shows "pl_status (poll_rounds answers p) = (if list_ex (\<lambda>a. a \<noteq> None) (butlast answers) then PSuccess else PError) \<and>
    pl_poller (poll_rounds answers p) = None"
  using assms
proof (induction answers arbitrary: p)
  case (Cons a as)
  let ?q = "poll_answer i a (poll_tick i p)"
  have att: "attempts (poll_tick i p) i = attempts p i + 1" using attempts_tick [OF Cons.prems(2), of i] by simp
  have lt: "attempts p i + 1 < maxAttempts" if "as \<noteq> []" using that Cons.prems(3) by (cases as) auto
  show ?case
  proof (cases "as = [] \<or> a \<noteq> None")
    case True
    then have "pl_poller ?q = None" using Cons.prems att by (auto simp: ends_def maxAttempts_def)
    then have "poll_rounds (a # as) p = ?q" using Cons.prems(1) poll_rounds_stopped [of ?q as] by simp
    with True Cons.prems att lt \<open>pl_poller ?q = None\<close> show ?thesis by (cases "as = []") auto
  next
    case False
    then have "pl_poller ?q = Some i" "i < length (pl_pollers ?q)" "attempts ?q i + length as = maxAttempts"
      using Cons.prems att lt by (auto simp: ends_def)
    from Cons.IH [OF this] False Cons.prems(1) show ?thesis by simp
  qed
qed simp

section \<open>Properties\<close>

text \<open>
  C11. In every state the page can be in, a stage that is shown as under way has a timer that will fire, the seconds run
  exactly while something waits, at most one poller is active, and a success shows data that an answer brought.
\<close>

theorem pipeline_never_stuck:
  assumes "pipeline_run p"
  shows "(pl_status p \<in> {PPublishing, PProcessing, PResolving} \<longrightarrow> (\<exists>p'. quiet_step p p')) \<and>
    (pl_timer p \<longleftrightarrow> pending p) \<and> (pl_status p = PSuccess \<longrightarrow> pl_resolved p \<noteq> None) \<and>
    (\<forall>i \<in> set (pl_flight p). count_list (pl_flight p) i \<le> attempts p i)"
proof -
  note k = run_ok [OF assms]
  have "\<exists>p'. quiet_step p p'" if "pending p"
    using that quiet_step.intros unfolding pending_def by blast
  with k show ?thesis by (auto simp: pipeline_ok_def)
qed

theorem pipeline_never_stuck_witness: "\<exists>p'. quiet_step (startPipeline ''a'' ''e'' pipeline_idle) p'"
  using pipeline_never_stuck [OF pr_start [OF pr_idle, of "''a''" "''e''"]] by (simp add: startPipeline_def)

text \<open>
  C10. Left alone, a pipeline that was started ends: in every run without end in which the timers fire and some request of
  the poller is answered, a state comes in which nothing waits and which shows success or failure.
\<close>

theorem pipeline_settles:
  assumes "pipeline_run p" "\<sigma> 0 = startPipeline fqdn eventId p" "quiet_run \<sigma>" "fair_run \<sigma>"
  shows "\<exists>m. \<not> pending (\<sigma> m) \<and> (pl_status (\<sigma> m) = PSuccess \<or> pl_status (\<sigma> m) = PError)"
proof -
  have ok: "pipeline_ok (\<sigma> 0)" using run_ok [OF pr_start [OF assms(1)]] assms(2) by simp
  obtain m where m: "\<not> pending (\<sigma> m)" using settles [OF assms(3,4) ok] by blast
  have "pipeline_ok (\<sigma> m) \<and> pl_status (\<sigma> m) \<noteq> PIdle"
  proof (rule quiet_run_keeps [OF assms(3), of "\<lambda>p. pipeline_ok p \<and> pl_status p \<noteq> PIdle" 0 m])
    show "pipeline_ok (\<sigma> 0) \<and> pl_status (\<sigma> 0) \<noteq> PIdle" using ok assms(2) by (simp add: startPipeline_def)
    show "pipeline_ok q' \<and> pl_status q' \<noteq> PIdle" if "quiet_step q q'" "pipeline_ok q \<and> pl_status q \<noteq> PIdle" for q q'
      using that ok_quiet quiet_not_idle by blast
  qed simp
  then have "pl_status (\<sigma> m) = PSuccess \<or> pl_status (\<sigma> m) = PError"
    using m by (cases "pl_status (\<sigma> m)") (auto simp: pipeline_ok_def)
  with m show ?thesis by blast
qed

definition sample_run :: "nat \<Rightarrow> pipeline" where
  "sample_run n =
     (let p0 = startPipeline ''a'' ''e'' pipeline_idle; p1 = on_processing p0; p2 = on_resolving ''a'' p1;
          p3 = poll_tick 0 p2; p4 = poll_answer 0 (Some ''x'') p3
      in if n = 0 then p0 else if n = 1 then p1 else if n = 2 then p2 else if n = 3 then p3 else p4)"

theorem pipeline_settles_witness: "\<exists>m. \<not> pending (sample_run m) \<and> (pl_status (sample_run m) = PSuccess \<or> pl_status (sample_run m) = PError)"
proof (rule pipeline_settles [OF pr_idle])
  show "sample_run 0 = startPipeline ''a'' ''e'' pipeline_idle" by (simp add: sample_run_def)
  show "quiet_run sample_run"
    unfolding quiet_run_def
  proof
    fix n
    have e: "sample_run 1 = on_processing (sample_run 0)" "sample_run 2 = on_resolving ''a'' (sample_run 1)"
      "sample_run 3 = poll_tick 0 (sample_run 2)" "sample_run 4 = poll_answer 0 (Some ''x'') (sample_run 3)"
      by (simp_all add: sample_run_def)
    have "pl_processing (sample_run 0)" "pl_resolving (sample_run 1) = Some ''a''" "\<not> pl_processing (sample_run 1)"
      "pl_poller (sample_run 2) = Some 0" "0 \<in> set (pl_flight (sample_run 3))" by code_simp+
    then have "quiet_step (sample_run 0) (sample_run 1)" "quiet_step (sample_run 1) (sample_run 2)"
      "quiet_step (sample_run 2) (sample_run 3)" "quiet_step (sample_run 3) (sample_run 4)"
      unfolding e by - (rule quiet_step.intros, assumption+)+
    moreover have "sample_run (Suc n) = sample_run n" if "4 \<le> n" using that by (simp add: sample_run_def)
    moreover have "n = 0 \<or> n = 1 \<or> n = 2 \<or> n = 3 \<or> 4 \<le> n" by linarith
    ultimately show "quiet_step (sample_run n) (sample_run (Suc n)) \<or> sample_run (Suc n) = sample_run n"
      by (auto simp: numeral_eq_Suc)
  qed
  have stop: "\<not> pl_processing (sample_run m) \<and> pl_resolving (sample_run m) = None \<and> pl_poller (sample_run m) = None" if "4 \<le> m" for m
    using that by (simp add: sample_run_def ends_def)
  have late: "\<exists>m \<ge> n. 4 \<le> m" for n :: nat by (intro exI [of _ "max n 4"]) simp
  then have quiet: "\<exists>m \<ge> n. \<not> pl_processing (sample_run m) \<and> pl_resolving (sample_run m) = None \<and> pl_poller (sample_run m) = None" for n
    using stop by blast
  show "fair_run sample_run"
    unfolding fair_run_def using quiet by (intro conjI allI impI) (metis option.distinct(1))+
qed

text \<open>
  With the requests answered in order the stages end in success exactly when one of the first nine brings a record: a
  record that the tenth brings is reported as a failure.
\<close>

theorem poll_rounds_result:
  assumes "length answers = maxAttempts"
  shows "pl_status (poll_rounds answers (on_resolving fqdn p)) =
      (if list_ex (\<lambda>a. a \<noteq> None) (butlast answers) then PSuccess else PError) \<and>
    pl_poller (poll_rounds answers (on_resolving fqdn p)) = None"
proof -
  let ?q = "on_resolving fqdn p"
  have "answers \<noteq> []" using assms by (auto simp: maxAttempts_def)
  moreover have "pl_poller ?q = Some (length (pl_pollers p))" "length (pl_pollers p) < length (pl_pollers ?q)"
    "attempts ?q (length (pl_pollers p)) = 0"
    by (simp_all add: on_resolving_def startPipelineDnsPolling_def attempts_def)
  ultimately show ?thesis using poll_rounds_status [of ?q "length (pl_pollers p)" answers] assms by simp
qed

theorem poll_rounds_result_witness:
  "pl_status (poll_rounds (replicate 9 None @ [Some ''x'']) (on_resolving ''a'' pipeline_idle)) = PError"
  using poll_rounds_result [of "replicate 9 None @ [Some ''x'']" "''a''" pipeline_idle] by (simp add: maxAttempts_def list_ex_iff)

text \<open>
  An answer that comes after the next publication was started, to a request of the one before, is shown as the success
  of the new one and ends its polling before it begins.
\<close>

theorem pipeline_foreign_answer:
  assumes "pipeline_run p" "i \<in> set (pl_flight p)" "attempts p i < maxAttempts"
  shows "let q = poll_answer i (Some d) (startPipeline fqdn eventId p)
    in pipeline_run q \<and> pl_status q = PSuccess \<and> pl_fqdn q = fqdn \<and> pl_resolved q = Some d \<and> \<not> pending q"
proof -
  let ?p = "startPipeline fqdn eventId p"
  have "i \<in> set (pl_flight ?p)" "attempts ?p i = attempts p i" "pl_fqdn ?p = fqdn"
    using assms(2) by (simp_all add: startPipeline_def)
  moreover from this have "pipeline_run (poll_answer i (Some d) ?p)"
    using pr_quiet [OF pr_start [OF assms(1)] qs_answer] by blast
  ultimately show ?thesis using assms(3) by (simp add: Let_def ends_def)
qed

theorem pipeline_foreign_answer_witness:
  "pl_status (poll_answer 0 (Some ''old'') (startPipeline ''b'' ''e2'' (sample_run 3))) = PSuccess"
proof -
  have "pipeline_run (sample_run 3)"
  proof -
    have r: "pipeline_run (startPipeline ''a'' ''e'' pipeline_idle)" by (rule pr_start [OF pr_idle])
    have r1: "pipeline_run (on_processing (startPipeline ''a'' ''e'' pipeline_idle))"
      by (rule pr_quiet [OF r qs_processing]) (simp add: startPipeline_def)
    have r2: "pipeline_run (on_resolving ''a'' (on_processing (startPipeline ''a'' ''e'' pipeline_idle)))"
      by (rule pr_quiet [OF r1 qs_resolving]) (simp_all add: startPipeline_def on_processing_def)
    show ?thesis
      unfolding sample_run_def Let_def
      by (simp, rule pr_quiet [OF r2 qs_tick])
        (simp add: startPipeline_def on_processing_def on_resolving_def startPipelineDnsPolling_def pipeline_idle_def)
  qed
  moreover have "0 \<in> set (pl_flight (sample_run 3))" "attempts (sample_run 3) 0 < maxAttempts" by code_simp+
  ultimately show ?thesis using pipeline_foreign_answer [of "sample_run 3" 0 "''old''" "''b''" "''e2''"] by (simp add: Let_def)
qed

end
