(* ===== verification/Front_Dashboard.thy ===== *)
theory Front_Dashboard
  imports Front_Pipeline Front_Identity
begin

text \<open>
  \<open>nodns-frontend/src/components/dashboard.tsx\<close>: the handlers of the dashboard. Publishing is two steps, its beginning
  and the arrival of its result, between which the user can go on; \<open>handlePublish\<close> is both with nothing in between.
  \<open>show_error\<close> is the text of an error.
\<close>

section \<open>State\<close>

record PendingRecord = record_input +
  in_displayName :: string

record FrontPricing =
  fpr_mint_url :: string
  fpr_create_price :: int
  fpr_update_price :: int

datatype feedback = FeedbackSuccess string | FeedbackError string

record dash =
  ds_keyPair :: "Keypair option"
  ds_showKeyInput :: bool
  ds_nsecInput :: string
  ds_nsecError :: string
  ds_pending :: "PendingRecord list"
  ds_feedback :: "feedback option"
  ds_publishing :: bool
  ds_cashuToken :: string
  ds_verifyFqdn :: string
  ds_verifyResult :: string
  ds_recType :: string
  ds_recName :: string
  ds_recValue :: string
  ds_recTtl :: int
  ds_published :: "DnsRecord list"
  ds_deleting :: bool
  ds_pricing :: "FrontPricing option"
  ds_pipeline :: pipeline

definition dash_start :: dash where
  "dash_start = \<lparr>ds_keyPair = None, ds_showKeyInput = False, ds_nsecInput = [], ds_nsecError = [], ds_pending = [],
     ds_feedback = None, ds_publishing = False, ds_cashuToken = [], ds_verifyFqdn = [], ds_verifyResult = [],
     ds_recType = ''TXT'', ds_recName = [], ds_recValue = [], ds_recTtl = 300, ds_published = [], ds_deleting = False,
     ds_pricing = None, ds_pipeline = pipeline_idle\<rparr>"

definition own_fqdn :: "Keypair \<Rightarrow> string" where
  "own_fqdn kp = kp_npub kp @ ''.'' @ DEFAULT_ZONE"

section \<open>Keys\<close>

definition handleGenerateNew :: "nostr_lib \<Rightarrow> bytes \<Rightarrow> dash \<Rightarrow> dash" where
  "handleGenerateNew L sk s =
     (case generateEphemeralKeyPair L sk of
        Inl _ \<Rightarrow> s
      | Inr kp \<Rightarrow> s\<lparr>ds_keyPair := Some kp, ds_published := [], ds_feedback := None\<rparr>)"

definition handleLoadNsec :: "nostr_lib \<Rightarrow> dash \<Rightarrow> dash" where
  "handleLoadNsec L s =
     (if trim (ds_nsecInput s) = [] then s
      else case keyPairFromNsec L (trim (ds_nsecInput s)) of
          Inr kp \<Rightarrow> s\<lparr>ds_keyPair := Some kp, ds_published := [], ds_showKeyInput := False, ds_nsecInput := [],
            ds_nsecError := [], ds_feedback := None\<rparr>
        | Inl _ \<Rightarrow> s\<lparr>ds_nsecError := ''Invalid nsec key. Please check and try again.''\<rparr>)"

definition handleClearKeys :: "dash \<Rightarrow> dash" where
  "handleClearKeys s = s\<lparr>ds_keyPair := None, ds_pending := [], ds_published := [], ds_feedback := None,
     ds_pipeline := pipeline_clear (ds_pipeline s)\<rparr>"

section \<open>Records\<close>

definition dash_handleAddRecord :: "dash \<Rightarrow> dash" where
  "dash_handleAddRecord s =
     (let name = trim (ds_recName s); v = trim (ds_recValue s)
      in if v = [] then s\<lparr>ds_feedback := Some (FeedbackError ''Value is required.'')\<rparr>
         else case validateRecord (ds_recType s) name v of
             Some e \<Rightarrow> s\<lparr>ds_feedback := Some (FeedbackError e)\<rparr>
           | None \<Rightarrow>
               s\<lparr>ds_pending := ds_pending s @
                   [\<lparr>in_type = ds_recType s, in_name = (if name = ''@'' then [] else name), in_value = v,
                     in_ttl = ds_recTtl s,
                     in_displayName = (if name = ''@'' \<or> name = [] then ''@ (root)'' else name)\<rparr>],
                 ds_recValue := [], ds_feedback := None\<rparr>)"

definition handleRemoveRecord :: "nat \<Rightarrow> dash \<Rightarrow> dash" where
  "handleRemoveRecord index s = s\<lparr>ds_pending := take index (ds_pending s) @ drop (Suc index) (ds_pending s)\<rparr>"

section \<open>Publishing\<close>

definition publish_begin :: "dash \<Rightarrow> dash" where
  "publish_begin s = s\<lparr>ds_publishing := True, ds_feedback := None\<rparr>"

definition publish_end ::
  "(js_error \<Rightarrow> string) \<Rightarrow> PendingRecord list \<Rightarrow> Keypair \<Rightarrow> js_error + NostrEvent \<Rightarrow> dash \<Rightarrow> dash" where
  "publish_end show_error records kp result s =
     (case result of
        Inr event \<Rightarrow>
          s\<lparr>ds_feedback := Some (FeedbackSuccess (''Published event with '' @ show_int (int (length records)) @
                '' record(s). Event ID: '' @ take 16 (ev_id event) @ ''...'')),
            ds_verifyFqdn := own_fqdn kp, ds_pipeline := startPipeline (own_fqdn kp) (ev_id event) (ds_pipeline s),
            ds_pending := [], ds_cashuToken := [], ds_publishing := False\<rparr>
      | Inl e \<Rightarrow>
          s\<lparr>ds_feedback := Some (FeedbackError (''Publish failed: '' @ show_error e)),
            ds_pipeline := pipeline_failed (ds_pipeline s), ds_publishing := False\<rparr>)"

text \<open>The call of the publishing library that the beginning makes.\<close>

definition publish_call ::
  "signer \<Rightarrow> string \<Rightarrow> (string \<Rightarrow> NostrEvent \<Rightarrow> string option) \<Rightarrow> int \<Rightarrow> Keypair \<Rightarrow> dash \<Rightarrow>
     (js_error + NostrEvent) \<times> (string \<times> NostrEvent) list" where
  "publish_call S why publish nowMs kp s =
     (let (r, _, sent) = publishDnsEvent S why publish nowMs (map record_input.truncate (ds_pending s)) (kp_secretKey kp)
            (if ds_cashuToken s = [] then None else Some (ds_cashuToken s))
            (map_option fpr_mint_url (ds_pricing s)) (map_option fpr_create_price (ds_pricing s)) 20
      in (r, sent))"

definition dash_handlePublish ::
  "signer \<Rightarrow> string \<Rightarrow> (string \<Rightarrow> NostrEvent \<Rightarrow> string option) \<Rightarrow> (js_error \<Rightarrow> string) \<Rightarrow> int \<Rightarrow> dash \<Rightarrow>
     dash \<times> (string \<times> NostrEvent) list" where
  "dash_handlePublish S why publish show_error nowMs s =
     (case ds_keyPair s of
        None \<Rightarrow> (s, [])
      | Some kp \<Rightarrow>
          if ds_pending s = [] then (s, [])
          else let (r, sent) = publish_call S why publish nowMs kp s
               in (publish_end show_error (ds_pending s) kp r (publish_begin s), sent))"

section \<open>What is published\<close>

definition handleVerifyDns :: "doh \<Rightarrow> dash \<Rightarrow> dash" where
  "handleVerifyDns fetch s =
     (case ds_keyPair s of
        None \<Rightarrow> s
      | Some kp \<Rightarrow> s\<lparr>ds_verifyResult :=
          (case queryDoh fetch (own_fqdn kp) ''TXT'' None of
             Inl _ \<Rightarrow> ''DNS query failed. Try again in a moment.''
           | Inr resp \<Rightarrow>
               if nullish (dr_Answer resp) [] \<noteq> []
               then ''DNS resolved: '' @ join '', '' (map da_data (nullish (dr_Answer resp) []))
               else ''No DNS records found yet. It may take a few seconds to propagate.'')\<rparr>)"

definition dash_fetchRecords :: "api \<Rightarrow> string \<Rightarrow> dash \<Rightarrow> dash" where
  "dash_fetchRecords fetch base s =
     (case ds_keyPair s of
        None \<Rightarrow> s
      | Some kp \<Rightarrow>
          (case fetch (base @ ''/api/records'') of
             Reply status (Some body) \<Rightarrow>
               if response_ok status
               then s\<lparr>ds_published := filter (\<lambda>r. rec_npub r = kp_npub kp) (nullish body [])\<rparr>
               else s
           | _ \<Rightarrow> s))"

text \<open>Deleting; the list is fetched anew some seconds after a success.\<close>

definition dash_handleDelete ::
  "signer \<Rightarrow> string \<Rightarrow> (string \<Rightarrow> NostrEvent \<Rightarrow> string option) \<Rightarrow> (js_error \<Rightarrow> string) \<Rightarrow> int \<Rightarrow>
     DnsRecord \<Rightarrow> dash \<Rightarrow> dash \<times> (string \<times> NostrEvent) list" where
  "dash_handleDelete S why publish show_error nowMs r s =
     (case ds_keyPair s of
        None \<Rightarrow> (s, [])
      | Some kp \<Rightarrow>
          let (res, _, sent) = publishDeleteEvent S why publish nowMs
                [(rec_type r, if rec_name r = ''@'' then [] else rec_name r)] (kp_secretKey kp) DEFAULT_POW_DIFFICULTY
          in (s\<lparr>ds_feedback := Some (case res of
                Inr _ \<Rightarrow> FeedbackSuccess (''Delete event published for '' @ rec_type r @ '' record'')
              | Inl e \<Rightarrow> FeedbackError (show_error e)), ds_deleting := False\<rparr>, sent))"

section \<open>Runs\<close>

text \<open>What the user types and what the page fetches.\<close>

definition dash_edit ::
  "bool \<Rightarrow> string \<Rightarrow> string \<Rightarrow> string \<Rightarrow> string \<Rightarrow> string \<Rightarrow> int \<Rightarrow> FrontPricing option \<Rightarrow> dash \<Rightarrow> dash" where
  "dash_edit showKeyInput nsec token type name v ttl pricing s =
     s\<lparr>ds_showKeyInput := showKeyInput, ds_nsecInput := nsec, ds_cashuToken := token, ds_recType := type, ds_recName := name,
       ds_recValue := v, ds_recTtl := ttl, ds_pricing := pricing\<rparr>"

inductive dash_run :: "nostr_lib \<Rightarrow> (js_error \<Rightarrow> string) \<Rightarrow> dash \<Rightarrow> bool" for L show_error where
  dr_start: "dash_run L show_error dash_start"
| dr_edit: "dash_run L show_error s \<Longrightarrow> dash_run L show_error (dash_edit b nsec token type name v ttl pricing s)"
| dr_generate: "dash_run L show_error s \<Longrightarrow> dash_run L show_error (handleGenerateNew L sk s)"
| dr_load: "dash_run L show_error s \<Longrightarrow> dash_run L show_error (handleLoadNsec L s)"
| dr_clear: "dash_run L show_error s \<Longrightarrow> dash_run L show_error (handleClearKeys s)"
| dr_add: "dash_run L show_error s \<Longrightarrow> dash_run L show_error (dash_handleAddRecord s)"
| dr_remove: "dash_run L show_error s \<Longrightarrow> dash_run L show_error (handleRemoveRecord i s)"
| dr_begin: "dash_run L show_error s \<Longrightarrow> ds_keyPair s = Some kp \<Longrightarrow> ds_pending s \<noteq> [] \<Longrightarrow>
    dash_run L show_error (publish_begin s)"
| dr_end: "dash_run L show_error s \<Longrightarrow> dash_run L show_error (publish_end show_error records kp result s)"
| dr_pipeline: "dash_run L show_error s \<Longrightarrow> quiet_step (ds_pipeline s) p \<Longrightarrow> dash_run L show_error (s\<lparr>ds_pipeline := p\<rparr>)"
| dr_verify: "dash_run L show_error s \<Longrightarrow> dash_run L show_error (handleVerifyDns doh s)"
| dr_fetch: "dash_run L show_error s \<Longrightarrow> dash_run L show_error (dash_fetchRecords api base s)"
| dr_delete: "dash_run L show_error s \<Longrightarrow>
    dash_run L show_error (fst (dash_handleDelete S why publish show_error now r s))"

section \<open>Lemmas\<close>

text \<open>A record that waits to be published has passed the checks under the name it will have.\<close>

definition pending_ok :: "PendingRecord \<Rightarrow> bool" where
  "pending_ok r \<longleftrightarrow> in_value r \<noteq> [] \<and> in_name r \<noteq> ''@'' \<and> validateRecord (in_type r) (in_name r) (in_value r) = None"

lemma validateRecord_apex: "validateRecord ty ''@'' v = validateRecord ty [] v"
proof -
  have "validateReservedTxt ty ''@'' v = validateReservedTxt ty [] v" by (simp add: validateReservedTxt_def Let_def)
  then show ?thesis by (simp add: validateRecord_def validateRecordName_def split: option.split)
qed

lemma add_pending: "list_all pending_ok (ds_pending s) \<Longrightarrow> list_all pending_ok (ds_pending (dash_handleAddRecord s))"
  by (auto simp: dash_handleAddRecord_def Let_def pending_ok_def validateRecord_apex split: option.split)

lemma remove_pending: "list_all pending_ok xs \<Longrightarrow> list_all pending_ok (take i xs @ drop (Suc i) xs)"
  by (auto simp: list_all_iff dest: in_set_takeD in_set_dropD)

lemma dash_kept [simp]:
  "ds_pending (handleGenerateNew L sk s) = ds_pending s" "ds_pipeline (handleGenerateNew L sk s) = ds_pipeline s"
  "ds_pending (handleLoadNsec L s) = ds_pending s" "ds_pipeline (handleLoadNsec L s) = ds_pipeline s"
  "ds_pending (handleVerifyDns doh s) = ds_pending s" "ds_pipeline (handleVerifyDns doh s) = ds_pipeline s"
  "ds_pending (dash_fetchRecords api base s) = ds_pending s" "ds_pipeline (dash_fetchRecords api base s) = ds_pipeline s"
  "ds_pending (fst (dash_handleDelete S why publish show_error now r s)) = ds_pending s"
  "ds_pipeline (fst (dash_handleDelete S why publish show_error now r s)) = ds_pipeline s"
  "ds_pipeline (dash_handleAddRecord s) = ds_pipeline s"
  by (auto simp: handleGenerateNew_def handleLoadNsec_def handleVerifyDns_def dash_fetchRecords_def dash_handleDelete_def
      dash_handleAddRecord_def Let_def split: sum.split option.split fetch_outcome.split prod.split)

lemma dash_run_sound: "dash_run L show_error s \<Longrightarrow> list_all pending_ok (ds_pending s) \<and> pipeline_run (ds_pipeline s)"
proof (induction rule: dash_run.induct)
  case (dr_end s records kp result)
  then show ?case by (cases result) (auto simp: publish_end_def intro: pr_start pr_failed)
next
  case (dr_pipeline s p)
  then show ?case by (auto intro: pr_quiet)
next
  case (dr_remove s i)
  then show ?case using remove_pending by (simp add: handleRemoveRecord_def)
qed (auto simp: dash_start_def dash_edit_def handleClearKeys_def publish_begin_def add_pending intro: pr_idle pr_clear)

lemma publish_tags_record:
  "tag \<in> set (publish_tags records token mint amount) \<Longrightarrow> tag_is ''record'' tag \<Longrightarrow>
     \<exists>r \<in> set records. tag = buildRecordTag (in_type r) (or_else (Some (in_name r)) ''@'') (in_value r) (in_ttl r)"
  by (auto simp: publish_tags_def buildCashuTag_def tag_is_def split: if_splits)

section \<open>Properties\<close>

text \<open>
  C12. Whatever the user did before, each record tag in what the dashboard sends is that of a record that waited, under its
  own name, type and data, and these pass the SDK's record checks.
\<close>

theorem dash_publishes_valid:
  assumes "dash_run L show_error s" "signer_ok S event_hash" "adds_nonce S"
    and "dash_handlePublish S why publish show_error now s = (s', sent)" "(url, event) \<in> set sent"
    and "tag \<in> set (ev_tags event)" "tag_is ''record'' tag"
  shows "\<exists>r \<in> set (ds_pending s). tag = buildRecordTag (in_type r) (or_else (Some (in_name r)) ''@'') (in_value r) (in_ttl r) \<and>
    validateRecord (in_type r) (in_name r) (in_value r) = None"
proof -
  let ?tags = "publish_tags (map record_input.truncate (ds_pending s))
      (if ds_cashuToken s = [] then None else Some (ds_cashuToken s)) (map_option fpr_mint_url (ds_pricing s))
      (map_option fpr_create_price (ds_pricing s))"
  obtain kp where kp: "ds_keyPair s = Some kp" "ds_pending s \<noteq> []"
    using assms(4,5) by (auto simp: dash_handlePublish_def split: option.splits if_splits)
  obtain r phases sent' where m: "publishDnsEvent S why publish now (map record_input.truncate (ds_pending s)) (kp_secretKey kp)
      (if ds_cashuToken s = [] then None else Some (ds_cashuToken s)) (map_option fpr_mint_url (ds_pricing s))
      (map_option fpr_create_price (ds_pricing s)) 20 = (r, phases, sent')"
    using prod_cases3 by blast
  then have "sent' = sent" using assms(4) kp by (simp add: dash_handlePublish_def publish_call_def)
  with published_tags(1) [OF assms(2) m _ assms(3,6)] assms(5,7) have "tag \<in> set ?tags" by (auto simp: tag_is_def)
  from publish_tags_record [OF this assms(7)] obtain r where "r \<in> set (ds_pending s)"
    "tag = buildRecordTag (in_type r) (or_else (Some (in_name r)) ''@'') (in_value r) (in_ttl r)"
    by (auto simp: record_input.defs)
  moreover have "list_all pending_ok (ds_pending s)" using dash_run_sound [OF assms(1)] by blast
  ultimately show ?thesis by (auto simp: list_all_iff pending_ok_def)
qed

text \<open>
  A publication that succeeds empties the list of waiting records, also of those that were added while it was under
  way and that it did not send; one that fails keeps the records and the token.
\<close>

theorem publish_drops_additions:
  assumes "ds_pending (dash_handleAddRecord (publish_begin s)) = ds_pending s @ [r]"
  shows "ds_pending (publish_end show_error (ds_pending s) kp (Inr event) (dash_handleAddRecord (publish_begin s))) = [] \<and>
    ds_pending (publish_end show_error (ds_pending s) kp (Inl e) (dash_handleAddRecord (publish_begin s))) = ds_pending s @ [r] \<and>
    ds_cashuToken (publish_end show_error (ds_pending s) kp (Inl e) s) = ds_cashuToken s"
  using assms by (simp add: publish_end_def)

text \<open>A signer with a key that has twenty leading zero bits.\<close>

definition strong_signer :: signer where
  "strong_signer = \<lparr>sg_getPublicKey = (\<lambda>_. Some ''00000ab''),
     sg_minePow = (\<lambda>t pk d. if d \<le> int (countLeadingZeroBits pk) then Some (t, pk) else None),
     sg_finalize = (\<lambda>t sk. Some \<lparr>ev_id = ''00000ab'', ev_pubkey = ''00000ab'', ev_created_at = et_created_at t,
       ev_kind = et_kind t, ev_tags = et_tags t, ev_content = et_content t, ev_sig = []\<rparr>),
     sg_stringify = ev_id\<rparr>"

lemma strong_signer_ok: "signer_ok strong_signer (\<lambda>t pk. pk)" "adds_nonce strong_signer"
  by (auto simp: signer_ok_def adds_nonce_def strong_signer_def split: if_splits)

definition sample_dash :: dash where
  "sample_dash = dash_handleAddRecord (dash_edit False [] [] ''TXT'' '' @ '' ''hello '' 300 None
     (handleGenerateNew codec_lib [7] dash_start))"

theorem dash_publishes_valid_witness:
  "\<exists>r \<in> set (ds_pending sample_dash). buildRecordTag ''TXT'' ''@'' ''hello'' 300 =
      buildRecordTag (in_type r) (or_else (Some (in_name r)) ''@'') (in_value r) (in_ttl r) \<and>
    validateRecord (in_type r) (in_name r) (in_value r) = None"
proof -
  let ?r = "dash_handlePublish strong_signer [] (\<lambda>_ _. None) (\<lambda>_. []) 5000 sample_dash"
  have run: "dash_run codec_lib (\<lambda>_. []) sample_dash"
    unfolding sample_dash_def by (intro dr_add dr_edit dr_generate dr_start)
  have c: "list_ex (\<lambda>(url, event). buildRecordTag ''TXT'' ''@'' ''hello'' 300 \<in> set (ev_tags event)) (snd ?r)" by code_simp
  then obtain s' sent url event where e: "?r = (s', sent)" "(url, event) \<in> set sent"
    "buildRecordTag ''TXT'' ''@'' ''hello'' 300 \<in> set (ev_tags event)"
    by (cases ?r) (auto simp: list_ex_iff)
  show ?thesis
    by (rule dash_publishes_valid [OF run strong_signer_ok e]) (simp add: buildRecordTag_def tag_is_def)
qed

theorem publish_drops_additions_witness:
  "ds_pending (publish_end (\<lambda>_. []) (ds_pending sample_dash)
     \<lparr>kp_secretKey = [7], kp_pubkey = ''p'', kp_nsec = ''s'', kp_npub = ''n''\<rparr> (Inr (example_event []))
     (dash_handleAddRecord (publish_begin (dash_edit False [] [] ''TXT'' ''www'' ''bye'' 300 None sample_dash)))) = []"
proof -
  let ?s = "dash_edit False [] [] ''TXT'' ''www'' ''bye'' 300 None sample_dash"
  have "ds_pending (dash_handleAddRecord (publish_begin ?s)) = ds_pending ?s @
      [\<lparr>in_type = ''TXT'', in_name = ''www'', in_value = ''bye'', in_ttl = 300, in_displayName = ''www''\<rparr>]" by code_simp
  from publish_drops_additions [OF this] show ?thesis by (simp add: dash_edit_def)
qed

end
