(* ===== verification/Front_DomainPage.thy ===== *)
theory Front_DomainPage
  imports Front_Dashboard Front_Merge Front_Wallet
begin

text \<open>
  \<open>nodns-frontend/src/app/domain/page.tsx\<close> and \<open>app/register/page.tsx\<close>: the handlers with which a name is bought and
  its records are kept. Both pay from the wallet of the context, a \<open>front_wallet\<close>. The calls of the wallet manager
  they use, and the encoding of a token, are the fields of \<open>purse_lib\<close>; \<^const>\<open>None\<close> is a rejected promise.
\<close>

section \<open>Surroundings\<close>

record 'w purse_lib =
  pu_send :: "string \<Rightarrow> int \<Rightarrow> 'w \<Rightarrow> json option \<times> 'w"
  pu_encode :: "json \<Rightarrow> string option"

record 'w front_page_env =
  pg_lib :: nostr_lib
  pg_signer :: signer
  pg_why :: string
  pg_publish :: "string \<Rightarrow> NostrEvent \<Rightarrow> string option"
  pg_now :: int
  pg_show_error :: "js_error \<Rightarrow> string"
  pg_query :: relay_query
  pg_api :: api
  pg_doh :: doh
  pg_base :: string
  pg_purse :: "'w purse_lib"
  pg_initialized :: bool
  pg_nsec :: "string option"
  pg_nameParam :: string

definition page_sources :: "'w front_page_env \<Rightarrow> string \<Rightarrow> UiTripartite" where
  "page_sources E name = front_fetchTripartiteRecords (pg_lib E) (pg_query E) (pg_api E) (pg_doh E) (pg_base E)
     \<lparr>fp_pubkey = None, fp_domain = Some (toFqdn name)\<rparr> None"

text \<open>A token of \<open>amount\<close>, taken from the wallet.\<close>

definition purse_token :: "'w purse_lib \<Rightarrow> string \<Rightarrow> int \<Rightarrow> 'w \<Rightarrow> (js_error + string) \<times> 'w" where
  "purse_token P mint amount mgr =
     (let (tokenObj, mgr') = pu_send P mint amount mgr
      in (try_bind (lib_call tokenObj) (\<lambda>t. lib_call (pu_encode P t)), mgr'))"

section \<open>The domain page\<close>

datatype PageStatus = PageLoading | PageReady | PageError

datatype RecordStatus = OpIdle | OpSaving | OpDeleting

record dpage =
  dg_records :: "DnsRecordRow list"
  dg_status :: PageStatus
  dg_tripartite :: "UiTripartite option"
  dg_pricing :: "FrontPricing option"
  dg_editingId :: "string option"
  dg_editValue :: string
  dg_editTtl :: int
  dg_validationError :: "string option"
  dg_addingRecord :: bool
  dg_newType :: string
  dg_newName :: string
  dg_newValue :: string
  dg_newTtl :: int
  dg_addError :: "string option"
  dg_opStatus :: RecordStatus
  dg_opError :: "string option"
  dg_deleteTarget :: "DnsRecordRow option"

definition dpage_start :: dpage where
  "dpage_start = \<lparr>dg_records = [], dg_status = PageLoading, dg_tripartite = None, dg_pricing = None, dg_editingId = None,
     dg_editValue = [], dg_editTtl = 3600, dg_validationError = None, dg_addingRecord = False, dg_newType = ''A'',
     dg_newName = ''@'', dg_newValue = [], dg_newTtl = 3600, dg_addError = None, dg_opStatus = OpIdle, dg_opError = None,
     dg_deleteTarget = None\<rparr>"

definition page_loadRecords :: "'w front_page_env \<Rightarrow> dpage \<Rightarrow> dpage" where
  "page_loadRecords E page =
     (if \<not> pg_initialized E \<or> pg_nameParam E = [] then page
      else let results = page_sources E (pg_nameParam E)
           in page\<lparr>dg_tripartite := Some results, dg_records := domain_rows results, dg_status := PageReady\<rparr>)"

text \<open>The badge, and the second in which the name expires: one year after the newest record.\<close>

definition page_badge :: "dpage \<Rightarrow> string" where
  "page_badge page = (if length (dg_records page) = 0 then ''No Records'' else ''Active'')"

definition page_expiry :: "dpage \<Rightarrow> int option" where
  "page_expiry page =
     (let lastSeen = page_last_seen (dg_records page)
      in if lastSeen = 0 then None else Some (lastSeen + 365 * 86400))"

definition bare_name :: "string \<Rightarrow> string" where
  "bare_name name = (if name = ''@'' then [] else name)"

text \<open>What saving a new and a changed record share: the key, the payment if the balance is large enough, and the
  event. It gives the result, the wallet afterwards and the messages sent.\<close>

definition page_token :: "'w purse_lib \<Rightarrow> int \<Rightarrow> int \<Rightarrow> 'w \<Rightarrow> (js_error + string option) \<times> 'w" where
  "page_token P price balance mgr =
     (if price > 0 \<and> balance \<ge> price
      then let (r, mgr') = purse_token P MINT_URL price mgr in (map_sum id Some r, mgr')
      else (Inr None, mgr))"

definition save_record ::
  "'w front_page_env \<Rightarrow> string \<Rightarrow> int \<Rightarrow> int \<Rightarrow> record_input \<Rightarrow> 'w \<Rightarrow>
     (js_error + NostrEvent) \<times> 'w \<times> (string \<times> NostrEvent) list" where
  "save_record E nsec price balance r mgr =
     (case keyPairFromNsec (pg_lib E) nsec of
        Inl e \<Rightarrow> (Inl e, mgr, [])
      | Inr keyPair \<Rightarrow>
          (case page_token (pg_purse E) price balance mgr of
             (Inl e, mgr') \<Rightarrow> (Inl e, mgr', [])
           | (Inr cashuToken, mgr') \<Rightarrow>
               let (result, _, sent) = publishDnsEvent (pg_signer E) (pg_why E) (pg_publish E) (pg_now E) [r]
                     (kp_secretKey keyPair) cashuToken (Some MINT_URL) (Some price) DEFAULT_POW_DIFFICULTY
               in (result, mgr', sent)))"

definition handleSaveNew ::
  "'w front_page_env \<Rightarrow> 'w front_wallet \<Rightarrow> dpage \<Rightarrow> dpage \<times> 'w front_wallet \<times> (string \<times> NostrEvent) list" where
  "handleSaveNew E ctx page =
     (case fw_manager ctx of
        None \<Rightarrow> (page, ctx, [])
      | Some mgr \<Rightarrow>
          if \<not> truthy (pg_nsec E) \<or> pg_nameParam E = [] then (page, ctx, [])
          else (case validateRecord (dg_newType page) (bare_name (dg_newName page)) (dg_newValue page) of
              Some err \<Rightarrow> (page\<lparr>dg_addError := Some err\<rparr>, ctx, [])
            | None \<Rightarrow>
                let page0 = page\<lparr>dg_addError := None, dg_opError := None\<rparr>;
                    price = nullish (map_option fpr_create_price (dg_pricing page)) 0;
                    (result, mgr', sent) = save_record E (the (pg_nsec E)) price (fw_balance ctx)
                      \<lparr>in_type = dg_newType page, in_name = bare_name (dg_newName page), in_value = dg_newValue page,
                       in_ttl = dg_newTtl page\<rparr> mgr;
                    page1 = (case result of
                        Inr _ \<Rightarrow> page_loadRecords E (page0\<lparr>dg_addingRecord := False, dg_newType := ''A'', dg_newName := ''@'',
                          dg_newValue := [], dg_newTtl := 3600\<rparr>)
                      | Inl e \<Rightarrow> page0\<lparr>dg_opError := Some (pg_show_error E e)\<rparr>)
                in (page1\<lparr>dg_opStatus := OpIdle\<rparr>, ctx\<lparr>fw_manager := Some mgr'\<rparr>, sent)))"

definition handleEditSave ::
  "'w front_page_env \<Rightarrow> 'w front_wallet \<Rightarrow> dpage \<Rightarrow> dpage \<times> 'w front_wallet \<times> (string \<times> NostrEvent) list" where
  "handleEditSave E ctx page =
     (case fw_manager ctx of
        None \<Rightarrow> (page, ctx, [])
      | Some mgr \<Rightarrow>
          if \<not> truthy (pg_nsec E) \<or> pg_nameParam E = [] \<or> \<not> truthy (dg_editingId page) then (page, ctx, [])
          else (case List.find (\<lambda>r. row_id r = the (dg_editingId page)) (dg_records page) of
              None \<Rightarrow> (page, ctx, [])
            | Some r \<Rightarrow>
                (case validateRecord (row_type r) (bare_name (row_name r)) (dg_editValue page) of
                   Some err \<Rightarrow> (page\<lparr>dg_validationError := Some err\<rparr>, ctx, [])
                 | None \<Rightarrow>
                     let page0 = page\<lparr>dg_opError := None\<rparr>;
                         price = nullish (map_option fpr_update_price (dg_pricing page)) 0;
                         (result, mgr', sent) = save_record E (the (pg_nsec E)) price (fw_balance ctx)
                           \<lparr>in_type = row_type r, in_name = bare_name (row_name r), in_value = dg_editValue page,
                            in_ttl = dg_editTtl page\<rparr> mgr;
                         page1 = (case result of
                             Inr _ \<Rightarrow> page_loadRecords E (page0\<lparr>dg_editingId := None\<rparr>)
                           | Inl e \<Rightarrow> page0\<lparr>dg_opError := Some (pg_show_error E e)\<rparr>)
                     in (page1\<lparr>dg_opStatus := OpIdle\<rparr>, ctx\<lparr>fw_manager := Some mgr'\<rparr>, sent))))"

definition page_handleDelete ::
  "'w front_page_env \<Rightarrow> DnsRecordRow \<Rightarrow> dpage \<Rightarrow> dpage \<times> (string \<times> NostrEvent) list" where
  "page_handleDelete E r page =
     (if \<not> truthy (pg_nsec E) then (page, [])
      else
        let page0 = page\<lparr>dg_opError := None, dg_deleteTarget := None\<rparr>;
            (result, sent) = (case keyPairFromNsec (pg_lib E) (the (pg_nsec E)) of
                Inl e \<Rightarrow> (Inl e, [])
              | Inr keyPair \<Rightarrow>
                  let (res, _, sent) = publishDeleteEvent (pg_signer E) (pg_why E) (pg_publish E) (pg_now E)
                        [(row_type r, bare_name (row_name r))] (kp_secretKey keyPair) DEFAULT_POW_DIFFICULTY
                  in (res, sent));
            page1 = (case result of
                Inr _ \<Rightarrow> page_loadRecords E page0
              | Inl e \<Rightarrow> page0\<lparr>dg_opError := Some (pg_show_error E e)\<rparr>)
        in (page1\<lparr>dg_opStatus := OpIdle\<rparr>, sent))"

definition row_startEdit :: "DnsRecordRow \<Rightarrow> dpage \<Rightarrow> dpage" where
  "row_startEdit r page = page\<lparr>dg_editingId := Some (row_id r), dg_editValue := row_value r, dg_editTtl := row_ttl r,
     dg_validationError := None\<rparr>"

definition row_cancelEdit :: "dpage \<Rightarrow> dpage" where
  "row_cancelEdit page = page\<lparr>dg_editingId := None, dg_validationError := None\<rparr>"

definition startAdd :: "dpage \<Rightarrow> dpage" where
  "startAdd page = page\<lparr>dg_addingRecord := True, dg_addError := None\<rparr>"

definition cancelAdd :: "dpage \<Rightarrow> dpage" where
  "cancelAdd page = page\<lparr>dg_addingRecord := False, dg_addError := None\<rparr>"

section \<open>The registration page\<close>

datatype Step = Review | Paying | Success | Failed

record rpage =
  rp_step :: Step
  rp_errorMsg :: string
  rp_txEventId :: "string option"
  rp_pricing :: "FrontPricing option"
  rp_miningStatus :: string

definition rpage_start :: rpage where
  "rpage_start = \<lparr>rp_step = Review, rp_errorMsg = [], rp_txEventId = None, rp_pricing = None, rp_miningStatus = []\<rparr>"

definition register_mint :: "rpage \<Rightarrow> string" where
  "register_mint page = nullish (map_option fpr_mint_url (rp_pricing page)) MINT_URL"

definition register_price :: "string \<Rightarrow> rpage \<Rightarrow> int" where
  "register_price name page =
     (if name \<noteq> [] then getPriceForName (nullish (map_option fpr_create_price (rp_pricing page)) 2) name else 0)"

text \<open>The text of the phase that mining reached last.\<close>

definition phase_text :: "MiningPhase \<Rightarrow> string" where
  "phase_text phase = (if phase = Mining then ''Mining PoW (20 bits)...'' else ''Publishing event...'')"

definition front_handleRegister ::
  "'w front_page_env \<Rightarrow> 'w front_wallet \<Rightarrow> rpage \<Rightarrow> rpage \<times> 'w front_wallet \<times> (string \<times> NostrEvent) list" where
  "front_handleRegister E ctx page =
     (let name = sanitizeName (pg_nameParam E); price = register_price name page; mintUrl = register_mint page
      in case fw_manager ctx of
           None \<Rightarrow> (page, ctx, [])
         | Some mgr \<Rightarrow>
             if \<not> truthy (pg_nsec E) \<or> name = [] \<or> fw_balance ctx < price then (page, ctx, [])
             else
               let page0 = page\<lparr>rp_errorMsg := []\<rparr>;
                   failed = (\<lambda>page e. page\<lparr>rp_step := Failed, rp_errorMsg := pg_show_error E e\<rparr>)
               in case purse_token (pg_purse E) mintUrl price mgr of
                    (Inl e, mgr') \<Rightarrow> (failed page0 e, ctx\<lparr>fw_manager := Some mgr'\<rparr>, [])
                  | (Inr cashuToken, mgr') \<Rightarrow>
                      let ctx' = ctx\<lparr>fw_manager := Some mgr'\<rparr>
                      in case keyPairFromNsec (pg_lib E) (the (pg_nsec E)) of
                           Inl e \<Rightarrow> (failed page0 e, ctx', [])
                         | Inr keyPair \<Rightarrow>
                             let (result, phases, sent) = publishDnsEvent (pg_signer E) (pg_why E) (pg_publish E) (pg_now E)
                                   [\<lparr>in_type = ''TXT'', in_name = name, in_value = ''registered via nodns.shop'', in_ttl = 3600\<rparr>]
                                   (kp_secretKey keyPair) (Some cashuToken) (Some mintUrl) (Some price) 20;
                                 page1 = (if phases = [] then page0 else page0\<lparr>rp_miningStatus := phase_text (last phases)\<rparr>)
                             in (case result of
                                   Inr event \<Rightarrow> page1\<lparr>rp_txEventId := Some (ev_id event), rp_step := Success\<rparr>
                                 | Inl e \<Rightarrow> failed page1 e,
                                 ctx', sent))"

definition register_retry :: "rpage \<Rightarrow> rpage" where
  "register_retry page = page\<lparr>rp_step := Review\<rparr>"

section \<open>The search page\<close>

record spage =
  sp_available :: "bool option"
  sp_pricing :: "FrontPricing option"
  sp_tripartite :: "UiTripartite option"
  sp_error :: "string option"
  sp_loading :: bool

definition spage_start :: spage where
  "spage_start = \<lparr>sp_available = None, sp_pricing = None, sp_tripartite = None, sp_error = None, sp_loading = False\<rparr>"

text \<open>\<open>check\<close>; \<open>priced\<close> is what \<open>fetchPricing\<close> gave, \<^const>\<open>None\<close> when it failed.\<close>

definition search_check :: "'w front_page_env \<Rightarrow> FrontPricing option \<Rightarrow> string \<Rightarrow> spage \<Rightarrow> spage" where
  "search_check E priced q page =
     (let name = sanitizeName q
      in if name = [] then page
         else let results = page_sources E name;
                  anyRecords = (length (sr_records (ut_api results)) > 0 \<or> length (sr_records (ut_nostr results)) > 0)
              in page\<lparr>sp_error := None, sp_tripartite := Some results, sp_available := Some (\<not> anyRecords),
                   sp_pricing := (case priced of Some p \<Rightarrow> Some p | None \<Rightarrow> sp_pricing page), sp_loading := False\<rparr>)"

definition search_price :: "string \<Rightarrow> spage \<Rightarrow> int" where
  "search_price q page =
     (let name = sanitizeName q
      in if name \<noteq> [] then getPriceForName (nullish (map_option fpr_create_price (sp_pricing page)) 2) name else 0)"

definition suggestions :: "string \<Rightarrow> spage \<Rightarrow> string list" where
  "suggestions q page =
     (let name = sanitizeName q
      in if sp_available page \<noteq> Some False \<or> name = [] then []
         else take 3 (map (\<lambda>p. p @ name) [''my'', ''the'', ''go'', ''hi'']))"

section \<open>Lemmas\<close>

lemma purse_token_Inr:
  "purse_token P mint amount mgr = (Inr token, mgr') \<longleftrightarrow>
     (\<exists>t. pu_send P mint amount mgr = (Some t, mgr') \<and> pu_encode P t = Some token)"
  by (auto simp: purse_token_def try_bind_Inr_iff lib_call_Inr_iff split: prod.splits)

lemma published_accepted:
  assumes "publishDnsEvent S why publish now records sk token mint amount pow = (Inr event, phases, sent)"
  shows "sent = map (\<lambda>url. (url, event)) PUBLISH_RELAYS" "\<exists>url \<in> set PUBLISH_RELAYS. publish url event = None"
  using assms by (auto simp: publishDnsEvent_def mine_sign_publish_def publish_any_def list_ex_iff Let_def
      split: sum.splits if_splits)

text \<open>A registration that is shown as a success.\<close>

lemma register_Success:
  assumes "front_handleRegister E ctx page = (page', ctx', sent)" "rp_step page \<noteq> Success" "rp_step page' = Success"
  obtains mgr t token phases mgr' event and kp :: Keypair where
    "fw_manager ctx = Some mgr" "sanitizeName (pg_nameParam E) \<noteq> []"
    "register_price (sanitizeName (pg_nameParam E)) page \<le> fw_balance ctx"
    "pu_send (pg_purse E) (register_mint page) (register_price (sanitizeName (pg_nameParam E)) page) mgr = (Some t, mgr')"
    "pu_encode (pg_purse E) t = Some token" "ctx' = ctx\<lparr>fw_manager := Some mgr'\<rparr>"
    "publishDnsEvent (pg_signer E) (pg_why E) (pg_publish E) (pg_now E)
       [\<lparr>in_type = ''TXT'', in_name = sanitizeName (pg_nameParam E), in_value = ''registered via nodns.shop'', in_ttl = 3600\<rparr>]
       (kp_secretKey kp) (Some token) (Some (register_mint page))
       (Some (register_price (sanitizeName (pg_nameParam E)) page)) 20 = (Inr event, phases, sent)"
    "rp_txEventId page' = Some (ev_id event)"
proof -
  obtain mgr where m: "fw_manager ctx = Some mgr" "sanitizeName (pg_nameParam E) \<noteq> []" "truthy (pg_nsec E)"
    "register_price (sanitizeName (pg_nameParam E)) page \<le> fw_balance ctx"
    using assms by (auto simp: front_handleRegister_def Let_def split: option.splits if_splits)
  obtain r mgr' where p: "purse_token (pg_purse E) (register_mint page)
      (register_price (sanitizeName (pg_nameParam E)) page) mgr = (r, mgr')" by fastforce
  then obtain token where r: "r = Inr token"
    using assms m by (cases r) (auto simp: front_handleRegister_def Let_def)
  then obtain kp where k: "keyPairFromNsec (pg_lib E) (the (pg_nsec E)) = Inr kp"
    using assms m p by (cases "keyPairFromNsec (pg_lib E) (the (pg_nsec E))") (auto simp: front_handleRegister_def Let_def)
  obtain res phases sent' where u: "publishDnsEvent (pg_signer E) (pg_why E) (pg_publish E) (pg_now E)
       [\<lparr>in_type = ''TXT'', in_name = sanitizeName (pg_nameParam E), in_value = ''registered via nodns.shop'', in_ttl = 3600\<rparr>]
       (kp_secretKey kp) (Some token) (Some (register_mint page))
       (Some (register_price (sanitizeName (pg_nameParam E)) page)) 20 = (res, phases, sent')"
    using prod_cases3 by blast
  obtain event where e: "res = Inr event"
    using assms m p r k u by (cases res) (auto simp: front_handleRegister_def Let_def split: if_splits)
  have c: "ctx' = ctx\<lparr>fw_manager := Some mgr'\<rparr>" "sent' = sent" "rp_txEventId page' = Some (ev_id event)"
    using assms(1) m p r k u e by (auto simp: front_handleRegister_def Let_def split: if_splits)
  obtain t where t: "pu_send (pg_purse E) (register_mint page)
      (register_price (sanitizeName (pg_nameParam E)) page) mgr = (Some t, mgr')" "pu_encode (pg_purse E) t = Some token"
    using p unfolding r purse_token_Inr by blast
  show thesis by (rule that [OF m(1,2,4) t c(1) u [unfolded e c(2)] c(3)])
qed

lemma name_not_apex: "list_all (\<lambda>c. is_lower c \<or> is_digit c \<or> c = CHR ''-'') s \<Longrightarrow> s \<noteq> ''@''"
  by (auto simp: is_lower_def is_digit_def code_of_def)

text \<open>How the SDK reads the front end's record tags: under their own name.\<close>

lemma nostr_record_of_buildRecordTag:
  "ty \<noteq> [] \<Longrightarrow> nostr_record_of_tag enc event zone (buildRecordTag ty name v ttl) =
     Some \<lparr>nr_type = toUpperCase ty, nr_name = (if name = [] then ''@'' else name), nr_value = show_int ttl, nr_ttl = 3600,
       nr_fqdn = computeFqdn enc name (ev_pubkey event) zone, nr_pubkey = ev_pubkey event, nr_eventId = ev_id event,
       nr_created_at = ev_created_at event\<rparr>"
  by (simp add: nostr_record_of_tag_def buildRecordTag_def or_else_def toUpperCase_def show_int_nonempty)

lemma served_name_found:
  assumes "pg_query E DEFAULT_READ_RELAYS (author_filter None 500) NOSTR_QUERY_MAX_WAIT = Some events"
    and "event \<in> set events" "r \<in> set (parseRecordsFromEvent (nl_npubEncode (pg_lib E)) event DEFAULT_ZONE)"
    and "nr_fqdn r = toFqdn name"
  shows "sr_records (ut_nostr (page_sources E name)) \<noteq> []"
proof -
  let ?rs = "concat (map (\<lambda>ev. filter (\<lambda>r. nr_fqdn r = toFqdn name) (parseRecordsFromEvent (nl_npubEncode (pg_lib E)) ev DEFAULT_ZONE)) events)"
  have "r \<in> set ?rs" using assms(2-4) by auto
  then have "dedup_key r \<in> dedup_key ` set (deduplicateRecords ?rs)" unfolding dedup_keys_image by (rule imageI)
  then have "deduplicateRecords ?rs \<noteq> []" by auto
  then show ?thesis
    by (simp add: Let_def page_sources_def front_fetchTripartiteRecords_def fetchTripartiteRecords_def with_meta_def
        SourceResult.defs base_result_def fetchNostrRecords_def queryRecordsByDomain_def assms(1) toFqdn_def truthy_def DEFAULT_ZONE_def)
qed

text \<open>Saving a record of the domain page, new or changed.\<close>

lemma save_record_sent:
  assumes "save_record E nsec price balance r mgr = (result, mgr', sent)" "sent \<noteq> []"
  shows "\<exists>kp token phases. keyPairFromNsec (pg_lib E) nsec = Inr kp \<and>
    page_token (pg_purse E) price balance mgr = (Inr token, mgr') \<and>
    publishDnsEvent (pg_signer E) (pg_why E) (pg_publish E) (pg_now E) [r] (kp_secretKey kp) token (Some MINT_URL) (Some price)
      DEFAULT_POW_DIFFICULTY = (result, phases, sent)"
  using assms by (auto simp: save_record_def split: sum.splits prod.splits)

lemma handleSaveNew_sent:
  assumes "handleSaveNew E ctx page = (page', ctx', sent)" "sent \<noteq> []"
  shows "\<exists>mgr result mgr'. validateRecord (dg_newType page) (bare_name (dg_newName page)) (dg_newValue page) = None \<and>
    save_record E (the (pg_nsec E)) (nullish (map_option fpr_create_price (dg_pricing page)) 0) (fw_balance ctx)
      \<lparr>in_type = dg_newType page, in_name = bare_name (dg_newName page), in_value = dg_newValue page, in_ttl = dg_newTtl page\<rparr>
      mgr = (result, mgr', sent)"
  using assms by (auto simp: handleSaveNew_def Let_def split: option.splits if_splits prod.splits)

lemma saved_record_fqdn:
  assumes "signer_ok (pg_signer E) h" "adds_nonce (pg_signer E)"
    and "save_record E nsec price balance i mgr = (result, mgr', sent)" "(url, event) \<in> set sent"
    and "r \<in> set (parseRecordsFromEvent enc event zone)"
  shows "nr_fqdn r = computeFqdn enc (in_name i) (ev_pubkey event) zone"
proof -
  from save_record_sent [OF assms(3)] assms(4) obtain kp token phases
    where u: "publishDnsEvent (pg_signer E) (pg_why E) (pg_publish E) (pg_now E) [i] (kp_secretKey (kp :: Keypair)) token
      (Some MINT_URL) (Some price) DEFAULT_POW_DIFFICULTY = (result, phases, sent)" by fastforce
  from assms(5) obtain tag where t: "tag \<in> set (ev_tags event)" "nostr_record_of_tag enc event zone tag = Some r"
    by (auto simp: parseRecordsFromEvent_def set_collect)
  then have k: "tag_is ''record'' tag" by (auto simp: nostr_record_of_tag_def tag_is_def split: if_splits)
  then have "tag \<in> set (publish_tags [i] token (Some MINT_URL) (Some price))"
    using published_tags(1) [OF assms(1) u assms(4,2) t(1)] by (auto simp: tag_is_def)
  from publish_tags_record [OF this k]
  have b: "tag = buildRecordTag (in_type i) (or_else (Some (in_name i)) ''@'') (in_value i) (in_ttl i)" by auto
  then have "in_type i \<noteq> []" using t(2) by (auto simp: nostr_record_of_tag_def buildRecordTag_def toUpperCase_def)
  from t(2) [unfolded b nostr_record_of_buildRecordTag [OF this]]
  have "nr_fqdn r = computeFqdn enc (or_else (Some (in_name i)) ''@'') (ev_pubkey event) zone" by auto
  then show ?thesis by (simp add: computeFqdn_def isNpubDerivedName_def or_else_def)
qed

section \<open>Properties\<close>

text \<open>
  A registration that is shown as a success paid exactly the price, which the balance covered, with one token of the
  mint; the event it names carries the name and that token, went to all relays and was accepted by one.
\<close>

theorem register_success:
  assumes "signer_ok (pg_signer E) event_hash" "keeps_tags (pg_signer E)"
    and "front_handleRegister E ctx page = (page', ctx', sent)" "rp_step page \<noteq> Success" "rp_step page' = Success"
  shows "\<exists>mgr t token event. let name = sanitizeName (pg_nameParam E); price = register_price name page in
    price \<le> fw_balance ctx \<and> fw_manager ctx = Some mgr \<and>
    pu_send (pg_purse E) (register_mint page) price mgr = (Some t, the (fw_manager ctx')) \<and> pu_encode (pg_purse E) t = Some token \<and>
    buildRecordTag ''TXT'' name ''registered via nodns.shop'' 3600 \<in> set (ev_tags event) \<and>
    (token \<noteq> [] \<and> register_mint page \<noteq> [] \<longrightarrow> buildCashuTag token (register_mint page) price \<in> set (ev_tags event)) \<and>
    rp_txEventId page' = Some (ev_id event) \<and> sent = map (\<lambda>url. (url, event)) PUBLISH_RELAYS \<and>
    (\<exists>url \<in> set PUBLISH_RELAYS. pg_publish E url event = None)"
  using assms(3-5)
proof (rule register_Success)
  fix mgr t token phases mgr' event and kp :: Keypair
  let ?name = "sanitizeName (pg_nameParam E)"
  assume a: "fw_manager ctx = Some mgr" "?name \<noteq> []" "register_price ?name page \<le> fw_balance ctx"
    "pu_send (pg_purse E) (register_mint page) (register_price ?name page) mgr = (Some t, mgr')"
    "pu_encode (pg_purse E) t = Some token" "ctx' = ctx\<lparr>fw_manager := Some mgr'\<rparr>"
    and u: "publishDnsEvent (pg_signer E) (pg_why E) (pg_publish E) (pg_now E)
       [\<lparr>in_type = ''TXT'', in_name = ?name, in_value = ''registered via nodns.shop'', in_ttl = 3600\<rparr>]
       (kp_secretKey kp) (Some token) (Some (register_mint page)) (Some (register_price ?name page)) 20 = (Inr event, phases, sent)"
    and e: "rp_txEventId page' = Some (ev_id event)"
  note p = published_accepted [OF u]
  have "(PUBLISH_RELAYS ! 0, event) \<in> set sent" using p(1) by (simp add: PUBLISH_RELAYS_def)
  from published_tags(2) [OF assms(1) u this assms(2)] a e p show ?thesis
    by (intro exI [of _ mgr] exI [of _ t] exI [of _ token] exI [of _ event])
      (auto simp: Let_def publish_tags_def truthy_def or_else_def)
qed

text \<open>
  C18. Registering and searching fit together: once a relay serves the event of a successful registration, a search for the
  same name, however it is written, shows it as taken.
\<close>

theorem register_then_taken:
  assumes "signer_ok (pg_signer E) event_hash" "keeps_tags (pg_signer E)"
    and "front_handleRegister E ctx page = (page', ctx', sent)" "rp_step page \<noteq> Success" "rp_step page' = Success"
    and "(url, event) \<in> set sent" "event \<in> set events" "sanitizeName q = sanitizeName (pg_nameParam E)"
    and "pg_query E2 DEFAULT_READ_RELAYS (author_filter None 500) NOSTR_QUERY_MAX_WAIT = Some events"
  shows "sp_available (search_check E2 priced q sp) = Some False"
  using assms(3-5)
proof (rule register_Success)
  fix mgr t token phases mgr' ev and kp :: Keypair
  let ?name = "sanitizeName (pg_nameParam E)"
  assume n: "?name \<noteq> []" and u: "publishDnsEvent (pg_signer E) (pg_why E) (pg_publish E) (pg_now E)
       [\<lparr>in_type = ''TXT'', in_name = ?name, in_value = ''registered via nodns.shop'', in_ttl = 3600\<rparr>]
       (kp_secretKey kp) (Some token) (Some (register_mint page)) (Some (register_price ?name page)) 20 = (Inr ev, phases, sent)"
  have "buildRecordTag ''TXT'' ?name ''registered via nodns.shop'' 3600 \<in> set (ev_tags event)"
    using published_tags(2) [OF assms(1) u assms(6,2)] n by (auto simp: publish_tags_def or_else_def)
  then obtain r where r: "r \<in> set (parseRecordsFromEvent (nl_npubEncode (pg_lib E2)) event DEFAULT_ZONE)"
    "nr_fqdn r = computeFqdn (nl_npubEncode (pg_lib E2)) ?name (ev_pubkey event) DEFAULT_ZONE"
    using nostr_record_of_buildRecordTag [of "''TXT''" "nl_npubEncode (pg_lib E2)" event DEFAULT_ZONE ?name
        "''registered via nodns.shop''" 3600]
    by (fastforce simp: parseRecordsFromEvent_def set_collect)
  have "nr_fqdn r = toFqdn ?name"
    using r(2) n name_not_apex [OF sanitizeName_chars] by (simp add: computeFqdn_def isNpubDerivedName_def toFqdn_def)
  from served_name_found [OF assms(9,7) r(1) this] n show ?thesis
    by (simp add: search_check_def Let_def assms(8))
qed

text \<open>
  C19. When the relays refuse the event, the registration has failed, the money has left the wallet and the page keeps no
  token: trying again pays a second time.
\<close>

theorem register_payment_lost:
  assumes "\<And>url event. pg_publish E url event \<noteq> None"
    and "fw_manager ctx = Some mgr" "truthy (pg_nsec E)" "sanitizeName (pg_nameParam E) = name" "name \<noteq> []"
    and "register_price name page = price" "price \<le> fw_balance ctx" "register_mint page = mint"
    and "pu_send (pg_purse E) mint price mgr = (Some t, mgr1)" "pu_encode (pg_purse E) t = Some token"
    and "front_handleRegister E ctx page = (page', ctx', sent)"
    and "fw_manager ctx2 = Some mgr1" "price \<le> fw_balance ctx2"
  shows "rp_step page' = Failed \<and> fw_manager ctx' = Some mgr1 \<and>
    fw_manager (fst (snd (front_handleRegister E ctx2 (register_retry page')))) = Some (snd (pu_send (pg_purse E) mint price mgr1))"
proof -
  have refused: "publishDnsEvent (pg_signer E) (pg_why E) (pg_publish E) (pg_now E) rs sk tok m a d \<noteq> (Inr ev, phases, sn)"
    for rs sk tok m a d ev phases sn
    using published_accepted(2) assms(1) by blast
  have afford: "\<not> fw_balance ctx < price" "\<not> fw_balance ctx2 < price" using assms(7,13) by simp_all
  have p: "purse_token (pg_purse E) mint price mgr = (Inr token, mgr1)" using assms(9,10) by (simp add: purse_token_Inr)
  have 1: "rp_step page' = Failed \<and> fw_manager ctx' = Some mgr1 \<and> rp_pricing page' = rp_pricing page"
    using assms(11) p unfolding front_handleRegister_def Let_def assms(2,4,6,8)
    by (auto simp: assms(3,5) afford refused split: sum.splits prod.splits if_splits)
  then have 2: "register_price name (register_retry page') = price" "register_mint (register_retry page') = mint"
    unfolding assms(6,8) [symmetric] by (simp_all add: register_price_def register_mint_def register_retry_def)
  have "fw_manager (fst (snd (front_handleRegister E ctx2 (register_retry page')))) = Some (snd (purse_token (pg_purse E) mint price mgr1))"
    unfolding front_handleRegister_def Let_def assms(4,12) 2
    by (auto simp: assms(3,5) afford split: sum.split prod.split)
  with 1 show ?thesis by (simp add: purse_token_def split: prod.split)
qed

text \<open>
  The record that the domain page adds is read under the label in the form, or under the user's own key for the
  apex, whatever name the page shows: it belongs to that name only when the label is the name itself.
\<close>

theorem page_save_name:
  assumes "signer_ok (pg_signer E) event_hash" "adds_nonce (pg_signer E)"
    and "handleSaveNew E ctx page = (page', ctx', sent)" "(url, event) \<in> set sent"
    and "r \<in> set (parseRecordsFromEvent enc event DEFAULT_ZONE)"
    and "owner = (if dg_newName page = [] \<or> dg_newName page = ''@'' then safeNpubEncode enc (ev_pubkey event) else dg_newName page)"
  shows "nr_fqdn r = toFqdn owner \<and> (nr_fqdn r = toFqdn (pg_nameParam E) \<longleftrightarrow> pg_nameParam E = owner) \<and>
    validateRecord (dg_newType page) (bare_name (dg_newName page)) (dg_newValue page) = None"
proof -
  have "sent \<noteq> []" using assms(4) by auto
  from handleSaveNew_sent [OF assms(3) this] obtain mgr result mgr'
    where v: "validateRecord (dg_newType page) (bare_name (dg_newName page)) (dg_newValue page) = None"
      and k: "save_record E (the (pg_nsec E)) (nullish (map_option fpr_create_price (dg_pricing page)) 0) (fw_balance ctx)
      \<lparr>in_type = dg_newType page, in_name = bare_name (dg_newName page), in_value = dg_newValue page, in_ttl = dg_newTtl page\<rparr>
      mgr = (result, mgr', sent)" by blast
  have "nr_fqdn r = toFqdn owner"
    using saved_record_fqdn [OF assms(1,2) k assms(4,5)] assms(6)
    by (simp add: computeFqdn_def isNpubDerivedName_def bare_name_def toFqdn_def)
  with v show ?thesis by (auto simp: toFqdn_def)
qed

text \<open>
  Saving pays the price when the balance covers it; when it does not, the event is sent all the same, without payment.
\<close>

theorem save_record_payment:
  assumes "signer_ok (pg_signer E) event_hash" "adds_nonce (pg_signer E)" "keeps_tags (pg_signer E)"
    and "save_record E nsec price balance i mgr = (result, mgr', sent)" "(url, event) \<in> set sent"
  shows "if price > 0 \<and> balance \<ge> price
    then \<exists>t token. pu_send (pg_purse E) MINT_URL price mgr = (Some t, mgr') \<and> pu_encode (pg_purse E) t = Some token \<and>
      (token = [] \<or> buildCashuTag token MINT_URL price \<in> set (ev_tags event))
    else mgr' = mgr \<and> filter (tag_is ''cashu'') (ev_tags event) = []"
proof -
  from save_record_sent [OF assms(4)] assms(5) obtain kp token phases
    where p: "page_token (pg_purse E) price balance mgr = (Inr token, mgr')"
      and u: "publishDnsEvent (pg_signer E) (pg_why E) (pg_publish E) (pg_now E) [i] (kp_secretKey (kp :: Keypair)) token
      (Some MINT_URL) (Some price) DEFAULT_POW_DIFFICULTY = (result, phases, sent)" by fastforce
  note keeps = published_tags(2) [OF assms(1) u assms(5,3)] and old = published_tags(1) [OF assms(1) u assms(5,2)]
  show ?thesis
  proof (cases "price > 0 \<and> balance \<ge> price")
    case True
    with p obtain tok where t: "token = Some tok" "purse_token (pg_purse E) MINT_URL price mgr = (Inr tok, mgr')"
      by (cases "fst (purse_token (pg_purse E) MINT_URL price mgr)") (auto simp: page_token_def split: prod.splits)
    with True keeps show ?thesis by (auto simp: purse_token_Inr publish_tags_def truthy_def MINT_URL_def)
  next
    case False
    then have n: "token = None" "mgr' = mgr" using p by (auto simp: page_token_def)
    have "\<not> tag_is ''cashu'' tag" if "tag \<in> set (ev_tags event)" for tag
      using old [OF that] by (auto simp: n publish_tags_def truthy_def buildRecordTag_def tag_is_def)
    then have "filter (tag_is ''cashu'') (ev_tags event) = []" by (simp add: filter_empty_conv)
    with n show ?thesis unfolding if_not_P [OF False] by blast
  qed
qed

text \<open>When neither the operator nor a relay answers, the name is shown as free, and no error is shown.\<close>

theorem search_unreachable_available:
  assumes "\<And>relays f wait. pg_query E relays f wait = None"
    and "\<And>url status body. pg_api E url = Reply status body \<Longrightarrow> \<not> response_ok status"
    and "sanitizeName q \<noteq> []"
  shows "sp_available (search_check E priced q sp) = Some True \<and> sp_error (search_check E priced q sp) = None"
proof -
  have "sr_records (fetchApiRecords (pg_api E) params base) = []" for params base
    using assms(2) by (auto simp: fetchApiRecords_def base_result_def Let_def split: fetch_outcome.split)
  with assms(3) show ?thesis
    by (simp add: search_check_def Let_def page_sources_def front_fetchTripartiteRecords_def fetchTripartiteRecords_def
        with_meta_def SourceResult.defs base_result_def fetchNostrRecords_def queryRecordsByDomain_def assms(1) truthy_def)
qed

text \<open>Suggestions are clean names again, other than the one that is taken; whether they are free is not asked.\<close>

theorem suggestions_clean:
  assumes "s \<in> set (suggestions q sp)"
  shows "sanitizeName s = s \<and> s \<noteq> sanitizeName q \<and> sp_available sp = Some False"
proof -
  have "list_all (\<lambda>c. is_lower c \<or> is_digit c \<or> c = CHR ''-'') s" "s \<noteq> sanitizeName q" "sp_available sp = Some False"
    using assms sanitizeName_chars [of q]
    by (auto simp: suggestions_def Let_def is_lower_def code_of_def split: if_splits)
  then show ?thesis using sanitizeName_id by blast
qed

section \<open>Witnesses\<close>

text \<open>A wallet of so many sats, relays that give \<open>events\<close>, and a signer whose key has twenty leading zero bits.\<close>

definition sample_purse :: "int purse_lib" where
  "sample_purse = \<lparr>pu_send = (\<lambda>mint amount w. (Some (JStr ''token''), w - amount)),
     pu_encode = (\<lambda>t. case t of JStr s \<Rightarrow> Some s | _ \<Rightarrow> None)\<rparr>"

definition sample_env :: "string option \<Rightarrow> NostrEvent list option \<Rightarrow> string \<Rightarrow> int front_page_env" where
  "sample_env refusal events name = \<lparr>pg_lib = codec_lib, pg_signer = strong_signer, pg_why = [], pg_publish = (\<lambda>_ _. refusal),
     pg_now = 5000, pg_show_error = (\<lambda>_. ''error''), pg_query = (\<lambda>_ _ _. events), pg_api = (\<lambda>_. FetchFail),
     pg_doh = (\<lambda>_. FetchFail), pg_base = [], pg_purse = sample_purse, pg_initialized = True, pg_nsec = Some ''nsec107'',
     pg_nameParam = name\<rparr>"

definition sample_wallet :: "int \<Rightarrow> int front_wallet" where
  "sample_wallet w = (front_wallet_start None)\<lparr>fw_manager := Some w, fw_balance := w\<rparr>"

lemma strong_signer_keeps: "keeps_tags strong_signer"
  by (auto simp: keeps_tags_def strong_signer_def split: if_splits)

lemma sample_env_simps [simp]:
  "pg_signer (sample_env refusal events name) = strong_signer" "pg_purse (sample_env refusal events name) = sample_purse"
  "pg_nameParam (sample_env refusal events name) = name" "pg_publish (sample_env refusal events name) = (\<lambda>_ _. refusal)"
  "pg_query (sample_env refusal events name) = (\<lambda>_ _ _. events)" "pg_api (sample_env refusal events name) = (\<lambda>_. FetchFail)"
  by (simp_all add: sample_env_def)

lemma strong_publish:
  "\<exists>event. publishDnsEvent strong_signer why (\<lambda>_ _. None) now rs sk tok m a 20 =
     (Inr event, [Mining, Publishing], map (\<lambda>url. (url, event)) PUBLISH_RELAYS)"
proof -
  have "countLeadingZeroBits ''00000ab'' = 20" by code_simp
  moreover have "list_ex (\<lambda>_. True) PUBLISH_RELAYS" by (simp add: PUBLISH_RELAYS_def)
  ultimately show ?thesis
    by (simp add: publishDnsEvent_def mine_sign_publish_def publish_any_def strong_signer_def minePowAsync_def pow_worker_def
        try_bind_def lib_call_def Let_def)
qed

lemma sample_registration:
  "rp_step (fst (front_handleRegister (sample_env None None ''Alice'') (sample_wallet 30) rpage_start)) = Success"
  "(PUBLISH_RELAYS ! 0, snd (hd (snd (snd (front_handleRegister (sample_env None None ''Alice'') (sample_wallet 30) rpage_start)))))
     \<in> set (snd (snd (front_handleRegister (sample_env None None ''Alice'') (sample_wallet 30) rpage_start)))"
proof -
  let ?E = "sample_env None None ''Alice''"
  have n: "sanitizeName (pg_nameParam ?E) = ''alice''" "register_price ''alice'' rpage_start = 20" "truthy (pg_nsec ?E)"
    "\<not> isl (keyPairFromNsec (pg_lib ?E) (the (pg_nsec ?E)))"
    "purse_token (pg_purse ?E) (register_mint rpage_start) 20 30 = (Inr ''token'', 10)" by code_simp+
  then obtain kp where k: "keyPairFromNsec (pg_lib ?E) (the (pg_nsec ?E)) = Inr kp"
    by (cases "keyPairFromNsec (pg_lib ?E) (the (pg_nsec ?E))") auto
  have w: "fw_manager (sample_wallet 30) = Some 30" "fw_balance (sample_wallet 30) = 30" by (simp_all add: sample_wallet_def)
  obtain event where e: "publishDnsEvent (pg_signer ?E) (pg_why ?E) (pg_publish ?E) (pg_now ?E)
      [\<lparr>in_type = ''TXT'', in_name = ''alice'', in_value = ''registered via nodns.shop'', in_ttl = 3600\<rparr>]
      (kp_secretKey kp) (Some ''token'') (Some (register_mint rpage_start)) (Some 20) 20 =
      (Inr event, [Mining, Publishing], map (\<lambda>url. (url, event)) PUBLISH_RELAYS)"
    using strong_publish unfolding sample_env_simps by blast
  show "rp_step (fst (front_handleRegister ?E (sample_wallet 30) rpage_start)) = Success"
    "(PUBLISH_RELAYS ! 0, snd (hd (snd (snd (front_handleRegister ?E (sample_wallet 30) rpage_start)))))
     \<in> set (snd (snd (front_handleRegister ?E (sample_wallet 30) rpage_start)))"
    unfolding front_handleRegister_def Let_def n w
    by (simp_all add: n(3) n(5) [unfolded sample_env_simps] k e [unfolded sample_env_simps] PUBLISH_RELAYS_def)
qed

theorem register_success_witness:
  "\<exists>event :: NostrEvent. buildRecordTag ''TXT'' ''alice'' ''registered via nodns.shop'' 3600 \<in> set (ev_tags event) \<and>
    rp_txEventId (fst (front_handleRegister (sample_env None None ''Alice'') (sample_wallet 30) rpage_start)) = Some (ev_id event)"
proof -
  let ?r = "front_handleRegister (sample_env None None ''Alice'') (sample_wallet 30) rpage_start"
  have "rp_step rpage_start \<noteq> Success" "sanitizeName ''Alice'' = ''alice''" by code_simp+
  note c = sample_registration(1) this
  define E where "E = sample_env None None ''Alice''"
  have E: "pg_signer E = strong_signer" "sanitizeName (pg_nameParam E) = ''alice''" using c(3) by (simp_all add: E_def)
  obtain r where r: "front_handleRegister E (sample_wallet 30) rpage_start = r" by simp
  have "rp_step (fst r) = Success" using c(1) unfolding r [symmetric] E_def .
  with register_success [of E "\<lambda>t pk. pk" "sample_wallet 30" rpage_start "fst r" "fst (snd r)" "snd (snd r)", unfolded E Let_def]
    strong_signer_ok(1) strong_signer_keeps c(2) r
  have "\<exists>event :: NostrEvent. buildRecordTag ''TXT'' ''alice'' ''registered via nodns.shop'' 3600 \<in> set (ev_tags event) \<and>
    rp_txEventId (fst r) = Some (ev_id event)"
    by simp blast
  then show ?thesis unfolding r [symmetric] E_def .
qed

theorem register_then_taken_witness:
  "\<exists>event. sp_available (search_check (sample_env None (Some [event]) []) None ''alice.nodns.shop'' spage_start) = Some False"
proof -
  let ?r = "front_handleRegister (sample_env None None ''Alice'') (sample_wallet 30) rpage_start"
  let ?x = "hd (snd (snd ?r))"
  have s2: "rp_step rpage_start \<noteq> Success" by code_simp
  have s4: "sanitizeName ''alice.nodns.shop'' = sanitizeName ''Alice''" by code_simp
  have "sp_available (search_check (sample_env None (Some [snd ?x]) []) None ''alice.nodns.shop'' spage_start) = Some False"
  proof (rule register_then_taken [OF _ _ _ s2 sample_registration])
    show "signer_ok (pg_signer (sample_env None None ''Alice'')) (\<lambda>t pk. pk)" "keeps_tags (pg_signer (sample_env None None ''Alice''))"
      unfolding sample_env_simps by (rule strong_signer_ok strong_signer_keeps)+
    show "?r = (fst ?r, fst (snd ?r), snd (snd ?r))" by (simp only: prod.collapse)
    show "snd ?x \<in> set [snd ?x]" by simp
    show "sanitizeName ''alice.nodns.shop'' = sanitizeName (pg_nameParam (sample_env None None ''Alice''))"
      unfolding sample_env_simps by (rule s4)
    show "pg_query (sample_env None (Some [snd ?x]) []) DEFAULT_READ_RELAYS (author_filter None 500) NOSTR_QUERY_MAX_WAIT = Some [snd ?x]"
      unfolding sample_env_simps by (rule refl)
  qed
  then show ?thesis by (rule exI [of _ "snd ?x"])
qed

theorem register_payment_lost_witness:
  "fw_manager (fst (snd (front_handleRegister (sample_env (Some ''no'') None ''alice'') (sample_wallet 30)
     (register_retry (fst (front_handleRegister (sample_env (Some ''no'') None ''alice'') (sample_wallet 50) rpage_start)))))) =
     Some 10"
proof -
  let ?E = "sample_env (Some ''no'') None ''alice''"
  let ?r = "front_handleRegister ?E (sample_wallet 50) rpage_start"
  have "sanitizeName ''alice'' = ''alice''" "register_price ''alice'' rpage_start = 20" "truthy (pg_nsec ?E)"
    "pu_send sample_purse (register_mint rpage_start) 20 50 = (Some (JStr ''token''), 30)"
    "pu_encode sample_purse (JStr ''token'') = Some ''token''" "snd (pu_send sample_purse (register_mint rpage_start) 20 30) = 10"
    by code_simp+
  then show ?thesis
    using register_payment_lost [of ?E "sample_wallet 50" 50 "''alice''" rpage_start 20 "register_mint rpage_start" "JStr ''token''"
        30 "''token''" "fst ?r" "fst (snd ?r)" "snd (snd ?r)" "sample_wallet 30"]
    by (simp add: sample_wallet_def)
qed

definition sample_dpage :: dpage where
  "sample_dpage = dpage_start\<lparr>dg_newType := ''TXT'', dg_newValue := ''hello'',
     dg_pricing := Some \<lparr>fpr_mint_url = MINT_URL, fpr_create_price = 5, fpr_update_price = 1\<rparr>\<rparr>"

theorem page_save_name_witness:
  "\<exists>event r. r \<in> set (parseRecordsFromEvent (nl_npubEncode codec_lib) event DEFAULT_ZONE) \<and>
     nr_fqdn r = toFqdn (safeNpubEncode (nl_npubEncode codec_lib) (ev_pubkey event)) \<and>
     snd (snd (handleSaveNew (sample_env None None ''alice'') (sample_wallet 2) sample_dpage)) \<noteq> []"
proof -
  let ?r = "handleSaveNew (sample_env None None ''alice'') (sample_wallet 2) sample_dpage"
  have c: "list_ex (\<lambda>x. parseRecordsFromEvent (nl_npubEncode codec_lib) (snd x) DEFAULT_ZONE \<noteq> []) (snd (snd ?r))"
    "dg_newName sample_dpage = ''@''" by code_simp+
  then obtain x r where x: "(fst x, snd x) \<in> set (snd (snd ?r))" "r \<in> set (parseRecordsFromEvent (nl_npubEncode codec_lib) (snd x) DEFAULT_ZONE)"
    by (fastforce simp: list_ex_iff neq_Nil_conv)
  from page_save_name [of "sample_env None None ''alice''" "\<lambda>t pk. pk" "sample_wallet 2" sample_dpage "fst ?r" "fst (snd ?r)"
      "snd (snd ?r)" "fst x" "snd x" r "nl_npubEncode codec_lib" "safeNpubEncode (nl_npubEncode codec_lib) (ev_pubkey (snd x))"]
    x c(2) strong_signer_ok
  have "nr_fqdn r = toFqdn (safeNpubEncode (nl_npubEncode codec_lib) (ev_pubkey (snd x)))" by simp
  with x show ?thesis by fastforce
qed

theorem save_record_payment_witness:
  "\<exists>event. snd (snd (save_record (sample_env None None ''alice'') ''nsec107'' 5 2
      \<lparr>in_type = ''TXT'', in_name = [], in_value = ''hello'', in_ttl = 300\<rparr> 2)) = map (\<lambda>url. (url, event)) PUBLISH_RELAYS \<and>
    filter (tag_is ''cashu'') (ev_tags event) = []"
proof -
  let ?r = "save_record (sample_env None None ''alice'') ''nsec107'' 5 2 \<lparr>in_type = ''TXT'', in_name = [], in_value = ''hello'', in_ttl = 300\<rparr> 2"
  have c: "(case ?r of (Inr event, _, sent) \<Rightarrow> sent = map (\<lambda>url. (url, event)) PUBLISH_RELAYS | _ \<Rightarrow> False)" by code_simp
  then obtain event mgr' where e: "?r = (Inr event, mgr', map (\<lambda>url. (url, event)) PUBLISH_RELAYS)"
    by (auto split: prod.splits sum.splits)
  have "(PUBLISH_RELAYS ! 0, event) \<in> set (map (\<lambda>url. (url, event)) PUBLISH_RELAYS)" by (simp add: PUBLISH_RELAYS_def)
  from save_record_payment [OF _ _ _ e this, of "\<lambda>t pk. pk"] strong_signer_ok strong_signer_keeps
  have "filter (tag_is ''cashu'') (ev_tags event) = []" by simp
  with e show ?thesis by (intro exI [of _ event]) simp
qed

theorem search_unreachable_available_witness:
  "sp_available (search_check (sample_env None None []) None ''Alice'' spage_start) = Some True"
proof -
  have "sanitizeName ''Alice'' \<noteq> []" by code_simp
  with search_unreachable_available [of "sample_env None None []" "''Alice''" None spage_start] show ?thesis by simp
qed

theorem suggestions_clean_witness: "sanitizeName ''myalice'' = ''myalice''"
proof -
  have "''myalice'' \<in> set (suggestions ''Alice'' (spage_start\<lparr>sp_available := Some False\<rparr>))" by code_simp
  from suggestions_clean [OF this] show ?thesis by blast
qed

end
