(* ===== verification/Front_WalletPage.thy ===== *)
theory Front_WalletPage
  imports Front_Wallet
begin

text \<open>
  \<open>nodns-frontend/src/app/wallet/page.tsx\<close>: receiving, sending and buying tokens, and the history. The calls of the
  wallet manager are the fields of \<open>pocket_lib\<close>, \<^const>\<open>None\<close> and \<^const>\<open>False\<close> being a rejected promise; an
  entry of the history is a JSON value.
\<close>

section \<open>State\<close>

record 'w pocket_lib =
  po_receive :: "string \<Rightarrow> 'w \<Rightarrow> bool \<times> 'w"
  po_prepare :: "string \<Rightarrow> int \<Rightarrow> 'w \<Rightarrow> string option \<times> 'w"
  po_execute :: "string \<Rightarrow> 'w \<Rightarrow> json option \<times> 'w"
  po_encode :: "json \<Rightarrow> string option"
  po_history :: "int \<Rightarrow> int \<Rightarrow> 'w \<Rightarrow> json list option"

datatype outcome_note = NoteSuccess string | NoteFailure string

record wpage =
  wp_tokenInput :: string
  wp_receiving :: bool
  wp_receiveResult :: "outcome_note option"
  wp_sendAmount :: string
  wp_sending :: bool
  wp_generatedToken :: string
  wp_sendResult :: "outcome_note option"
  wp_copied :: bool
  wp_history :: "json list"
  wp_loadingHistory :: bool
  wp_historyOffset :: int
  wp_nsecCopied :: bool
  wp_showNsecConfirm :: bool
  wp_topUpAmount :: string
  wp_invoice :: string
  wp_invoiceCopied :: bool

definition wpage_start :: wpage where
  "wpage_start = \<lparr>wp_tokenInput = [], wp_receiving = False, wp_receiveResult = None, wp_sendAmount = [], wp_sending = False,
     wp_generatedToken = [], wp_sendResult = None, wp_copied = False, wp_history = [], wp_loadingHistory = False,
     wp_historyOffset = 0, wp_nsecCopied = False, wp_showNsecConfirm = False, wp_topUpAmount = [], wp_invoice = [],
     wp_invoiceCopied = False\<rparr>"

section \<open>Helpers\<close>

definition truncateMiddle :: "string \<Rightarrow> nat \<Rightarrow> nat \<Rightarrow> string" where
  "truncateMiddle str start tail =
     (if str = [] then []
      else if length str \<le> start + tail + 3 then str
      else take start str @ ''...'' @ (if tail = 0 then str else drop (length str - tail) str))"

definition historyLabel :: "string \<Rightarrow> string option" where
  "historyLabel type = map_of [(''mint'', ''Minted''), (''receive'', ''Received''), (''send'', ''Sent''), (''melt'', ''Melted'')] type"

definition historySign :: "string \<Rightarrow> string" where
  "historySign type = (if type = ''mint'' \<or> type = ''receive'' then ''+'' else ''-'')"

section \<open>Handlers\<close>

definition loadHistory :: "'w pocket_lib \<Rightarrow> int \<Rightarrow> 'w front_wallet \<Rightarrow> wpage \<Rightarrow> wpage" where
  "loadHistory P offset ctx page =
     (case fw_manager ctx of
        None \<Rightarrow> page
      | Some mgr \<Rightarrow>
          (case po_history P offset 50 mgr of
             None \<Rightarrow> page\<lparr>wp_loadingHistory := False\<rparr>
           | Some entries \<Rightarrow> page\<lparr>wp_history := entries, wp_historyOffset := offset, wp_loadingHistory := False\<rparr>))"

text \<open>The button below a full page.\<close>

definition loadMore :: "'w pocket_lib \<Rightarrow> 'w front_wallet \<Rightarrow> wpage \<Rightarrow> wpage" where
  "loadMore P ctx page =
     (if length (wp_history page) \<ge> 50 then loadHistory P (wp_historyOffset page + 50) ctx page else page)"

definition handleReceive ::
  "'w pocket_lib \<Rightarrow> (js_error \<Rightarrow> string) \<Rightarrow> 'w front_wallet \<Rightarrow> wpage \<Rightarrow> wpage \<times> 'w front_wallet" where
  "handleReceive P show_error ctx page =
     (case fw_manager ctx of
        None \<Rightarrow> (page, ctx)
      | Some mgr \<Rightarrow>
          if trim (wp_tokenInput page) = [] then (page, ctx)
          else let (ok, mgr') = po_receive P (trim (wp_tokenInput page)) mgr; ctx' = ctx\<lparr>fw_manager := Some mgr'\<rparr>
               in if ok
                  then (loadHistory P 0 ctx' (page\<lparr>wp_receiveResult := Some (NoteSuccess ''Token received successfully! Balance updated.''),
                      wp_tokenInput := [], wp_receiving := False\<rparr>), ctx')
                  else (page\<lparr>wp_receiveResult := Some (NoteFailure (show_error LibError)), wp_receiving := False\<rparr>, ctx'))"

text \<open>\<open>parseInt(x, 10)\<close> when it is a positive number.\<close>

definition typed_amount :: "string \<Rightarrow> int option" where
  "typed_amount s = (case parseInt s of None \<Rightarrow> None | Some n \<Rightarrow> if n = 0 \<or> n \<le> 0 then None else Some n)"

definition make_token :: "'w pocket_lib \<Rightarrow> int \<Rightarrow> 'w \<Rightarrow> (js_error + string) \<times> 'w" where
  "make_token P amount mgr =
     (let (r, mgr') = prepare_execute (po_prepare P MINT_URL amount) (po_execute P) mgr
      in (try_bind r (\<lambda>token. lib_call (po_encode P token)), mgr'))"

definition handleSend ::
  "'w pocket_lib \<Rightarrow> (js_error \<Rightarrow> string) \<Rightarrow> 'w front_wallet \<Rightarrow> wpage \<Rightarrow> wpage \<times> 'w front_wallet" where
  "handleSend P show_error ctx page =
     (case fw_manager ctx of
        None \<Rightarrow> (page, ctx)
      | Some mgr \<Rightarrow>
          (case typed_amount (wp_sendAmount page) of
             None \<Rightarrow> (page, ctx)
           | Some amount \<Rightarrow>
               let page0 = page\<lparr>wp_sendResult := None, wp_generatedToken := [], wp_copied := False\<rparr>;
                   (r, mgr') = make_token P amount mgr; ctx' = ctx\<lparr>fw_manager := Some mgr'\<rparr>
               in (case r of
                     Inr encoded \<Rightarrow>
                       (loadHistory P 0 ctx' (page0\<lparr>wp_generatedToken := encoded,
                          wp_sendResult := Some (NoteSuccess (''Token created for '' @ show_int amount @ '' sats. Copy and share it.'')),
                          wp_sendAmount := [], wp_sending := False\<rparr>), ctx')
                   | Inl e \<Rightarrow> (page0\<lparr>wp_sendResult := Some (NoteFailure (show_error e)), wp_sending := False\<rparr>, ctx'))))"

definition handleTopUp ::
  "'w wallet_lib \<Rightarrow> (js_error \<Rightarrow> string) \<Rightarrow> 'w front_wallet \<Rightarrow> wpage \<Rightarrow> wpage \<times> 'w front_wallet" where
  "handleTopUp W show_error ctx page =
     (case typed_amount (wp_topUpAmount page) of
        None \<Rightarrow> (page, ctx)
      | Some amount \<Rightarrow>
          let page0 = page\<lparr>wp_invoice := [], wp_invoiceCopied := False\<rparr>; (r, ctx') = front_topUp W show_error amount ctx
          in (case r of Inr (invoice, _) \<Rightarrow> page0\<lparr>wp_invoice := invoice\<rparr> | Inl _ \<Rightarrow> page0, ctx'))"

text \<open>The three copy buttons: the page and what is put into the clipboard.\<close>

definition handleCopyToken :: "wpage \<Rightarrow> wpage \<times> string option" where
  "handleCopyToken page =
     (if wp_generatedToken page = [] then (page, None) else (page\<lparr>wp_copied := True\<rparr>, Some (wp_generatedToken page)))"

definition handleCopyInvoice :: "wpage \<Rightarrow> wpage \<times> string option" where
  "handleCopyInvoice page =
     (if wp_invoice page = [] then (page, None) else (page\<lparr>wp_invoiceCopied := True\<rparr>, Some (wp_invoice page)))"

definition handleCopyNsec :: "string option \<Rightarrow> wpage \<Rightarrow> wpage \<times> string option" where
  "handleCopyNsec nsec page =
     (if \<not> truthy nsec then (page, None) else (page\<lparr>wp_nsecCopied := True, wp_showNsecConfirm := False\<rparr>, nsec))"

section \<open>Buttons\<close>

text \<open>A comparison with \<open>NaN\<close> is false.\<close>

definition receive_enabled :: "'w front_wallet \<Rightarrow> wpage \<Rightarrow> bool" where
  "receive_enabled ctx page \<longleftrightarrow> \<not> (wp_receiving page \<or> trim (wp_tokenInput page) = [] \<or> \<not> fw_mintOnline ctx)"

definition send_enabled :: "'w front_wallet \<Rightarrow> wpage \<Rightarrow> bool" where
  "send_enabled ctx page \<longleftrightarrow>
     \<not> (wp_sending page \<or> wp_sendAmount page = [] \<or>
        (case parseInt (wp_sendAmount page) of None \<Rightarrow> False | Some n \<Rightarrow> n \<le> 0 \<or> n > fw_balance ctx) \<or> \<not> fw_mintOnline ctx)"

definition topUp_enabled :: "'w front_wallet \<Rightarrow> wpage \<Rightarrow> bool" where
  "topUp_enabled ctx page \<longleftrightarrow>
     \<not> (fw_topUpState ctx = TRequesting \<or> fw_topUpState ctx = TWaiting \<or> fw_topUpState ctx = TMinting \<or>
        wp_topUpAmount page = [] \<or> (case parseInt (wp_topUpAmount page) of None \<Rightarrow> False | Some n \<Rightarrow> n \<le> 0))"

section \<open>Lemmas\<close>

lemma loadHistory_kept [simp]:
  "wp_generatedToken (loadHistory P n ctx page) = wp_generatedToken page" "wp_sendResult (loadHistory P n ctx page) = wp_sendResult page"
  "wp_sendAmount (loadHistory P n ctx page) = wp_sendAmount page" "wp_tokenInput (loadHistory P n ctx page) = wp_tokenInput page"
  "wp_receiveResult (loadHistory P n ctx page) = wp_receiveResult page"
  by (auto simp: loadHistory_def split: option.split)

lemma make_token_Inr:
  "make_token P amount mgr = (Inr encoded, mgr') \<longleftrightarrow>
     (\<exists>opId mgr1 token. po_prepare P MINT_URL amount mgr = (Some opId, mgr1) \<and> po_execute P opId mgr1 = (Some token, mgr') \<and>
        po_encode P token = Some encoded)"
  by (auto simp: make_token_def prepare_execute_def try_bind_Inr_iff lib_call_Inr_iff split: prod.splits option.splits)

lemma typed_amount_positive: "typed_amount s = Some n \<Longrightarrow> 0 < n \<and> parseInt s = Some n"
  by (auto simp: typed_amount_def split: option.splits if_splits)

section \<open>Properties\<close>

text \<open>
  Sending from an enabled button: either nothing happens, or a positive amount within the balance shown is asked for
  once; then the page shows the encoded token that was made and a success, or no token at all and an error, in which
  case the amount stays in the field.
\<close>

theorem handleSend_outcome:
  assumes "send_enabled ctx page" "handleSend P show_error ctx page = (page', ctx')"
  shows "(page' = page \<and> ctx' = ctx) \<or>
    (\<exists>mgr mgr' amount r. fw_manager ctx = Some mgr \<and> parseInt (wp_sendAmount page) = Some amount \<and> 0 < amount \<and>
       amount \<le> fw_balance ctx \<and> make_token P amount mgr = (r, mgr') \<and> ctx' = ctx\<lparr>fw_manager := Some mgr'\<rparr> \<and>
       (case r of
          Inr encoded \<Rightarrow> wp_generatedToken page' = encoded \<and> wp_sendAmount page' = [] \<and> (\<exists>m. wp_sendResult page' = Some (NoteSuccess m))
        | Inl e \<Rightarrow> wp_generatedToken page' = [] \<and> wp_sendAmount page' = wp_sendAmount page \<and>
            wp_sendResult page' = Some (NoteFailure (show_error e))))"
proof (cases "fw_manager ctx")
  case (Some mgr)
  show ?thesis
  proof (cases "typed_amount (wp_sendAmount page)")
    case (Some amount)
    obtain r mgr' where m: "make_token P amount mgr = (r, mgr')" by fastforce
    have a: "0 < amount" "parseInt (wp_sendAmount page) = Some amount" "amount \<le> fw_balance ctx"
      using typed_amount_positive [OF Some] assms(1) by (auto simp: send_enabled_def)
    have "ctx' = ctx\<lparr>fw_manager := Some mgr'\<rparr> \<and> (case r of
        Inr encoded \<Rightarrow> wp_generatedToken page' = encoded \<and> wp_sendAmount page' = [] \<and> (\<exists>m. wp_sendResult page' = Some (NoteSuccess m))
      | Inl e \<Rightarrow> wp_generatedToken page' = [] \<and> wp_sendAmount page' = wp_sendAmount page \<and>
          wp_sendResult page' = Some (NoteFailure (show_error e)))"
      using assms(2) \<open>fw_manager ctx = Some mgr\<close> Some m by (cases r) (auto simp: handleSend_def Let_def)
    with a m \<open>fw_manager ctx = Some mgr\<close> show ?thesis by blast
  qed (use assms(2) Some in \<open>simp add: handleSend_def\<close>)
qed (use assms(2) in \<open>simp add: handleSend_def\<close>)

text \<open>
  A token that is shown and was not copied is gone as soon as the next one is asked for, whether or not that succeeds.
\<close>

theorem handleSend_drops_token:
  assumes "fw_manager ctx = Some mgr" "typed_amount (wp_sendAmount page) = Some amount"
    and "handleSend P show_error ctx page = (page', ctx')" "make_token P amount mgr = (Inl e, mgr')"
  shows "wp_generatedToken page' = [] \<and> snd (handleCopyToken page') = None"
  using assms by (auto simp: handleSend_def handleCopyToken_def)

text \<open>A second page of the history takes the place of the first, and no button leads back.\<close>

theorem loadMore_replaces:
  assumes "fw_manager ctx = Some mgr" "length (wp_history page) \<ge> 50" "po_history P (wp_historyOffset page + 50) 50 mgr = Some entries"
  shows "wp_history (loadMore P ctx page) = entries \<and> wp_historyOffset (loadMore P ctx page) = wp_historyOffset page + 50 \<and>
    (length entries < 50 \<longrightarrow> loadMore P ctx (loadMore P ctx page) = loadMore P ctx page)"
  using assms by (simp add: loadMore_def loadHistory_def)

text \<open>A text is shown whole or as its two ends, and never with more than the two ends and three dots.\<close>

theorem truncateMiddle_bound:
  assumes "tail > 0"
  shows "length (truncateMiddle str start tail) \<le> start + tail + 3 \<and>
    (truncateMiddle str start tail = str \<or>
      (take start (truncateMiddle str start tail) = take start str \<and>
       drop (start + 3) (truncateMiddle str start tail) = drop (length str - tail) str))"
  using assms by (auto simp: truncateMiddle_def)

text \<open>An invoice is shown exactly when the mint answered the top-up, and then the wallet waits for its payment.\<close>

theorem handleTopUp_waits:
  assumes "topUp_enabled ctx page" "typed_amount (wp_topUpAmount page) = Some amount" "fw_manager ctx = Some mgr"
    and "handleTopUp W show_error ctx page = (page', ctx')"
  shows "case fst (wl_mint_prepare W MINT_URL amount mgr) of
      Some (request, opId) \<Rightarrow> wp_invoice page' = request \<and> fw_topUpState ctx' = TWaiting \<and> \<not> topUp_enabled ctx' page'
    | None \<Rightarrow> wp_invoice page' = [] \<and> fw_topUpState ctx' = TError \<and> topUp_enabled ctx' page'"
  using assms by (auto simp: handleTopUp_def front_topUp_def topUp_request_def topUp_answer_def Let_def topUp_enabled_def
      split: option.splits prod.splits)

section \<open>Witness\<close>

definition sample_pocket :: "int pocket_lib" where
  "sample_pocket = \<lparr>po_receive = (\<lambda>t w. (True, w + 1)), po_prepare = (\<lambda>mint amount w. (if amount \<le> w then Some (show_int amount) else None, w)),
     po_execute = (\<lambda>opId w. (Some (JStr (''cashu'' @ opId)), w - 5)), po_encode = json_string \<circ> Some, po_history = (\<lambda>_ _ _. None)\<rparr>"

theorem handleSend_outcome_witness:
  "wp_generatedToken (fst (handleSend sample_pocket (\<lambda>_. []) ((front_wallet_start None)\<lparr>fw_manager := Some 9, fw_balance := 9\<rparr>)
     (wpage_start\<lparr>wp_sendAmount := ''5''\<rparr>))) = ''cashu5''"
proof -
  let ?ctx = "(front_wallet_start None)\<lparr>fw_manager := Some 9, fw_balance := 9\<rparr> :: int front_wallet"
    and ?page = "wpage_start\<lparr>wp_sendAmount := ''5''\<rparr>"
  have c: "send_enabled ?ctx ?page" "typed_amount ''5'' = Some 5" "parseInt ''5'' = Some 5"
    "make_token sample_pocket 5 9 = (Inr ''cashu5'', 4)" by code_simp+
  have ne: "fst (handleSend sample_pocket (\<lambda>_. []) ?ctx ?page) \<noteq> ?page"
  proof
    assume "fst (handleSend sample_pocket (\<lambda>_. []) ?ctx ?page) = ?page"
    then have "wp_sendAmount (fst (handleSend sample_pocket (\<lambda>_. []) ?ctx ?page)) = ''5''" by simp
    then show False by (simp add: handleSend_def c Let_def)
  qed
  from handleSend_outcome [OF c(1) prod.collapse [symmetric], of sample_pocket "\<lambda>_. []"] ne c(3,4) show ?thesis by auto
qed

end
