(* ===== verification/Front_CertRequest.thy ===== *)
theory Front_CertRequest
  imports Front_Tls Front_Api
begin

text \<open>
  \<open>nodns-frontend/src/components/cert-request.tsx\<close>: asking for a certificate and watching the order. The request is
  made of its parts, in the order of the code; the watching is a state machine whose steps are the ticks of the timer
  and the answers of the requests that are under way, which a new order or a reset does not recall.
\<close>

section \<open>State\<close>

record 'k cert_env =
  ce_hmac :: "bytes \<Rightarrow> bytes \<Rightarrow> bytes"
  ce_crypto :: "'k crypto_lib"
  ce_create :: "'k tls_key \<Rightarrow> string \<Rightarrow> string \<Rightarrow> (string \<times> bytes) option"
  ce_net :: network
  ce_base :: string
  ce_show_error :: "js_error \<Rightarrow> string"
  ce_domain :: string
  ce_disabled :: bool
  ce_nsecBytes :: "bytes option"
  ce_npub :: string

text \<open>\<open>cq_flight\<close>: the orders asked for by the requests under way.\<close>

record cert_page =
  cq_orderId :: "string option"
  cq_orderStatus :: "json option"
  cq_loading :: bool
  cq_error :: "string option"
  cq_showKey :: bool
  cq_derivedPem :: "string option"
  cq_derivationError :: "string option"
  cq_acmeCa :: string
  cq_usedClient :: bool
  cq_flight :: "string list"

definition cert_start :: cert_page where
  "cert_start = \<lparr>cq_orderId = None, cq_orderStatus = None, cq_loading = False, cq_error = None, cq_showKey = False,
     cq_derivedPem = None, cq_derivationError = None, cq_acmeCa = ''letsencrypt-staging'', cq_usedClient = False,
     cq_flight = []\<rparr>"

text \<open>\<open>domain.replace(/\.nodns\.shop$/, "")\<close>.\<close>

definition cert_subdomain :: "string \<Rightarrow> string" where
  "cert_subdomain domain = (if endsWith domain ''.nodns.shop'' then slice_drop_last 11 domain else domain)"

definition cert_status :: "cert_page \<Rightarrow> string option" where
  "cert_status page = (case cq_orderStatus page of None \<Rightarrow> None | Some order \<Rightarrow> json_string (json_get order ''status''))"

section \<open>Asking\<close>

definition request_reset :: "cert_page \<Rightarrow> cert_page" where
  "request_reset page = page\<lparr>cq_loading := True, cq_error := None, cq_derivationError := None, cq_orderStatus := None,
     cq_orderId := None, cq_showKey := False, cq_derivedPem := None, cq_usedClient := False\<rparr>"

text \<open>Deriving the key and signing the request for the certificate in the browser; the second result is the
  request, which is missing when a step fails.\<close>

definition request_keys :: "'k cert_env \<Rightarrow> cert_page \<Rightarrow> cert_page \<times> string option" where
  "request_keys E page =
     (case ce_nsecBytes E of
        None \<Rightarrow> (page, None)
      | Some nsecBytes \<Rightarrow>
          (case generateTlsKeyPair (ce_hmac E) (ce_crypto E) nsecBytes (cert_subdomain (ce_domain E)) of
             Inl e \<Rightarrow> (page\<lparr>cq_derivationError := Some (ce_show_error E e)\<rparr>, None)
           | Inr keys \<Rightarrow>
               let page1 = page\<lparr>cq_derivedPem := Some (tk_privateKeyPem keys), cq_usedClient := True\<rparr>
               in (case generateCsr (ce_create E) keys (ce_domain E) of
                     Inl e \<Rightarrow> (page1\<lparr>cq_derivationError := Some (ce_show_error E e)\<rparr>, None)
                   | Inr csr \<Rightarrow> (page1, Some (cs_csrDerBase64 csr)))))"

definition new_order :: "string \<Rightarrow> json \<Rightarrow> json" where
  "new_order domain res =
     (let field = (\<lambda>k. case json_get res k of None \<Rightarrow> [] | Some v \<Rightarrow> [(k, v)])
      in JObj (field ''order_id'' @ field ''status'' @
           [(''domain'', JStr domain), (''certificate_pem'', JNull), (''private_key_pem'', JNull), (''error'', JNull),
            (''acme_environment'', JStr []), (''logs'', JArr [])]))"

definition request_answer :: "'k cert_env \<Rightarrow> js_error + json \<Rightarrow> cert_page \<Rightarrow> cert_page" where
  "request_answer E answer page =
     (case answer of
        Inr res \<Rightarrow> page\<lparr>cq_orderId := json_string (json_get res ''order_id''),
          cq_orderStatus := Some (new_order (ce_domain E) res), cq_loading := False\<rparr>
      | Inl e \<Rightarrow> page\<lparr>cq_error := Some (ce_show_error E e), cq_loading := False\<rparr>)"

definition cert_handleRequest :: "'k cert_env \<Rightarrow> cert_page \<Rightarrow> cert_page" where
  "cert_handleRequest E page =
     (if ce_disabled E \<or> cq_loading page then page
      else let (page1, csrDerBase64) = request_keys E (request_reset page)
           in request_answer E (requestCertificate (ce_net E) (ce_base E) (ce_domain E) csrDerBase64 None
                (Some (cq_acmeCa page)) (Some (ce_npub E))) page1)"

definition cert_handleReset :: "cert_page \<Rightarrow> cert_page" where
  "cert_handleReset page = page\<lparr>cq_error := None, cq_orderId := None, cq_orderStatus := None, cq_showKey := False,
     cq_derivedPem := None, cq_derivationError := None, cq_usedClient := False\<rparr>"

section \<open>Watching\<close>

definition watching :: "cert_page \<Rightarrow> bool" where
  "watching page \<longleftrightarrow> truthy (cq_orderId page) \<and> cert_status page \<noteq> Some ''issued'' \<and> cert_status page \<noteq> Some ''failed''"

definition watch_tick :: "cert_page \<Rightarrow> cert_page" where
  "watch_tick page = (if watching page then page\<lparr>cq_flight := the (cq_orderId page) # cq_flight page\<rparr> else page)"

definition watch_answer :: "string \<Rightarrow> js_error + json \<Rightarrow> cert_page \<Rightarrow> cert_page" where
  "watch_answer orderId answer page =
     (let page0 = page\<lparr>cq_flight := remove1 orderId (cq_flight page)\<rparr>
      in case answer of Inr order \<Rightarrow> page0\<lparr>cq_orderStatus := Some order\<rparr> | Inl _ \<Rightarrow> page0)"

section \<open>What is shown\<close>

definition in_progress :: "cert_page \<Rightarrow> bool" where
  "in_progress page \<longleftrightarrow> cert_status page \<in> {Some ''pending'', Some ''challenge_published'', Some ''verifying''}"

definition order_text :: "cert_page \<Rightarrow> string \<Rightarrow> string option" where
  "order_text page k = (case cq_orderStatus page of None \<Rightarrow> None | Some order \<Rightarrow> json_string (json_get order k))"

definition effectivePrivateKeyPem :: "cert_page \<Rightarrow> string option" where
  "effectivePrivateKeyPem page =
     (if truthy (cq_derivedPem page) then cq_derivedPem page
      else if truthy (order_text page ''private_key_pem'') then order_text page ''private_key_pem'' else None)"

definition cert_environment :: "cert_page \<Rightarrow> string option" where
  "cert_environment page =
     (let environment = or_else (order_text page ''acme_environment'') []
      in if environment = [] then None
         else if environment = ''zerossl'' then Some ''ZeroSSL''
         else if environment = ''production'' \<or> environment = ''letsencrypt-production'' then Some ''LE Production''
         else Some ''LE Staging'')"

text \<open>The files offered once the certificate is there: their names and contents.\<close>

definition cert_downloads :: "cert_page \<Rightarrow> (string \<times> string) list" where
  "cert_downloads page =
     (if cert_status page \<noteq> Some ''issued'' \<or> \<not> truthy (order_text page ''certificate_pem'') then []
      else
        let pem = the (order_text page ''certificate_pem''); domain = nullish (order_text page ''domain'') ''undefined''
        in (domain @ ''-cert.pem'', pem) #
           (case effectivePrivateKeyPem page of
              None \<Rightarrow> []
            | Some key \<Rightarrow> [(domain @ ''-key.pem'', key), (domain @ ''-combined.pem'', pem @ [nl] @ key)]))"

definition security_note :: "cert_page \<Rightarrow> bool" where
  "security_note page \<longleftrightarrow> cert_status page = Some ''issued'' \<and> cq_usedClient page"

section \<open>Runs\<close>

inductive cert_run :: "'k cert_env \<Rightarrow> cert_page \<Rightarrow> bool" for E where
  cr_start: "cert_run E cert_start"
| cr_ca: "cert_run E page \<Longrightarrow> cert_run E (page\<lparr>cq_acmeCa := ca\<rparr>)"
| cr_begin: "cert_run E page \<Longrightarrow> \<not> cq_loading page \<Longrightarrow> cert_run E (fst (request_keys E (request_reset page)))"
| cr_answer: "cert_run E page \<Longrightarrow> cq_loading page \<Longrightarrow> cert_run E (request_answer E answer page)"
| cr_reset: "cert_run E page \<Longrightarrow> cert_run E (cert_handleReset page)"
| cr_reveal: "cert_run E page \<Longrightarrow> cert_run E (page\<lparr>cq_showKey := True\<rparr>)"
| cr_tick: "cert_run E page \<Longrightarrow> cert_run E (watch_tick page)"
| cr_arrive: "cert_run E page \<Longrightarrow> orderId \<in> set (cq_flight page) \<Longrightarrow> cert_run E (watch_answer orderId answer page)"

section \<open>Lemmas\<close>

text \<open>The key that is derived for the domain, if one is.\<close>

definition derived_key :: "'k cert_env \<Rightarrow> 'k tls_key option" where
  "derived_key E =
     (case ce_nsecBytes E of
        None \<Rightarrow> None
      | Some b \<Rightarrow> (case generateTlsKeyPair (ce_hmac E) (ce_crypto E) b (cert_subdomain (ce_domain E)) of Inl _ \<Rightarrow> None | Inr k \<Rightarrow> Some k))"

definition cert_ok :: "'k cert_env \<Rightarrow> cert_page \<Rightarrow> bool" where
  "cert_ok E page \<longleftrightarrow>
     (cq_usedClient page \<longleftrightarrow> cq_derivedPem page \<noteq> None) \<and>
     (cq_derivedPem page \<noteq> None \<longrightarrow> cq_derivedPem page = map_option tk_privateKeyPem (derived_key E)) \<and>
     (cq_loading page \<longrightarrow> cq_error page = None \<and> cq_orderId page = None) \<and>
     (cq_error page \<noteq> None \<longrightarrow> cq_orderId page = None)"

lemma request_keys_cases:
  "request_keys E (request_reset page) =
     (case derived_key E of
        None \<Rightarrow> (fst (request_keys E (request_reset page)), None)
      | Some keys \<Rightarrow> (fst (request_keys E (request_reset page)), case generateCsr (ce_create E) keys (ce_domain E) of
          Inl _ \<Rightarrow> None | Inr c \<Rightarrow> Some (cs_csrDerBase64 c)))"
  "cq_derivedPem (fst (request_keys E (request_reset page))) = map_option tk_privateKeyPem (derived_key E)"
  "cq_usedClient (fst (request_keys E (request_reset page))) \<longleftrightarrow> derived_key E \<noteq> None"
  "cq_error (fst (request_keys E (request_reset page))) = None" "cq_loading (fst (request_keys E (request_reset page)))"
  "cq_orderId (fst (request_keys E (request_reset page))) = None" "cq_acmeCa (fst (request_keys E (request_reset page))) = cq_acmeCa page"
  by (auto simp: request_keys_def request_reset_def derived_key_def Let_def split: option.split sum.split)

lemma cert_run_kept: "cert_run E page \<Longrightarrow> cert_ok E page"
proof (induction rule: cert_run.induct)
  case (cr_begin page)
  show ?case unfolding cert_ok_def request_keys_cases(2-) by (simp add: request_keys_cases(2-))
next
  case (cr_answer page answer)
  then show ?case by (auto simp: cert_ok_def request_answer_def split: sum.split)
qed (auto simp: cert_ok_def cert_start_def cert_handleReset_def watch_tick_def watch_answer_def Let_def split: sum.split)

section \<open>Properties\<close>

text \<open>
  C20. Whatever was clicked and whatever answers came, a key that the page holds is the one derived from the user's key for
  the domain, an error is shown only when there is no order, and while a request for a certificate is under way no error is
  shown and the order button sends no second one. The questions for an order's state are not guarded: several may be under
  way at once.
\<close>

theorem cert_run_ok:
  assumes "cert_run E page"
  shows "(cq_derivedPem page = None \<or> cq_derivedPem page = map_option tk_privateKeyPem (derived_key E)) \<and>
    (cq_usedClient page \<longleftrightarrow> cq_derivedPem page \<noteq> None) \<and> \<not> (cq_error page \<noteq> None \<and> cq_orderId page \<noteq> None) \<and>
    (if cq_loading page then cert_handleRequest E page = page \<and> cq_error page = None else True)"
  using cert_run_kept [OF assms] by (auto simp: cert_ok_def cert_handleRequest_def)

text \<open>
  When a key is derived, it is the one that is offered, whatever key the server sends along; and the request for the
  certificate is sent for it, unless making that request failed: then the server certifies a key of its own, and the
  page still offers the derived one and says that the key never left the browser.
\<close>

theorem cert_key_offered:
  assumes "derived_key E = Some keys" "tk_privateKeyPem keys \<noteq> []" "request_keys E (request_reset page) = (page1, csr)"
    and "page2 = watch_answer orderId (Inr order) (request_answer E (Inr res) page1)"
    and "json_string (json_get order ''status'') = Some ''issued''" "json_string (json_get order ''certificate_pem'') = Some pem"
    and "pem \<noteq> []"
  shows "effectivePrivateKeyPem page2 = Some (tk_privateKeyPem keys) \<and>
    csr = (case generateCsr (ce_create E) keys (ce_domain E) of Inl _ \<Rightarrow> None | Inr c \<Rightarrow> Some (cs_csrDerBase64 c)) \<and>
    (pem @ [nl] @ tk_privateKeyPem keys) \<in> snd ` set (cert_downloads page2) \<and> security_note page2"
proof -
  have p: "page1 = fst (request_keys E (request_reset page))" using assms(3) by simp
  have d: "cq_derivedPem page2 = Some (tk_privateKeyPem keys)" "cq_usedClient page2" "cq_orderStatus page2 = Some order"
    by (simp_all add: assms(1,4) p watch_answer_def request_answer_def request_keys_cases(2,3) Let_def)
  have e: "effectivePrivateKeyPem page2 = Some (tk_privateKeyPem keys)"
    using assms(2) by (simp add: effectivePrivateKeyPem_def d truthy_def)
  have "(pem @ [nl] @ tk_privateKeyPem keys) \<in> snd ` set (cert_downloads page2)" "security_note page2"
    using assms(7) by (simp_all add: cert_downloads_def security_note_def e cert_status_def order_text_def d assms(5,6) truthy_def Let_def)
  moreover have "csr = (case generateCsr (ce_create E) keys (ce_domain E) of Inl _ \<Rightarrow> None | Inr c \<Rightarrow> Some (cs_csrDerBase64 c))"
    using request_keys_cases(1) [of E page] assms(1,3) by simp
  ultimately show ?thesis using e by blast
qed

text \<open>
  An answer that comes after a reset shows the abandoned order, and if that order is not finished it stays so, for the
  page does not watch it; one that comes after a new order was placed replaces that order's state, and if it says that
  the old order is finished, the new one is not watched any more.
\<close>

theorem cert_late_answer:
  assumes "json_string (json_get order ''status'') = Some st"
  shows "let page1 = watch_answer old (Inr order) (cert_handleReset page);
      page2 = watch_answer old (Inr order) (request_answer E (Inr res) page)
    in (in_progress page1 \<longleftrightarrow> st \<in> {''pending'', ''challenge_published'', ''verifying''}) \<and> watch_tick page1 = page1 \<and>
      cq_orderStatus page2 = Some order \<and> cq_orderId page2 = json_string (json_get res ''order_id'') \<and>
      (st = ''issued'' \<or> st = ''failed'' \<longrightarrow> watch_tick page2 = page2)"
  using assms by (auto simp: Let_def watch_answer_def watch_tick_def cert_handleReset_def request_answer_def watching_def
      in_progress_def cert_status_def truthy_def)

section \<open>Witnesses\<close>

text \<open>Libraries that make a fixed key and, as \<open>ok\<close> tells, can or cannot sign a request.\<close>

definition sample_cert_env :: "bool \<Rightarrow> nat cert_env" where
  "sample_cert_env ok = \<lparr>ce_hmac = (\<lambda>k d. replicate 64 1),
     ce_crypto = \<lparr>cy_getPublicKey = (\<lambda>_. Some (replicate 65 4)), cy_importKey = (\<lambda>_ _. Some 0), cy_exportPkcs8 = (\<lambda>_. Some [1, 2, 3])\<rparr>,
     ce_create = (\<lambda>_ _ _. if ok then Some (''pem'', [9]) else None), ce_net = (\<lambda>_. FetchFail), ce_base = [],
     ce_show_error = (\<lambda>_. ''error''), ce_domain = ''www.nodns.shop'', ce_disabled = False, ce_nsecBytes = Some (replicate 32 7),
     ce_npub = ''npub1x''\<rparr>"

theorem cert_run_ok_witness:
  "cq_derivedPem (fst (request_keys (sample_cert_env True) (request_reset cert_start))) = None \<or>
   cq_derivedPem (fst (request_keys (sample_cert_env True) (request_reset cert_start))) =
     map_option tk_privateKeyPem (derived_key (sample_cert_env True))"
proof -
  have "\<not> cq_loading cert_start" by (simp add: cert_start_def)
  from cert_run_ok [OF cr_begin [OF cr_start this]] show ?thesis by blast
qed

definition sample_order :: "string \<Rightarrow> json" where
  "sample_order st = JObj [(''status'', JStr st), (''certificate_pem'', JStr ''CERT''), (''private_key_pem'', JStr ''SERVER'')]"

theorem cert_key_offered_witness:
  "\<exists>page. effectivePrivateKeyPem page = map_option tk_privateKeyPem (derived_key (sample_cert_env False)) \<and>
     cq_orderStatus page = Some (sample_order ''issued'') \<and> security_note page \<and>
     snd (request_keys (sample_cert_env False) (request_reset cert_start)) = None"
proof -
  let ?E = "sample_cert_env False"
  have k: "derived_key ?E = Some \<lparr>tk_privateKey = 0, tk_publicKey = 0, tk_privateKeyPem = arrayBufferToPem [1, 2, 3] ''PRIVATE KEY''\<rparr>"
    by (simp add: derived_key_def sample_cert_env_def generateTlsKeyPair_def deriveTlsKeyBytes_def try_bind_def lib_call_def)
  have "arrayBufferToPem [1, 2, 3] ''PRIVATE KEY'' \<noteq> []" by (simp add: arrayBufferToPem_def Let_def)
  then have n: "tk_privateKeyPem \<lparr>tk_privateKey = (0 :: nat), tk_publicKey = 0, tk_privateKeyPem = arrayBufferToPem [1, 2, 3] ''PRIVATE KEY''\<rparr> \<noteq> []"
    by simp
  have c: "json_string (json_get (sample_order ''issued'') ''status'') = Some ''issued''"
    "json_string (json_get (sample_order ''issued'') ''certificate_pem'') = Some ''CERT''" by code_simp+
  have r: "request_keys ?E (request_reset cert_start) = (fst (request_keys ?E (request_reset cert_start)), None)"
    using request_keys_cases(1) [of ?E cert_start] unfolding k by (simp add: sample_cert_env_def generateCsr_def try_bind_def lib_call_def)
  then have s: "snd (request_keys ?E (request_reset cert_start)) = None" by (metis snd_conv)
  let ?page = "watch_answer ''1'' (Inr (sample_order ''issued'')) (request_answer ?E (Inr JNull) (fst (request_keys ?E (request_reset cert_start))))"
  from cert_key_offered [OF k n r refl c, where orderId = "''1''" and res = JNull] k s
  show ?thesis by (intro exI [of _ ?page]) (simp add: watch_answer_def Let_def)
qed

theorem cert_late_answer_witness:
  "in_progress (watch_answer ''1'' (Inr (sample_order ''pending'')) (cert_handleReset cert_start)) \<and>
   watch_tick (watch_answer ''1'' (Inr (sample_order ''pending'')) (cert_handleReset cert_start)) =
     watch_answer ''1'' (Inr (sample_order ''pending'')) (cert_handleReset cert_start)"
proof -
  have "json_string (json_get (sample_order ''pending'') ''status'') = Some ''pending''" by code_simp
  from cert_late_answer [OF this, of "''1''" cert_start "sample_cert_env True" JNull] show ?thesis by (simp add: Let_def)
qed

end
