(* ===== verification/Spec2Isabelle.thy ===== *)
theory Spec2Isabelle
  imports Sdk_Nostr Sdk_Validation Sdk_Resolver Sdk_ApiClient Sdk_Notary Client_Log_Worker
    Cli_ZoneFile Cli_Dns Cli_Publish Cli_Payment Cli_Commands Cli_Listing Cli_Conformance
    Reg_Session Reg_Api Reg_Publish Reg_Wallet Reg_Pages Explorer_Feed
    Front_Identity Front_Api Front_Publish Front_Wallet Front_Tls
    Front_DnsWire Front_Certificate Front_Merge
    Front_Dashboard Front_DomainPage Front_WalletPage Front_CertRequest
begin

text \<open>
  The TypeScript programs of nodns: names of a DNS zone are owned by Nostr keys, and records are
  published as signed events on relays. The development models five programs under \<open>src/\<close>: the library
  \<open>nodns-resolver\<close> that all share (called the SDK here), the command line tool \<open>nodns-cli\<close>, the two
  browser programs \<open>nodns-registrar\<close> and \<open>nodns-frontend\<close>, the monitor \<open>nodns-explorer\<close>, and the small
  service \<open>nodns-clientlog-worker\<close>.

  How the parts interact. A program builds record tags, has an event with proof of work signed and hands
  it to the relays, with a Cashu token when the zone asks for payment. A service outside this development
  turns events into DNS. Readers fetch events from relays, records from the service's API and answers from
  DNS over HTTPS, and compare these three sources. Which zones exist is found from handler events on the
  relays and the TXT record of the zone.

  The language. \<^theory_text>\<open>Js_String\<close>, \<^theory_text>\<open>Js_Number\<close>, \<^theory_text>\<open>Js_Collections\<close>, \<^theory_text>\<open>Js_Regex\<close> and \<^theory_text>\<open>Js_Json\<close> model what
  the sources use of JavaScript: strings as lists of characters with \<open>split\<close>, \<open>trim\<close>, \<open>slice\<close> and
  letter case; \<open>parseInt\<close> and decimal printing; the stable \<open>sort\<close>, \<open>Map\<close> and \<open>Set\<close> in insertion order;
  regular expressions with a matcher by derivatives; JSON values. Two locales state interfaces:
  \<open>comparator\<close> (what a comparison function must satisfy for \<open>sort\<close> to have one result) and
  \<open>insertion_map\<close> (the laws of \<open>Map\<close>); both are interpreted on the model's own functions, the second one in
  \<open>Js_Collections\<close>, the first wherever a component sorts. An exception is a value of \<open>js_error + 'a\<close>; a
  missing value (\<open>null\<close> or \<open>undefined\<close>) is \<^const>\<open>None\<close>; a dictionary of settings is a record.

  The SDK (\<open>nodns-resolver/src\<close>). \<^theory_text>\<open>Sdk_Types\<close>: \<open>types.ts\<close>, the data and \<open>countLeadingZeroBits\<close>.
  \<^theory_text>\<open>Sdk_Parse\<close>: \<open>parse.ts\<close>, from events to records and their deduplication. \<^theory_text>\<open>Sdk_Nostr\<close>: \<open>nostr.ts\<close>, keys,
  tags and relay queries. \<^theory_text>\<open>Sdk_Validation\<close>: \<open>validation.ts\<close>. \<^theory_text>\<open>Sdk_Dns\<close>: \<open>dns.ts\<close>. \<^theory_text>\<open>Sdk_Verify\<close>:
  \<open>verify.ts\<close>, the three sources and their comparison. \<^theory_text>\<open>Sdk_Zones\<close>: \<open>zones.ts\<close>, zone discovery and
  check. \<^theory_text>\<open>Sdk_Resolver\<close>: \<open>resolver.ts\<close>. \<^theory_text>\<open>Sdk_ApiClient\<close>: \<open>api-client.ts\<close>. \<^theory_text>\<open>Sdk_Notary\<close>:
  \<open>notary.ts\<close>. The lemmas show what each parser and validator accepts, that reading and writing tags and zone
  texts agree where they do, that deduplication and discovery keep the newest, and that a verified answer
  is backed by two sources.

  The tool (\<open>nodns-cli/src\<close>). \<^theory_text>\<open>Cli_ZoneFile\<close>, \<^theory_text>\<open>Cli_Dns\<close>, \<^theory_text>\<open>Cli_Publish\<close> and \<^theory_text>\<open>Cli_Payment\<close> hold
  \<open>lib/\<close>; \<^theory_text>\<open>Cli_Commands\<close> (\<open>add\<close>, \<open>delete\<close>, \<open>refund\<close>, \<open>burn\<close>, \<open>key\<close>), \<^theory_text>\<open>Cli_Listing\<close> (\<open>list\<close>, \<open>resolve\<close>,
  \<open>zone-check\<close>, \<open>zone-export\<close>) and \<^theory_text>\<open>Cli_Conformance\<close> hold \<open>commands/\<close>. A command is a function from its
  surroundings (record \<open>cli_env\<close>: the libraries, the relays, the clock) and its options to a \<open>cmd_run\<close>: the
  lines written, the messages sent to relays and how it ends. The tool's own copy of the zone check is shown
  to refine the SDK's (\<open>cli_checkZone_refines\<close>).

  The registrar (\<open>nodns-registrar/src\<close>). \<^theory_text>\<open>Reg_Identity\<close> and \<^theory_text>\<open>Reg_Session\<close>: the account store in
  \<open>localStorage\<close> and the login context, a state machine \<open>identity_run\<close> over \<open>identity_ctx\<close>. \<^theory_text>\<open>Reg_Api\<close>,
  \<^theory_text>\<open>Reg_Publish\<close>, \<^theory_text>\<open>Reg_Wallet\<close>: the API with its error texts and prices, publishing and the zone context, the
  wallet context. \<^theory_text>\<open>Reg_Pages\<close>: the handlers of the domain, dashboard and landing pages over the state
  their hooks keep.

  The front end (\<open>nodns-frontend/src\<close>). \<^theory_text>\<open>Front_Identity\<close>, \<^theory_text>\<open>Front_Api\<close>, \<^theory_text>\<open>Front_Publish\<close>,
  \<^theory_text>\<open>Front_Wallet\<close> (a state machine \<open>front_wallet_run\<close>: its start in three parts, between which it waits, and the
  wallet library's events as steps) and
  \<^theory_text>\<open>Front_Tls\<close>. \<^theory_text>\<open>Front_Bytes\<close> holds texts of bytes (base 64, PEM, UTF-8), \<^theory_text>\<open>Front_DnsWire\<close> the packed DNS
  messages of \<open>dual-lookup-demo.tsx\<close>, \<^theory_text>\<open>Front_Asn1\<close> the DER reader of \<open>cert-display.tsx\<close>: a loop that may
  never end, so its result is an option and \<^const>\<open>None\<close> means that it never returns; \<^theory_text>\<open>Front_Certificate\<close> shows
  what is displayed of a certificate, described apart from the reader, and which files it never finishes. \<^theory_text>\<open>Front_Merge\<close>: how the pages merge the records of several sources
  into one list (\<open>app/domain\<close>, \<open>app/profile\<close>, \<open>app/dashboard\<close>, \<open>record-browser.tsx\<close>), each a \<open>Map\<close> filled by
  \<open>upsert\<close>, whose result \<^theory_text>\<open>Js_Collections\<close> gives in closed form. \<^theory_text>\<open>Front_Pipeline\<close>: the progress of a publication
  in \<open>dashboard.tsx\<close>, a state machine whose steps are its timers and the answers of its DNS requests; a run in which
  nothing but these happens and none is withheld for ever ends in success or failure (\<open>pipeline_settles\<close>).
  \<^theory_text>\<open>Front_Dashboard\<close>: the handlers around it, in which publishing is two steps, its beginning and its end.
  \<^theory_text>\<open>Front_DomainPage\<close>: the pages on which a name is searched, registered and kept (\<open>app/search\<close>, \<open>app/register\<close>,
  \<open>app/domain\<close>), which pay from the wallet of \<^theory_text>\<open>Front_Wallet\<close> and show the rows of \<^theory_text>\<open>Front_Merge\<close>; the lemmas lead
  from a registration to what the SDK reads of its event and a later search shows. \<^theory_text>\<open>Front_WalletPage\<close>:
  \<open>app/wallet\<close>. \<^theory_text>\<open>Front_CertRequest\<close>: \<open>cert-request.tsx\<close>, the request for a certificate over the keys of
  \<^theory_text>\<open>Front_Tls\<close> and the watching of the order, with the requests that are under way as part of the state.

  The explorer (\<open>nodns-explorer/src\<close>). \<^theory_text>\<open>Explorer_Events\<close>, \<^theory_text>\<open>Explorer_ZoneFile\<close>, \<^theory_text>\<open>Explorer_Monitor\<close>
  (the comparison of relays, API and DNS) and \<^theory_text>\<open>Explorer_Feed\<close> (the bounded event feed and its filters).

  The service: \<^theory_text>\<open>Client_Log_Worker\<close>, the request handler with its rate limiter as the state.

  Parameters. Code that is not under \<open>src/\<close> is an argument of the definitions that use it: the Nostr
  library (\<open>nostr_lib\<close>, \<open>signer\<close>), relays (\<open>relay_query\<close>, a publish function), \<open>fetch\<close>, the Cashu library
  (\<open>cashu_lib\<close>, and \<open>wallet_lib\<close> with a state of its own), cryptography, \<open>localeCompare\<close>, clocks and drawn
  keys. What a theorem needs of them is a named hypothesis (\<open>codec_ok\<close>, \<open>signer_ok\<close>, \<open>adds_nonce\<close>, \<open>keeps_tags\<close>), and
  each such theorem has a witness with concrete functions.

  Bounds. Loops over the network have the bound the code gives: the payment loop ends at its time limit,
  shown to depend on at most a hundred answers (\<open>createPaymentToken_returns\<close>), the polling loop after
  \<open>maxAttempts\<close> (\<open>pollForProof_spec\<close>); both are total functions, so no fuel is chosen by the model.

  Not modelled. Rendering, routing, timers that only debounce or hide messages, and style helpers are left
  out: they compute no value the rest depends on. Numbers in prices and times to live are whole numbers.
  Requests that run at the same time are modelled as a tuple of their outcomes where they do not influence
  each other; a request whose late answer matters is part of the state. Of the pages, those that only
  lay out texts or call operations of a modelled context are left out: the registrar's wallet page and login dialogue, the
  front end's identity manager, profile, live feed and explanatory pages, and the explorer's rows, cards and filter bar.
  The Rust services, the connectors and the scripts are not part of the development.
\<close>

end
